(* ===== verification/Prelude.thy ===== *)
theory Prelude
  imports
    Main
    "HOL-Library.AList"
    "HOL-Library.Multiset"
    "HOL-Library.Product_Lexorder"
    "HOL-Library.List_Lexorder"
    "HOL-Library.Char_ord"
begin

text \<open>
  Shared vocabulary of the development: results and errors of the API services, the JavaScript
  values that cross a service boundary, tables of the database as association lists, the audit
  trail, and the generic lemmas the component theories use.
\<close>

section \<open>Collections of facts\<close>

named_theorems res_iff \<open>when a guarded computation returns\<close>
named_theorems table_simps \<open>lookups and sums over tables\<close>

section \<open>Errors and results\<close>

text \<open>
  An exception of the services is a value: the constructor is the NestJS exception class (the
  HTTP status), the string its \<open>code\<close>, or its message where the source gives no code.
  \<open>DbError\<close> is an error the database raises on a constraint of \<open>prisma/schema.prisma\<close>
  (\<open>P2002\<close> unique violation, \<open>P2003\<close> foreign key, \<open>22003\<close> integer out of range);
  \<open>Crash\<close> is an error of the JavaScript runtime (a \<open>TypeError\<close> or a plain \<open>Error\<close>).
\<close>

datatype api_error =
    BadRequest string
  | Conflict string
  | NotFound string
  | Unprocessable string
  | Unavailable string
  | DbError string
  | Crash string

type_synonym 'a res = "api_error + 'a"

text \<open>
  \<open>throw_if c e k\<close> is \<open>if (c) throw e; k\<close>; \<open>need o e k\<close> is a lookup whose missing row throws;
  \<open>andthen m k\<close> runs \<open>k\<close> on the result of \<open>m\<close> unless \<open>m\<close> threw.
\<close>

definition throw_if :: "bool \<Rightarrow> 'e \<Rightarrow> 'e + 'a \<Rightarrow> 'e + 'a" where
  "throw_if c e k = (if c then Inl e else k)"

definition need :: "'b option \<Rightarrow> 'e \<Rightarrow> ('b \<Rightarrow> 'e + 'a) \<Rightarrow> 'e + 'a" where
  "need o' e k = (case o' of None \<Rightarrow> Inl e | Some x \<Rightarrow> k x)"

definition andthen :: "'e + 'b \<Rightarrow> ('b \<Rightarrow> 'e + 'a) \<Rightarrow> 'e + 'a" where
  "andthen m k = (case m of Inl e \<Rightarrow> Inl e | Inr x \<Rightarrow> k x)"

lemma throw_if_simps [simp]:
  "throw_if True e k = Inl e"
  "throw_if False e k = k"
  by (simp_all add: throw_if_def)

lemma need_simps [simp]:
  "need None e k = Inl e"
  "need (Some x) e k = k x"
  by (simp_all add: need_def)

lemma andthen_simps [simp]:
  "andthen (Inl e) k = Inl e"
  "andthen (Inr x) k = k x"
  by (simp_all add: andthen_def)

lemma throw_if_Inr [res_iff]: "throw_if c e k = Inr r \<longleftrightarrow> \<not> c \<and> k = Inr r"
  by (simp add: throw_if_def)

lemma need_Inr [res_iff]: "need x e k = Inr r \<longleftrightarrow> (\<exists>y. x = Some y \<and> k y = Inr r)"
  by (simp add: need_def split: option.splits)

lemma andthen_Inr [res_iff]: "andthen m k = Inr r \<longleftrightarrow> (\<exists>y. m = Inr y \<and> k y = Inr r)"
  by (simp add: andthen_def split: sum.splits)

lemma throw_if_Inl: "throw_if c e k = Inl x \<longleftrightarrow> (c \<and> x = e) \<or> (\<not> c \<and> k = Inl x)"
  by (auto simp: throw_if_def)

lemma need_Inl: "need y e k = Inl x \<longleftrightarrow> (y = None \<and> x = e) \<or> (\<exists>z. y = Some z \<and> k z = Inl x)"
  by (auto simp: need_def split: option.splits)

lemma andthen_Inl: "andthen m k = Inl x \<longleftrightarrow> m = Inl x \<or> (\<exists>y. m = Inr y \<and> k y = Inl x)"
  by (auto simp: andthen_def split: sum.splits)

lemmas res_Inl = throw_if_Inl need_Inl andthen_Inl

definition returns :: "'e + 'a \<Rightarrow> bool" where
  "returns m = (case m of Inl _ \<Rightarrow> False | Inr _ \<Rightarrow> True)"

lemma returns_iff: "returns m \<longleftrightarrow> (\<exists>r. m = Inr r)"
  by (simp add: returns_def split: sum.splits)

section \<open>Transactions\<close>

text \<open>
  A command body is a function of the database it reads; it returns its answer with the
  database it leaves. \<open>prisma.$transaction\<close> commits that database when the body returns and
  rolls back when it throws, so a run of commands keeps the old database after an error.
\<close>

fun run_txs :: "('c \<Rightarrow> 'db \<Rightarrow> 'e + 'r \<times> 'db) \<Rightarrow> 'c list \<Rightarrow> 'db \<Rightarrow> 'db" where
  "run_txs exec [] db = db"
| "run_txs exec (c # cs) db =
     run_txs exec cs (case exec c db of Inl _ \<Rightarrow> db | Inr (_, db') \<Rightarrow> db')"

lemma run_txs_append: "run_txs exec (xs @ ys) db = run_txs exec ys (run_txs exec xs db)"
  by (induction xs arbitrary: db) auto

text \<open>
  The interface every transactional component offers its callers: committed commands keep the
  component's invariant.
\<close>

locale tx_component =
  fixes exec :: "'c \<Rightarrow> 'db \<Rightarrow> 'e + 'r \<times> 'db"
    and inv :: "'db \<Rightarrow> bool"
  assumes exec_inv: "inv db \<Longrightarrow> exec c db = Inr (r, db') \<Longrightarrow> inv db'"
begin

lemma step_inv: "inv db \<Longrightarrow> inv (case exec c db of Inl _ \<Rightarrow> db | Inr (_, db') \<Rightarrow> db')"
  by (auto split: sum.splits intro: exec_inv)

lemma run_inv: "inv db \<Longrightarrow> inv (run_txs exec cs db)"
  by (induction cs arbitrary: db) (auto simp del: split_paired_All intro: step_inv)

end

text \<open>A component whose rows keep a history: every committed command only advances it.\<close>

locale tx_history = tx_component exec inv
  for exec :: "'c \<Rightarrow> 'db \<Rightarrow> 'e + 'r \<times> 'db" and inv :: "'db \<Rightarrow> bool" +
  fixes adv :: "'db \<Rightarrow> 'db \<Rightarrow> bool"
  assumes adv_refl: "adv db db"
    and adv_trans: "adv x y \<Longrightarrow> adv y z \<Longrightarrow> adv x z"
    and exec_adv: "inv db \<Longrightarrow> exec c db = Inr (r, db') \<Longrightarrow> adv db db'"
begin

lemma step_adv: "inv db \<Longrightarrow> adv db (case exec c db of Inl _ \<Rightarrow> db | Inr (_, db') \<Rightarrow> db')"
  by (auto split: sum.splits intro: exec_adv adv_refl)

lemma run_adv: "inv db \<Longrightarrow> adv db (run_txs exec cs db)"
proof (induction cs arbitrary: db)
  case Nil
  show ?case by (simp add: adv_refl)
next
  case (Cons c cs)
  show ?case
    unfolding run_txs.simps
    by (rule adv_trans[OF step_adv[OF Cons.prems] Cons.IH[OF step_inv[OF Cons.prems]]])
qed

end

section \<open>JavaScript values\<close>

text \<open>
  A TypeScript \<open>number\<close> that reaches a service may be no integer (a fraction, NaN, an
  infinity); the services test it with \<open>Number.isInteger\<close> or \<open>Number.isSafeInteger\<close>.
\<close>

datatype js_number = JsInt int | JsNonInt

definition is_integer :: "js_number \<Rightarrow> bool" where
  "is_integer n = (case n of JsInt _ \<Rightarrow> True | JsNonInt \<Rightarrow> False)"

definition is_safe_integer :: "js_number \<Rightarrow> bool" where
  "is_safe_integer n =
     (case n of JsInt i \<Rightarrow> \<bar>i\<bar> \<le> 9007199254740991 | JsNonInt \<Rightarrow> False)"

definition the_int :: "js_number \<Rightarrow> int" where
  "the_int n = (case n of JsInt i \<Rightarrow> i | JsNonInt \<Rightarrow> 0)"

lemma js_number_simps [simp]:
  "is_integer (JsInt i)" "\<not> is_integer JsNonInt" "the_int (JsInt i) = i"
  "is_safe_integer (JsInt i) \<longleftrightarrow> \<bar>i\<bar> \<le> 9007199254740991" "\<not> is_safe_integer JsNonInt"
  by (simp_all add: is_integer_def the_int_def is_safe_integer_def)

lemma is_integer_iff: "is_integer n \<longleftrightarrow> (\<exists>i. n = JsInt i)"
  by (cases n) auto

text \<open>\<open>String.prototype.trim\<close> on the characters up to U+00FF, and truthiness of strings.\<close>

definition js_space :: "char \<Rightarrow> bool" where
  "js_space c = (let n = of_char c :: nat in n = 32 \<or> (9 \<le> n \<and> n \<le> 13) \<or> n = 160)"

lemma js_space_code [code]:
  "js_space c = (let n = (of_char c :: int) in n = 32 \<or> (9 \<le> n \<and> n \<le> 13) \<or> n = 160)"
  unfolding js_space_def Let_def of_nat_of_char[symmetric, where 'a = int] by auto

definition trim :: "string \<Rightarrow> string" where
  "trim s = rev (dropWhile js_space (rev (dropWhile js_space s)))"

definition blank :: "string option \<Rightarrow> bool" where
  "blank s = (case s of None \<Rightarrow> True | Some t \<Rightarrow> trim t = [])"

definition truthy :: "string option \<Rightarrow> bool" where
  "truthy s = (case s of None \<Rightarrow> False | Some t \<Rightarrow> t \<noteq> [])"

definition is_alnum :: "char \<Rightarrow> bool" where
  "is_alnum c = (let n = of_char c :: nat in
     (48 \<le> n \<and> n \<le> 57) \<or> (65 \<le> n \<and> n \<le> 90) \<or> (97 \<le> n \<and> n \<le> 122))"

lemma is_alnum_code [code]:
  "is_alnum c = (let n = (of_char c :: int) in (48 \<le> n \<and> n \<le> 57) \<or> (65 \<le> n \<and> n \<le> 90) \<or> (97 \<le> n \<and> n \<le> 122))"
  unfolding is_alnum_def Let_def of_nat_of_char[symmetric, where 'a = int] by auto

text \<open>The correlation ids of the expiry worker,
  \<open>[A-Za-z0-9]\<close> followed by at most 127 of \<open>[A-Za-z0-9._:-]\<close>
  (\<open>common/order-expiry-system-context.ts\<close>).\<close>

definition correlation_id :: "string \<Rightarrow> bool" where
  "correlation_id s = (case s of [] \<Rightarrow> False
     | c # cs \<Rightarrow> is_alnum c \<and> length cs \<le> 127 \<and>
         list_all (\<lambda>d. is_alnum d \<or> d \<in> set ''._:-'') cs)"

text \<open>Range of a PostgreSQL \<open>integer\<close> column (Prisma \<open>Int\<close>).\<close>

definition int4 :: "int \<Rightarrow> bool" where
  "int4 i \<longleftrightarrow> - 2147483648 \<le> i \<and> i \<le> 2147483647"

section \<open>The audit trail\<close>

text \<open>
  Row identifiers are opaque keys the database mints (\<open>cuid()\<close>); they are natural numbers here,
  taken from a counter of the database. \<open>jval\<close> is the part of JSON the services write.
\<close>

type_synonym uid = nat

datatype jval = JNull | JBool bool | JNum int | JStr string | JId uid

record audit_event =
  ae_action :: string
  ae_entity :: string
  ae_entity_id :: uid
  ae_before :: "(string \<times> jval) list"
  ae_after :: "(string \<times> jval) list"
  ae_metadata :: "(string \<times> jval) list"
  ae_actor :: "string option"
  ae_request :: "string option"

section \<open>Tables\<close>

text \<open>
  A table is an association list from a unique key to a row, in insertion order. \<open>find_or\<close> reads
  a row with a default, \<open>asum\<close> adds a measure of the rows.
\<close>

definition find_or :: "'v \<Rightarrow> ('k \<times> 'v) list \<Rightarrow> 'k \<Rightarrow> 'v" where
  "find_or d t k = (case map_of t k of None \<Rightarrow> d | Some v \<Rightarrow> v)"

lemma find_or_update [table_simps]:
  "find_or d (AList.update k v t) k' = (if k' = k then v else find_or d t k')"
  by (simp add: find_or_def update_conv)

lemma find_or_Some: "map_of t k = Some v \<Longrightarrow> find_or d t k = v"
  by (simp add: find_or_def)

lemma find_or_None: "map_of t k = None \<Longrightarrow> find_or d t k = d"
  by (simp add: find_or_def)

primrec asum :: "('k \<Rightarrow> 'v \<Rightarrow> int) \<Rightarrow> ('k \<times> 'v) list \<Rightarrow> int" where
  "asum f [] = 0"
| "asum f (x # xs) = f (fst x) (snd x) + asum f xs"

lemma asum_append [table_simps]: "asum f (xs @ ys) = asum f xs + asum f ys"
  by (induction xs) auto

lemma asum_update [table_simps]:
  "asum f (AList.update k v t) =
     asum f t + f k v - (case map_of t k of None \<Rightarrow> 0 | Some w \<Rightarrow> f k w)"
  by (induction t) auto

lemma asum_nonneg: "(\<And>k v. (k, v) \<in> set t \<Longrightarrow> 0 \<le> f k v) \<Longrightarrow> 0 \<le> asum f t"
  by (induction t) (auto simp: add_nonneg_nonneg)

lemma asum_member_le:
  "(\<And>k v. (k, v) \<in> set t \<Longrightarrow> 0 \<le> f k v) \<Longrightarrow> (k, v) \<in> set t \<Longrightarrow> f k v \<le> asum f t"
proof (induction t)
  case (Cons x xs)
  have "0 \<le> asum f xs" by (rule asum_nonneg) (simp add: Cons.prems(1))
  moreover have "0 \<le> f (fst x) (snd x)" using Cons.prems(1)[of "fst x" "snd x"] by simp
  moreover have "(k, v) \<noteq> x \<Longrightarrow> f k v \<le> asum f xs" using Cons by auto
  ultimately show ?case by (cases "(k, v) = x") auto
qed simp

lemma asum_cong: "(\<And>k v. (k, v) \<in> set t \<Longrightarrow> f k v = g k v) \<Longrightarrow> asum f t = asum g t"
  by (induction t) auto

lemma asum_map [table_simps]:
  "asum f (map (\<lambda>(k, v). (k, g k v)) t) = asum (\<lambda>k v. f k (g k v)) t"
  by (induction t) auto

lemma asum_add: "asum (\<lambda>k v. f k v + g k v) t = asum f t + asum g t"
  by (induction t) auto

lemma asum_diff: "asum (\<lambda>k v. f k v - g k v) t = asum f t - asum g t"
  by (induction t) auto

lemma asum_zero [table_simps]: "asum (\<lambda>_ _. 0) t = 0"
  by (induction t) auto

lemma asum_filter: "asum f (filter P t) = asum (\<lambda>k v. if P (k, v) then f k v else 0) t"
  by (induction t) auto

lemma map_of_map_values [table_simps]:
  "map_of (map (\<lambda>(k, v). (k, g k v)) t) k = map_option (g k) (map_of t k)"
  by (induction t) auto

lemma map_fst_map_values [table_simps]: "map fst (map (\<lambda>(k, v). (k, g k v)) t) = map fst t"
  by (induction t) auto

lemma map_fst_update_same:
  "map_of t i = Some v \<Longrightarrow> map fst (AList.update i w t) = map fst t"
  by (induction t) auto

lemma fst_pairing [simp]: "fst \<circ> (\<lambda>(i, r). (i, f i r)) = fst"
  by (simp add: fun_eq_iff)

lemma map_of_snoc [table_simps]:
  "map_of (t @ [(k, v)]) k' =
     (case map_of t k' of None \<Rightarrow> (if k' = k then Some v else None) | Some w \<Rightarrow> Some w)"
  by (auto simp: map_add_def split: option.splits)

lemma set_update_subset: "set (AList.update k v t) \<subseteq> insert (k, v) (set t)"
  by (induction t) auto

lemma fst_set_update: "fst ` set (AList.update k v t) = insert k (fst ` set t)"
  by (induction t) auto

section \<open>Sums over sorted lists\<close>

lemma sum_list_sort_key [simp]: "(\<Sum>x\<leftarrow>sort_key f xs. g x) = (\<Sum>x\<leftarrow>xs. (g x :: int))"
proof -
  have "mset (map g (sort_key f xs)) = mset (map g xs)" by simp
  then show ?thesis by (metis sum_mset_sum_list)
qed

lemma asum_sum_list: "asum f t = (\<Sum>x\<leftarrow>t. f (fst x) (snd x))"
  by (induction t) auto

lemma asum_sort_key [table_simps]: "asum f (sort_key g t) = asum f t"
  by (simp add: asum_sum_list)

text \<open>Writing the cells of a distinct list of indices.\<close>

lemma fold_cells:
  "distinct is \<Longrightarrow> \<forall>i \<in> set is. i < length out \<Longrightarrow>
     length (fold (\<lambda>i out. out[i := f i]) is out) = length out
     \<and> (\<forall>j < length out. fold (\<lambda>i out. out[i := f i]) is out ! j = (if j \<in> set is then f j else out ! j))"
  by (induction "is" arbitrary: out) (auto simp: nth_list_update)

section \<open>Paging\<close>

definition clamp_int :: "js_number option \<Rightarrow> int \<Rightarrow> int \<Rightarrow> int \<Rightarrow> int" where
  "clamp_int value lo hi fallback =
     (case value of Some (JsInt v) \<Rightarrow> min hi (max lo v) | _ \<Rightarrow> fallback)"

lemma clamp_int_bounds:
  "lo \<le> hi \<Longrightarrow> lo \<le> fb \<Longrightarrow> fb \<le> hi \<Longrightarrow> lo \<le> clamp_int v lo hi fb \<and> clamp_int v lo hi fb \<le> hi"
  by (auto simp: clamp_int_def split: option.splits js_number.splits)

end
