(* ===== verification/Inventory.thy ===== *)
theory Inventory
  imports Prelude
begin

text \<open>
  The stock ledger of \<open>modules/inventory/inventory.service.ts\<close>: balances per warehouse, location
  and SKU, the immutable movements, and the reservations with their life cycle. Every command
  body is the function the service runs inside one serializable transaction.
\<close>

section \<open>State\<close>

datatype movement_type =
    RECEIPT | SALE | RETURN_IN | RETURN_OUT | TRANSFER_IN | TRANSFER_OUT
  | ADJUSTMENT_IN | ADJUSTMENT_OUT | STOCKTAKE | RESERVATION | RELEASE

fun movement_type_name :: "movement_type \<Rightarrow> string" where
  "movement_type_name RECEIPT = ''RECEIPT''"
| "movement_type_name SALE = ''SALE''"
| "movement_type_name RETURN_IN = ''RETURN_IN''"
| "movement_type_name RETURN_OUT = ''RETURN_OUT''"
| "movement_type_name TRANSFER_IN = ''TRANSFER_IN''"
| "movement_type_name TRANSFER_OUT = ''TRANSFER_OUT''"
| "movement_type_name ADJUSTMENT_IN = ''ADJUSTMENT_IN''"
| "movement_type_name ADJUSTMENT_OUT = ''ADJUSTMENT_OUT''"
| "movement_type_name STOCKTAKE = ''STOCKTAKE''"
| "movement_type_name RESERVATION = ''RESERVATION''"
| "movement_type_name RELEASE = ''RELEASE''"

datatype reservation_status = RS_ACTIVE | RS_CONSUMED | RS_RELEASED | RS_EXPIRED

datatype transfer_status =
    TS_DRAFT | TS_REQUESTED | TS_APPROVED | TS_IN_TRANSIT | TS_RECEIVED | TS_CANCELLED

datatype transfer_action =
    TA_request | TA_approve | TA_dispatch | TA_receive | TA_cancel

datatype publication_status = PS_ACTIVE | PS_OTHER

text \<open>The unique key (warehouse, location, variant) of a balance.\<close>

datatype stock_key = StockKey (sk_warehouse: uid) (sk_location: uid) (sk_variant: uid)

text \<open>Keys are ordered lexicographically: the order in which advisory locks are taken.\<close>

instantiation stock_key :: linorder
begin

definition less_eq_stock_key :: "stock_key \<Rightarrow> stock_key \<Rightarrow> bool" where
  "less_eq_stock_key a b \<longleftrightarrow>
     (sk_warehouse a, sk_location a, sk_variant a) \<le> (sk_warehouse b, sk_location b, sk_variant b)"

definition less_stock_key :: "stock_key \<Rightarrow> stock_key \<Rightarrow> bool" where
  "less_stock_key a b \<longleftrightarrow>
     (sk_warehouse a, sk_location a, sk_variant a) < (sk_warehouse b, sk_location b, sk_variant b)"

instance
  by intro_classes
    (auto simp: less_eq_stock_key_def less_stock_key_def intro: stock_key.expand)

end

record balance =
  onHand :: int
  reserved :: int
  available :: int
  bal_version :: int

record movement =
  mv_key :: stock_key
  mv_type :: movement_type
  mv_quantity :: int
  mv_before :: int
  mv_after :: int
  mv_reason :: "string option"
  mv_ref_type :: "string option"
  mv_ref_id :: "jval option"
  mv_idem :: "string option"

record reservation =
  rs_key :: stock_key
  rs_order :: "uid option"
  rs_quantity :: int
  rs_status :: reservation_status
  rs_expires :: int
  rs_idem :: "string option"

record warehouse =
  wh_code :: string
  wh_name :: string
  wh_city :: "string option"
  wh_address :: "string option"
  wh_active :: bool

record location =
  loc_warehouse :: uid
  loc_code :: string
  loc_name :: "string option"
  loc_zone :: "string option"
  loc_aisle :: "string option"
  loc_rack :: "string option"
  loc_shelf :: "string option"
  loc_bin :: "string option"
  loc_active :: bool

record variant =
  var_active :: bool
  var_status :: publication_status
  var_product_status :: publication_status

record transfer_item =
  ti_variant :: uid
  ti_quantity :: int
  ti_source :: "uid option"
  ti_target :: "uid option"

record transfer =
  tr_code :: string
  tr_source :: uid
  tr_target :: uid
  tr_status :: transfer_status
  tr_version :: int
  tr_idem :: "string option"
  tr_items :: "transfer_item list"

record transfer_transition =
  tt_transfer :: uid
  tt_action :: transfer_action
  tt_idem :: string
  tt_expected :: "int option"

record inv_db =
  balances :: "(stock_key \<times> balance) list"
  movements :: "(uid \<times> movement) list"
  reservations :: "(uid \<times> reservation) list"
  warehouses :: "(uid \<times> warehouse) list"
  locations :: "(uid \<times> location) list"
  variants :: "(uid \<times> variant) list"
  transfers :: "(uid \<times> transfer) list"
  transitions :: "transfer_transition list"
  door_reservations :: "uid list"
  audits :: "audit_event list"
  next_id :: uid

definition empty_db :: inv_db where
  "empty_db = \<lparr>balances = [], movements = [], reservations = [], warehouses = [],
     locations = [], variants = [], transfers = [], transitions = [], door_reservations = [],
     audits = [], next_id = 0\<rparr>"

abbreviation zero_balance :: balance where
  "zero_balance \<equiv> \<lparr>onHand = 0, reserved = 0, available = 0, bal_version = 0\<rparr>"

text \<open>\<open>current?.onHand ?? 0\<close> and its siblings: a missing balance reads as zero.\<close>

definition bal :: "inv_db \<Rightarrow> stock_key \<Rightarrow> balance" where
  "bal db k = find_or zero_balance (balances db) k"

section \<open>Writes\<close>

text \<open>\<open>inventoryBalance.upsert\<close>: the columns are 32-bit integers, so PostgreSQL rejects a row
  outside their range.\<close>

definition put_balance :: "stock_key \<Rightarrow> balance \<Rightarrow> inv_db \<Rightarrow> inv_db res" where
  "put_balance k b db =
     throw_if (\<not> (int4 (onHand b) \<and> int4 (reserved b) \<and> int4 (available b))) (DbError ''22003'')
       (Inr (db\<lparr>balances := AList.update k b (balances db)\<rparr>))"

definition movement_by_idem :: "inv_db \<Rightarrow> string \<Rightarrow> (uid \<times> movement) option" where
  "movement_by_idem db key = List.find (\<lambda>(_, m). mv_idem m = Some key) (movements db)"

definition reservation_by_idem :: "inv_db \<Rightarrow> string \<Rightarrow> (uid \<times> reservation) option" where
  "reservation_by_idem db key = List.find (\<lambda>(_, r). rs_idem r = Some key) (reservations db)"

text \<open>\<open>inventoryMovement.create\<close> and \<open>stockReservation.create\<close>: the idempotency key is unique.\<close>

definition add_movement :: "movement \<Rightarrow> inv_db \<Rightarrow> (uid \<times> inv_db) res" where
  "add_movement m db =
     throw_if (case mv_idem m of None \<Rightarrow> False | Some key \<Rightarrow> movement_by_idem db key \<noteq> None)
       (DbError ''P2002'')
       (Inr (next_id db, db\<lparr>movements := movements db @ [(next_id db, m)], next_id := Suc (next_id db)\<rparr>))"

definition add_reservation :: "reservation \<Rightarrow> inv_db \<Rightarrow> (uid \<times> inv_db) res" where
  "add_reservation r db =
     throw_if (case rs_idem r of None \<Rightarrow> False | Some key \<Rightarrow> reservation_by_idem db key \<noteq> None)
       (DbError ''P2002'')
       (Inr (next_id db, db\<lparr>reservations := reservations db @ [(next_id db, r)], next_id := Suc (next_id db)\<rparr>))"

definition set_reservation :: "uid \<Rightarrow> reservation \<Rightarrow> inv_db \<Rightarrow> inv_db" where
  "set_reservation i r db = db\<lparr>reservations := AList.update i r (reservations db)\<rparr>"

definition record_audit :: "audit_event \<Rightarrow> inv_db \<Rightarrow> inv_db" where
  "record_audit e db = db\<lparr>audits := audits db @ [e]\<rparr>"

section \<open>Guards\<close>

record actor_context =
  ctx_actor :: "string option"
  ctx_request :: "string option"

definition assert_tracked :: "actor_context \<Rightarrow> unit res" where
  "assert_tracked ctx =
     throw_if (blank (ctx_actor ctx) \<or> blank (ctx_request ctx))
       (BadRequest ''actorId and requestId are required for inventory mutations.'') (Inr ())"

definition assert_version :: "int option \<Rightarrow> int \<Rightarrow> unit res" where
  "assert_version expected actual =
     throw_if (expected \<noteq> None \<and> expected \<noteq> Some actual) (Conflict ''INVENTORY_VERSION_CONFLICT'')
       (Inr ())"

definition assert_stock_identity :: "inv_db \<Rightarrow> stock_key \<Rightarrow> unit res" where
  "assert_stock_identity db k =
     throw_if (map_of (warehouses db) (sk_warehouse k) = None) (NotFound ''WAREHOUSE_NOT_FOUND'')
       (throw_if (case map_of (locations db) (sk_location k) of
                    None \<Rightarrow> True
                  | Some row \<Rightarrow> \<not> (loc_warehouse row = sk_warehouse k \<and> loc_active row))
         (NotFound ''LOCATION_NOT_FOUND'')
         (throw_if (map_of (variants db) (sk_variant k) = None) (NotFound ''SKU_NOT_FOUND'') (Inr ())))"

section \<open>Receipts and manual adjustments\<close>

record stock_command = actor_context +
  sc_key :: stock_key
  sc_delta :: js_number
  sc_type :: movement_type
  sc_reason :: "string option"
  sc_ref_type :: "string option"
  sc_ref_id :: "jval option"
  sc_idem :: "string option"
  sc_expected :: "int option"

definition inventory_change_types :: "movement_type list" where
  "inventory_change_types = [RECEIPT, ADJUSTMENT_IN, ADJUSTMENT_OUT]"

definition adjustment_types :: "movement_type list" where
  "adjustment_types = [ADJUSTMENT_IN, ADJUSTMENT_OUT]"

definition validate_stock_command :: "stock_command \<Rightarrow> unit res" where
  "validate_stock_command c =
     andthen (assert_tracked (actor_context.truncate c)) (\<lambda>_.
     throw_if (\<not> is_integer (sc_delta c) \<or> the_int (sc_delta c) = 0)
       (BadRequest ''Inventory delta must be a non-zero integer.'')
     (throw_if (sc_type c \<noteq> RETURN_IN \<and> sc_type c \<notin> set inventory_change_types)
       (BadRequest ''INVALID_REQUEST'')
     (throw_if (sc_type c = RETURN_IN \<and> sc_ref_type c \<noteq> Some ''credit-return'')
       (BadRequest ''Returned stock requires a credit-return reference.'')
     (throw_if ((sc_type c = ADJUSTMENT_OUT \<and> the_int (sc_delta c) > 0)
                \<or> (sc_type c \<noteq> ADJUSTMENT_OUT \<and> the_int (sc_delta c) < 0))
       (BadRequest ''INVALID_REQUEST'')
     (throw_if (sc_type c \<in> set adjustment_types \<and> blank (sc_reason c))
       (BadRequest ''Manual corrections require a reason.'')
     (Inr ()))))))"

definition movement_matches :: "movement \<Rightarrow> stock_command \<Rightarrow> bool" where
  "movement_matches m c \<longleftrightarrow>
     mv_key m = sc_key c \<and> mv_type m = sc_type c \<and> mv_quantity m = the_int (sc_delta c)
     \<and> mv_reason m = sc_reason c \<and> mv_ref_type m = sc_ref_type c \<and> mv_ref_id m = sc_ref_id c"

text \<open>\<open>changeOnHandIn\<close>, the body shared with the callers that already hold a transaction: the new
  balance, the movement and the audit row it writes, then the guards in their order.\<close>

definition adjusted_balance :: "stock_command \<Rightarrow> balance \<Rightarrow> balance" where
  "adjusted_balance c b =
     b\<lparr>onHand := onHand b + the_int (sc_delta c),
       available := onHand b + the_int (sc_delta c) - reserved b,
       bal_version := bal_version b + 1\<rparr>"

definition adjustment_movement :: "stock_command \<Rightarrow> balance \<Rightarrow> movement" where
  "adjustment_movement c b =
     \<lparr>mv_key = sc_key c, mv_type = sc_type c, mv_quantity = the_int (sc_delta c),
      mv_before = onHand b, mv_after = onHand b + the_int (sc_delta c), mv_reason = sc_reason c,
      mv_ref_type = sc_ref_type c, mv_ref_id = sc_ref_id c, mv_idem = sc_idem c\<rparr>"

definition adjustment_event :: "stock_command \<Rightarrow> balance \<Rightarrow> uid \<Rightarrow> audit_event" where
  "adjustment_event c b i =
     \<lparr>ae_action = ''inventory.balance.changed'', ae_entity = ''inventory-movement'',
      ae_entity_id = i,
      ae_before = [(''onHand'', JNum (onHand b)), (''reserved'', JNum (reserved b))],
      ae_after = [(''onHand'', JNum (onHand (adjusted_balance c b))),
                  (''available'', JNum (available (adjusted_balance c b)))],
      ae_metadata = [(''type'', JStr (movement_type_name (sc_type c))),
                     (''warehouseId'', JId (sk_warehouse (sc_key c))),
                     (''locationId'', JId (sk_location (sc_key c)))],
      ae_actor = ctx_actor c, ae_request = ctx_request c\<rparr>"

definition movement_replay :: "stock_command \<Rightarrow> inv_db \<Rightarrow> (uid \<times> movement) option" where
  "movement_replay c db =
     (if truthy (sc_idem c) then movement_by_idem db (the (sc_idem c)) else None)"

definition change_on_hand_in :: "stock_command \<Rightarrow> inv_db \<Rightarrow> ((uid \<times> movement) \<times> inv_db) res" where
  "change_on_hand_in c db =
     andthen (validate_stock_command c) (\<lambda>_.
     case movement_replay c db of
       Some im \<Rightarrow>
         throw_if (\<not> movement_matches (snd im) c) (Conflict ''Idempotency conflict'') (Inr (im, db))
     | None \<Rightarrow>
         andthen (assert_stock_identity db (sc_key c)) (\<lambda>_.
         let current = bal db (sc_key c) in
         andthen (assert_version (sc_expected c) (bal_version current)) (\<lambda>_.
         throw_if (onHand (adjusted_balance c current) < 0 \<or> available (adjusted_balance c current) < 0)
           (Conflict ''INSUFFICIENT_STOCK'')
         (andthen (put_balance (sc_key c) (adjusted_balance c current) db) (\<lambda>db1.
          andthen (add_movement (adjustment_movement c current) db1) (\<lambda>(i, db2).
          Inr ((i, adjustment_movement c current),
               record_audit (adjustment_event c current i) db2)))))))"

definition change_on_hand :: "stock_command \<Rightarrow> inv_db \<Rightarrow> ((uid \<times> movement) \<times> inv_db) res" where
  "change_on_hand c db =
     andthen (assert_tracked (actor_context.truncate c)) (\<lambda>_.
     throw_if (sc_type c \<notin> set inventory_change_types) (BadRequest ''INVALID_REQUEST'')
     (andthen (validate_stock_command c) (\<lambda>_. change_on_hand_in c db)))"

section \<open>Reservations\<close>

record reserve_command = actor_context +
  rc_key :: stock_key
  rc_order :: "uid option"
  rc_quantity :: js_number
  rc_expires :: int
  rc_expected :: "int option"
  rc_idem :: "string option"

definition reservation_matches :: "reservation \<Rightarrow> reserve_command \<Rightarrow> bool" where
  "reservation_matches r c \<longleftrightarrow>
     rs_key r = rc_key c \<and> rs_order r = rc_order c \<and> rs_quantity r = the_int (rc_quantity c)
     \<and> rs_expires r = rc_expires c"

definition bad_reserve_quantity :: "js_number \<Rightarrow> bool" where
  "bad_reserve_quantity q \<longleftrightarrow> \<not> is_safe_integer q \<or> the_int q \<le> 0 \<or> the_int q > 2147483647"

definition promised_balance :: "reserve_command \<Rightarrow> balance \<Rightarrow> balance" where
  "promised_balance c b =
     b\<lparr>reserved := reserved b + the_int (rc_quantity c),
       available := available b - the_int (rc_quantity c), bal_version := bal_version b + 1\<rparr>"

definition new_reservation :: "reserve_command \<Rightarrow> reservation" where
  "new_reservation c =
     \<lparr>rs_key = rc_key c, rs_order = rc_order c, rs_quantity = the_int (rc_quantity c),
      rs_status = RS_ACTIVE, rs_expires = rc_expires c, rs_idem = rc_idem c\<rparr>"

definition reservation_event :: "reserve_command \<Rightarrow> balance \<Rightarrow> uid \<Rightarrow> audit_event" where
  "reservation_event c b i =
     \<lparr>ae_action = ''inventory.reservation.created'', ae_entity = ''stock-reservation'',
      ae_entity_id = i,
      ae_before = [(''reserved'', JNum (reserved b)), (''available'', JNum (available b))],
      ae_after = [(''reserved'', JNum (reserved (promised_balance c b))),
                  (''available'', JNum (available (promised_balance c b)))],
      ae_metadata = [(''warehouseId'', JId (sk_warehouse (rc_key c))),
                     (''locationId'', JId (sk_location (rc_key c)))],
      ae_actor = ctx_actor c, ae_request = ctx_request c\<rparr>"

definition reserve_replay :: "reserve_command \<Rightarrow> inv_db \<Rightarrow> (uid \<times> reservation) option" where
  "reserve_replay c db =
     (if truthy (rc_idem c) then reservation_by_idem db (the (rc_idem c)) else None)"

definition reserve_in :: "reserve_command \<Rightarrow> inv_db \<Rightarrow> ((uid \<times> reservation) \<times> inv_db) res" where
  "reserve_in c db =
     andthen (assert_tracked (actor_context.truncate c)) (\<lambda>_.
     throw_if (bad_reserve_quantity (rc_quantity c))
       (BadRequest ''A positive integer quantity is required.'')
     (case reserve_replay c db of
       Some ir \<Rightarrow>
         throw_if (\<not> reservation_matches (snd ir) c) (Conflict ''Idempotency conflict'') (Inr (ir, db))
     | None \<Rightarrow>
         andthen (assert_stock_identity db (rc_key c)) (\<lambda>_.
         let current = bal db (rc_key c) in
         andthen (assert_version (rc_expected c) (bal_version current)) (\<lambda>_.
         throw_if (map_of (balances db) (rc_key c) = None
                   \<or> available current < the_int (rc_quantity c))
           (Conflict ''INSUFFICIENT_STOCK'')
         (andthen (put_balance (rc_key c) (promised_balance c current) db) (\<lambda>db1.
          andthen (add_reservation (new_reservation c) db1) (\<lambda>(i, db2).
          Inr ((i, new_reservation c),
               record_audit (reservation_event c current i) db2))))))))"

definition reserve :: "reserve_command \<Rightarrow> inv_db \<Rightarrow> ((uid \<times> reservation) \<times> inv_db) res" where
  "reserve c db =
     andthen (assert_tracked (actor_context.truncate c)) (\<lambda>_.
     throw_if (bad_reserve_quantity (rc_quantity c))
       (BadRequest ''Reservation quantity must be a positive integer.'')
     (reserve_in c db))"

subsection \<open>Leaving the active state\<close>

text \<open>
  The two ways stock leaves a reservation. \<open>release_effect\<close> gives it back
  (\<open>rebalanceReservationRelease\<close> and the callback of \<open>releaseReservation\<close>); \<open>consume_effect\<close> sells it (\<open>consumeSingleReservation\<close>, and the callback
  of \<open>consumeReservation\<close>).
\<close>

definition released_balance :: "reservation \<Rightarrow> balance \<Rightarrow> balance" where
  "released_balance r b =
     b\<lparr>reserved := reserved b - rs_quantity r, available := available b + rs_quantity r,
       bal_version := bal_version b + 1\<rparr>"

definition release_event ::
  "uid \<Rightarrow> reservation \<Rightarrow> balance \<Rightarrow> (string \<times> jval) list \<Rightarrow> actor_context \<Rightarrow> audit_event" where
  "release_event i r b meta ctx =
     \<lparr>ae_action = ''inventory.reservation.released'', ae_entity = ''stock-reservation'',
      ae_entity_id = i,
      ae_before = [(''reserved'', JNum (reserved b)), (''available'', JNum (available b))],
      ae_after = [(''reserved'', JNum (reserved (released_balance r b))),
                  (''available'', JNum (available (released_balance r b)))],
      ae_metadata = meta, ae_actor = ctx_actor ctx, ae_request = ctx_request ctx\<rparr>"

definition release_effect ::
  "uid \<Rightarrow> reservation \<Rightarrow> balance \<Rightarrow> (string \<times> jval) list \<Rightarrow> actor_context \<Rightarrow> inv_db
     \<Rightarrow> inv_db res" where
  "release_effect i r b meta ctx db =
     andthen (put_balance (rs_key r) (released_balance r b) db) (\<lambda>db1.
     Inr (record_audit (release_event i r b meta ctx)
       (set_reservation i (r\<lparr>rs_status := RS_RELEASED\<rparr>) db1)))"

definition opt_id :: "uid option \<Rightarrow> jval" where
  "opt_id x = (case x of None \<Rightarrow> JNull | Some i \<Rightarrow> JId i)"

definition sold_balance :: "reservation \<Rightarrow> balance \<Rightarrow> balance" where
  "sold_balance r b =
     (let after = onHand b - rs_quantity r; after_reserved = reserved b - rs_quantity r
      in b\<lparr>onHand := after, reserved := after_reserved, available := after - after_reserved,
           bal_version := bal_version b + 1\<rparr>)"

definition sale_movement :: "uid \<Rightarrow> reservation \<Rightarrow> balance \<Rightarrow> movement" where
  "sale_movement i r b =
     \<lparr>mv_key = rs_key r, mv_type = SALE, mv_quantity = - rs_quantity r,
      mv_before = onHand b, mv_after = onHand b - rs_quantity r,
      mv_reason = Some ''Reservation consumed'',
      mv_ref_type = Some (if rs_order r = None then ''stock-reservation'' else ''order''),
      mv_ref_id = Some (case rs_order r of None \<Rightarrow> JId i | Some oid \<Rightarrow> JId oid),
      mv_idem = None\<rparr>"

definition consume_event :: "uid \<Rightarrow> reservation \<Rightarrow> balance \<Rightarrow> actor_context \<Rightarrow> audit_event" where
  "consume_event i r b ctx =
     \<lparr>ae_action = ''inventory.reservation.consumed'', ae_entity = ''stock-reservation'',
      ae_entity_id = i,
      ae_before = [(''onHand'', JNum (onHand b)), (''reserved'', JNum (reserved b))],
      ae_after = [(''onHand'', JNum (onHand (sold_balance r b))),
                  (''reserved'', JNum (reserved (sold_balance r b))),
                  (''available'', JNum (available (sold_balance r b)))],
      ae_metadata = [(''orderId'', opt_id (rs_order r))],
      ae_actor = ctx_actor ctx, ae_request = ctx_request ctx\<rparr>"

definition consume_effect ::
  "uid \<Rightarrow> reservation \<Rightarrow> balance \<Rightarrow> actor_context \<Rightarrow> inv_db \<Rightarrow> inv_db res" where
  "consume_effect i r b ctx db =
     andthen (put_balance (rs_key r) (sold_balance r b) db) (\<lambda>db1.
     andthen (add_movement (sale_movement i r b) db1) (\<lambda>(_, db2).
     Inr (record_audit (consume_event i r b ctx)
       (set_reservation i (r\<lparr>rs_status := RS_CONSUMED\<rparr>) db2))))"

definition consistent_balance :: "inv_db \<Rightarrow> reservation \<Rightarrow> balance res" where
  "consistent_balance db r =
     need (map_of (balances db) (rs_key r)) (Conflict ''RESERVATION_STATE_CONFLICT'') (\<lambda>b.
     throw_if (reserved b < rs_quantity r) (Conflict ''RESERVATION_STATE_CONFLICT'') (Inr b))"

text \<open>One reservation of an order (or of a production plan): the row is read again under the balance
  lock, and nothing happens when it has already left the active state.\<close>

definition release_single ::
  "uid \<Rightarrow> (string \<times> jval) list \<Rightarrow> actor_context \<Rightarrow> inv_db \<Rightarrow> (nat \<times> inv_db) res" where
  "release_single i meta ctx db =
     (case map_of (reservations db) i of
        None \<Rightarrow> Inr (0, db)
      | Some r \<Rightarrow>
          if rs_status r \<noteq> RS_ACTIVE then Inr (0, db)
          else andthen (consistent_balance db r) (\<lambda>b.
               andthen (release_effect i r b meta ctx db) (\<lambda>db'. Inr (1, db'))))"

definition consume_single :: "uid \<Rightarrow> actor_context \<Rightarrow> inv_db \<Rightarrow> (nat \<times> inv_db) res" where
  "consume_single i ctx db =
     (case map_of (reservations db) i of
        None \<Rightarrow> Inr (0, db)
      | Some r \<Rightarrow>
          if rs_status r \<noteq> RS_ACTIVE then Inr (0, db)
          else andthen (consistent_balance db r) (\<lambda>b.
               andthen (consume_effect i r b ctx db) (\<lambda>db'. Inr (1, db'))))"

text \<open>The loop of the order operations: one pass over the ids read at the start, counting.\<close>

fun each_reservation ::
  "(uid \<Rightarrow> inv_db \<Rightarrow> (nat \<times> inv_db) res) \<Rightarrow> uid list \<Rightarrow> inv_db \<Rightarrow> (nat \<times> inv_db) res" where
  "each_reservation f [] db = Inr (0, db)"
| "each_reservation f (i # is) db =
     andthen (f i db) (\<lambda>(n, db1).
     andthen (each_reservation f is db1) (\<lambda>(m, db2). Inr (n + m, db2)))"

definition active_of_order :: "inv_db \<Rightarrow> uid \<Rightarrow> uid list" where
  "active_of_order db oid = sort (map fst (filter
     (\<lambda>(_, r). rs_order r = Some oid \<and> rs_status r = RS_ACTIVE) (reservations db)))"

definition release_order_reservations ::
  "uid \<Rightarrow> (string \<times> jval) list \<Rightarrow> actor_context \<Rightarrow> inv_db \<Rightarrow> (nat \<times> inv_db) res" where
  "release_order_reservations oid meta ctx db =
     each_reservation (\<lambda>i. release_single i meta ctx) (active_of_order db oid) db"

definition release_reservations_for_order ::
  "uid \<Rightarrow> actor_context \<Rightarrow> inv_db \<Rightarrow> (nat \<times> inv_db) res" where
  "release_reservations_for_order oid ctx db =
     andthen (assert_tracked ctx) (\<lambda>_. release_order_reservations oid [] ctx db)"

text \<open>The expiry worker has no actor; its audit rows name the system actor and the order.\<close>

definition release_reservations_for_order_from_expiry ::
  "uid \<Rightarrow> string \<Rightarrow> inv_db \<Rightarrow> (nat \<times> inv_db) res" where
  "release_reservations_for_order_from_expiry oid request db =
     throw_if (\<not> correlation_id request)
       (BadRequest ''A bounded correlation ID is required for order expiry.'')
     (release_order_reservations oid
       [(''systemActor'', JStr ''order-reservation-expiry''), (''orderId'', JId oid)]
       \<lparr>ctx_actor = None, ctx_request = Some request\<rparr> db)"

definition consume_reservations_for_order ::
  "uid \<Rightarrow> actor_context \<Rightarrow> inv_db \<Rightarrow> (nat \<times> inv_db) res" where
  "consume_reservations_for_order oid ctx db =
     throw_if (blank (ctx_request ctx))
       (BadRequest ''requestId is required for payment-driven inventory consumption.'')
     (each_reservation (\<lambda>i. consume_single i ctx) (active_of_order db oid) db)"

subsection \<open>Reservations without an order\<close>

text \<open>\<open>transitionProductionReservationIn\<close>: the door workflow's port.\<close>

datatype production_action = PA_consume | PA_release

definition transition_production_reservation_in ::
  "uid \<Rightarrow> production_action \<Rightarrow> actor_context \<Rightarrow> int \<Rightarrow> inv_db \<Rightarrow> (nat \<times> inv_db) res" where
  "transition_production_reservation_in i action ctx now db =
     andthen (assert_tracked ctx) (\<lambda>_.
     need (map_of (reservations db) i) (Conflict ''Invalid production reservation.'') (\<lambda>r.
     throw_if (rs_order r \<noteq> None) (Conflict ''Invalid production reservation.'')
     (throw_if (rs_status r \<noteq> RS_ACTIVE) (Conflict ''Production reservation is no longer active.'')
     (throw_if (action = PA_consume \<and> rs_expires r \<le> now)
       (Conflict ''Production reservation expired; reserve again before consumption.'')
     (case action of
        PA_consume \<Rightarrow> consume_single i ctx db
      | PA_release \<Rightarrow> release_single i [] ctx db)))))"

text \<open>
  \<open>transitionReservation\<close> reads the reservation before its transaction (\<open>precheck_transition\<close>, in the
  database and at the time of that read) and again inside it (\<open>transition_body\<close>), so that a
  concurrent finalizer is noticed.
\<close>

record lifecycle_context = actor_context +
  lc_expected :: "int option"

definition require_active_reservation :: "inv_db \<Rightarrow> uid \<Rightarrow> reservation res" where
  "require_active_reservation db i =
     need (map_of (reservations db) i) (NotFound ''RESERVATION_NOT_FOUND'') (\<lambda>r.
     throw_if (rs_status r = RS_EXPIRED) (Conflict ''RESERVATION_EXPIRED'')
     (throw_if (map_of (balances db) (rs_key r) = None) (Conflict ''RESERVATION_STATE_CONFLICT'')
     (Inr r)))"

definition precheck_transition :: "uid \<Rightarrow> lifecycle_context \<Rightarrow> int \<Rightarrow> inv_db \<Rightarrow> reservation res" where
  "precheck_transition i ctx now db =
     andthen (assert_tracked (actor_context.truncate ctx)) (\<lambda>_.
     andthen (require_active_reservation db i) (\<lambda>r.
     throw_if (i \<in> set (door_reservations db))
       (Conflict ''Production-linked reservations are managed by the door order workflow.'')
     (throw_if (rs_order r \<noteq> None) (Conflict ''RESERVATION_STATE_CONFLICT'')
     (throw_if (rs_status r = RS_ACTIVE \<and> rs_expires r \<le> now) (Conflict ''RESERVATION_EXPIRED'')
     (Inr r)))))"

text \<open>\<open>reservationReplay\<close>: \<open>None\<close> means the reservation is still active and the transition applies.\<close>

definition reservation_replay :: "reservation option \<Rightarrow> reservation \<Rightarrow> reservation option res" where
  "reservation_replay recheck r =
     (case recheck of
        None \<Rightarrow> Inr (Some r)
      | Some r' \<Rightarrow>
          throw_if (rs_status r' = RS_EXPIRED) (Conflict ''RESERVATION_EXPIRED'')
          (Inr (if rs_status r' = RS_ACTIVE then None else Some r')))"

definition transition_body ::
  "uid \<Rightarrow> reservation \<Rightarrow> lifecycle_context \<Rightarrow> int
     \<Rightarrow> (balance \<Rightarrow> inv_db \<Rightarrow> inv_db res) \<Rightarrow> reservation_status
     \<Rightarrow> inv_db \<Rightarrow> (reservation \<times> inv_db) res" where
  "transition_body i r ctx now apply_to to_status db =
     (let recheck = map_of (reservations db) i in
      andthen (reservation_replay recheck r) (\<lambda>replay.
      case replay of
        Some r' \<Rightarrow> Inr (r', db)
      | None \<Rightarrow>
          throw_if (case recheck of None \<Rightarrow> False | Some r' \<Rightarrow> rs_order r' \<noteq> None)
            (Conflict ''RESERVATION_STATE_CONFLICT'')
          (throw_if (case recheck of None \<Rightarrow> False | Some r' \<Rightarrow> rs_expires r' \<le> now)
            (Conflict ''RESERVATION_EXPIRED'')
          (andthen (assert_version (lc_expected ctx) (bal_version (bal db (rs_key r)))) (\<lambda>_.
           andthen (consistent_balance db r) (\<lambda>b.
           andthen (apply_to b db) (\<lambda>db'. Inr (r\<lparr>rs_status := to_status\<rparr>, db'))))))))"

definition release_reservation ::
  "uid \<Rightarrow> lifecycle_context \<Rightarrow> int \<Rightarrow> inv_db \<Rightarrow> (reservation \<times> inv_db) res" where
  "release_reservation i ctx now db =
     andthen (precheck_transition i ctx now db) (\<lambda>r.
     transition_body i r ctx now
       (\<lambda>b. release_effect i r b [] (actor_context.truncate ctx)) RS_RELEASED db)"

definition consume_reservation ::
  "uid \<Rightarrow> lifecycle_context \<Rightarrow> int \<Rightarrow> inv_db \<Rightarrow> (reservation \<times> inv_db) res" where
  "consume_reservation i ctx now db =
     andthen (precheck_transition i ctx now db) (\<lambda>r.
     transition_body i r ctx now
       (\<lambda>b. consume_effect i r b (actor_context.truncate ctx)) RS_CONSUMED db)"

subsection \<open>The expiry worker\<close>

definition due :: "int \<Rightarrow> reservation \<Rightarrow> bool" where
  "due now r \<longleftrightarrow> rs_status r = RS_ACTIVE \<and> rs_expires r \<le> now"

text \<open>\<open>orderBy: [{ expiresAt: 'asc' }, { id: 'asc' }]\<close>\<close>

definition expiry_order :: "(uid \<times> reservation) list \<Rightarrow> (uid \<times> reservation) list" where
  "expiry_order rows = sort_key (\<lambda>(i, r). (rs_expires r, i)) rows"

definition expiry_candidates :: "int \<Rightarrow> nat \<Rightarrow> inv_db \<Rightarrow> (uid \<times> reservation) list" where
  "expiry_candidates now batch db =
     take batch (expiry_order (filter (\<lambda>(_, r). due now r) (reservations db)))"

text \<open>The advisory locks are taken in one order, whatever the order of the candidates.\<close>

definition expiry_lock_order :: "(uid \<times> reservation) list \<Rightarrow> stock_key list" where
  "expiry_lock_order rows = sort (remdups (map (rs_key \<circ> snd) rows))"

record expiry_group =
  eg_balance :: balance
  eg_quantity :: int
  eg_count :: int

text \<open>\<open>planReservationExpiry\<close>\<close>

fun plan_reservation_expiry ::
  "actor_context \<Rightarrow> (uid \<times> reservation) list \<Rightarrow> (stock_key \<times> expiry_group) list
     \<Rightarrow> ((stock_key \<times> expiry_group) list \<times> audit_event list) res" where
  "plan_reservation_expiry ctx [] groups = Inr (groups, [])"
| "plan_reservation_expiry ctx ((i, r) # rows) groups =
     need (map_of groups (rs_key r)) (Conflict ''RESERVATION_STATE_CONFLICT'') (\<lambda>g.
     throw_if (reserved (eg_balance g) - eg_quantity g < rs_quantity r)
       (Conflict ''RESERVATION_STATE_CONFLICT'')
     (let before_reserved = reserved (eg_balance g) - eg_quantity g;
          before_available = available (eg_balance g) + eg_quantity g;
          g' = g\<lparr>eg_quantity := eg_quantity g + rs_quantity r, eg_count := eg_count g + 1\<rparr>;
          event = \<lparr>ae_action = ''inventory.reservation.expired'', ae_entity = ''stock-reservation'',
            ae_entity_id = i,
            ae_before = [(''reserved'', JNum before_reserved), (''available'', JNum before_available)],
            ae_after = [(''reserved'', JNum (before_reserved - rs_quantity r)),
                        (''available'', JNum (before_available + rs_quantity r))],
            ae_metadata = [], ae_actor = ctx_actor ctx, ae_request = ctx_request ctx\<rparr>
      in
      andthen (plan_reservation_expiry ctx rows (AList.update (rs_key r) g' groups)) (\<lambda>(gs, es).
      Inr (gs, event # es))))"

fun apply_expiry_groups :: "(stock_key \<times> expiry_group) list \<Rightarrow> inv_db \<Rightarrow> inv_db res" where
  "apply_expiry_groups [] db = Inr db"
| "apply_expiry_groups ((k, g) # gs) db =
     (if eg_count g = 0 then apply_expiry_groups gs db
      else let b = bal db k in
        andthen (put_balance k
          (b\<lparr>reserved := reserved b - eg_quantity g, available := available b + eg_quantity g,
             bal_version := bal_version b + eg_count g\<rparr>) db) (apply_expiry_groups gs))"

definition expire_rows :: "uid set \<Rightarrow> int \<Rightarrow> inv_db \<Rightarrow> inv_db" where
  "expire_rows ids now db = db\<lparr>reservations := map (\<lambda>(i, r).
     (i, if i \<in> ids \<and> due now r then r\<lparr>rs_status := RS_EXPIRED\<rparr> else r)) (reservations db)\<rparr>"

definition expire_body ::
  "actor_context \<Rightarrow> int \<Rightarrow> (uid \<times> reservation) list \<Rightarrow> inv_db \<Rightarrow> (nat \<times> inv_db) res" where
  "expire_body ctx now candidates db =
     (let ids = set (map fst candidates);
          current = expiry_order (filter (\<lambda>(i, r). i \<in> ids \<and> due now r) (reservations db));
          keys = set (map (rs_key \<circ> snd) candidates)
      in
      if current = [] then Inr (0, db)
      else
      throw_if (\<exists>(i, r) \<in> set current. map_option rs_key (map_of candidates i) \<noteq> Some (rs_key r))
        (Conflict ''RESERVATION_STATE_CONFLICT'')
      (andthen (plan_reservation_expiry ctx current
          (map (\<lambda>(k, b). (k, \<lparr>eg_balance = b, eg_quantity = 0, eg_count = 0\<rparr>))
             (filter (\<lambda>(k, _). k \<in> keys) (balances db)))) (\<lambda>(groups, events).
       andthen (apply_expiry_groups groups db) (\<lambda>db1.
       let ids' = set (map fst current);
           updated = length (filter (\<lambda>(i, r). i \<in> ids' \<and> due now r) (reservations db1));
           db2 = expire_rows ids' now db1
       in
       throw_if (updated \<noteq> length current) (Conflict ''RESERVATION_STATE_CONFLICT'')
       (Inr (length current, db2\<lparr>audits := audits db2 @ events\<rparr>))))))"

definition expire_reservations ::
  "actor_context \<Rightarrow> int \<Rightarrow> js_number option \<Rightarrow> inv_db \<Rightarrow> (nat \<times> inv_db) res" where
  "expire_reservations ctx now batch db =
     andthen (assert_tracked ctx) (\<lambda>_.
     let candidates = expiry_candidates now (nat (clamp_int batch 1 100 100)) db in
     if candidates = [] then Inr (0, db) else expire_body ctx now candidates db)"

end
