(* ===== verification/Stock_Invariant.thy ===== *)
theory Stock_Invariant
  imports Inventory
begin

text \<open>
  What the stock ledger promises. A shelf is what an abstract observer sees of a balance: the
  goods that lie there and the goods promised to active reservations. Every inventory operation
  refines one of four shelf operations, and the balances stay reconciled with the reservations
  and with the movement ledger.
\<close>

section \<open>Sums over the tables\<close>

definition active_qty :: "stock_key \<Rightarrow> reservation \<Rightarrow> int" where
  "active_qty k r = (if rs_key r = k \<and> rs_status r = RS_ACTIVE then rs_quantity r else 0)"

definition held :: "inv_db \<Rightarrow> stock_key \<Rightarrow> int" where
  "held db k = asum (\<lambda>_ r. active_qty k r) (reservations db)"

definition ledger :: "inv_db \<Rightarrow> stock_key \<Rightarrow> int" where
  "ledger db k = asum (\<lambda>_ m. if mv_key m = k then mv_quantity m else 0) (movements db)"

section \<open>The invariant\<close>

text \<open>The check constraint \<open>InventoryBalance_consistent\<close> of the checkout migration.\<close>

definition consistent :: "balance \<Rightarrow> bool" where
  "consistent b \<longleftrightarrow> 0 \<le> onHand b \<and> 0 \<le> reserved b \<and> 0 \<le> available b
     \<and> available b = onHand b - reserved b"

definition rows_wf :: "inv_db \<Rightarrow> bool" where
  "rows_wf db \<longleftrightarrow>
     distinct (map fst (reservations db)) \<and> (\<forall>i \<in> set (map fst (reservations db)). i < next_id db)
     \<and> (\<forall>r \<in> set (map snd (reservations db)). 0 < rs_quantity r)
     \<and> distinct (map fst (movements db)) \<and> (\<forall>i \<in> set (map fst (movements db)). i < next_id db)
     \<and> (\<forall>m \<in> set (map snd (movements db)). mv_after m = mv_before m + mv_quantity m)
     \<and> distinct (map fst (balances db))"

definition stock_inv :: "inv_db \<Rightarrow> bool" where
  "stock_inv db \<longleftrightarrow>
     (\<forall>k. consistent (bal db k)) \<and> (\<forall>k. reserved (bal db k) = held db k)
     \<and> (\<forall>k. onHand (bal db k) = ledger db k) \<and> rows_wf db"

lemma stock_inv_empty: "stock_inv empty_db"
  by (simp add: stock_inv_def consistent_def rows_wf_def bal_def empty_db_def held_def ledger_def
      find_or_def)

lemma stock_invD:
  assumes "stock_inv db"
  shows "consistent (bal db k)" "reserved (bal db k) = held db k"
    "onHand (bal db k) = ledger db k" "rows_wf db"
  using assms by (auto simp: stock_inv_def)

lemma stock_inv_step:
  assumes inv: "stock_inv db"
    and b: "\<And>k'. bal db' k' = (if k' = k then b' else bal db k')"
    and c: "consistent b'"
    and h: "\<And>k'. held db' k' = held db k' + (if k' = k then reserved b' - reserved (bal db k) else 0)"
    and l: "\<And>k'. ledger db' k' = ledger db k' + (if k' = k then onHand b' - onHand (bal db k) else 0)"
    and wf: "rows_wf db'"
  shows "stock_inv db'"
  using assms by (auto simp: stock_inv_def)

section \<open>Effects of the writes\<close>

lemma put_balance_iff [res_iff]:
  "put_balance k b db = Inr db' \<longleftrightarrow>
     int4 (onHand b) \<and> int4 (reserved b) \<and> int4 (available b)
     \<and> db' = db\<lparr>balances := AList.update k b (balances db)\<rparr>"
  by (auto simp: put_balance_def res_iff)

lemma add_movement_iff [res_iff]:
  "add_movement m db = Inr (i, db') \<longleftrightarrow>
     (case mv_idem m of None \<Rightarrow> True | Some key \<Rightarrow> movement_by_idem db key = None)
     \<and> i = next_id db
     \<and> db' = db\<lparr>movements := movements db @ [(next_id db, m)], next_id := Suc (next_id db)\<rparr>"
  by (auto simp: add_movement_def res_iff simp del: split_paired_All split_paired_Ex not_None_eq
      split: option.splits)

lemma add_reservation_iff [res_iff]:
  "add_reservation r db = Inr (i, db') \<longleftrightarrow>
     (case rs_idem r of None \<Rightarrow> True | Some key \<Rightarrow> reservation_by_idem db key = None)
     \<and> i = next_id db
     \<and> db' = db\<lparr>reservations := reservations db @ [(next_id db, r)], next_id := Suc (next_id db)\<rparr>"
  by (auto simp: add_reservation_def res_iff simp del: split_paired_All split_paired_Ex not_None_eq
      split: option.splits)

named_theorems stock_simps \<open>balances, promises and ledger after a write\<close>

lemma bal_balances [stock_simps]:
  "bal (db\<lparr>balances := AList.update k b t\<rparr>) k' =
     (if k' = k then b else bal (db\<lparr>balances := t\<rparr>) k')"
  by (simp add: bal_def table_simps)

lemma bal_other [stock_simps]:
  "bal (db\<lparr>balances := balances db\<rparr>) = bal db"
  "bal (db\<lparr>movements := ms\<rparr>) = bal db"
  "bal (db\<lparr>reservations := rs\<rparr>) = bal db"
  "bal (db\<lparr>audits := es\<rparr>) = bal db"
  "bal (db\<lparr>next_id := n\<rparr>) = bal db"
  "bal (db\<lparr>transfers := ts\<rparr>) = bal db"
  "bal (db\<lparr>transitions := tt\<rparr>) = bal db"
  "bal (db\<lparr>warehouses := ws\<rparr>) = bal db"
  "bal (db\<lparr>locations := ls\<rparr>) = bal db"
  "bal (record_audit e db) = bal db"
  "bal (set_reservation i r db) = bal db"
  by (simp_all add: bal_def fun_eq_iff record_audit_def set_reservation_def)

lemma held_other [stock_simps]:
  "held (db\<lparr>balances := bs\<rparr>) = held db"
  "held (db\<lparr>movements := ms\<rparr>) = held db"
  "held (db\<lparr>audits := es\<rparr>) = held db"
  "held (db\<lparr>next_id := n\<rparr>) = held db"
  "held (db\<lparr>transfers := ts\<rparr>) = held db"
  "held (db\<lparr>transitions := tt\<rparr>) = held db"
  "held (db\<lparr>warehouses := ws\<rparr>) = held db"
  "held (db\<lparr>locations := ls\<rparr>) = held db"
  "held (record_audit e db) = held db"
  by (simp_all add: held_def fun_eq_iff record_audit_def)

lemma held_append [stock_simps]:
  "held (db\<lparr>reservations := t @ [(i, r)]\<rparr>) k = held (db\<lparr>reservations := t\<rparr>) k + active_qty k r"
  "held (db\<lparr>reservations := reservations db\<rparr>) k = held db k"
  by (simp_all add: held_def table_simps)

lemma held_set_reservation [stock_simps]:
  "held (set_reservation i r db) k =
     held db k + active_qty k r
       - (case map_of (reservations db) i of None \<Rightarrow> 0 | Some r' \<Rightarrow> active_qty k r')"
  by (simp add: held_def set_reservation_def table_simps)

lemma ledger_other [stock_simps]:
  "ledger (db\<lparr>balances := bs\<rparr>) = ledger db"
  "ledger (db\<lparr>reservations := rs\<rparr>) = ledger db"
  "ledger (db\<lparr>audits := es\<rparr>) = ledger db"
  "ledger (db\<lparr>next_id := n\<rparr>) = ledger db"
  "ledger (db\<lparr>transfers := ts\<rparr>) = ledger db"
  "ledger (db\<lparr>transitions := tt\<rparr>) = ledger db"
  "ledger (db\<lparr>warehouses := ws\<rparr>) = ledger db"
  "ledger (db\<lparr>locations := ls\<rparr>) = ledger db"
  "ledger (record_audit e db) = ledger db"
  "ledger (set_reservation i r db) = ledger db"
  by (simp_all add: ledger_def fun_eq_iff record_audit_def set_reservation_def)

lemma ledger_append [stock_simps]:
  "ledger (db\<lparr>movements := t @ [(i, m)]\<rparr>) k =
     ledger (db\<lparr>movements := t\<rparr>) k + (if mv_key m = k then mv_quantity m else 0)"
  "ledger (db\<lparr>movements := movements db\<rparr>) k = ledger db k"
  by (simp_all add: ledger_def table_simps)

lemma record_audit_fields [simp]:
  "balances (record_audit e db) = balances db"
  "movements (record_audit e db) = movements db"
  "reservations (record_audit e db) = reservations db"
  "next_id (record_audit e db) = next_id db"
  by (simp_all add: record_audit_def)

lemma set_reservation_fields [simp]:
  "balances (set_reservation i r db) = balances db"
  "movements (set_reservation i r db) = movements db"
  "reservations (set_reservation i r db) = AList.update i r (reservations db)"
  "next_id (set_reservation i r db) = next_id db"
  by (simp_all add: set_reservation_def)

lemma rows_wf_other [stock_simps]:
  "rows_wf (db\<lparr>audits := es\<rparr>) = rows_wf db"
  "rows_wf (db\<lparr>transfers := ts\<rparr>) = rows_wf db"
  "rows_wf (db\<lparr>transitions := tt\<rparr>) = rows_wf db"
  "rows_wf (db\<lparr>warehouses := ws\<rparr>) = rows_wf db"
  "rows_wf (db\<lparr>locations := ls\<rparr>) = rows_wf db"
  "rows_wf (record_audit e db) = rows_wf db"
  by (simp_all add: rows_wf_def record_audit_def)

lemma rows_wf_balance [stock_simps]:
  "rows_wf db \<Longrightarrow> rows_wf (db\<lparr>balances := AList.update k b (balances db)\<rparr>)"
  by (simp add: rows_wf_def distinct_update)

lemma fresh_id [table_simps]: "\<forall>x \<in> set t. fst x < (n :: nat) \<Longrightarrow> n \<notin> fst ` set t"
  by fastforce

lemma rows_wf_movement [stock_simps]:
  "rows_wf db \<Longrightarrow> mv_after m = mv_before m + mv_quantity m \<Longrightarrow>
     rows_wf (db\<lparr>balances := AList.update k b (balances db),
       movements := movements db @ [(next_id db, m)], next_id := Suc (next_id db)\<rparr>)"
  unfolding rows_wf_def set_map by (simp add: distinct_update fresh_id less_SucI)

lemma rows_wf_reservation [stock_simps]:
  "rows_wf db \<Longrightarrow> 0 < rs_quantity r \<Longrightarrow>
     rows_wf (db\<lparr>balances := AList.update k b (balances db),
       reservations := reservations db @ [(next_id db, r)], next_id := Suc (next_id db)\<rparr>)"
  unfolding rows_wf_def set_map by (simp add: distinct_update fresh_id less_SucI)

lemma rows_wf_set_reservation [stock_simps]:
  assumes "rows_wf db" and "map_of (reservations db) i = Some r0" and "0 < rs_quantity r"
  shows "rows_wf (set_reservation i r db)"
proof -
  have "\<forall>x \<in> set (AList.update i r (reservations db)). 0 < rs_quantity (snd x)"
    using set_update_subset[of i r "reservations db"] assms(1,3) by (fastforce simp: rows_wf_def)
  moreover have "fst ` set (AList.update i r (reservations db)) = fst ` set (reservations db)"
    using assms(2) by (auto simp: fst_set_update dest!: map_of_SomeD intro: rev_image_eqI)
  ultimately show ?thesis
    using assms by (simp add: rows_wf_def set_reservation_def distinct_update)
qed

section \<open>Shelves: the abstract view\<close>

type_synonym shelves = "stock_key \<Rightarrow> int \<times> int"

definition shelf :: "inv_db \<Rightarrow> shelves" where
  "shelf db k = (onHand (bal db k), reserved (bal db k))"

definition put_goods :: "stock_key \<Rightarrow> int \<Rightarrow> shelves \<Rightarrow> shelves" where
  "put_goods k q s = s(k := (fst (s k) + q, snd (s k)))"

definition promise :: "stock_key \<Rightarrow> int \<Rightarrow> shelves \<Rightarrow> shelves" where
  "promise k q s = s(k := (fst (s k), snd (s k) + q))"

definition withdraw :: "stock_key \<Rightarrow> int \<Rightarrow> shelves \<Rightarrow> shelves" where
  "withdraw k q s = s(k := (fst (s k), snd (s k) - q))"

definition hand_over :: "stock_key \<Rightarrow> int \<Rightarrow> shelves \<Rightarrow> shelves" where
  "hand_over k q s = s(k := (fst (s k) - q, snd (s k) - q))"

lemmas shelf_ops = put_goods_def promise_def withdraw_def hand_over_def

section \<open>Receipts and adjustments\<close>

lemma adjusted_balance_fields [simp]:
  "onHand (adjusted_balance c b) = onHand b + the_int (sc_delta c)"
  "reserved (adjusted_balance c b) = reserved b"
  "available (adjusted_balance c b) = onHand b + the_int (sc_delta c) - reserved b"
  "mv_key (adjustment_movement c b) = sc_key c"
  "mv_quantity (adjustment_movement c b) = the_int (sc_delta c)"
  "mv_before (adjustment_movement c b) = onHand b"
  "mv_after (adjustment_movement c b) = onHand b + the_int (sc_delta c)"
  by (simp_all add: adjusted_balance_def adjustment_movement_def)

text \<open>The two ways a stock command returns: the stored answer of its key, or a fresh movement.\<close>

lemma change_on_hand_in_Inr:
  "change_on_hand_in c db = Inr (im, db') \<Longrightarrow>
     (movement_replay c db = Some im \<and> movement_matches (snd im) c \<and> db' = db) \<or>
     (movement_replay c db = None \<and> 0 \<le> onHand (adjusted_balance c (bal db (sc_key c)))
      \<and> 0 \<le> available (adjusted_balance c (bal db (sc_key c)))
      \<and> int4 (onHand (adjusted_balance c (bal db (sc_key c))))
      \<and> im = (next_id db, adjustment_movement c (bal db (sc_key c)))
      \<and> db' = record_audit (adjustment_event c (bal db (sc_key c)) (next_id db))
          (db\<lparr>balances := AList.update (sc_key c) (adjusted_balance c (bal db (sc_key c))) (balances db),
              movements := movements db @ [(next_id db, adjustment_movement c (bal db (sc_key c)))],
              next_id := Suc (next_id db)\<rparr>))"
  by (cases "movement_replay c db")
    (auto simp: change_on_hand_in_def res_iff Let_def simp del: adjusted_balance_fields)

lemma change_on_hand_in_inv:
  assumes inv: "stock_inv db" and run: "change_on_hand_in c db = Inr (im, db')"
  shows "stock_inv db'"
  using change_on_hand_in_Inr[OF run]
proof (elim disjE conjE)
  assume fresh: "0 \<le> onHand (adjusted_balance c (bal db (sc_key c)))"
    "0 \<le> available (adjusted_balance c (bal db (sc_key c)))"
    and db': "db' = record_audit (adjustment_event c (bal db (sc_key c)) (next_id db))
          (db\<lparr>balances := AList.update (sc_key c) (adjusted_balance c (bal db (sc_key c))) (balances db),
              movements := movements db @ [(next_id db, adjustment_movement c (bal db (sc_key c)))],
              next_id := Suc (next_id db)\<rparr>)"
  show ?thesis
    by (rule stock_inv_step[OF inv, where k = "sc_key c" and b' = "adjusted_balance c (bal db (sc_key c))"])
      (use fresh stock_invD(1,4)[OF inv] in \<open>auto simp: db' stock_simps consistent_def\<close>)
qed (use inv in simp)

text \<open>A fresh receipt or adjustment moves goods on one shelf and nothing else.\<close>

lemma change_on_hand_in_refines:
  assumes "change_on_hand_in c db = Inr (im, db')"
  shows "shelf db' = (if movement_replay c db = None
      then put_goods (sc_key c) (the_int (sc_delta c)) (shelf db) else shelf db)"
  using change_on_hand_in_Inr[OF assms]
  by (auto simp: shelf_def shelf_ops fun_eq_iff stock_simps)

section \<open>Reserving\<close>

lemma promised_balance_fields [simp]:
  "onHand (promised_balance c b) = onHand b"
  "reserved (promised_balance c b) = reserved b + the_int (rc_quantity c)"
  "available (promised_balance c b) = available b - the_int (rc_quantity c)"
  "rs_key (new_reservation c) = rc_key c"
  "rs_quantity (new_reservation c) = the_int (rc_quantity c)"
  "rs_status (new_reservation c) = RS_ACTIVE"
  by (simp_all add: promised_balance_def new_reservation_def)

lemma reserve_in_Inr:
  "reserve_in c db = Inr (ir, db') \<Longrightarrow>
     (reserve_replay c db = Some ir \<and> reservation_matches (snd ir) c \<and> db' = db) \<or>
     (reserve_replay c db = None \<and> 0 < the_int (rc_quantity c)
      \<and> the_int (rc_quantity c) \<le> available (bal db (rc_key c))
      \<and> ir = (next_id db, new_reservation c)
      \<and> db' = record_audit (reservation_event c (bal db (rc_key c)) (next_id db))
          (db\<lparr>balances := AList.update (rc_key c) (promised_balance c (bal db (rc_key c))) (balances db),
              reservations := reservations db @ [(next_id db, new_reservation c)],
              next_id := Suc (next_id db)\<rparr>))"
  by (cases "reserve_replay c db")
    (auto simp: reserve_in_def res_iff Let_def bad_reserve_quantity_def
       simp del: promised_balance_fields)

lemma reserve_in_inv:
  assumes inv: "stock_inv db" and run: "reserve_in c db = Inr (ir, db')"
  shows "stock_inv db'"
  using reserve_in_Inr[OF run]
proof (elim disjE conjE)
  assume fresh: "0 < the_int (rc_quantity c)" "the_int (rc_quantity c) \<le> available (bal db (rc_key c))"
    and db': "db' = record_audit (reservation_event c (bal db (rc_key c)) (next_id db))
          (db\<lparr>balances := AList.update (rc_key c) (promised_balance c (bal db (rc_key c))) (balances db),
              reservations := reservations db @ [(next_id db, new_reservation c)],
              next_id := Suc (next_id db)\<rparr>)"
  have "consistent (promised_balance c (bal db (rc_key c)))"
    using fresh stock_invD(1)[OF inv, of "rc_key c"] by (auto simp: consistent_def)
  then show ?thesis
    by (intro stock_inv_step[OF inv, where k = "rc_key c" and b' = "promised_balance c (bal db (rc_key c))"])
      (use fresh stock_invD(4)[OF inv] in \<open>auto simp: db' stock_simps active_qty_def\<close>)
qed (use inv in simp)

lemma reserve_in_refines:
  assumes "reserve_in c db = Inr (ir, db')"
  shows "shelf db' = (if reserve_replay c db = None
      then promise (rc_key c) (the_int (rc_quantity c)) (shelf db) else shelf db)"
  using reserve_in_Inr[OF assms]
  by (auto simp: shelf_def shelf_ops fun_eq_iff stock_simps)

section \<open>Leaving the active state\<close>

lemma consistent_balance_iff [res_iff]:
  "consistent_balance db r = Inr b \<longleftrightarrow>
     map_of (balances db) (rs_key r) = Some b \<and> rs_quantity r \<le> reserved b"
  by (auto simp: consistent_balance_def res_iff)

lemma bal_Some: "map_of (balances db) k = Some b \<Longrightarrow> bal db k = b"
  by (simp add: bal_def find_or_Some)

lemma released_balance_fields [simp]:
  "onHand (released_balance r b) = onHand b"
  "reserved (released_balance r b) = reserved b - rs_quantity r"
  "available (released_balance r b) = available b + rs_quantity r"
  by (simp_all add: released_balance_def)

lemma sold_balance_fields [simp]:
  "onHand (sold_balance r b) = onHand b - rs_quantity r"
  "reserved (sold_balance r b) = reserved b - rs_quantity r"
  "available (sold_balance r b) = onHand b - reserved b"
  "mv_key (sale_movement i r b) = rs_key r"
  "mv_quantity (sale_movement i r b) = - rs_quantity r"
  "mv_before (sale_movement i r b) = onHand b"
  "mv_after (sale_movement i r b) = onHand b - rs_quantity r"
  "mv_idem (sale_movement i r b) = None"
  by (simp_all add: sold_balance_def sale_movement_def Let_def)

lemma active_row:
  assumes "stock_inv db" and "map_of (reservations db) i = Some r"
  shows "0 < rs_quantity r" "i < next_id db"
  using assms map_of_SomeD[OF assms(2)] unfolding stock_inv_def rows_wf_def by fastforce+

text \<open>An active reservation always fits its balance, so the consistency guard of the release and
  consume paths never fires.\<close>

lemma active_fits_balance:
  assumes inv: "stock_inv db" and r: "map_of (reservations db) i = Some r" "rs_status r = RS_ACTIVE"
  shows "consistent_balance db r = Inr (bal db (rs_key r))"
proof -
  have "active_qty (rs_key r) r \<le> held db (rs_key r)"
    unfolding held_def
  proof (rule asum_member_le[where f = "\<lambda>_ r'. active_qty (rs_key r) r'"])
    show "(i, r) \<in> set (reservations db)" using r(1) by (rule map_of_SomeD)
    show "\<And>k v. (k, v) \<in> set (reservations db) \<Longrightarrow> 0 \<le> active_qty (rs_key r) v"
      using stock_invD(4)[OF inv] by (fastforce simp: active_qty_def rows_wf_def)
  qed
  then have le: "rs_quantity r \<le> reserved (bal db (rs_key r))"
    using r(2) stock_invD(2)[OF inv, of "rs_key r"] by (simp add: active_qty_def)
  moreover have "0 < rs_quantity r" using active_row[OF inv r(1)] by simp
  ultimately obtain b where "map_of (balances db) (rs_key r) = Some b"
    by (cases "map_of (balances db) (rs_key r)") (auto simp: bal_def find_or_def)
  then show ?thesis using le by (simp add: res_iff bal_Some)
qed

lemma release_effect_inv:
  assumes inv: "stock_inv db" and r: "map_of (reservations db) i = Some r" "rs_status r = RS_ACTIVE"
    and run: "release_effect i r (bal db (rs_key r)) meta ctx db = Inr db'"
  shows "stock_inv db'"
proof -
  let ?b = "bal db (rs_key r)"
  have db': "db' = record_audit (release_event i r ?b meta ctx) (set_reservation i
      (r\<lparr>rs_status := RS_RELEASED\<rparr>)
      (db\<lparr>balances := AList.update (rs_key r) (released_balance r ?b) (balances db)\<rparr>))"
    using run by (auto simp: release_effect_def res_iff)
  have "rs_quantity r \<le> reserved ?b"
    using active_fits_balance[OF inv r] by (simp add: res_iff)
  moreover have "rows_wf db'"
    unfolding db' by (simp add: stock_simps rows_wf_set_reservation[where ?r0.0 = r] r
        active_row[OF inv r(1)] stock_invD(4)[OF inv])
  ultimately show ?thesis
    using stock_invD(1)[OF inv, of "rs_key r"] active_row[OF inv r(1)] r
    by (intro stock_inv_step[OF inv, where k = "rs_key r" and b' = "released_balance r ?b"])
      (auto simp: db' stock_simps consistent_def active_qty_def)
qed

lemma consume_effect_inv:
  assumes inv: "stock_inv db" and r: "map_of (reservations db) i = Some r" "rs_status r = RS_ACTIVE"
    and run: "consume_effect i r (bal db (rs_key r)) ctx db = Inr db'"
  shows "stock_inv db'"
proof -
  let ?b = "bal db (rs_key r)"
  have db': "db' = record_audit (consume_event i r ?b ctx) (set_reservation i
      (r\<lparr>rs_status := RS_CONSUMED\<rparr>)
      (db\<lparr>balances := AList.update (rs_key r) (sold_balance r ?b) (balances db),
          movements := movements db @ [(next_id db, sale_movement i r ?b)],
          next_id := Suc (next_id db)\<rparr>))"
    using run by (auto simp: consume_effect_def res_iff)
  have "rs_quantity r \<le> reserved ?b"
    using active_fits_balance[OF inv r] by (simp add: res_iff)
  moreover have "rows_wf db'"
    unfolding db' by (simp add: stock_simps rows_wf_set_reservation[where ?r0.0 = r] r
        active_row[OF inv r(1)] stock_invD(4)[OF inv])
  ultimately show ?thesis
    using stock_invD(1)[OF inv, of "rs_key r"] active_row[OF inv r(1)] r
    by (intro stock_inv_step[OF inv, where k = "rs_key r" and b' = "sold_balance r ?b"])
      (auto simp: db' stock_simps consistent_def active_qty_def)
qed

text \<open>Both effects always commit: no guard and no integer range stands in their way when the
  balances are in range.\<close>

definition in_range :: "inv_db \<Rightarrow> bool" where
  "in_range db \<longleftrightarrow> (\<forall>k. int4 (onHand (bal db k)) \<and> int4 (reserved (bal db k)) \<and> int4 (available (bal db k)))"

lemma release_effect_returns:
  assumes inv: "stock_inv db" and rng: "in_range db"
    and r: "map_of (reservations db) i = Some r" "rs_status r = RS_ACTIVE"
  shows "\<exists>db'. release_effect i r (bal db (rs_key r)) meta ctx db = Inr db' \<and> in_range db'"
proof -
  let ?b = "bal db (rs_key r)"
  have q: "0 < rs_quantity r" "rs_quantity r \<le> reserved ?b"
    using active_row[OF inv r(1)] active_fits_balance[OF inv r] by (auto simp: res_iff)
  have c: "consistent ?b" by (rule stock_invD(1)[OF inv])
  have i4: "int4 (onHand ?b)" "int4 (reserved ?b)" "int4 (available ?b)"
    using rng by (auto simp: in_range_def)
  have ok: "int4 (onHand ?b)" "int4 (reserved ?b - rs_quantity r)" "int4 (available ?b + rs_quantity r)"
    using q c i4 by (auto simp: int4_def consistent_def)
  then have "in_range (record_audit (release_event i r ?b meta ctx) (set_reservation i
      (r\<lparr>rs_status := RS_RELEASED\<rparr>)
      (db\<lparr>balances := AList.update (rs_key r) (released_balance r ?b) (balances db)\<rparr>)))"
    using rng by (auto simp: in_range_def stock_simps)
  then show ?thesis using ok by (simp add: release_effect_def put_balance_def)
qed

lemma consume_effect_returns:
  assumes inv: "stock_inv db" and rng: "in_range db"
    and r: "map_of (reservations db) i = Some r" "rs_status r = RS_ACTIVE"
  shows "\<exists>db'. consume_effect i r (bal db (rs_key r)) ctx db = Inr db' \<and> in_range db'"
proof -
  let ?b = "bal db (rs_key r)"
  have q: "0 < rs_quantity r" "rs_quantity r \<le> reserved ?b"
    using active_row[OF inv r(1)] active_fits_balance[OF inv r] by (auto simp: res_iff)
  have c: "consistent ?b" by (rule stock_invD(1)[OF inv])
  have i4: "int4 (onHand ?b)" "int4 (reserved ?b)" "int4 (available ?b)"
    using rng by (auto simp: in_range_def)
  have ok: "int4 (onHand ?b - rs_quantity r)" "int4 (reserved ?b - rs_quantity r)"
    "int4 (onHand ?b - reserved ?b)"
    using q c i4 by (auto simp: int4_def consistent_def)
  then have "in_range (record_audit (consume_event i r ?b ctx) (set_reservation i
      (r\<lparr>rs_status := RS_CONSUMED\<rparr>)
      (db\<lparr>balances := AList.update (rs_key r) (sold_balance r ?b) (balances db),
          movements := movements db @ [(next_id db, sale_movement i r ?b)],
          next_id := Suc (next_id db)\<rparr>)))"
    using rng by (auto simp: in_range_def stock_simps)
  then show ?thesis using ok by (simp add: consume_effect_def put_balance_def add_movement_def)
qed

end
