(* ===== verification/Reservation_Lifecycle.thy ===== *)
theory Reservation_Lifecycle
  imports Stock_Invariant
begin

text \<open>
  How reservations end. The order operations finalize every active reservation of an order, by
  release or by sale; both are instances of one interface, \<open>finalizer\<close>, from which the order and
  payment theories take their guarantees. The staff operations, the production port and the
  expiry worker follow.
\<close>

section \<open>The interface of a finalizer\<close>

definition is_active :: "inv_db \<Rightarrow> uid \<Rightarrow> bool" where
  "is_active db i \<longleftrightarrow> (\<exists>r. map_of (reservations db) i = Some r \<and> rs_status r = RS_ACTIVE)"

definition qty_at :: "inv_db \<Rightarrow> (reservation \<Rightarrow> int) \<Rightarrow> stock_key \<Rightarrow> uid \<Rightarrow> int" where
  "qty_at db f k i = (case map_of (reservations db) i of
     None \<Rightarrow> 0 | Some r \<Rightarrow> if rs_key r = k then f r else 0)"

text \<open>\<open>cost\<close> is what a finalized reservation takes out of the warehouse: nothing on release, its
  quantity on sale.\<close>

locale finalizer =
  fixes single :: "uid \<Rightarrow> inv_db \<Rightarrow> (nat \<times> inv_db) res"
    and final :: reservation_status
    and cost :: "reservation \<Rightarrow> int"
  assumes final_inactive: "final \<noteq> RS_ACTIVE"
    and skip: "\<not> is_active db i \<Longrightarrow> single i db = Inr (0, db)"
    and fire: "stock_inv db \<Longrightarrow> in_range db \<Longrightarrow> map_of (reservations db) i = Some r
      \<Longrightarrow> rs_status r = RS_ACTIVE \<Longrightarrow> \<exists>db'. single i db = Inr (1, db') \<and> in_range db'"
    and effect: "stock_inv db \<Longrightarrow> map_of (reservations db) i = Some r \<Longrightarrow> rs_status r = RS_ACTIVE
      \<Longrightarrow> single i db = Inr (n, db') \<Longrightarrow>
        n = 1 \<and> stock_inv db'
        \<and> reservations db' = AList.update i (r\<lparr>rs_status := final\<rparr>) (reservations db)
        \<and> (\<forall>k. onHand (bal db' k) = onHand (bal db k) - (if rs_key r = k then cost r else 0))
        \<and> (\<forall>k. reserved (bal db' k) = reserved (bal db k) - (if rs_key r = k then rs_quantity r else 0))"
begin

lemma single_inv: "stock_inv db \<Longrightarrow> single i db = Inr (n, db') \<Longrightarrow> stock_inv db'"
proof (cases "is_active db i")
  case False
  then show "stock_inv db \<Longrightarrow> single i db = Inr (n, db') \<Longrightarrow> stock_inv db'" by (simp add: skip)
next
  case True
  then show "stock_inv db \<Longrightarrow> single i db = Inr (n, db') \<Longrightarrow> stock_inv db'"
    unfolding is_active_def by (elim exE conjE) (drule (3) effect, simp)
qed

lemma each_inv: "stock_inv db \<Longrightarrow> each_reservation single is db = Inr (n, db') \<Longrightarrow> stock_inv db'"
  by (induction "is" arbitrary: db n) (auto simp: res_iff intro: single_inv)

text \<open>Every active reservation of a duplicate-free list is finalized, exactly once.\<close>

lemma each_fires:
  assumes "stock_inv db" "in_range db" "distinct is" "\<forall>i \<in> set is. is_active db i"
  shows "\<exists>db'. each_reservation single is db = Inr (length is, db') \<and> stock_inv db' \<and> in_range db'
    \<and> (\<forall>j. map_of (reservations db') j = (if j \<in> set is
          then map_option (\<lambda>r. r\<lparr>rs_status := final\<rparr>) (map_of (reservations db) j)
          else map_of (reservations db) j))
    \<and> (\<forall>k. onHand (bal db' k) = onHand (bal db k) - (\<Sum>i\<leftarrow>is. qty_at db cost k i))
    \<and> (\<forall>k. reserved (bal db' k) = reserved (bal db k) - (\<Sum>i\<leftarrow>is. qty_at db rs_quantity k i))"
  using assms
proof (induction "is" arbitrary: db)
  case (Cons i "is")
  obtain r where r: "map_of (reservations db) i = Some r" "rs_status r = RS_ACTIVE"
    using Cons.prems(4) by (auto simp: is_active_def)
  obtain db1 where db1: "single i db = Inr (1, db1)" "in_range db1"
    using fire[OF Cons.prems(1,2) r] by blast
  note eff = effect[OF Cons.prems(1) r db1(1)]
  have upd: "map_of (reservations db1) j =
      (if j = i then Some (r\<lparr>rs_status := final\<rparr>) else map_of (reservations db) j)" for j
    using eff by (simp add: update_conv)
  have same: "qty_at db1 f k j = qty_at db f k j" if "j \<in> set is" for f k j
    using that Cons.prems(3) upd[of j] by (auto simp: qty_at_def)
  have "\<forall>j \<in> set is. is_active db1 j"
    using Cons.prems(3,4) upd by (auto simp: is_active_def)
  from Cons.IH[OF _ db1(2) _ this] Cons.prems(3) eff
  obtain db' where db': "each_reservation single is db1 = Inr (length is, db')" "stock_inv db'"
      "in_range db'"
      "\<forall>j. map_of (reservations db') j = (if j \<in> set is
          then map_option (\<lambda>r. r\<lparr>rs_status := final\<rparr>) (map_of (reservations db1) j)
          else map_of (reservations db1) j)"
      "\<forall>k. onHand (bal db' k) = onHand (bal db1 k) - (\<Sum>i\<leftarrow>is. qty_at db1 cost k i)"
      "\<forall>k. reserved (bal db' k) = reserved (bal db1 k) - (\<Sum>i\<leftarrow>is. qty_at db1 rs_quantity k i)"
    by auto
  have sums: "(\<Sum>i\<leftarrow>is. qty_at db1 f k i) = (\<Sum>i\<leftarrow>is. qty_at db f k i)" for f k
    by (rule arg_cong[where f = sum_list]) (simp add: same)
  have head: "qty_at db f k i = (if rs_key r = k then f r else 0)" for f k
    using r by (simp add: qty_at_def)
  have tail: "\<forall>j. map_of (reservations db') j = (if j \<in> set (i # is)
      then map_option (\<lambda>r. r\<lparr>rs_status := final\<rparr>) (map_of (reservations db) j)
      else map_of (reservations db) j)"
    using db'(4) upd Cons.prems(3) r by auto
  have run: "each_reservation single (i # is) db = Inr (length (i # is), db')"
    using db1(1) db'(1) by simp
  have on: "onHand (bal db' k) = onHand (bal db k) - (\<Sum>i\<leftarrow>i # is. qty_at db cost k i)" for k
    using db'(5) eff by (simp add: sums head)
  have res: "reserved (bal db' k) = reserved (bal db k) - (\<Sum>i\<leftarrow>i # is. qty_at db rs_quantity k i)" for k
    using db'(6) eff by (simp add: sums head)
  show ?case
    using run db'(2,3) tail on res by blast
qed simp

end

section \<open>Release and sale are finalizers\<close>

lemma release_single_active:
  assumes "stock_inv db" and "map_of (reservations db) i = Some r" and "rs_status r = RS_ACTIVE"
  shows "release_single i meta ctx db =
    andthen (release_effect i r (bal db (rs_key r)) meta ctx db) (\<lambda>db'. Inr (1, db'))"
  using assms by (simp add: release_single_def active_fits_balance[OF assms])

lemma consume_single_active:
  assumes "stock_inv db" and "map_of (reservations db) i = Some r" and "rs_status r = RS_ACTIVE"
  shows "consume_single i ctx db =
    andthen (consume_effect i r (bal db (rs_key r)) ctx db) (\<lambda>db'. Inr (1, db'))"
  using assms by (simp add: consume_single_def active_fits_balance[OF assms])

interpretation releasing: finalizer "\<lambda>i. release_single i meta ctx" RS_RELEASED "\<lambda>_. 0"
  for meta ctx
proof (unfold_locales, goal_cases)
  case (2 db i)
  then show ?case by (auto simp: release_single_def is_active_def split: option.splits)
next
  case (3 db i r)
  then show ?case
    using release_effect_returns[OF 3] by (auto simp: release_single_active res_iff)
next
  case (4 db i r n db')
  note run = 4(4)[unfolded release_single_active[OF 4(1-3)]]
  then have db': "release_effect i r (bal db (rs_key r)) meta ctx db = Inr db'" "n = 1"
    by (auto simp: res_iff)
  then show ?case
    using release_effect_inv[OF 4(1-3)]
    by (auto simp: release_effect_def res_iff stock_simps)
qed simp

interpretation selling: finalizer "\<lambda>i. consume_single i ctx" RS_CONSUMED rs_quantity
  for ctx
proof (unfold_locales, goal_cases)
  case (2 db i)
  then show ?case by (auto simp: consume_single_def is_active_def split: option.splits)
next
  case (3 db i r)
  then show ?case
    using consume_effect_returns[OF 3] by (auto simp: consume_single_active res_iff)
next
  case (4 db i r n db')
  note run = 4(4)[unfolded consume_single_active[OF 4(1-3)]]
  then have db': "consume_effect i r (bal db (rs_key r)) ctx db = Inr db'" "n = 1"
    by (auto simp: res_iff)
  then show ?case
    using consume_effect_inv[OF 4(1-3)]
    by (auto simp: consume_effect_def res_iff stock_simps)
qed simp

section \<open>All reservations of an order\<close>

lemma active_of_order_set:
  assumes "stock_inv db"
  shows "i \<in> set (active_of_order db oid) \<longleftrightarrow>
    (\<exists>r. map_of (reservations db) i = Some r \<and> rs_order r = Some oid \<and> rs_status r = RS_ACTIVE)"
proof -
  have "distinct (map fst (reservations db))"
    using stock_invD(4)[OF assms] by (simp add: rows_wf_def)
  then show ?thesis
    unfolding active_of_order_def by (auto simp: image_iff map_of_eq_Some_iff)
qed

lemma active_of_order_distinct: "stock_inv db \<Longrightarrow> distinct (active_of_order db oid)"
  using stock_invD(4)[of db] by (auto simp: active_of_order_def rows_wf_def distinct_map_filter)

lemma active_of_order_active: "stock_inv db \<Longrightarrow> \<forall>i \<in> set (active_of_order db oid). is_active db i"
  by (auto simp: active_of_order_set is_active_def)

definition order_qty :: "inv_db \<Rightarrow> uid \<Rightarrow> stock_key \<Rightarrow> int" where
  "order_qty db oid k = asum (\<lambda>_ r. if rs_order r = Some oid then active_qty k r else 0) (reservations db)"

lemma sum_filtered_rows:
  assumes "distinct (map fst t)" and "\<And>x. x \<in> set t \<Longrightarrow> g (fst x) = f (snd x)"
  shows "(\<Sum>i\<leftarrow>map fst (filter (\<lambda>(_, r). P r) t). g i) = asum (\<lambda>_ r. if P r then f r else (0::int)) t"
  using assms by (induction t) auto

lemma order_qty_sum:
  assumes "stock_inv db"
  shows "(\<Sum>i\<leftarrow>active_of_order db oid. qty_at db f k i) =
    asum (\<lambda>_ r. if rs_order r = Some oid \<and> rs_status r = RS_ACTIVE
      then (if rs_key r = k then f r else 0) else 0) (reservations db)"
  unfolding active_of_order_def sum_list_sort_key
  by (rule sum_filtered_rows)
    (use stock_invD(4)[OF assms] in \<open>auto simp: rows_wf_def qty_at_def\<close>)

lemma order_qty_sum_qty:
  "stock_inv db \<Longrightarrow> (\<Sum>i\<leftarrow>active_of_order db oid. qty_at db rs_quantity k i) = order_qty db oid k"
  unfolding order_qty_sum order_qty_def by (rule asum_cong) (simp add: active_qty_def)

lemma order_qty_sum_zero:
  "stock_inv db \<Longrightarrow> (\<Sum>i\<leftarrow>active_of_order db oid. qty_at db (\<lambda>_. 0) k i) = 0"
  unfolding order_qty_sum by (simp add: table_simps cong: if_cong)

context finalizer
begin

text \<open>Finalizing an order always succeeds, finalizes each of its active reservations once and
  leaves it none; a second run finds nothing to do.\<close>

lemma none_left:
  assumes "stock_inv db" "stock_inv db'"
    and "\<forall>j. map_of (reservations db') j = (if j \<in> set (active_of_order db oid)
        then map_option (\<lambda>r. r\<lparr>rs_status := final\<rparr>) (map_of (reservations db) j)
        else map_of (reservations db) j)"
  shows "active_of_order db' oid = []"
proof -
  have "i \<notin> set (active_of_order db' oid)" for i
    using assms final_inactive by (auto simp: active_of_order_set split: if_splits)
  then show ?thesis by (cases "active_of_order db' oid") auto
qed

lemma order_final:
  assumes "stock_inv db" "in_range db"
  obtains db' where
    "each_reservation single (active_of_order db oid) db = Inr (length (active_of_order db oid), db')"
    "stock_inv db'" "in_range db'" "active_of_order db' oid = []"
    "\<And>k. onHand (bal db' k) = onHand (bal db k) - (\<Sum>i\<leftarrow>active_of_order db oid. qty_at db cost k i)"
    "\<And>k. reserved (bal db' k) = reserved (bal db k) - order_qty db oid k"
  using each_fires[OF assms active_of_order_distinct[OF assms(1)] active_of_order_active[OF assms(1)], of oid]
    none_left[OF assms(1)] by (auto simp: order_qty_sum_qty[OF assms(1)])

end

lemma release_order_spec:
  assumes "stock_inv db" "in_range db"
  obtains db' where
    "release_order_reservations oid meta ctx db = Inr (length (active_of_order db oid), db')"
    "stock_inv db'" "in_range db'" "active_of_order db' oid = []"
    "\<And>k. shelf db' k = (onHand (bal db k), reserved (bal db k) - order_qty db oid k)"
  by (rule releasing.order_final[OF assms, of meta ctx oid])
    (simp add: release_order_reservations_def order_qty_sum_zero[OF assms(1)] shelf_def)

lemma sell_order_spec:
  assumes "stock_inv db" "in_range db"
  obtains db' where
    "each_reservation (\<lambda>i. consume_single i ctx) (active_of_order db oid) db
       = Inr (length (active_of_order db oid), db')"
    "stock_inv db'" "in_range db'" "active_of_order db' oid = []"
    "\<And>k. shelf db' k = (onHand (bal db k) - order_qty db oid k, reserved (bal db k) - order_qty db oid k)"
  by (rule selling.order_final[OF assms, of ctx oid])
    (simp add: order_qty_sum_qty[OF assms(1)] shelf_def)

end
