(* ===== verification/Expiry.thy ===== *)
theory Expiry
  imports Reservation_Lifecycle
begin

text \<open>
  The expiry worker: planning the rows of a batch per balance and applying the plan together is
  the same as releasing the due reservations one by one, and it always commits.
\<close>

section \<open>Sums of a batch\<close>

definition row_qty :: "stock_key \<Rightarrow> (uid \<times> reservation) list \<Rightarrow> int" where
  "row_qty k rows = asum (\<lambda>_ r. if rs_key r = k then rs_quantity r else 0) rows"

definition row_count :: "stock_key \<Rightarrow> (uid \<times> reservation) list \<Rightarrow> int" where
  "row_count k rows = asum (\<lambda>_ r. if rs_key r = k then 1 else 0) rows"

lemma row_sums_Cons [simp]:
  "row_qty k (x # rows) = (if rs_key (snd x) = k then rs_quantity (snd x) else 0) + row_qty k rows"
  "row_count k (x # rows) = (if rs_key (snd x) = k then 1 else 0) + row_count k rows"
  "row_qty k [] = 0" "row_count k [] = 0"
  by (simp_all add: row_qty_def row_count_def)

lemma row_qty_nonneg: "\<forall>x \<in> set rows. 0 < rs_quantity (snd x) \<Longrightarrow> 0 \<le> row_qty k rows"
  by (induction rows) auto

lemma row_count_nonneg: "0 \<le> row_count k rows"
  by (induction rows) auto

lemma row_qty_none: "row_count k rows = 0 \<Longrightarrow> row_qty k rows = 0"
proof (induction rows)
  case (Cons x rows)
  then show ?case using row_count_nonneg[of k rows] by (auto split: if_splits)
qed simp

section \<open>Planning\<close>

definition enough :: "(stock_key \<times> expiry_group) list \<Rightarrow> (uid \<times> reservation) list \<Rightarrow> bool" where
  "enough groups rows \<longleftrightarrow>
     (\<forall>x \<in> set rows. 0 < rs_quantity (snd x) \<and> map_of groups (rs_key (snd x)) \<noteq> None)
     \<and> (\<forall>k g. map_of groups k = Some g \<longrightarrow> row_qty k rows \<le> reserved (eg_balance g) - eg_quantity g)"

definition charge :: "int \<Rightarrow> int \<Rightarrow> expiry_group \<Rightarrow> expiry_group" where
  "charge q n g = g\<lparr>eg_quantity := eg_quantity g + q, eg_count := eg_count g + n\<rparr>"

lemma plan_returns:
  "enough groups rows \<Longrightarrow> \<exists>gs es. plan_reservation_expiry ctx rows groups = Inr (gs, es)
     \<and> map fst gs = map fst groups \<and> length es = length rows
     \<and> (\<forall>k. map_of gs k = map_option (charge (row_qty k rows) (row_count k rows)) (map_of groups k))"
proof (induction rows arbitrary: groups)
  case Nil
  then show ?case by (auto simp: charge_def option.map_ident)
next
  case (Cons x rows)
  obtain i r where x: "x = (i, r)" by force
  obtain g where g: "map_of groups (rs_key r) = Some g" and q: "0 < rs_quantity r"
    using Cons.prems by (auto simp: enough_def x)
  have rest: "0 \<le> row_qty (rs_key r) rows"
    using Cons.prems by (intro row_qty_nonneg) (auto simp: enough_def)
  have "row_qty (rs_key r) (x # rows) \<le> reserved (eg_balance g) - eg_quantity g"
    using Cons.prems g by (auto simp: enough_def)
  then have fits: "rs_quantity r + row_qty (rs_key r) rows \<le> reserved (eg_balance g) - eg_quantity g"
    by (simp add: x)
  define groups' where "groups' = AList.update (rs_key r) (charge (rs_quantity r) 1 g) groups"
  have "enough groups' rows"
    using Cons.prems fits unfolding enough_def groups'_def
    by (auto simp: update_conv charge_def x split: if_splits)
  from Cons.IH[OF this] obtain gs es where
    ih: "plan_reservation_expiry ctx rows groups' = Inr (gs, es)" "map fst gs = map fst groups'"
      "length es = length rows"
      "\<forall>k. map_of gs k = map_option (charge (row_qty k rows) (row_count k rows)) (map_of groups' k)"
    by blast
  have keys: "map fst groups' = map fst groups"
    using g by (auto simp: groups'_def update_keys dest!: map_of_SomeD intro: rev_image_eqI)
  have run: "\<exists>e. plan_reservation_expiry ctx (x # rows) groups = Inr (gs, e # es)"
    using g fits rest ih(1) by (auto simp: x Let_def groups'_def charge_def)
  have "\<forall>k. map_of gs k =
      map_option (charge (row_qty k (x # rows)) (row_count k (x # rows))) (map_of groups k)"
    using g by (auto simp: ih(4) groups'_def update_conv x charge_def ac_simps)
  then show ?case using run ih(2,3) keys by auto
qed

section \<open>Applying\<close>

definition expired_balance :: "int \<Rightarrow> int \<Rightarrow> balance \<Rightarrow> balance" where
  "expired_balance q n b =
     b\<lparr>reserved := reserved b - q, available := available b + q, bal_version := bal_version b + n\<rparr>"

lemma expired_balance_fields [simp]:
  "onHand (expired_balance q n b) = onHand b"
  "reserved (expired_balance q n b) = reserved b - q"
  "available (expired_balance q n b) = available b + q"
  "expired_balance 0 0 b = b"
  by (simp_all add: expired_balance_def)

lemma apply_returns:
  assumes "distinct (map fst gs)"
    and "\<forall>x \<in> set gs. eg_count (snd x) = 0 \<longrightarrow> eg_quantity (snd x) = 0"
    and "\<forall>x \<in> set gs. let b = expired_balance (eg_quantity (snd x)) (eg_count (snd x)) (bal db (fst x)) in
      int4 (onHand b) \<and> int4 (reserved b) \<and> int4 (available b)"
  shows "\<exists>bs. apply_expiry_groups gs db = Inr (db\<lparr>balances := bs\<rparr>)
    \<and> (distinct (map fst (balances db)) \<longrightarrow> distinct (map fst bs))
    \<and> (\<forall>k. bal (db\<lparr>balances := bs\<rparr>) k = (case map_of gs k of None \<Rightarrow> bal db k
         | Some g \<Rightarrow> expired_balance (eg_quantity g) (eg_count g) (bal db k)))"
  using assms
proof (induction gs arbitrary: db)
  case Nil
  show ?case by (rule exI[of _ "balances db"]) simp
next
  case (Cons x gs)
  obtain k g where x: "x = (k, g)" by force
  have hyp: "distinct (map fst gs)" "\<forall>x \<in> set gs. eg_count (snd x) = 0 \<longrightarrow> eg_quantity (snd x) = 0"
    using Cons.prems(1,2) by simp_all
  have fresh: "map_of gs k = None"
    using Cons.prems(1) by (auto simp: x map_of_eq_None_iff)
  show ?case
  proof (cases "eg_count g = 0")
    case True
    have "\<forall>x \<in> set gs. let b = expired_balance (eg_quantity (snd x)) (eg_count (snd x)) (bal db (fst x)) in
        int4 (onHand b) \<and> int4 (reserved b) \<and> int4 (available b)"
      using Cons.prems(3) by simp
    from Cons.IH[OF hyp this] obtain bs where
      ih: "apply_expiry_groups gs db = Inr (db\<lparr>balances := bs\<rparr>)"
        "distinct (map fst (balances db)) \<longrightarrow> distinct (map fst bs)"
        "\<forall>k. bal (db\<lparr>balances := bs\<rparr>) k = (case map_of gs k of None \<Rightarrow> bal db k
           | Some g \<Rightarrow> expired_balance (eg_quantity g) (eg_count g) (bal db k))"
      by (elim exE conjE) (rule that)
    have run: "apply_expiry_groups (x # gs) db = Inr (db\<lparr>balances := bs\<rparr>)"
      using True ih(1) by (simp add: x)
    have "bal (db\<lparr>balances := bs\<rparr>) k' = (case map_of (x # gs) k' of None \<Rightarrow> bal db k'
           | Some g \<Rightarrow> expired_balance (eg_quantity g) (eg_count g) (bal db k'))" for k'
      using True Cons.prems(2) ih(3) by (cases "k' = k") (simp_all add: x fresh)
    then show ?thesis by (intro exI[of _ bs] conjI allI run ih(2))
  next
    case False
    define b' where "b' = expired_balance (eg_quantity g) (eg_count g) (bal db k)"
    define db1 where "db1 = db\<lparr>balances := AList.update k b' (balances db)\<rparr>"
    have bal1: "bal db1 k' = (if k' = k then b' else bal db k')" for k'
      by (simp add: db1_def stock_simps)
    have put: "put_balance k b' db = Inr db1"
      using Cons.prems(3) by (simp add: put_balance_def x db1_def b'_def Let_def)
    have other: "fst y \<noteq> k" if "y \<in> set gs" for y
      using Cons.prems(1) that by (auto simp: x image_iff)
    have "\<forall>y \<in> set gs. let b = expired_balance (eg_quantity (snd y)) (eg_count (snd y)) (bal db1 (fst y)) in
        int4 (onHand b) \<and> int4 (reserved b) \<and> int4 (available b)"
      using Cons.prems(3) other by (auto simp: bal1)
    from Cons.IH[OF hyp this] obtain bs where
      ih: "apply_expiry_groups gs db1 = Inr (db1\<lparr>balances := bs\<rparr>)"
        "distinct (map fst (balances db1)) \<longrightarrow> distinct (map fst bs)"
        "\<forall>k. bal (db1\<lparr>balances := bs\<rparr>) k = (case map_of gs k of None \<Rightarrow> bal db1 k
           | Some g \<Rightarrow> expired_balance (eg_quantity g) (eg_count g) (bal db1 k))"
      by (elim exE conjE) (rule that)
    have over: "db1\<lparr>balances := bs\<rparr> = db\<lparr>balances := bs\<rparr>" by (simp add: db1_def)
    have run: "apply_expiry_groups (x # gs) db = Inr (db\<lparr>balances := bs\<rparr>)"
      using False put ih(1) over by (simp add: x Let_def b'_def expired_balance_def)
    have keys: "distinct (map fst (balances db)) \<longrightarrow> distinct (map fst bs)"
      using ih(2) by (simp add: db1_def distinct_update)
    have "bal (db\<lparr>balances := bs\<rparr>) k' = (case map_of (x # gs) k' of None \<Rightarrow> bal db k'
           | Some g \<Rightarrow> expired_balance (eg_quantity g) (eg_count g) (bal db k'))" for k'
      using ih(3)[unfolded over] by (cases "k' = k") (simp_all add: x fresh bal1 b'_def split: option.split)
    then show ?thesis by (intro exI[of _ bs] conjI allI run keys)
  qed
qed

section \<open>The batch\<close>

definition stable_keys :: "(uid \<times> reservation) list \<Rightarrow> inv_db \<Rightarrow> bool" where
  "stable_keys candidates db \<longleftrightarrow> (\<forall>x \<in> set (reservations db). fst x \<in> fst ` set candidates
     \<longrightarrow> map_option rs_key (map_of candidates (fst x)) = Some (rs_key (snd x)))"

lemma asum_filter_le:
  "\<forall>x \<in> set t. 0 \<le> f (snd x) \<Longrightarrow>
     asum (\<lambda>_ r. f r) (filter P t) \<le> asum (\<lambda>_ r. f r) t"
  by (induction t) auto

definition batch_rows :: "int \<Rightarrow> uid set \<Rightarrow> inv_db \<Rightarrow> (uid \<times> reservation) list" where
  "batch_rows now ids db = expiry_order (filter (\<lambda>(i, r). i \<in> ids \<and> due now r) (reservations db))"

lemma batch_rows_set:
  "set (batch_rows now ids db) = {x \<in> set (reservations db). fst x \<in> ids \<and> due now (snd x)}"
  by (auto simp: batch_rows_def expiry_order_def)

lemma batch_fits:
  assumes "stock_inv db"
  shows "row_qty k (batch_rows now ids db) \<le> reserved (bal db k)"
proof -
  have pos: "\<forall>x \<in> set (reservations db). 0 < rs_quantity (snd x)"
    using stock_invD(4)[OF assms] by (auto simp: rows_wf_def)
  have "row_qty k (batch_rows now ids db) = asum (\<lambda>_ r. active_qty k r)
      (filter (\<lambda>(i, r). i \<in> ids \<and> due now r) (reservations db))"
    unfolding row_qty_def batch_rows_def expiry_order_def asum_sort_key
    by (rule asum_cong) (auto simp: active_qty_def due_def)
  also have "\<dots> \<le> held db k"
    unfolding held_def using pos by (intro asum_filter_le) (auto simp: active_qty_def)
  also have "\<dots> = reserved (bal db k)" by (simp add: stock_invD(2)[OF assms])
  finally show ?thesis .
qed

lemma map_of_filter_key:
  "map_of (map (\<lambda>(k, b). (k, f b)) (filter (\<lambda>(k, _). k \<in> ks) t)) k =
     (if k \<in> ks then map_option f (map_of t k) else None)"
  by (induction t) auto

text \<open>The groups the body starts from hold the balances of the candidates' keys.\<close>

definition batch_groups :: "stock_key set \<Rightarrow> inv_db \<Rightarrow> (stock_key \<times> expiry_group) list" where
  "batch_groups ks db = map (\<lambda>(k, b). (k, \<lparr>eg_balance = b, eg_quantity = 0, eg_count = 0\<rparr>))
     (filter (\<lambda>(k, _). k \<in> ks) (balances db))"

lemma batch_enough:
  assumes inv: "stock_inv db"
    and ks: "\<forall>x \<in> set (batch_rows now ids db). rs_key (snd x) \<in> ks"
  shows "enough (batch_groups ks db) (batch_rows now ids db)"
  unfolding enough_def
proof (intro conjI ballI allI impI)
  fix x assume x: "x \<in> set (batch_rows now ids db)"
  obtain i r where ir: "x = (i, r)" by force
  have row: "map_of (reservations db) i = Some r" "rs_status r = RS_ACTIVE"
    using x stock_invD(4)[OF inv] by (auto simp: batch_rows_set ir rows_wf_def due_def)
  show "0 < rs_quantity (snd x)" using active_row(1)[OF inv row(1)] by (simp add: ir)
  have "map_of (balances db) (rs_key r) \<noteq> None"
    using active_fits_balance[OF inv row] by (auto simp: res_iff)
  then show "map_of (batch_groups ks db) (rs_key (snd x)) \<noteq> None"
    using ks x by (auto simp: batch_groups_def map_of_filter_key ir)
next
  fix k g assume "map_of (batch_groups ks db) k = Some g"
  then show "row_qty k (batch_rows now ids db) \<le> reserved (eg_balance g) - eg_quantity g"
    using batch_fits[OF inv, of k now ids]
    by (auto simp: batch_groups_def map_of_filter_key bal_Some split: if_splits)
qed

lemma batch_groups_keys: "distinct (map fst (balances db)) \<Longrightarrow> distinct (map fst (batch_groups ks db))"
  by (simp add: batch_groups_def distinct_map_filter comp_def case_prod_beta)

text \<open>Charging every row to its group: no group is left over-committed, and the balances become those
  with the due quantities withdrawn.\<close>

lemma batch_commits:
  assumes inv: "stock_inv db" and rng: "in_range db"
    and ks: "\<forall>x \<in> set (batch_rows now ids db). rs_key (snd x) \<in> ks"
  shows "\<exists>gs es bs. plan_reservation_expiry ctx (batch_rows now ids db) (batch_groups ks db) = Inr (gs, es)
    \<and> apply_expiry_groups gs db = Inr (db\<lparr>balances := bs\<rparr>) \<and> distinct (map fst bs)
    \<and> (\<forall>k. bal (db\<lparr>balances := bs\<rparr>) k = expired_balance (row_qty k (batch_rows now ids db))
          (row_count k (batch_rows now ids db)) (bal db k))"
proof -
  let ?rows = "batch_rows now ids db"
  have dist: "distinct (map fst (balances db))" using stock_invD(4)[OF inv] by (simp add: rows_wf_def)
  from plan_returns[OF batch_enough[OF inv ks], of ctx] obtain gs es where
    plan: "plan_reservation_expiry ctx ?rows (batch_groups ks db) = Inr (gs, es)"
      "map fst gs = map fst (batch_groups ks db)"
      "\<forall>k. map_of gs k = map_option (charge (row_qty k ?rows) (row_count k ?rows)) (map_of (batch_groups ks db) k)"
    by (elim exE conjE) (rule that)
  have dgs: "distinct (map fst gs)" using plan(2) batch_groups_keys[OF dist] by simp
  have member: "eg_quantity g = row_qty k ?rows \<and> eg_count g = row_count k ?rows"
    if "map_of gs k = Some g" for k g
    using that plan(3)
    by (auto simp: batch_groups_def map_of_filter_key charge_def split: if_splits)
  have of_set: "map_of gs (fst x) = Some (snd x)" if "x \<in> set gs" for x
    using that dgs by (metis map_of_eq_Some_iff prod.collapse)
  have zero: "\<forall>x \<in> set gs. eg_count (snd x) = 0 \<longrightarrow> eg_quantity (snd x) = 0"
    using member of_set row_qty_none by metis
  have pos: "0 \<le> row_qty k ?rows" for k
    using stock_invD(4)[OF inv] by (intro row_qty_nonneg) (auto simp: batch_rows_set rows_wf_def)
  have fine: "int4 (onHand (bal db k)) \<and> int4 (reserved (bal db k) - row_qty k ?rows)
      \<and> int4 (available (bal db k) + row_qty k ?rows)" for k
    using rng pos[of k] batch_fits[OF inv, of k now ids] stock_invD(1)[OF inv, of k]
    by (auto simp: in_range_def int4_def consistent_def dest: spec[of _ k])
  have "\<forall>x \<in> set gs. let b = expired_balance (eg_quantity (snd x)) (eg_count (snd x)) (bal db (fst x)) in
      int4 (onHand b) \<and> int4 (reserved b) \<and> int4 (available b)"
  proof
    fix x assume "x \<in> set gs"
    from member[OF of_set[OF this]] show "let b = expired_balance (eg_quantity (snd x)) (eg_count (snd x))
        (bal db (fst x)) in int4 (onHand b) \<and> int4 (reserved b) \<and> int4 (available b)"
      using fine by simp
  qed
  from apply_returns[OF dgs zero this] obtain bs where
    app: "apply_expiry_groups gs db = Inr (db\<lparr>balances := bs\<rparr>)"
      "distinct (map fst (balances db)) \<longrightarrow> distinct (map fst bs)"
      "\<forall>k. bal (db\<lparr>balances := bs\<rparr>) k = (case map_of gs k of None \<Rightarrow> bal db k
         | Some g \<Rightarrow> expired_balance (eg_quantity g) (eg_count g) (bal db k))"
    by (elim exE conjE) (rule that)
  have unheld: "row_count k ?rows = 0" if "map_of gs k = None" for k
  proof -
    have g: "map_of (batch_groups ks db) k = None" using that plan(3) by simp
    have "rs_key (snd x) \<noteq> k" if "x \<in> set ?rows" for x
      using batch_enough[OF inv ks] that g by (auto simp: enough_def)
    then have "row_count k ?rows = asum (\<lambda>_ _. 0) ?rows"
      unfolding row_count_def by (intro asum_cong) force
    then show ?thesis by (simp add: table_simps)
  qed
  have "bal (db\<lparr>balances := bs\<rparr>) k = expired_balance (row_qty k ?rows) (row_count k ?rows) (bal db k)" for k
    using app(3) member unheld row_qty_none by (cases "map_of gs k") auto
  then show ?thesis using plan(1) app(1,2) dist by blast
qed

section \<open>Marking the rows\<close>

lemma expire_rows_lookup:
  "map_of (reservations (expire_rows ids now db)) i =
     map_option (\<lambda>r. if i \<in> ids \<and> due now r then r\<lparr>rs_status := RS_EXPIRED\<rparr> else r)
       (map_of (reservations db) i)"
  by (simp add: expire_rows_def table_simps)

lemma expire_rows_fields [simp]:
  "balances (expire_rows ids now db) = balances db"
  "movements (expire_rows ids now db) = movements db"
  "audits (expire_rows ids now db) = audits db"
  "transfers (expire_rows ids now db) = transfers db"
  "next_id (expire_rows ids now db) = next_id db"
  by (simp_all add: expire_rows_def)

lemma bal_expire_rows [stock_simps]: "bal (expire_rows ids now db) = bal db"
  by (simp add: bal_def fun_eq_iff)

lemma ledger_expire_rows [stock_simps]: "ledger (expire_rows ids now db) = ledger db"
  by (simp add: ledger_def fun_eq_iff)

lemma held_expire_rows:
  "held (expire_rows ids now db) k = held db k - row_qty k (batch_rows now ids db)"
proof -
  have "row_qty k (batch_rows now ids db) =
      asum (\<lambda>i r. if i \<in> ids \<and> due now r then active_qty k r else 0) (reservations db)"
    unfolding row_qty_def batch_rows_def expiry_order_def asum_sort_key asum_filter
    by (rule asum_cong) (auto simp: active_qty_def due_def)
  moreover have "held (expire_rows ids now db) k = asum (\<lambda>i r. active_qty k r
      - (if i \<in> ids \<and> due now r then active_qty k r else 0)) (reservations db)"
    unfolding held_def expire_rows_def
    by (simp add: table_simps, rule asum_cong) (auto simp: active_qty_def due_def)
  ultimately show ?thesis by (simp add: asum_diff held_def)
qed

lemma rows_wf_expire: "rows_wf db \<Longrightarrow> rows_wf (expire_rows ids now db)"
  by (auto simp: rows_wf_def expire_rows_def table_simps simp del: split_paired_All
      split: if_splits)

lemma batch_rows_length:
  "length (filter (\<lambda>(i, r). i \<in> set (map fst (batch_rows now ids db)) \<and> due now r) (reservations db))
     = length (batch_rows now ids db)"
proof -
  have "filter (\<lambda>(i, r). i \<in> set (map fst (batch_rows now ids db)) \<and> due now r) (reservations db) =
      filter (\<lambda>(i, r). i \<in> ids \<and> due now r) (reservations db)"
    by (rule filter_cong) (auto simp: batch_rows_set image_iff)
  then show ?thesis by (simp add: batch_rows_def expiry_order_def)
qed

lemma expire_same_rows:
  "expire_rows (set (map fst (batch_rows now ids db))) now (db\<lparr>balances := bs\<rparr>)
     = expire_rows ids now (db\<lparr>balances := bs\<rparr>)"
  unfolding expire_rows_def by (auto simp: batch_rows_set image_iff intro!: inv_db.equality)

section \<open>The worker always commits\<close>

lemma expire_body_returns:
  assumes inv: "stock_inv db" and rng: "in_range db" and st: "stable_keys candidates db"
  obtains db' where
    "expire_body ctx now candidates db
       = Inr (length (batch_rows now (set (map fst candidates)) db), db')"
    "stock_inv db'" "in_range db'"
    "\<And>i. map_of (reservations db') i =
       map_option (\<lambda>r. if i \<in> set (map fst candidates) \<and> due now r then r\<lparr>rs_status := RS_EXPIRED\<rparr> else r)
         (map_of (reservations db) i)"
    "\<And>k. shelf db' k = (onHand (bal db k),
       reserved (bal db k) - row_qty k (batch_rows now (set (map fst candidates)) db))"
proof -
  let ?ids = "set (map fst candidates)" and ?ks = "set (map (rs_key \<circ> snd) candidates)"
  let ?rows = "batch_rows now ?ids db"
  have row_key: "map_option rs_key (map_of candidates (fst x)) = Some (rs_key (snd x))"
    if "x \<in> set ?rows" for x
    using that st by (auto simp: batch_rows_set stable_keys_def)
  have ks: "\<forall>x \<in> set ?rows. rs_key (snd x) \<in> ?ks"
  proof
    fix x assume "x \<in> set ?rows"
    from row_key[OF this] obtain r0 where
      r0: "map_of candidates (fst x) = Some r0" "rs_key r0 = rs_key (snd x)" by auto
    from imageI[OF map_of_SomeD[OF r0(1)], of "rs_key \<circ> snd"] show "rs_key (snd x) \<in> ?ks"
      by (simp add: r0(2))
  qed
  from batch_commits[OF inv rng ks, of ctx] obtain gs es bs where
    plan: "plan_reservation_expiry ctx ?rows (batch_groups ?ks db) = Inr (gs, es)"
      "apply_expiry_groups gs db = Inr (db\<lparr>balances := bs\<rparr>)" "distinct (map fst bs)"
      "\<forall>k. bal (db\<lparr>balances := bs\<rparr>) k = expired_balance (row_qty k ?rows) (row_count k ?rows) (bal db k)"
    by (elim exE conjE) (rule that)
  define db2 where "db2 = expire_rows ?ids now (db\<lparr>balances := bs\<rparr>)"
  define db' where "db' = (if ?rows = [] then db else db2\<lparr>audits := audits db2 @ es\<rparr>)"
  have moved: "\<not> (\<exists>(i, r) \<in> set ?rows. map_option rs_key (map_of candidates i) \<noteq> Some (rs_key r))"
    by (clarify, drule row_key) (auto simp: map_option_eq_Some)
  have bal2: "bal db2 k = expired_balance (row_qty k ?rows) (row_count k ?rows) (bal db k)" for k
    using plan(4) by (simp add: db2_def stock_simps)
  have fits: "row_qty k ?rows \<le> reserved (bal db k)" "0 \<le> row_qty k ?rows" for k
    using batch_fits[OF inv, of k now ?ids] stock_invD(4)[OF inv]
    by (auto intro!: row_qty_nonneg simp: batch_rows_set rows_wf_def)
  have held2: "held db2 k = held db k - row_qty k ?rows" for k
    unfolding db2_def held_expire_rows by (simp add: stock_simps batch_rows_def)
  have ledger2: "ledger db2 = ledger db" by (simp add: db2_def stock_simps)
  have wf2: "rows_wf db2"
    unfolding db2_def using stock_invD(4)[OF inv] plan(3) by (intro rows_wf_expire) (simp add: rows_wf_def)
  have "consistent (bal db2 k)" for k
    using fits[of k] stock_invD(1)[OF inv, of k] by (simp add: bal2 consistent_def)
  then have inv2: "stock_inv db2"
    unfolding stock_inv_def using wf2 stock_invD(2,3)[OF inv]
    by (simp add: bal2 held2 ledger2)
  have "int4 (reserved (bal db k) - row_qty k ?rows) \<and> int4 (available (bal db k) + row_qty k ?rows)" for k
    using rng fits[of k] stock_invD(1)[OF inv, of k]
    by (auto simp: in_range_def int4_def consistent_def dest: spec[of _ k])
  then have rng2: "in_range db2"
    using rng by (simp add: in_range_def bal2)
  have idle: "map_of (reservations db) i \<noteq> Some r \<or> \<not> (i \<in> ?ids \<and> due now r)"
    if "?rows = []" for i r
    using that batch_rows_set[of now ?ids db] by (auto dest: map_of_SomeD)
  show ?thesis
  proof (rule that[of db'])
    show "expire_body ctx now candidates db = Inr (length ?rows, db')"
      using plan(1,2) moved batch_rows_length[of now ?ids db] expire_same_rows[of now ?ids db bs]
      by (simp add: expire_body_def Let_def batch_rows_def[symmetric] batch_groups_def[symmetric]
          db'_def db2_def)
    show "stock_inv db'"
      using inv inv2 by (simp add: db'_def stock_inv_def stock_simps)
    show "in_range db'"
      using rng rng2 by (simp add: db'_def in_range_def stock_simps)
    show "map_of (reservations db') i = map_option
        (\<lambda>r. if i \<in> ?ids \<and> due now r then r\<lparr>rs_status := RS_EXPIRED\<rparr> else r)
        (map_of (reservations db) i)" for i
      using idle[of i] by (cases "map_of (reservations db) i")
        (auto simp: db'_def db2_def expire_rows_lookup)
    show "shelf db' k = (onHand (bal db k), reserved (bal db k) - row_qty k ?rows)" for k
      by (simp add: shelf_def db'_def stock_simps bal2)
  qed
qed

end
