(* ===== verification/Transfers.thy ===== *)
theory Transfers
  imports Stock_Invariant
begin

text \<open>
  Stock transfers between warehouses: the document and its transitions, and the movements that
  take goods out of the source on dispatch and into the target on receipt.
\<close>

section \<open>The document\<close>

text \<open>\<open>MAX_TRANSFER_ITEMS\<close> of \<open>packages/contracts\<close>.\<close>

definition max_transfer_items :: nat where
  "max_transfer_items = 100"

record create_item =
  ci_variant :: uid
  ci_quantity :: js_number
  ci_source :: "uid option"
  ci_target :: "uid option"

record create_transfer_command = actor_context +
  ct_code :: "string option"
  ct_source :: uid
  ct_target :: uid
  ct_items :: "create_item list"
  ct_idem :: "string option"

definition assert_warehouse_pair :: "inv_db \<Rightarrow> uid \<Rightarrow> uid \<Rightarrow> unit res" where
  "assert_warehouse_pair db source target =
     throw_if (source = target) (BadRequest ''Source and target warehouses must be different.'')
     (throw_if (map_of (warehouses db) source = None) (NotFound ''WAREHOUSE_NOT_FOUND'')
     (throw_if (map_of (warehouses db) target = None) (NotFound ''WAREHOUSE_NOT_FOUND'') (Inr ())))"

definition assert_variants :: "inv_db \<Rightarrow> uid list \<Rightarrow> unit res" where
  "assert_variants db ids =
     throw_if (\<exists>i \<in> set ids. map_of (variants db) i = None) (NotFound ''SKU_NOT_FOUND'') (Inr ())"

definition stored_item :: "create_item \<Rightarrow> transfer_item" where
  "stored_item c = \<lparr>ti_variant = ci_variant c, ti_quantity = the_int (ci_quantity c),
     ti_source = ci_source c, ti_target = ci_target c\<rparr>"

text \<open>\<open>transferMatches\<close> compares the code with the command's, before trimming.\<close>

definition transfer_matches :: "transfer \<Rightarrow> create_transfer_command \<Rightarrow> bool" where
  "transfer_matches t c \<longleftrightarrow>
     tr_source t = ct_source c \<and> tr_target t = ct_target c
     \<and> (case ct_code c of None \<Rightarrow> True | Some code \<Rightarrow> tr_code t = code)
     \<and> tr_items t = map stored_item (ct_items c)"

definition transfer_by_idem :: "inv_db \<Rightarrow> string \<Rightarrow> (uid \<times> transfer) option" where
  "transfer_by_idem db key = List.find (\<lambda>(_, t). tr_idem t = Some key) (transfers db)"

text \<open>\<open>command.code?.trim() || TRF-...\<close>; the random code is an argument.\<close>

definition transfer_code :: "string option \<Rightarrow> string \<Rightarrow> string" where
  "transfer_code code fresh = (if blank code then fresh else trim (the code))"

definition new_transfer :: "create_transfer_command \<Rightarrow> string \<Rightarrow> transfer" where
  "new_transfer c fresh =
     \<lparr>tr_code = transfer_code (ct_code c) fresh, tr_source = ct_source c, tr_target = ct_target c,
      tr_status = TS_DRAFT, tr_version = 0, tr_idem = ct_idem c,
      tr_items = map stored_item (ct_items c)\<rparr>"

definition location_exists :: "inv_db \<Rightarrow> uid option \<Rightarrow> bool" where
  "location_exists db loc = (case loc of None \<Rightarrow> True | Some l \<Rightarrow> map_of (locations db) l \<noteq> None)"

text \<open>\<open>stockTransfer.create\<close>: code and idempotency key are unique, the locations are foreign keys and
  the quantities 32-bit columns.\<close>

definition add_transfer :: "transfer \<Rightarrow> inv_db \<Rightarrow> (uid \<times> inv_db) res" where
  "add_transfer t db =
     throw_if (\<exists>x \<in> set (transfers db). tr_code (snd x) = tr_code t) (DbError ''P2002'')
     (throw_if (case tr_idem t of None \<Rightarrow> False | Some key \<Rightarrow> transfer_by_idem db key \<noteq> None)
       (DbError ''P2002'')
     (throw_if (\<exists>it \<in> set (tr_items t). \<not> int4 (ti_quantity it)) (DbError ''22003'')
     (throw_if (\<exists>it \<in> set (tr_items t).
         \<not> location_exists db (ti_source it) \<or> \<not> location_exists db (ti_target it)) (DbError ''P2003'')
     (Inr (next_id db, db\<lparr>transfers := transfers db @ [(next_id db, t)], next_id := Suc (next_id db)\<rparr>)))))"

definition transfer_created_event :: "create_transfer_command \<Rightarrow> transfer \<Rightarrow> uid \<Rightarrow> audit_event" where
  "transfer_created_event c t i =
     \<lparr>ae_action = ''inventory.transfer.created'', ae_entity = ''stock-transfer'', ae_entity_id = i,
      ae_before = [],
      ae_after = [(''code'', JStr (tr_code t)), (''sourceWarehouseId'', JId (tr_source t)),
                  (''targetWarehouseId'', JId (tr_target t))],
      ae_metadata = [(''itemCount'', JNum (int (length (ct_items c))))],
      ae_actor = ctx_actor c, ae_request = ctx_request c\<rparr>"

definition create_transfer ::
  "create_transfer_command \<Rightarrow> string \<Rightarrow> inv_db \<Rightarrow> ((uid \<times> transfer) \<times> inv_db) res" where
  "create_transfer c fresh db =
     andthen (assert_tracked (actor_context.truncate c)) (\<lambda>_.
     throw_if (ct_items c = []) (BadRequest ''TRANSFER_NO_ITEMS'')
     (throw_if (length (ct_items c) > max_transfer_items) (BadRequest ''INVALID_REQUEST'')
     (throw_if (\<exists>it \<in> set (ct_items c).
         \<not> is_integer (ci_quantity it) \<or> the_int (ci_quantity it) \<le> 0) (BadRequest ''INVALID_REQUEST'')
     (case (if truthy (ct_idem c) then transfer_by_idem db (the (ct_idem c)) else None) of
        Some it \<Rightarrow>
          throw_if (\<not> transfer_matches (snd it) c) (Conflict ''Idempotency conflict'') (Inr (it, db))
      | None \<Rightarrow>
          andthen (assert_warehouse_pair db (ct_source c) (ct_target c)) (\<lambda>_.
          andthen (assert_variants db (map ci_variant (ct_items c))) (\<lambda>_.
          andthen (add_transfer (new_transfer c fresh) db) (\<lambda>(i, db1).
          Inr ((i, new_transfer c fresh),
               record_audit (transfer_created_event c (new_transfer c fresh) i) db1))))))))"

section \<open>The movements of a dispatch or receipt\<close>

datatype direction = DirOut | DirIn

definition item_location :: "direction \<Rightarrow> transfer_item \<Rightarrow> uid option" where
  "item_location d it = (case d of DirOut \<Rightarrow> ti_source it | DirIn \<Rightarrow> ti_target it)"

definition transfer_warehouse :: "direction \<Rightarrow> transfer \<Rightarrow> uid" where
  "transfer_warehouse d t = (case d of DirOut \<Rightarrow> tr_source t | DirIn \<Rightarrow> tr_target t)"

definition item_delta :: "direction \<Rightarrow> transfer_item \<Rightarrow> int" where
  "item_delta d it = (case d of DirOut \<Rightarrow> - ti_quantity it | DirIn \<Rightarrow> ti_quantity it)"

definition item_key :: "direction \<Rightarrow> transfer \<Rightarrow> transfer_item \<Rightarrow> stock_key" where
  "item_key d t it = StockKey (transfer_warehouse d t) (the (item_location d it)) (ti_variant it)"

definition transfer_movement :: "direction \<Rightarrow> transfer \<Rightarrow> transfer_item \<Rightarrow> int \<Rightarrow> movement" where
  "transfer_movement d t it was =
     \<lparr>mv_key = item_key d t it,
      mv_type = (case d of DirOut \<Rightarrow> TRANSFER_OUT | DirIn \<Rightarrow> TRANSFER_IN),
      mv_quantity = item_delta d it, mv_before = was, mv_after = was + item_delta d it,
      mv_reason = Some (case d of DirOut \<Rightarrow> ''Transfer dispatch'' | DirIn \<Rightarrow> ''Transfer receive''),
      mv_ref_type = Some ''stock-transfer'', mv_ref_id = Some (JStr (tr_code t)), mv_idem = None\<rparr>"

text \<open>The projection runs over the items in order, so that two items of one key see each other.\<close>

fun project_items ::
  "direction \<Rightarrow> transfer \<Rightarrow> transfer_item list \<Rightarrow> (stock_key \<times> balance) list
     \<Rightarrow> (movement list \<times> (stock_key \<times> balance) list) res" where
  "project_items d t [] proj = Inr ([], proj)"
| "project_items d t (it # items) proj =
     need (map_of proj (item_key d t it)) (DbError ''Projected inventory balance was not initialized.'') (\<lambda>b.
     throw_if (onHand b + item_delta d it < 0 \<or> onHand b + item_delta d it - reserved b < 0)
       (Conflict ''INSUFFICIENT_STOCK'')
     (andthen (project_items d t items
         (AList.update (item_key d t it) (b\<lparr>onHand := onHand b + item_delta d it\<rparr>) proj)) (\<lambda>(ms, proj').
      Inr (transfer_movement d t it (onHand b) # ms, proj'))))"

fun put_projected :: "(stock_key \<times> balance) list \<Rightarrow> inv_db \<Rightarrow> inv_db res" where
  "put_projected [] db = Inr db"
| "put_projected ((k, b) # proj) db =
     andthen (put_balance k
       (b\<lparr>available := onHand b - reserved b, bal_version := bal_version b + 1\<rparr>) db) (put_projected proj)"

fun add_movements :: "movement list \<Rightarrow> inv_db \<Rightarrow> inv_db" where
  "add_movements [] db = db"
| "add_movements (m # ms) db = add_movements ms
     (db\<lparr>movements := movements db @ [(next_id db, m)], next_id := Suc (next_id db)\<rparr>)"

text \<open>\<open>new Map(entries)\<close> keeps the position of the first entry of a key.\<close>

definition first_occurrences :: "'a list \<Rightarrow> 'a list" where
  "first_occurrences xs = rev (remdups (rev xs))"

definition apply_transfer_movements :: "direction \<Rightarrow> transfer \<Rightarrow> inv_db \<Rightarrow> inv_db res" where
  "apply_transfer_movements d t db =
     throw_if (\<exists>it \<in> set (tr_items t). item_location d it = None)
       (Conflict ''TRANSFER_ITEM_LOCATION_REQUIRED'')
     (throw_if (\<exists>it \<in> set (tr_items t). case map_of (locations db) (the (item_location d it)) of
          None \<Rightarrow> True
        | Some row \<Rightarrow> \<not> (loc_warehouse row = transfer_warehouse d t \<and> loc_active row))
       (NotFound ''LOCATION_NOT_FOUND'')
     (andthen (project_items d t (tr_items t)
         (map (\<lambda>k. (k, bal db k)) (first_occurrences (map (item_key d t) (tr_items t))))) (\<lambda>(ms, proj).
      andthen (put_projected proj db) (\<lambda>db1. Inr (add_movements ms db1)))))"

section \<open>The transitions\<close>

record transfer_context = actor_context +
  tc_expected :: "int option"
  tc_idem :: "string option"

fun allowed_from :: "transfer_action \<Rightarrow> transfer_status list" where
  "allowed_from TA_request = [TS_DRAFT]"
| "allowed_from TA_approve = [TS_REQUESTED]"
| "allowed_from TA_dispatch = [TS_APPROVED]"
| "allowed_from TA_receive = [TS_IN_TRANSIT]"
| "allowed_from TA_cancel = [TS_DRAFT, TS_REQUESTED, TS_APPROVED]"

fun next_transfer_status :: "transfer_action \<Rightarrow> transfer_status" where
  "next_transfer_status TA_request = TS_REQUESTED"
| "next_transfer_status TA_approve = TS_APPROVED"
| "next_transfer_status TA_dispatch = TS_IN_TRANSIT"
| "next_transfer_status TA_receive = TS_RECEIVED"
| "next_transfer_status TA_cancel = TS_CANCELLED"

fun transfer_action_event :: "transfer_action \<Rightarrow> string" where
  "transfer_action_event TA_request = ''inventory.transfer.requested''"
| "transfer_action_event TA_approve = ''inventory.transfer.approved''"
| "transfer_action_event TA_dispatch = ''inventory.transfer.dispatched''"
| "transfer_action_event TA_receive = ''inventory.transfer.received''"
| "transfer_action_event TA_cancel = ''inventory.transfer.canceled''"

fun transfer_status_name :: "transfer_status \<Rightarrow> string" where
  "transfer_status_name TS_DRAFT = ''DRAFT''"
| "transfer_status_name TS_REQUESTED = ''REQUESTED''"
| "transfer_status_name TS_APPROVED = ''APPROVED''"
| "transfer_status_name TS_IN_TRANSIT = ''IN_TRANSIT''"
| "transfer_status_name TS_RECEIVED = ''RECEIVED''"
| "transfer_status_name TS_CANCELLED = ''CANCELLED''"

definition transition_by_idem :: "inv_db \<Rightarrow> string \<Rightarrow> transfer_transition option" where
  "transition_by_idem db key = List.find (\<lambda>t. tt_idem t = key) (transitions db)"

definition transfer_effect :: "transfer_action \<Rightarrow> transfer \<Rightarrow> inv_db \<Rightarrow> inv_db res" where
  "transfer_effect a t db =
     (case a of
        TA_dispatch \<Rightarrow> apply_transfer_movements DirOut t db
      | TA_receive \<Rightarrow> apply_transfer_movements DirIn t db
      | _ \<Rightarrow> Inr db)"

definition advanced_transfer :: "transfer_action \<Rightarrow> transfer \<Rightarrow> transfer" where
  "advanced_transfer a t = t\<lparr>tr_status := next_transfer_status a, tr_version := tr_version t + 1\<rparr>"

definition transfer_event ::
  "transfer_action \<Rightarrow> uid \<Rightarrow> transfer \<Rightarrow> transfer_context \<Rightarrow> audit_event" where
  "transfer_event a i t ctx =
     \<lparr>ae_action = transfer_action_event a, ae_entity = ''stock-transfer'', ae_entity_id = i,
      ae_before = [(''status'', JStr (transfer_status_name (tr_status t)))],
      ae_after = [(''status'', JStr (transfer_status_name (next_transfer_status a)))],
      ae_metadata = [(''code'', JStr (tr_code t))],
      ae_actor = ctx_actor ctx, ae_request = ctx_request ctx\<rparr>"

definition log_transition :: "transfer_action \<Rightarrow> uid \<Rightarrow> transfer_context \<Rightarrow> inv_db \<Rightarrow> inv_db" where
  "log_transition a i ctx db =
     (if truthy (tc_idem ctx)
      then db\<lparr>transitions := transitions db @
        [\<lparr>tt_transfer = i, tt_action = a, tt_idem = the (tc_idem ctx), tt_expected = tc_expected ctx\<rparr>]\<rparr>
      else db)"

definition transition_transfer ::
  "transfer_action \<Rightarrow> uid \<Rightarrow> transfer_context \<Rightarrow> inv_db \<Rightarrow> (transfer \<times> inv_db) res" where
  "transition_transfer a i ctx db =
     andthen (assert_tracked (actor_context.truncate ctx)) (\<lambda>_.
     need (map_of (transfers db) i) (NotFound ''TRANSFER_NOT_FOUND'') (\<lambda>t.
     case (if truthy (tc_idem ctx) then transition_by_idem db (the (tc_idem ctx)) else None) of
       Some tt \<Rightarrow>
         throw_if (tt_transfer tt \<noteq> i \<or> tt_action tt \<noteq> a \<or> tt_expected tt \<noteq> tc_expected ctx)
           (Conflict ''IDEMPOTENCY_CONFLICT'') (Inr (t, db))
     | None \<Rightarrow>
         throw_if (tr_status t \<notin> set (allowed_from a)) (Conflict ''TRANSFER_STATE_CONFLICT'')
         (throw_if (tc_expected ctx \<noteq> None \<and> tc_expected ctx \<noteq> Some (tr_version t))
           (Conflict ''TRANSFER_VERSION_CONFLICT'')
         (andthen (transfer_effect a t db) (\<lambda>db1.
          Inr (advanced_transfer a t,
               record_audit (transfer_event a i t ctx)
                 (log_transition a i ctx
                   (db1\<lparr>transfers := AList.update i (advanced_transfer a t) (transfers db1)\<rparr>))))))))"

definition request_transfer :: "uid \<Rightarrow> transfer_context \<Rightarrow> inv_db \<Rightarrow> (transfer \<times> inv_db) res" where
  "request_transfer = transition_transfer TA_request"

definition approve_transfer :: "uid \<Rightarrow> transfer_context \<Rightarrow> inv_db \<Rightarrow> (transfer \<times> inv_db) res" where
  "approve_transfer = transition_transfer TA_approve"

definition dispatch_transfer :: "uid \<Rightarrow> transfer_context \<Rightarrow> inv_db \<Rightarrow> (transfer \<times> inv_db) res" where
  "dispatch_transfer = transition_transfer TA_dispatch"

definition receive_transfer :: "uid \<Rightarrow> transfer_context \<Rightarrow> inv_db \<Rightarrow> (transfer \<times> inv_db) res" where
  "receive_transfer = transition_transfer TA_receive"

definition cancel_transfer :: "uid \<Rightarrow> transfer_context \<Rightarrow> inv_db \<Rightarrow> (transfer \<times> inv_db) res" where
  "cancel_transfer = transition_transfer TA_cancel"

end
