(* ===== verification/Transfer_Conservation.thy ===== *)
theory Transfer_Conservation
  imports Transfers
begin

text \<open>
  Dispatch and receipt of a transfer against the ledger: each item moves exactly its quantity, no
  shelf goes below its promises, and the goods of a SKU are neither made nor lost: what lies on the
  shelves plus what is in transit stays the same through every transition.
\<close>

section \<open>The projection\<close>

definition item_sum :: "direction \<Rightarrow> transfer \<Rightarrow> stock_key \<Rightarrow> transfer_item list \<Rightarrow> int" where
  "item_sum d t k items = (\<Sum>it\<leftarrow>items. if item_key d t it = k then item_delta d it else 0)"

lemma item_sum_simps [simp]:
  "item_sum d t k [] = 0"
  "item_sum d t k (it # items) = (if item_key d t it = k then item_delta d it else 0) + item_sum d t k items"
  by (simp_all add: item_sum_def)

lemma item_sum_outside: "k \<notin> item_key d t ` set items \<Longrightarrow> item_sum d t k items = 0"
  by (induction items) auto

definition shift :: "int \<Rightarrow> balance \<Rightarrow> balance" where
  "shift q b = b\<lparr>onHand := onHand b + q\<rparr>"

lemma shift_simps [simp]:
  "onHand (shift q b) = onHand b + q" "reserved (shift q b) = reserved b"
  "available (shift q b) = available b" "bal_version (shift q b) = bal_version b"
  "shift 0 b = b" "shift q (shift q' b) = shift (q' + q) b"
  by (simp_all add: shift_def)

definition covered :: "(stock_key \<times> balance) list \<Rightarrow> bool" where
  "covered proj \<longleftrightarrow> (\<forall>k b. map_of proj k = Some b \<longrightarrow> 0 \<le> onHand b \<and> reserved b \<le> onHand b)"

definition ledger_of :: "movement list \<Rightarrow> stock_key \<Rightarrow> int" where
  "ledger_of ms k = (\<Sum>m\<leftarrow>ms. if mv_key m = k then mv_quantity m else 0)"

lemma project_items_Inr:
  "project_items d t items proj = Inr (ms, proj') \<Longrightarrow>
     map fst proj' = map fst proj
     \<and> (\<forall>k. map_of proj' k = map_option (shift (item_sum d t k items)) (map_of proj k))
     \<and> (covered proj \<longrightarrow> covered proj')
     \<and> (\<forall>k. ledger_of ms k = item_sum d t k items)
     \<and> (\<forall>m \<in> set ms. mv_after m = mv_before m + mv_quantity m)
     \<and> (\<forall>it \<in> set items. map_of proj (item_key d t it) \<noteq> None)"
proof (induction items arbitrary: proj ms)
  case Nil
  then show ?case by (auto simp: ledger_of_def option.map_ident)
next
  case (Cons it items)
  let ?k = "item_key d t it"
  obtain b ms' where b: "map_of proj ?k = Some b"
    "0 \<le> onHand b + item_delta d it" "reserved b \<le> onHand b + item_delta d it"
    and rest: "project_items d t items (AList.update ?k (shift (item_delta d it) b) proj) = Inr (ms', proj')"
    and ms: "ms = transfer_movement d t it (onHand b) # ms'"
    using Cons.prems by (auto simp: res_iff shift_def)
  note ih = Cons.IH[OF rest]
  have "map fst (AList.update ?k (shift (item_delta d it) b) proj) = map fst proj"
    using b(1) by (auto simp: update_keys dest!: map_of_SomeD intro: rev_image_eqI)
  moreover have "covered proj \<Longrightarrow> covered (AList.update ?k (shift (item_delta d it) b) proj)"
    using b by (auto simp: covered_def update_conv)
  moreover have "map_of proj' k = map_option (shift (item_sum d t k (it # items))) (map_of proj k)" for k
    using ih b(1) by (auto simp: update_conv option.map_comp comp_def)
  moreover have "ledger_of ms k = item_sum d t k (it # items)" for k
    using ih by (auto simp: ms ledger_of_def transfer_movement_def)
  ultimately show ?case
    using ih b(1) by (auto simp: ms transfer_movement_def update_conv split: if_splits)
qed

section \<open>Writing it back\<close>

definition stamped :: "balance \<Rightarrow> balance" where
  "stamped b = b\<lparr>available := onHand b - reserved b, bal_version := bal_version b + 1\<rparr>"

lemma stamped_simps [simp]:
  "onHand (stamped b) = onHand b" "reserved (stamped b) = reserved b"
  "available (stamped b) = onHand b - reserved b"
  by (simp_all add: stamped_def)

lemma put_projected_Inr:
  "put_projected proj db = Inr db' \<Longrightarrow> distinct (map fst proj) \<Longrightarrow>
     (\<exists>bs. db' = db\<lparr>balances := bs\<rparr> \<and> (distinct (map fst (balances db)) \<longrightarrow> distinct (map fst bs)))
     \<and> (\<forall>k. bal db' k = (case map_of proj k of None \<Rightarrow> bal db k | Some b \<Rightarrow> stamped b))
     \<and> (\<forall>k b. map_of proj k = Some b \<longrightarrow> int4 (onHand b))"
proof (induction proj arbitrary: db)
  case Nil
  then show ?case by (auto intro!: exI[of _ "balances db'"])
next
  case (Cons x proj)
  obtain k b where x: "x = (k, b)" by force
  define db1 where "db1 = db\<lparr>balances := AList.update k (stamped b) (balances db)\<rparr>"
  have run: "put_projected proj db1 = Inr db'" and i4: "int4 (onHand b)"
    using Cons.prems(1) by (auto simp: x res_iff db1_def stamped_def)
  have fresh: "map_of proj k = None" and dist: "distinct (map fst proj)"
    using Cons.prems(2) by (auto simp: x map_of_eq_None_iff)
  from Cons.IH[OF run dist] obtain bs where
    ih: "db' = db1\<lparr>balances := bs\<rparr>" "distinct (map fst (balances db1)) \<longrightarrow> distinct (map fst bs)"
      "\<forall>k. bal db' k = (case map_of proj k of None \<Rightarrow> bal db1 k | Some b \<Rightarrow> stamped b)"
      "\<forall>k b. map_of proj k = Some b \<longrightarrow> int4 (onHand b)"
    by (elim exE conjE) (rule that)
  have bal1: "bal db1 k' = (if k' = k then stamped b else bal db k')" for k'
    by (simp add: db1_def stock_simps)
  have "bal db' k' = (case map_of (x # proj) k' of None \<Rightarrow> bal db k' | Some b \<Rightarrow> stamped b)" for k'
    using ih(3) fresh by (cases "k' = k") (simp_all add: x bal1 split: option.split)
  moreover have "db' = db\<lparr>balances := bs\<rparr> \<and> (distinct (map fst (balances db)) \<longrightarrow> distinct (map fst bs))"
    using ih(1,2) by (simp add: db1_def distinct_update)
  ultimately show ?case using ih(4) i4 by (auto simp: x)
qed

lemma add_movements_simps [stock_simps]:
  "bal (add_movements ms db) = bal db"
  "held (add_movements ms db) = held db"
  "ledger (add_movements ms db) k = ledger db k + ledger_of ms k"
  by (induction ms arbitrary: db) (simp_all add: stock_simps ledger_of_def)

lemma add_movements_fields [simp]:
  "balances (add_movements ms db) = balances db"
  "reservations (add_movements ms db) = reservations db"
  "transfers (add_movements ms db) = transfers db"
  "audits (add_movements ms db) = audits db"
  by (induction ms arbitrary: db) simp_all

lemma add_movements_prefix: "\<exists>zs. movements (add_movements ms db) = movements db @ zs"
proof (induction ms arbitrary: db)
  case (Cons m ms)
  from Cons[of "db\<lparr>movements := movements db @ [(next_id db, m)], next_id := Suc (next_id db)\<rparr>"]
  show ?case by auto
qed simp

lemma rows_wf_add_movements:
  "rows_wf db \<Longrightarrow> \<forall>m \<in> set ms. mv_after m = mv_before m + mv_quantity m \<Longrightarrow>
     rows_wf (add_movements ms db)"
proof (induction ms arbitrary: db)
  case (Cons m ms)
  have "rows_wf (db\<lparr>movements := movements db @ [(next_id db, m)], next_id := Suc (next_id db)\<rparr>)"
    using Cons.prems unfolding rows_wf_def set_map by (simp add: fresh_id less_SucI)
  from Cons.IH[OF this] Cons.prems(2) show ?case by simp
qed simp

section \<open>One application\<close>

lemma first_occurrences_simps [simp]:
  "set (first_occurrences xs) = set xs" "distinct (first_occurrences xs)"
  by (simp_all add: first_occurrences_def)

lemma map_of_pairing: "map_of (map (\<lambda>k. (k, f k)) ks) k = (if k \<in> set ks then Some (f k) else None)"
  by (induction ks) auto

lemma stock_inv_le: "stock_inv db \<Longrightarrow> 0 \<le> onHand (bal db k) \<and> reserved (bal db k) \<le> onHand (bal db k)"
  using stock_invD(1)[of db k] by (auto simp: consistent_def)

lemma apply_transfer_Inr:
  assumes run: "apply_transfer_movements d t db = Inr db'" and inv: "stock_inv db"
  shows "stock_inv db' \<and> (\<forall>k. bal db' k = (if k \<in> set (map (item_key d t) (tr_items t))
           then stamped (shift (item_sum d t k (tr_items t)) (bal db k)) else bal db k))
         \<and> (\<forall>k \<in> set (map (item_key d t) (tr_items t)). int4 (onHand (bal db' k)))
         \<and> reservations db' = reservations db \<and> transfers db' = transfers db \<and> audits db' = audits db
         \<and> (\<exists>zs. movements db' = movements db @ zs)"
proof -
  let ?ks = "map (item_key d t) (tr_items t)"
  define proj where "proj = map (\<lambda>k. (k, bal db k)) (first_occurrences ?ks)"
  obtain ms proj' db1 where
    prj: "project_items d t (tr_items t) proj = Inr (ms, proj')"
    and put: "put_projected proj' db = Inr db1" and db': "db' = add_movements ms db1"
    using run by (auto simp: apply_transfer_movements_def res_iff proj_def)
  note p = project_items_Inr[OF prj]
  have keys: "map fst proj = first_occurrences ?ks" by (simp add: proj_def comp_def)
  have cov: "covered proj"
    using stock_inv_le[OF inv] by (auto simp: covered_def proj_def map_of_pairing)
  have cov': "covered proj'" and sums: "ledger_of ms k = item_sum d t k (tr_items t)"
    and rows: "\<forall>m \<in> set ms. mv_after m = mv_before m + mv_quantity m" for k
    using p cov by blast+
  have at: "map_of proj' k = (if k \<in> set ?ks
      then Some (shift (item_sum d t k (tr_items t)) (bal db k)) else None)" for k
    using p by (simp add: proj_def map_of_pairing)
  have dist: "distinct (map fst proj')" using p keys by simp
  note q = put_projected_Inr[OF put dist]
  have bal1: "bal db1 k = (if k \<in> set ?ks
      then stamped (shift (item_sum d t k (tr_items t)) (bal db k)) else bal db k)" for k
    using q at by simp
  have outside: "item_sum d t k (tr_items t) = 0" if "k \<notin> set ?ks" for k
    using that by (simp add: item_sum_outside)
  obtain bs where bs: "db1 = db\<lparr>balances := bs\<rparr>" "distinct (map fst bs)"
    using q stock_invD(4)[OF inv] by (auto simp: rows_wf_def)
  have wf1: "rows_wf db1"
    using stock_invD(4)[OF inv] bs by (simp add: rows_wf_def)
  have cons: "consistent (bal db1 k)" for k
  proof (cases "k \<in> set ?ks")
    case True
    then have "0 \<le> onHand (bal db1 k) \<and> reserved (bal db1 k) \<le> onHand (bal db1 k)"
      using cov' at[of k] by (auto simp: covered_def bal1 dest!: spec[of _ k])
    then show ?thesis
      using True stock_invD(1)[OF inv, of k] by (simp add: bal1 consistent_def)
  next
    case False
    then show ?thesis using stock_invD(1)[OF inv, of k] by (simp add: bal1)
  qed
  have led: "onHand (bal db1 k) = ledger db k + item_sum d t k (tr_items t)" for k
    using stock_invD(3)[OF inv, of k] outside[of k] by (simp add: bal1)
  have res: "reserved (bal db1 k) = held db k" for k
    using stock_invD(2)[OF inv, of k] by (simp add: bal1)
  have same: "held db1 = held db" "ledger db1 = ledger db"
    by (simp_all add: bs(1) stock_simps)
  have "stock_inv db'"
    unfolding stock_inv_def db'
    by (simp add: stock_simps cons led res sums rows_wf_add_movements[OF wf1 rows] same)
  moreover have "int4 (onHand (bal db' k))" if "k \<in> set ?ks" for k
  proof -
    have "map_of proj' k = Some b \<Longrightarrow> int4 (onHand b)" for b using q by blast
    from this[of "shift (item_sum d t k (tr_items t)) (bal db k)"] show ?thesis
      using at[of k] that by (simp add: db' stock_simps bal1)
  qed
  ultimately show ?thesis
    using bal1 add_movements_prefix[of ms db1] by (simp add: db' stock_simps bs(1) del: set_map)
qed

section \<open>Conservation\<close>

definition on_shelves :: "inv_db \<Rightarrow> uid \<Rightarrow> int" where
  "on_shelves db v = asum (\<lambda>k b. if sk_variant k = v then onHand b else 0) (balances db)"

definition items_qty :: "uid \<Rightarrow> transfer_item list \<Rightarrow> int" where
  "items_qty v items = (\<Sum>it\<leftarrow>items. if ti_variant it = v then ti_quantity it else 0)"

definition in_transit :: "inv_db \<Rightarrow> uid \<Rightarrow> int" where
  "in_transit db v =
     asum (\<lambda>_ t. if tr_status t = TS_IN_TRANSIT then items_qty v (tr_items t) else 0) (transfers db)"

lemma on_shelves_sum:
  assumes "distinct (map fst (balances db))" "finite K" "fst ` set (balances db) \<subseteq> K"
  shows "on_shelves db v = (\<Sum>k\<in>K. if sk_variant k = v then onHand (bal db k) else 0)"
proof -
  let ?f = "\<lambda>k. if sk_variant k = v then onHand (bal db k) else 0"
  have sum: "asum f t = (\<Sum>x\<leftarrow>t. f (fst x) (snd x))" for f :: "stock_key \<Rightarrow> balance \<Rightarrow> int" and t
    by (induction t) auto
  have "on_shelves db v = (\<Sum>x\<leftarrow>balances db. ?f (fst x))"
    unfolding on_shelves_def sum
    by (rule arg_cong[where f = sum_list], rule map_cong)
      (use assms(1) in \<open>auto simp: bal_def find_or_def\<close>)
  also have "\<dots> = sum ?f (fst ` set (balances db))"
    using sum_list_distinct_conv_sum_set[OF assms(1), of ?f] by (simp add: comp_def)
  also have "\<dots> = sum ?f K"
    using assms(2,3)
    by (intro sum.mono_neutral_left) (auto simp: bal_def find_or_def dest: map_of_SomeD split: option.split intro: rev_image_eqI)
  finally show ?thesis .
qed

lemma on_shelves_change:
  assumes wf: "rows_wf db" "rows_wf db'" and K: "finite K" "\<And>k. k \<notin> K \<Longrightarrow> g k = 0"
    and eff: "\<And>k. onHand (bal db' k) = onHand (bal db k) + g k"
  shows "on_shelves db' v = on_shelves db v + (\<Sum>k\<in>K. if sk_variant k = v then g k else 0)"
proof -
  let ?K = "K \<union> fst ` set (balances db) \<union> fst ` set (balances db')"
  have fin: "finite ?K" using K(1) by simp
  have dist: "distinct (map fst (balances db))" "distinct (map fst (balances db'))"
    using wf by (simp_all add: rows_wf_def)
  have "on_shelves db' v - on_shelves db v = (\<Sum>k\<in>?K. if sk_variant k = v then g k else 0)"
    unfolding on_shelves_sum[OF dist(1) fin Un_upper2[THEN subset_trans, OF Un_upper1]]
      on_shelves_sum[OF dist(2) fin Un_upper2] sum_subtractf[symmetric]
    by (rule sum.cong) (auto simp: eff)
  also have "\<dots> = (\<Sum>k\<in>K. if sk_variant k = v then g k else 0)"
    using fin K(2) by (intro sum.mono_neutral_right) auto
  finally show ?thesis by simp
qed

lemma item_sum_total:
  assumes "finite K" "item_key d t ` set items \<subseteq> K"
  shows "(\<Sum>k\<in>K. if sk_variant k = v then item_sum d t k items else 0) =
    (case d of DirOut \<Rightarrow> - items_qty v items | DirIn \<Rightarrow> items_qty v items)"
  using assms(2)
proof (induction items)
  case Nil
  then show ?case by (simp add: items_qty_def cong: if_cong split: direction.split)
next
  case (Cons it items)
  have "(\<Sum>k\<in>K. if sk_variant k = v then item_sum d t k (it # items) else 0) =
      (\<Sum>k\<in>K. if k = item_key d t it then (if sk_variant k = v then item_delta d it else 0) else 0)
      + (\<Sum>k\<in>K. if sk_variant k = v then item_sum d t k items else 0)"
    by (simp add: sum.distrib[symmetric]) (rule sum.cong, auto)
  then show ?case
    using Cons assms(1)
    by (simp add: items_qty_def item_delta_def item_key_def split: direction.splits)
qed

lemma apply_transfer_on_shelves:
  assumes run: "apply_transfer_movements d t db = Inr db'" and inv: "stock_inv db"
  shows "on_shelves db' v = on_shelves db v
    + (case d of DirOut \<Rightarrow> - items_qty v (tr_items t) | DirIn \<Rightarrow> items_qty v (tr_items t))"
proof -
  note a = apply_transfer_Inr[OF run inv]
  have wf: "rows_wf db" "rows_wf db'" using a inv by (simp_all add: stock_inv_def)
  have "on_shelves db' v = on_shelves db v
      + (\<Sum>k\<in>item_key d t ` set (tr_items t). if sk_variant k = v then item_sum d t k (tr_items t) else 0)"
  proof (rule on_shelves_change[OF wf])
    show "onHand (bal db' k) = onHand (bal db k) + item_sum d t k (tr_items t)" for k
      using a item_sum_outside[of k d t "tr_items t"] by simp
  qed (simp_all add: item_sum_outside)
  then show ?thesis by (simp add: item_sum_total)
qed

section \<open>The transitions\<close>

lemma transition_transfer_Inr:
  assumes run: "transition_transfer a i ctx db = Inr (t', db')"
  obtains
    (replay) t where "map_of (transfers db) i = Some t" "t' = t" "db' = db"
  | (step) t db1 where "map_of (transfers db) i = Some t" "tr_status t \<in> set (allowed_from a)"
      "transfer_effect a t db = Inr db1" "t' = advanced_transfer a t"
      "db' = record_audit (transfer_event a i t ctx) (log_transition a i ctx
         (db1\<lparr>transfers := AList.update i (advanced_transfer a t) (transfers db1)\<rparr>))"
proof (cases "if truthy (tc_idem ctx) then transition_by_idem db (the (tc_idem ctx)) else None")
  case None
  with run show ?thesis by (auto simp: transition_transfer_def res_iff intro!: step)
next
  case (Some tt)
  with run show ?thesis by (auto simp: transition_transfer_def res_iff intro!: replay)
qed

lemma log_transition_other [stock_simps]:
  "bal (log_transition a i ctx db) = bal db" "held (log_transition a i ctx db) = held db"
  "ledger (log_transition a i ctx db) = ledger db" "rows_wf (log_transition a i ctx db) = rows_wf db"
  by (simp_all add: log_transition_def stock_simps)

lemma log_transition_fields [simp]:
  "balances (log_transition a i ctx db) = balances db"
  "movements (log_transition a i ctx db) = movements db"
  "reservations (log_transition a i ctx db) = reservations db"
  "transfers (log_transition a i ctx db) = transfers db"
  "audits (log_transition a i ctx db) = audits db"
  by (simp_all add: log_transition_def)

lemma transfer_effect_inv:
  "transfer_effect a t db = Inr db1 \<Longrightarrow> stock_inv db \<Longrightarrow> stock_inv db1"
  by (cases a) (auto simp: transfer_effect_def dest: apply_transfer_Inr)

lemma transfer_effect_transfers:
  "transfer_effect a t db = Inr db1 \<Longrightarrow> stock_inv db \<Longrightarrow> transfers db1 = transfers db"
  by (cases a) (auto simp: transfer_effect_def dest: apply_transfer_Inr)

lemma stock_inv_writes:
  "stock_inv (record_audit e db) = stock_inv db"
  "stock_inv (log_transition a i ctx db) = stock_inv db"
  "stock_inv (db\<lparr>transfers := ts\<rparr>) = stock_inv db"
  by (simp_all add: stock_inv_def stock_simps)

lemma transition_transfer_inv:
  assumes inv: "stock_inv db" and run: "transition_transfer a i ctx db = Inr (t', db')"
  shows "stock_inv db'"
  using run by (cases rule: transition_transfer_Inr)
    (use inv in \<open>auto simp: stock_inv_writes intro: transfer_effect_inv\<close>)

lemma record_audit_transfers [simp]: "transfers (record_audit e db) = transfers db"
  by (simp add: record_audit_def)

lemma goods_conserved:
  assumes inv: "stock_inv db" and run: "transition_transfer a i ctx db = Inr (t', db')"
  shows "on_shelves db' v + in_transit db' v = on_shelves db v + in_transit db v"
  using run
proof (cases rule: transition_transfer_Inr)
  case replay
  then show ?thesis by simp
next
  case (step t db1)
  have "on_shelves db' v = on_shelves db1 v" by (simp add: step on_shelves_def)
  moreover have "in_transit db' v = in_transit db v
      + (if next_transfer_status a = TS_IN_TRANSIT then items_qty v (tr_items t) else 0)
      - (if tr_status t = TS_IN_TRANSIT then items_qty v (tr_items t) else 0)"
    using step(1) transfer_effect_transfers[OF step(3) inv]
    by (simp add: step in_transit_def table_simps advanced_transfer_def)
  moreover have "on_shelves db1 v = on_shelves db v + (case a of TA_dispatch \<Rightarrow> - items_qty v (tr_items t)
      | TA_receive \<Rightarrow> items_qty v (tr_items t) | _ \<Rightarrow> 0)"
    using step(3) apply_transfer_on_shelves[OF _ inv, of _ t db1 v]
    by (cases a) (auto simp: transfer_effect_def)
  ultimately show ?thesis using step(2) by (cases a) auto
qed

end
