(* ===== verification/Warehouses.thy ===== *)
theory Warehouses
  imports Stock_Invariant
begin

text \<open>
  The directory of warehouses and locations, its paged lists, and the public availability of SKUs.
\<close>

section \<open>Warehouses\<close>

record warehouse_create = actor_context +
  wc_code :: string
  wc_name :: string
  wc_city :: "string option"
  wc_address :: "string option"

record warehouse_update = actor_context +
  wu_name :: "string option"
  wu_city :: "string option"
  wu_address :: "string option"
  wu_active :: "bool option"

definition opt_str :: "string option \<Rightarrow> jval" where
  "opt_str s = (case s of None \<Rightarrow> JNull | Some t \<Rightarrow> JStr t)"

text \<open>\<open>...(x !== undefined ? { field: x } : {})\<close>\<close>

definition given :: "'a option \<Rightarrow> 'a \<Rightarrow> 'a" where
  "given x old = (case x of None \<Rightarrow> old | Some y \<Rightarrow> y)"

definition given_opt :: "'a option \<Rightarrow> 'a option \<Rightarrow> 'a option" where
  "given_opt x old = (case x of None \<Rightarrow> old | Some y \<Rightarrow> Some y)"

definition create_warehouse :: "warehouse_create \<Rightarrow> inv_db \<Rightarrow> ((uid \<times> warehouse) \<times> inv_db) res" where
  "create_warehouse c db =
     andthen (assert_tracked (actor_context.truncate c)) (\<lambda>_.
     throw_if (trim (wc_code c) = []) (BadRequest ''Warehouse code is required.'')
     (throw_if (\<exists>x \<in> set (warehouses db). wh_code (snd x) = trim (wc_code c))
       (Conflict ''WAREHOUSE_CODE_CONFLICT'')
     (let w = \<lparr>wh_code = trim (wc_code c), wh_name = trim (wc_name c), wh_city = wc_city c,
               wh_address = wc_address c, wh_active = True\<rparr>;
          i = next_id db
      in Inr ((i, w), record_audit
           \<lparr>ae_action = ''inventory.warehouse.created'', ae_entity = ''warehouse'', ae_entity_id = i,
            ae_before = [], ae_after = [(''code'', JStr (wh_code w)), (''name'', JStr (wh_name w))],
            ae_metadata = [], ae_actor = ctx_actor c, ae_request = ctx_request c\<rparr>
           (db\<lparr>warehouses := warehouses db @ [(i, w)], next_id := Suc i\<rparr>)))))"

definition warehouse_view :: "warehouse \<Rightarrow> (string \<times> jval) list" where
  "warehouse_view w = [(''name'', JStr (wh_name w)), (''city'', opt_str (wh_city w)),
     (''address'', opt_str (wh_address w)), (''isActive'', JBool (wh_active w))]"

definition updated_warehouse :: "warehouse_update \<Rightarrow> warehouse \<Rightarrow> warehouse" where
  "updated_warehouse c w =
     w\<lparr>wh_name := given (map_option trim (wu_name c)) (wh_name w),
       wh_city := given_opt (wu_city c) (wh_city w),
       wh_address := given_opt (wu_address c) (wh_address w),
       wh_active := given (wu_active c) (wh_active w)\<rparr>"

definition update_warehouse ::
  "uid \<Rightarrow> warehouse_update \<Rightarrow> inv_db \<Rightarrow> (warehouse \<times> inv_db) res" where
  "update_warehouse i c db =
     andthen (assert_tracked (actor_context.truncate c)) (\<lambda>_.
     need (map_of (warehouses db) i) (NotFound ''WAREHOUSE_NOT_FOUND'') (\<lambda>w.
     Inr (updated_warehouse c w, record_audit
       \<lparr>ae_action = ''inventory.warehouse.updated'', ae_entity = ''warehouse'', ae_entity_id = i,
        ae_before = warehouse_view w, ae_after = warehouse_view (updated_warehouse c w),
        ae_metadata = [], ae_actor = ctx_actor c, ae_request = ctx_request c\<rparr>
       (db\<lparr>warehouses := AList.update i (updated_warehouse c w) (warehouses db)\<rparr>))))"

section \<open>Locations\<close>

record location_create = actor_context +
  lc_code :: string
  lc_name :: "string option"
  lc_zone :: "string option"
  lc_aisle :: "string option"
  lc_rack :: "string option"
  lc_shelf :: "string option"
  lc_bin :: "string option"

record location_update = actor_context +
  lu_name :: "string option"
  lu_zone :: "string option"
  lu_aisle :: "string option"
  lu_rack :: "string option"
  lu_shelf :: "string option"
  lu_bin :: "string option"
  lu_active :: "bool option"

definition create_location ::
  "uid \<Rightarrow> location_create \<Rightarrow> inv_db \<Rightarrow> ((uid \<times> location) \<times> inv_db) res" where
  "create_location w c db =
     andthen (assert_tracked (actor_context.truncate c)) (\<lambda>_.
     throw_if (map_of (warehouses db) w = None) (NotFound ''WAREHOUSE_NOT_FOUND'')
     (throw_if (\<exists>x \<in> set (locations db). loc_warehouse (snd x) = w \<and> loc_code (snd x) = lc_code c)
       (Conflict ''LOCATION_CODE_CONFLICT'')
     (let l = \<lparr>loc_warehouse = w, loc_code = lc_code c, loc_name = lc_name c, loc_zone = lc_zone c,
               loc_aisle = lc_aisle c, loc_rack = lc_rack c, loc_shelf = lc_shelf c,
               loc_bin = lc_bin c, loc_active = True\<rparr>;
          i = next_id db
      in Inr ((i, l), record_audit
           \<lparr>ae_action = ''inventory.location.created'', ae_entity = ''warehouse-location'',
            ae_entity_id = i, ae_before = [],
            ae_after = [(''code'', JStr (loc_code l)), (''warehouseId'', JId w)],
            ae_metadata = [], ae_actor = ctx_actor c, ae_request = ctx_request c\<rparr>
           (db\<lparr>locations := locations db @ [(i, l)], next_id := Suc i\<rparr>)))))"

definition location_view :: "location \<Rightarrow> (string \<times> jval) list" where
  "location_view l = [(''name'', opt_str (loc_name l)), (''isActive'', JBool (loc_active l))]"

definition updated_location :: "location_update \<Rightarrow> location \<Rightarrow> location" where
  "updated_location c l =
     l\<lparr>loc_name := given_opt (lu_name c) (loc_name l), loc_zone := given_opt (lu_zone c) (loc_zone l),
       loc_aisle := given_opt (lu_aisle c) (loc_aisle l), loc_rack := given_opt (lu_rack c) (loc_rack l),
       loc_shelf := given_opt (lu_shelf c) (loc_shelf l), loc_bin := given_opt (lu_bin c) (loc_bin l),
       loc_active := given (lu_active c) (loc_active l)\<rparr>"

definition update_location :: "uid \<Rightarrow> location_update \<Rightarrow> inv_db \<Rightarrow> (location \<times> inv_db) res" where
  "update_location i c db =
     andthen (assert_tracked (actor_context.truncate c)) (\<lambda>_.
     need (map_of (locations db) i) (NotFound ''LOCATION_NOT_FOUND'') (\<lambda>l.
     Inr (updated_location c l, record_audit
       \<lparr>ae_action = ''inventory.location.updated'', ae_entity = ''warehouse-location'',
        ae_entity_id = i, ae_before = location_view l, ae_after = location_view (updated_location c l),
        ae_metadata = [], ae_actor = ctx_actor c, ae_request = ctx_request c\<rparr>
       (db\<lparr>locations := AList.update i (updated_location c l) (locations db)\<rparr>))))"

section \<open>Paged lists\<close>

definition max_offset :: int where
  "max_offset = 50000"

definition page :: "js_number option \<Rightarrow> js_number option \<Rightarrow> 'a list \<Rightarrow> 'a list" where
  "page limit offset rows =
     take (nat (clamp_int limit 1 100 50)) (drop (nat (clamp_int offset 0 max_offset 0)) rows)"

record warehouse_query =
  wq_active :: "bool option"
  wq_inactive :: "bool option"
  wq_limit :: "js_number option"
  wq_offset :: "js_number option"

definition wanted :: "warehouse_query \<Rightarrow> bool \<Rightarrow> bool" where
  "wanted q active =
     (let active_only = (wq_active q = Some True \<and> wq_inactive q \<noteq> Some True);
          inactive_only = (wq_inactive q = Some True \<and> wq_active q \<noteq> Some True)
      in if active_only \<or> inactive_only then active = active_only else True)"

definition list_warehouses :: "warehouse_query \<Rightarrow> inv_db \<Rightarrow> (uid \<times> warehouse) list \<times> nat" where
  "list_warehouses q db =
     (let rows = filter (\<lambda>(_, w). wanted q (wh_active w)) (warehouses db)
      in (page (wq_limit q) (wq_offset q) (sort_key (\<lambda>(_, w). wh_code w) rows), length rows))"

definition list_locations :: "uid \<Rightarrow> warehouse_query \<Rightarrow> inv_db \<Rightarrow> (uid \<times> location) list \<times> nat" where
  "list_locations w q db =
     (let rows = filter (\<lambda>(_, l). loc_warehouse l = w \<and> wanted q (loc_active l)) (locations db)
      in (page (wq_limit q) (wq_offset q) (sort_key (\<lambda>(_, l). loc_code l) rows), length rows))"

section \<open>Public availability\<close>

datatype stock_label = UNKNOWN | OUT_OF_STOCK | LOW_STOCK | IN_STOCK

definition stock_total :: "inv_db \<Rightarrow> uid \<Rightarrow> int" where
  "stock_total db v = asum (\<lambda>k b. if sk_variant k = v then available b else 0) (balances db)"

definition stock_status :: "inv_db \<Rightarrow> uid \<Rightarrow> stock_label" where
  "stock_status db v =
     (case map_of (variants db) v of
        None \<Rightarrow> UNKNOWN
      | Some row \<Rightarrow>
          if var_status row \<noteq> PS_ACTIVE then UNKNOWN
          else if stock_total db v \<le> 0 then OUT_OF_STOCK
          else if stock_total db v \<le> 5 then LOW_STOCK
          else IN_STOCK)"

definition get_public_availability :: "uid list \<Rightarrow> inv_db \<Rightarrow> (uid \<times> stock_label) list" where
  "get_public_availability ids db =
     map (\<lambda>v. (v, stock_status db v)) (take 100 (rev (remdups (rev ids))))"

section \<open>Facts\<close>

text \<open>Codes identify warehouses, and locations inside their warehouse.\<close>

definition directory_wf :: "inv_db \<Rightarrow> bool" where
  "directory_wf db \<longleftrightarrow>
     distinct (map (wh_code \<circ> snd) (warehouses db))
     \<and> distinct (map (\<lambda>x. (loc_warehouse (snd x), loc_code (snd x))) (locations db))"

lemma map_update_same:
  assumes "map_of t k = Some v" and "f v' = f v"
  shows "map (f \<circ> snd) (AList.update k v' t) = map (f \<circ> snd) t"
  using assms by (induction t) auto

lemma codes_kept [simp]:
  "map_of (warehouses db) i = Some w \<Longrightarrow>
     map (wh_code \<circ> snd) (AList.update i (updated_warehouse c w) (warehouses db))
       = map (wh_code \<circ> snd) (warehouses db)"
  "map_of (locations db) j = Some l \<Longrightarrow>
     map (\<lambda>x. (loc_warehouse (snd x), loc_code (snd x)))
         (AList.update j (updated_location d l) (locations db))
       = map (\<lambda>x. (loc_warehouse (snd x), loc_code (snd x))) (locations db)"
  using map_update_same[of "warehouses db" i w wh_code "updated_warehouse c w"]
    map_update_same[of "locations db" j l "\<lambda>l. (loc_warehouse l, loc_code l)" "updated_location d l"]
  by (simp_all add: updated_warehouse_def updated_location_def comp_def)

lemma create_warehouse_wf:
  "directory_wf db \<Longrightarrow> create_warehouse c db = Inr (x, db') \<Longrightarrow> directory_wf db'"
  by (fastforce simp: create_warehouse_def res_iff Let_def directory_wf_def record_audit_def)

lemma create_location_wf:
  "directory_wf db \<Longrightarrow> create_location w c db = Inr (x, db') \<Longrightarrow> directory_wf db'"
  by (fastforce simp: create_location_def res_iff Let_def directory_wf_def record_audit_def)

lemma update_warehouse_wf:
  "directory_wf db \<Longrightarrow> update_warehouse i c db = Inr (x, db') \<Longrightarrow> directory_wf db'"
  by (auto simp: update_warehouse_def res_iff directory_wf_def record_audit_def)

lemma update_location_wf:
  "directory_wf db \<Longrightarrow> update_location i c db = Inr (x, db') \<Longrightarrow> directory_wf db'"
  by (auto simp: update_location_def res_iff directory_wf_def record_audit_def)

lemma page_length: "length (page l p rows) \<le> 100"
  using clamp_int_bounds[of 1 100 50 l] by (simp add: page_def) linarith

text \<open>Stock can be had of a SKU shown as available.\<close>

lemma stock_status_available:
  assumes inv: "stock_inv db" and s: "stock_status db v \<in> {LOW_STOCK, IN_STOCK}"
  shows "\<exists>k. sk_variant k = v \<and> 0 < available (bal db k)"
proof (rule ccontr)
  assume none: "\<nexists>k. sk_variant k = v \<and> 0 < available (bal db k)"
  have dist: "distinct (map fst (balances db))" using stock_invD(4)[OF inv] by (simp add: rows_wf_def)
  have "stock_total db v = asum (\<lambda>_ _. 0) (balances db)"
    unfolding stock_total_def
  proof (rule asum_cong)
    fix k b assume "(k, b) \<in> set (balances db)"
    then have "bal db k = b" using dist by (simp add: bal_def find_or_def)
    then show "(if sk_variant k = v then available b else 0) = 0"
      using none stock_invD(1)[OF inv, of k] by (auto simp: consistent_def)
  qed
  then show False using s by (simp add: table_simps stock_status_def split: option.splits if_splits)
qed

end
