(* ===== verification/Inventory_Commands.thy ===== *)
theory Inventory_Commands
  imports Expiry Transfer_Conservation Warehouses "HOL-Library.Sublist"
begin

text \<open>
  The inventory as its callers see it: every public command keeps the balances reconciled, in the
  range of the columns, and only advances the history (movements and audit rows are appended, a
  reservation leaves the active state at most once).
\<close>

section \<open>Range of the balances\<close>

definition ledger_ok :: "inv_db \<Rightarrow> bool" where
  "ledger_ok db \<longleftrightarrow> stock_inv db \<and> in_range db"

lemma in_rangeI: "stock_inv db \<Longrightarrow> (\<And>k. int4 (onHand (bal db k))) \<Longrightarrow> in_range db"
proof -
  assume inv: "stock_inv db" and on: "\<And>k. int4 (onHand (bal db k))"
  have "int4 (reserved (bal db k)) \<and> int4 (available (bal db k))" for k
    using on[of k] stock_invD(1)[OF inv, of k] by (auto simp: int4_def consistent_def)
  then show ?thesis using on by (auto simp: in_range_def)
qed

lemma ledger_okI:
  "stock_inv db \<Longrightarrow> (\<And>k. int4 (onHand (bal db k))) \<Longrightarrow> ledger_ok db"
  by (simp add: ledger_ok_def in_rangeI)

lemma ledger_ok_onHand: "ledger_ok db \<Longrightarrow> int4 (onHand (bal db k))"
  by (simp add: ledger_ok_def in_range_def)

lemma ledger_ok_inv: "ledger_ok db \<Longrightarrow> stock_inv db"
  by (simp add: ledger_ok_def)

lemma change_on_hand_in_ok:
  assumes ok: "ledger_ok db" and run: "change_on_hand_in c db = Inr (im, db')"
  shows "ledger_ok db'"
proof (rule ledger_okI)
  show "stock_inv db'" using change_on_hand_in_inv[OF ledger_ok_inv[OF ok] run] .
  show "int4 (onHand (bal db' k))" for k
    using change_on_hand_in_Inr[OF run] ledger_ok_onHand[OF ok, of k] by (auto simp: stock_simps)
qed

lemma change_on_hand_Inr: "change_on_hand c db = Inr x \<Longrightarrow> change_on_hand_in c db = Inr x"
  by (simp add: change_on_hand_def res_iff)

lemma reserve_in_ok:
  assumes ok: "ledger_ok db" and run: "reserve_in c db = Inr (ir, db')"
  shows "ledger_ok db'"
proof (rule ledger_okI)
  show "stock_inv db'" using reserve_in_inv[OF ledger_ok_inv[OF ok] run] .
  show "int4 (onHand (bal db' k))" for k
    using reserve_in_Inr[OF run] ledger_ok_onHand[OF ok, of k] by (auto simp: stock_simps)
qed

lemma release_effect_ok:
  assumes ok: "ledger_ok db" and r: "map_of (reservations db) i = Some r" "rs_status r = RS_ACTIVE"
    and run: "release_effect i r (bal db (rs_key r)) meta ctx db = Inr db'"
  shows "ledger_ok db'"
  using release_effect_returns[OF _ _ r, of meta ctx] release_effect_inv[OF _ r run] ok run
  by (auto simp: ledger_ok_def)

lemma consume_effect_ok:
  assumes ok: "ledger_ok db" and r: "map_of (reservations db) i = Some r" "rs_status r = RS_ACTIVE"
    and run: "consume_effect i r (bal db (rs_key r)) ctx db = Inr db'"
  shows "ledger_ok db'"
  using consume_effect_returns[OF _ _ r, of ctx] consume_effect_inv[OF _ r run] ok run
  by (auto simp: ledger_ok_def)

context finalizer
begin

lemma single_ok:
  assumes ok: "ledger_ok db" and run: "single i db = Inr (n, db')"
  shows "ledger_ok db'"
proof (cases "is_active db i")
  case False
  then show ?thesis using ok run by (simp add: skip)
next
  case True
  then obtain r where r: "map_of (reservations db) i = Some r" "rs_status r = RS_ACTIVE"
    by (auto simp: is_active_def)
  have inv: "stock_inv db" "in_range db" using ok by (simp_all add: ledger_ok_def)
  obtain db1 where "single i db = Inr (1, db1)" "in_range db1" using fire[OF inv r] by blast
  then show ?thesis using run single_inv[OF inv(1) run] by (simp add: ledger_ok_def)
qed

lemma each_ok: "ledger_ok db \<Longrightarrow> each_reservation single is db = Inr (n, db') \<Longrightarrow> ledger_ok db'"
  by (induction "is" arbitrary: db n) (auto simp: res_iff intro: single_ok)

end

section \<open>The staff transitions\<close>

lemma transition_body_Inr:
  assumes "transition_body i r ctx now eff to_status db = Inr (r', db')"
    and "map_of (reservations db) i = Some r"
  shows "db' = db \<or> (rs_status r = RS_ACTIVE \<and> consistent_balance db r = Inr (bal db (rs_key r))
    \<and> eff (bal db (rs_key r)) db = Inr db')"
  using assms by (auto simp: transition_body_def Let_def reservation_replay_def res_iff bal_Some
      split: if_splits)

lemma precheck_transition_row:
  "precheck_transition i ctx now db = Inr r \<Longrightarrow> map_of (reservations db) i = Some r"
  by (auto simp: precheck_transition_def require_active_reservation_def res_iff)

lemma release_reservation_ok:
  assumes ok: "ledger_ok db" and run: "release_reservation i ctx now db = Inr (r', db')"
  shows "ledger_ok db'"
proof -
  obtain r where r: "precheck_transition i ctx now db = Inr r"
    "transition_body i r ctx now (\<lambda>b. release_effect i r b [] (actor_context.truncate ctx))
       RS_RELEASED db = Inr (r', db')"
    using run by (auto simp: release_reservation_def res_iff)
  note row = precheck_transition_row[OF r(1)]
  from transition_body_Inr[OF r(2) row] ok show ?thesis
    by (auto intro: release_effect_ok[OF ok row])
qed

lemma consume_reservation_ok:
  assumes ok: "ledger_ok db" and run: "consume_reservation i ctx now db = Inr (r', db')"
  shows "ledger_ok db'"
proof -
  obtain r where r: "precheck_transition i ctx now db = Inr r"
    "transition_body i r ctx now (\<lambda>b. consume_effect i r b (actor_context.truncate ctx))
       RS_CONSUMED db = Inr (r', db')"
    using run by (auto simp: consume_reservation_def res_iff)
  note row = precheck_transition_row[OF r(1)]
  from transition_body_Inr[OF r(2) row] ok show ?thesis
    by (auto intro: consume_effect_ok[OF ok row])
qed

lemma production_ok:
  assumes ok: "ledger_ok db"
    and run: "transition_production_reservation_in i action ctx now db = Inr (n, db')"
  shows "ledger_ok db'"
  using run releasing.single_ok[OF ok] selling.single_ok[OF ok]
  by (cases action) (auto simp: transition_production_reservation_in_def res_iff)

section \<open>The expiry worker\<close>

lemma distinct_batch:
  assumes "stock_inv db"
  shows "stable_keys (expiry_candidates now n db) db"
proof -
  have dist: "distinct (map fst (reservations db))"
    using stock_invD(4)[OF assms] by (simp add: rows_wf_def)
  let ?rows = "expiry_order (filter (\<lambda>(_, r). due now r) (reservations db))"
  have sub: "set (take n ?rows) \<subseteq> set (reservations db)"
    using set_take_subset[of n ?rows] by (auto simp: expiry_order_def)
  have "map_of (take n ?rows) (fst x) = Some (snd x)"
    if "x \<in> set (reservations db)" "fst x \<in> fst ` set (take n ?rows)" for x
  proof -
    from that(2) obtain r where r: "map_of (take n ?rows) (fst x) = Some r"
      by (cases "map_of (take n ?rows) (fst x)") (auto simp: map_of_eq_None_iff)
    with sub have "(fst x, r) \<in> set (reservations db)" by (auto dest: map_of_SomeD)
    with that(1) dist have "r = snd x" by (metis eq_key_imp_eq_value prod.collapse)
    with r show ?thesis by simp
  qed
  then show ?thesis by (auto simp: stable_keys_def expiry_candidates_def)
qed

lemma expire_reservations_ok:
  assumes ok: "ledger_ok db" and run: "expire_reservations ctx now batch db = Inr (n, db')"
  shows "ledger_ok db'"
proof -
  let ?c = "expiry_candidates now (nat (clamp_int batch 1 100 100)) db"
  have inv: "stock_inv db" "in_range db" using ok by (simp_all add: ledger_ok_def)
  obtain db1 where "expire_body ctx now ?c db
      = Inr (length (batch_rows now (set (map fst ?c)) db), db1)" "stock_inv db1" "in_range db1"
    by (rule expire_body_returns[OF inv distinct_batch[OF inv(1)]]) (rule that)
  then show ?thesis
    using run ok by (auto simp: expire_reservations_def res_iff Let_def ledger_ok_def split: if_splits)
qed

section \<open>History\<close>

definition settled_step :: "reservation \<Rightarrow> reservation \<Rightarrow> bool" where
  "settled_step r r' \<longleftrightarrow>
     r' = r \<or> (rs_status r = RS_ACTIVE \<and> r' = r\<lparr>rs_status := rs_status r'\<rparr>)"

text \<open>A transfer moves along the transitions of its document, one version at a time.\<close>

inductive transfer_path :: "transfer \<Rightarrow> transfer \<Rightarrow> bool" where
  stay: "transfer_path t t"
| move: "transfer_path t t' \<Longrightarrow> tr_status t' \<in> set (allowed_from a)
    \<Longrightarrow> transfer_path t (advanced_transfer a t')"

lemma transfer_path_trans: "transfer_path b c \<Longrightarrow> transfer_path a b \<Longrightarrow> transfer_path a c"
  by (induction rule: transfer_path.induct) (auto intro: transfer_path.intros)

lemma transfer_path_one:
  "tr_status t \<in> set (allowed_from a) \<Longrightarrow> transfer_path t (advanced_transfer a t)"
  by (rule move[OF stay])

lemma transfer_path_final:
  "transfer_path t t' \<Longrightarrow> tr_status t \<in> {TS_RECEIVED, TS_CANCELLED} \<Longrightarrow> t' = t"
proof (induction rule: transfer_path.induct)
  case (move t t' a)
  then show ?case by (cases a) auto
qed simp

lemma transfer_path_version: "transfer_path t t' \<Longrightarrow> tr_version t \<le> tr_version t'"
  by (induction rule: transfer_path.induct) (auto simp: advanced_transfer_def)

definition transfers_advance :: "(uid \<times> transfer) list \<Rightarrow> (uid \<times> transfer) list \<Rightarrow> bool" where
  "transfers_advance ts ts' \<longleftrightarrow> (\<forall>i t. map_of ts i = Some t \<longrightarrow>
     (\<exists>t'. map_of ts' i = Some t' \<and> transfer_path t t'))"

lemma transfers_advance_refl [simp]: "transfers_advance ts ts"
  by (auto simp: transfers_advance_def intro: stay)

lemma transfers_advance_trans: "transfers_advance a b \<Longrightarrow> transfers_advance b c \<Longrightarrow> transfers_advance a c"
  unfolding transfers_advance_def by (meson transfer_path_trans)

definition advances :: "inv_db \<Rightarrow> inv_db \<Rightarrow> bool" where
  "advances db db' \<longleftrightarrow> prefix (movements db) (movements db') \<and> prefix (audits db) (audits db')
     \<and> transfers_advance (transfers db) (transfers db')
     \<and> (\<forall>i r. map_of (reservations db) i = Some r \<longrightarrow>
          (\<exists>r'. map_of (reservations db') i = Some r' \<and> settled_step r r'))"

lemma settled_step_refl [simp]: "settled_step r r"
  by (simp add: settled_step_def)

lemma settled_step_trans: "settled_step a b \<Longrightarrow> settled_step b c \<Longrightarrow> settled_step a c"
  by (cases a; cases b; cases c) (auto simp: settled_step_def)

lemma settled_step_status [simp]: "rs_status r = RS_ACTIVE \<Longrightarrow> settled_step r (r\<lparr>rs_status := s\<rparr>)"
  by (cases r) (auto simp: settled_step_def)

lemma advances_refl: "advances db db"
  by (auto simp: advances_def)

lemma advances_trans:
  assumes "advances a b" "advances b c"
  shows "advances a c"
  unfolding advances_def
proof (intro conjI allI impI)
  show "prefix (movements a) (movements c)" "prefix (audits a) (audits c)"
    using assms by (auto simp: advances_def intro: prefix_order.trans)
  show "transfers_advance (transfers a) (transfers c)"
    using assms by (auto simp: advances_def intro: transfers_advance_trans)
  fix i r assume "map_of (reservations a) i = Some r"
  then obtain r1 where r1: "map_of (reservations b) i = Some r1" "settled_step r r1"
    using assms(1) by (auto simp: advances_def)
  then obtain r2 where "map_of (reservations c) i = Some r2" "settled_step r1 r2"
    using assms(2) by (auto simp: advances_def)
  then show "\<exists>r'. map_of (reservations c) i = Some r' \<and> settled_step r r'"
    using settled_step_trans[OF r1(2)] by blast
qed

lemma change_on_hand_in_adv: "change_on_hand_in c db = Inr (im, db') \<Longrightarrow> advances db db'"
  by (drule change_on_hand_in_Inr) (auto simp: advances_def record_audit_def)

lemma reserve_in_adv: "reserve_in c db = Inr (ir, db') \<Longrightarrow> advances db db'"
  by (drule reserve_in_Inr) (auto simp: advances_def record_audit_def map_add_def split: option.splits)

lemma release_effect_adv:
  "map_of (reservations db) i = Some r \<Longrightarrow> rs_status r = RS_ACTIVE
    \<Longrightarrow> release_effect i r b meta ctx db = Inr db' \<Longrightarrow> advances db db'"
  by (auto simp: release_effect_def res_iff advances_def record_audit_def set_reservation_def update_conv)

lemma consume_effect_adv:
  "map_of (reservations db) i = Some r \<Longrightarrow> rs_status r = RS_ACTIVE
    \<Longrightarrow> consume_effect i r b ctx db = Inr db' \<Longrightarrow> advances db db'"
  by (auto simp: consume_effect_def res_iff advances_def record_audit_def set_reservation_def update_conv)

lemma release_single_adv: "release_single i meta ctx db = Inr (n, db') \<Longrightarrow> advances db db'"
  by (auto simp: release_single_def res_iff advances_refl split: option.splits if_splits
      intro: release_effect_adv)

lemma consume_single_adv: "consume_single i ctx db = Inr (n, db') \<Longrightarrow> advances db db'"
  by (auto simp: consume_single_def res_iff advances_refl split: option.splits if_splits
      intro: consume_effect_adv)

lemma each_adv:
  assumes "\<And>i db n db'. f i db = Inr (n, db') \<Longrightarrow> advances db db'"
  shows "each_reservation f is db = Inr (n, db') \<Longrightarrow> advances db db'"
proof (induction "is" arbitrary: db n)
  case Nil
  then show ?case by (simp add: advances_refl)
next
  case (Cons i "is")
  then obtain n1 n2 db1 where "f i db = Inr (n1, db1)" "each_reservation f is db1 = Inr (n2, db')"
    by (auto simp: res_iff)
  then show ?case using assms Cons.IH advances_trans by blast
qed

lemma transition_body_adv:
  assumes "transition_body i r ctx now eff to_status db = Inr (r', db')"
    and "map_of (reservations db) i = Some r"
    and "\<And>b. rs_status r = RS_ACTIVE \<Longrightarrow> eff b db = Inr db' \<Longrightarrow> advances db db'"
  shows "advances db db'"
  using transition_body_Inr[OF assms(1,2)] assms(3) advances_refl by blast

lemma release_reservation_adv:
  assumes "release_reservation i ctx now db = Inr (r', db')"
  shows "advances db db'"
proof -
  obtain r where r: "precheck_transition i ctx now db = Inr r"
    "transition_body i r ctx now (\<lambda>b. release_effect i r b [] (actor_context.truncate ctx))
       RS_RELEASED db = Inr (r', db')"
    using assms by (auto simp: release_reservation_def res_iff)
  note row = precheck_transition_row[OF r(1)]
  show ?thesis by (rule transition_body_adv[OF r(2) row]) (rule release_effect_adv[OF row])
qed

lemma consume_reservation_adv:
  assumes "consume_reservation i ctx now db = Inr (r', db')"
  shows "advances db db'"
proof -
  obtain r where r: "precheck_transition i ctx now db = Inr r"
    "transition_body i r ctx now (\<lambda>b. consume_effect i r b (actor_context.truncate ctx))
       RS_CONSUMED db = Inr (r', db')"
    using assms by (auto simp: consume_reservation_def res_iff)
  note row = precheck_transition_row[OF r(1)]
  show ?thesis by (rule transition_body_adv[OF r(2) row]) (rule consume_effect_adv[OF row])
qed

lemma apply_only_balances:
  "apply_expiry_groups gs db = Inr db' \<Longrightarrow> \<exists>bs. db' = db\<lparr>balances := bs\<rparr>"
proof (induction gs arbitrary: db)
  case Nil
  then show ?case by (intro exI[of _ "balances db"]) simp
next
  case (Cons x gs)
  obtain k g where x: "x = (k, g)" by force
  show ?case
  proof (cases "eg_count g = 0")
    case True
    then show ?thesis using Cons by (simp add: x)
  next
    case False
    then obtain bs where "apply_expiry_groups gs (db\<lparr>balances := bs\<rparr>) = Inr db'"
      using Cons.prems by (auto simp: x Let_def res_iff)
    from Cons.IH[OF this] show ?thesis by auto
  qed
qed

lemma expire_body_adv:
  assumes "expire_body ctx now candidates db = Inr (n, db')"
  shows "advances db db'"
proof (cases "batch_rows now (set (map fst candidates)) db = []")
  case True
  then show ?thesis
    using assms by (simp add: expire_body_def Let_def batch_rows_def[symmetric] advances_refl)
next
  case False
  obtain db1 ids es gs where db': "apply_expiry_groups gs db = Inr db1"
    "db' = (let db2 = expire_rows ids now db1 in db2\<lparr>audits := audits db2 @ es\<rparr>)"
    using assms False by (auto simp: expire_body_def Let_def batch_rows_def[symmetric] res_iff)
  obtain bs where "db1 = db\<lparr>balances := bs\<rparr>" using apply_only_balances[OF db'(1)] by blast
  then show ?thesis
    by (auto simp: db'(2) Let_def advances_def expire_rows_lookup due_def)
qed

lemma expire_reservations_adv:
  "expire_reservations ctx now batch db = Inr (n, db') \<Longrightarrow> advances db db'"
  by (auto simp: expire_reservations_def res_iff Let_def advances_refl split: if_splits
      dest: expire_body_adv)

lemma production_adv:
  "transition_production_reservation_in i action ctx now db = Inr (n, db') \<Longrightarrow> advances db db'"
  by (cases action) (auto simp: transition_production_reservation_in_def res_iff
      dest: consume_single_adv release_single_adv)

lemma release_order_adv:
  "release_order_reservations oid meta ctx db = Inr (n, db') \<Longrightarrow> advances db db'"
  unfolding release_order_reservations_def by (erule each_adv[rotated]) (rule release_single_adv)

lemma consume_order_adv:
  "consume_reservations_for_order oid ctx db = Inr (n, db') \<Longrightarrow> advances db db'"
  unfolding consume_reservations_for_order_def res_iff
  by (elim conjE, erule each_adv[rotated]) (rule consume_single_adv)

section \<open>Transfers and the directory\<close>

lemma rows_wf_mint:
  "rows_wf db \<Longrightarrow> rows_wf (db\<lparr>transfers := ts, next_id := Suc (next_id db)\<rparr>)"
  "rows_wf db \<Longrightarrow> rows_wf (db\<lparr>warehouses := ws, next_id := Suc (next_id db)\<rparr>)"
  "rows_wf db \<Longrightarrow> rows_wf (db\<lparr>locations := ls, next_id := Suc (next_id db)\<rparr>)"
  by (auto simp: rows_wf_def less_SucI)

lemma ledger_ok_eqI:
  assumes "ledger_ok db" "bal db' = bal db" "held db' = held db" "ledger db' = ledger db" "rows_wf db'"
  shows "ledger_ok db'"
  using assms(1,5) unfolding ledger_ok_def stock_inv_def in_range_def assms(2-4) by blast

lemma ledger_ok_rows: "ledger_ok db \<Longrightarrow> rows_wf db"
  by (simp add: ledger_ok_def stock_inv_def)

lemma ledger_ok_mint:
  assumes "ledger_ok db"
  shows "ledger_ok (record_audit e (db\<lparr>transfers := ts, next_id := Suc (next_id db)\<rparr>))"
    "ledger_ok (record_audit e (db\<lparr>warehouses := ws, next_id := Suc (next_id db)\<rparr>))"
    "ledger_ok (record_audit e (db\<lparr>locations := ls, next_id := Suc (next_id db)\<rparr>))"
    "ledger_ok (record_audit e (db\<lparr>warehouses := ws\<rparr>))"
    "ledger_ok (record_audit e (db\<lparr>locations := ls\<rparr>))"
  by (rule ledger_ok_eqI[OF assms]; simp add: stock_simps rows_wf_mint ledger_ok_rows[OF assms])+

lemma create_transfer_Inr:
  assumes "create_transfer c fresh db = Inr (x, db')"
  shows "db' = db \<or> (\<exists>e t. db' = record_audit e
    (db\<lparr>transfers := transfers db @ [(next_id db, t)], next_id := Suc (next_id db)\<rparr>))"
proof (cases "if truthy (ct_idem c) then transfer_by_idem db (the (ct_idem c)) else None")
  case None
  with assms show ?thesis by (auto simp: create_transfer_def add_transfer_def res_iff)
next
  case (Some t)
  with assms show ?thesis by (auto simp: create_transfer_def res_iff)
qed

lemma create_transfer_ok: "ledger_ok db \<Longrightarrow> create_transfer c fresh db = Inr (x, db') \<Longrightarrow> ledger_ok db'"
  by (drule create_transfer_Inr) (auto intro: ledger_ok_mint)

lemma create_transfer_adv: "create_transfer c fresh db = Inr (x, db') \<Longrightarrow> advances db db'"
  by (drule create_transfer_Inr)
    (auto simp: advances_def record_audit_def transfers_advance_def map_add_def
      split: option.splits intro: stay)

lemma apply_transfer_int4:
  assumes run: "apply_transfer_movements d t db = Inr db'" and ok: "ledger_ok db"
  shows "int4 (onHand (bal db' k))"
proof (cases "k \<in> set (map (item_key d t) (tr_items t))")
  case True
  with apply_transfer_Inr[OF run ledger_ok_inv[OF ok]] show ?thesis by blast
next
  case False
  moreover have "bal db' k = (if k \<in> set (map (item_key d t) (tr_items t))
      then stamped (shift (item_sum d t k (tr_items t)) (bal db k)) else bal db k)"
    using apply_transfer_Inr[OF run ledger_ok_inv[OF ok]] by blast
  ultimately show ?thesis using ledger_ok_onHand[OF ok, of k] by (simp del: set_map)
qed

lemma transition_transfer_ok:
  assumes ok: "ledger_ok db" and run: "transition_transfer a i ctx db = Inr (t', db')"
  shows "ledger_ok db'"
proof (rule ledger_okI)
  show "stock_inv db'" using transition_transfer_inv[OF ledger_ok_inv[OF ok] run] .
  have eff: "int4 (onHand (bal db1 k))" if "transfer_effect a t db = Inr db1" for t db1 k
    using that ledger_ok_onHand[OF ok, of k] apply_transfer_int4[OF _ ok]
    by (cases a) (auto simp: transfer_effect_def)
  show "int4 (onHand (bal db' k))" for k
    using run by (cases rule: transition_transfer_Inr)
      (simp_all add: stock_simps ledger_ok_onHand[OF ok] eff)
qed

lemma transition_transfer_adv:
  assumes inv: "stock_inv db" and run: "transition_transfer a i ctx db = Inr (t', db')"
  shows "advances db db'"
  using run
proof (cases rule: transition_transfer_Inr)
  case replay
  then show ?thesis by (simp add: advances_refl)
next
  case (step t db1)
  have "reservations db1 = reservations db \<and> transfers db1 = transfers db
      \<and> audits db1 = audits db \<and> (\<exists>zs. movements db1 = movements db @ zs)"
    using step(3) by (cases a) (auto simp: transfer_effect_def dest: apply_transfer_Inr[OF _ inv])
  then show ?thesis
    using step(1,2) by (auto simp: step advances_def record_audit_def transfers_advance_def update_conv
        intro: stay transfer_path_one)
qed

lemma directory_ok:
  assumes ok: "ledger_ok db"
  shows "create_warehouse wc db = Inr (x1, db1) \<Longrightarrow> ledger_ok db1"
    "update_warehouse i wu db = Inr (x2, db2) \<Longrightarrow> ledger_ok db2"
    "create_location w lc db = Inr (x3, db3) \<Longrightarrow> ledger_ok db3"
    "update_location j lu db = Inr (x4, db4) \<Longrightarrow> ledger_ok db4"
  by (auto simp: create_warehouse_def update_warehouse_def create_location_def update_location_def
      res_iff Let_def intro: ledger_ok_mint[OF ok])

lemma directory_adv:
  "create_warehouse wc db = Inr (x1, db1) \<Longrightarrow> advances db db1"
  "update_warehouse i wu db = Inr (x2, db2) \<Longrightarrow> advances db db2"
  "create_location w lc db = Inr (x3, db3) \<Longrightarrow> advances db db3"
  "update_location j lu db = Inr (x4, db4) \<Longrightarrow> advances db db4"
  by (auto simp: create_warehouse_def update_warehouse_def create_location_def update_location_def
      res_iff Let_def advances_def record_audit_def)

section \<open>Exact outcomes\<close>

lemma reserve_gates:
  assumes "assert_tracked (actor_context.truncate c) = Inr ()"
    and "assert_stock_identity db (rc_key c) = Inr ()"
    and "assert_version (rc_expected c) (bal_version (bal db (rc_key c))) = Inr ()"
    and "\<not> bad_reserve_quantity (rc_quantity c)"
    and "rc_idem c = None \<or> reservation_by_idem db (the (rc_idem c)) = None"
  shows "reserve c db = throw_if (map_of (balances db) (rc_key c) = None
        \<or> available (bal db (rc_key c)) < the_int (rc_quantity c)) (Conflict ''INSUFFICIENT_STOCK'')
      (andthen (put_balance (rc_key c) (promised_balance c (bal db (rc_key c))) db) (\<lambda>db1.
       andthen (add_reservation (new_reservation c) db1) (\<lambda>(i, db2).
       Inr ((i, new_reservation c),
            record_audit (reservation_event c (bal db (rc_key c)) i) db2))))"
proof -
  have "reserve_replay c db = None"
    using assms(5) by (auto simp: reserve_replay_def truthy_def split: option.splits)
  then show ?thesis
    using assms(1-4) by (simp add: reserve_def reserve_in_def Let_def)
qed

lemma reserve_refuses:
  assumes "assert_tracked (actor_context.truncate c) = Inr ()"
    and "assert_stock_identity db (rc_key c) = Inr ()"
    and "assert_version (rc_expected c) (bal_version (bal db (rc_key c))) = Inr ()"
    and "\<not> bad_reserve_quantity (rc_quantity c)"
    and "rc_idem c = None \<or> reservation_by_idem db (the (rc_idem c)) = None"
    and "\<not> the_int (rc_quantity c) \<le> available (bal db (rc_key c))"
  shows "reserve c db = Inl (Conflict ''INSUFFICIENT_STOCK'')"
  using assms(6) by (simp add: reserve_gates[OF assms(1-5)])

lemma reserve_accepts:
  assumes ok: "ledger_ok db" and gates: "assert_tracked (actor_context.truncate c) = Inr ()"
    "assert_stock_identity db (rc_key c) = Inr ()"
    "assert_version (rc_expected c) (bal_version (bal db (rc_key c))) = Inr ()"
    "\<not> bad_reserve_quantity (rc_quantity c)"
    "rc_idem c = None \<or> reservation_by_idem db (the (rc_idem c)) = None"
    and fits: "the_int (rc_quantity c) \<le> available (bal db (rc_key c))"
  shows "\<exists>db'. reserve c db = Inr ((next_id db, new_reservation c), db')"
proof -
  let ?b = "bal db (rc_key c)" and ?q = "the_int (rc_quantity c)"
  have c: "consistent ?b" by (rule stock_invD(1)[OF ledger_ok_inv[OF ok]])
  have q: "0 < ?q" using gates(4) by (simp add: bad_reserve_quantity_def)
  have there: "map_of (balances db) (rc_key c) \<noteq> None"
    using fits q by (auto simp: bal_def find_or_def split: option.splits)
  have "int4 (onHand ?b)" by (rule ledger_ok_onHand[OF ok])
  then have "int4 (onHand ?b)" "int4 (reserved ?b + ?q)" "int4 (available ?b - ?q)"
    using c q fits by (auto simp: int4_def consistent_def)
  moreover have "rs_idem (new_reservation c) = rc_idem c" by (simp add: new_reservation_def)
  moreover have "reservation_by_idem (db\<lparr>balances := bs\<rparr>) = reservation_by_idem db" for bs
    by (simp add: reservation_by_idem_def fun_eq_iff)
  ultimately show ?thesis
    using there fits gates(5)
    by (auto simp: reserve_gates[OF gates] put_balance_def add_reservation_def split: option.splits)
qed

lemma find_snoc: "List.find P (xs @ [x]) = (case List.find P xs of None \<Rightarrow> (if P x then Some x else None) | Some y \<Rightarrow> Some y)"
  by (induction xs) auto

lemma change_on_hand_replay:
  assumes run: "change_on_hand_in c db = Inr (im, db')" and key: "truthy (sc_idem c)"
  shows "change_on_hand_in c db' = Inr (im, db')"
proof -
  have valid: "validate_stock_command c = Inr ()"
    using run by (auto simp: change_on_hand_in_def res_iff)
  have idem: "mv_idem (adjustment_movement c b) = sc_idem c"
    "movement_matches (adjustment_movement c b) c" for b
    by (simp_all add: adjustment_movement_def movement_matches_def)
  have "movement_replay c db' = Some im \<and> movement_matches (snd im) c"
    using change_on_hand_in_Inr[OF run] key
    by (auto simp: movement_replay_def movement_by_idem_def find_snoc record_audit_def idem
        truthy_def split: option.splits)
  then show ?thesis by (simp add: change_on_hand_in_def valid)
qed

lemma create_transfer_padded_retry:
  assumes run: "create_transfer c fresh db = Inr (x, db')"
    and new: "transfer_by_idem db (the (ct_idem c)) = None" and key: "truthy (ct_idem c)"
    and code: "ct_code c = Some code" "trim code \<noteq> code" "trim code \<noteq> []"
  shows "create_transfer c fresh' db' = Inl (Conflict ''Idempotency conflict'')"
proof -
  have guards: "assert_tracked (actor_context.truncate c) = Inr ()" "ct_items c \<noteq> []"
    "\<not> length (ct_items c) > max_transfer_items"
    "\<not> (\<exists>it \<in> set (ct_items c). \<not> is_integer (ci_quantity it) \<or> the_int (ci_quantity it) \<le> 0)"
    using run by (auto simp: create_transfer_def res_iff)
  obtain e where db': "db' = record_audit e (db\<lparr>transfers := transfers db @ [(next_id db, new_transfer c fresh)],
      next_id := Suc (next_id db)\<rparr>)"
    using run new key by (auto simp: create_transfer_def res_iff add_transfer_def)
  have "tr_idem (new_transfer c fresh) = Some (the (ct_idem c))"
    using key by (auto simp: new_transfer_def truthy_def split: option.splits)
  then have hit: "transfer_by_idem db' (the (ct_idem c)) = Some (next_id db, new_transfer c fresh)"
    using new by (simp add: db' transfer_by_idem_def find_snoc record_audit_def)
  have "\<not> transfer_matches (new_transfer c fresh) c"
    using code by (simp add: transfer_matches_def new_transfer_def transfer_code_def blank_def)
  then show ?thesis
    using guards hit key unfolding create_transfer_def by simp
qed

lemma expire_reservations_spec:
  assumes ok: "ledger_ok db" and "assert_tracked ctx = Inr ()"
  shows "\<exists>db'. let ids = set (map fst (expiry_candidates now (nat (clamp_int batch 1 100 100)) db)) in
      expire_reservations ctx now batch db = Inr (length (batch_rows now ids db), db') \<and> ledger_ok db'
      \<and> (\<forall>i. map_of (reservations db') i = map_option
           (\<lambda>r. if i \<in> ids \<and> due now r then r\<lparr>rs_status := RS_EXPIRED\<rparr> else r) (map_of (reservations db) i))
      \<and> (\<forall>k. shelf db' k = (onHand (bal db k), reserved (bal db k) - row_qty k (batch_rows now ids db)))"
proof -
  let ?c = "expiry_candidates now (nat (clamp_int batch 1 100 100)) db"
  let ?ids = "set (map fst ?c)"
  have inv: "stock_inv db" "in_range db" using ok by (simp_all add: ledger_ok_def)
  obtain db' where b: "expire_body ctx now ?c db = Inr (length (batch_rows now ?ids db), db')"
    "stock_inv db'" "in_range db'"
    "\<And>i. map_of (reservations db') i = map_option
       (\<lambda>r. if i \<in> ?ids \<and> due now r then r\<lparr>rs_status := RS_EXPIRED\<rparr> else r) (map_of (reservations db) i)"
    "\<And>k. shelf db' k = (onHand (bal db k), reserved (bal db k) - row_qty k (batch_rows now ?ids db))"
    by (rule expire_body_returns[OF inv distinct_batch[OF inv(1)]]) (rule that)
  show ?thesis
  proof (cases "?c = []")
    case True
    then show ?thesis
      using b ok assms(2) by (intro exI[of _ db])
        (auto simp: expire_reservations_def Let_def batch_rows_def expiry_order_def shelf_def option.map_ident)
  next
    case False
    then show ?thesis
      using b assms(2) by (intro exI[of _ db']) (simp add: expire_reservations_def Let_def ledger_ok_def)
  qed
qed

section \<open>The public commands\<close>

datatype inventory_command =
    IC_change stock_command
  | IC_return stock_command
  | IC_reserve reserve_command
  | IC_release uid lifecycle_context int
  | IC_consume uid lifecycle_context int
  | IC_release_order uid actor_context
  | IC_expire_order uid string
  | IC_consume_order uid actor_context
  | IC_production uid production_action actor_context int
  | IC_expire actor_context int "js_number option"
  | IC_create_transfer create_transfer_command string
  | IC_transfer transfer_action uid transfer_context
  | IC_create_warehouse warehouse_create
  | IC_update_warehouse uid warehouse_update
  | IC_create_location uid location_create
  | IC_update_location uid location_update

definition done_with :: "('a \<times> inv_db) res \<Rightarrow> (unit \<times> inv_db) res" where
  "done_with m = andthen m (\<lambda>(_, db'). Inr ((), db'))"

lemma done_with_Inr [res_iff]: "done_with m = Inr (u, db') \<longleftrightarrow> (\<exists>x. m = Inr (x, db'))"
  by (auto simp: done_with_def res_iff)

fun exec_inventory :: "inventory_command \<Rightarrow> inv_db \<Rightarrow> (unit \<times> inv_db) res" where
  "exec_inventory (IC_change c) db = done_with (change_on_hand c db)"
| "exec_inventory (IC_return c) db = done_with (change_on_hand_in c db)"
| "exec_inventory (IC_reserve c) db = done_with (reserve c db)"
| "exec_inventory (IC_release i ctx now) db = done_with (release_reservation i ctx now db)"
| "exec_inventory (IC_consume i ctx now) db = done_with (consume_reservation i ctx now db)"
| "exec_inventory (IC_release_order oid ctx) db = done_with (release_reservations_for_order oid ctx db)"
| "exec_inventory (IC_expire_order oid rq) db = done_with (release_reservations_for_order_from_expiry oid rq db)"
| "exec_inventory (IC_consume_order oid ctx) db = done_with (consume_reservations_for_order oid ctx db)"
| "exec_inventory (IC_production i a ctx now) db = done_with (transition_production_reservation_in i a ctx now db)"
| "exec_inventory (IC_expire ctx now batch) db = done_with (expire_reservations ctx now batch db)"
| "exec_inventory (IC_create_transfer c fresh) db = done_with (create_transfer c fresh db)"
| "exec_inventory (IC_transfer a i ctx) db = done_with (transition_transfer a i ctx db)"
| "exec_inventory (IC_create_warehouse c) db = done_with (create_warehouse c db)"
| "exec_inventory (IC_update_warehouse i c) db = done_with (update_warehouse i c db)"
| "exec_inventory (IC_create_location w c) db = done_with (create_location w c db)"
| "exec_inventory (IC_update_location i c) db = done_with (update_location i c db)"

lemma reserve_Inr: "reserve c db = Inr x \<Longrightarrow> reserve_in c db = Inr x"
  by (simp add: reserve_def res_iff)

lemma order_commands_ok:
  assumes ok: "ledger_ok db"
  shows "release_reservations_for_order oid ctx db = Inr (n, db') \<Longrightarrow> ledger_ok db'"
    "release_reservations_for_order_from_expiry oid rq db = Inr (n, db') \<Longrightarrow> ledger_ok db'"
    "consume_reservations_for_order oid ctx db = Inr (n, db') \<Longrightarrow> ledger_ok db'"
  unfolding release_reservations_for_order_def release_reservations_for_order_from_expiry_def
    consume_reservations_for_order_def release_order_reservations_def res_iff
  by (elim exE conjE, erule releasing.each_ok[OF ok] selling.each_ok[OF ok])+

lemma order_commands_adv:
  "release_reservations_for_order oid ctx db = Inr (n, db') \<Longrightarrow> advances db db'"
  "release_reservations_for_order_from_expiry oid rq db = Inr (n, db') \<Longrightarrow> advances db db'"
  by (auto simp: release_reservations_for_order_def release_reservations_for_order_from_expiry_def
      res_iff dest: release_order_adv)

lemma exec_inventory_ok:
  assumes ok: "ledger_ok db" and run: "exec_inventory c db = Inr (u, db')"
  shows "ledger_ok db'"
proof (cases c)
  case (IC_change sc)
  then obtain im where "change_on_hand sc db = Inr (im, db')" using run by (auto simp: res_iff)
  then show ?thesis using change_on_hand_in_ok[OF ok] change_on_hand_Inr by blast
next
  case (IC_reserve rc)
  then obtain ir where "reserve rc db = Inr (ir, db')" using run by (auto simp: res_iff)
  then show ?thesis using reserve_in_ok[OF ok] reserve_Inr by blast
qed (use run in \<open>auto simp: res_iff intro: change_on_hand_in_ok[OF ok] release_reservation_ok[OF ok]
    consume_reservation_ok[OF ok] order_commands_ok[OF ok] production_ok[OF ok]
    expire_reservations_ok[OF ok] create_transfer_ok[OF ok] transition_transfer_ok[OF ok]
    directory_ok[OF ok]\<close>)

lemma exec_inventory_adv:
  assumes ok: "ledger_ok db" and run: "exec_inventory c db = Inr (u, db')"
  shows "advances db db'"
proof (cases c)
  case (IC_change sc)
  then obtain im where "change_on_hand sc db = Inr (im, db')" using run by (auto simp: res_iff)
  then show ?thesis using change_on_hand_in_adv change_on_hand_Inr by blast
next
  case (IC_reserve rc)
  then obtain ir where "reserve rc db = Inr (ir, db')" using run by (auto simp: res_iff)
  then show ?thesis using reserve_in_adv reserve_Inr by blast
qed (use run in \<open>auto simp: res_iff intro: change_on_hand_in_adv release_reservation_adv
    consume_reservation_adv order_commands_adv consume_order_adv production_adv
    expire_reservations_adv create_transfer_adv transition_transfer_adv[OF ledger_ok_inv[OF ok]]
    directory_adv\<close>)

interpretation stock: tx_component exec_inventory ledger_ok
  by unfold_locales (rule exec_inventory_ok)

interpretation stock_log: tx_history exec_inventory ledger_ok advances
  by unfold_locales (rule advances_refl advances_trans exec_inventory_adv; assumption)+

lemma ledger_ok_empty: "ledger_ok empty_db"
  by (rule ledger_okI[OF stock_inv_empty]) (simp add: int4_def bal_def empty_db_def find_or_def)

end
