(* ===== verification/Inventory_Properties.thy ===== *)
theory Inventory_Properties
  imports Inventory_Commands
begin

text \<open>
  The properties of the inventory, each with a run of real commands as its witness: a warehouse, a
  location, a receipt of ten and a reservation of four for order 7.
\<close>

section \<open>A small shop\<close>

definition staff :: actor_context where
  "staff = \<lparr>ctx_actor = Some ''staff-1'', ctx_request = Some ''req-1''\<rparr>"

definition catalog_db :: "(uid \<times> variant) list \<Rightarrow> inv_db" where
  "catalog_db vs = empty_db\<lparr>variants := vs\<rparr>"

definition demo_shelf :: stock_key where
  "demo_shelf = StockKey 0 1 50"

definition demo_catalog :: "(uid \<times> variant) list" where
  "demo_catalog = [(50, \<lparr>var_active = True, var_status = PS_ACTIVE, var_product_status = PS_ACTIVE\<rparr>)]"

definition demo_receipt :: stock_command where
  "demo_receipt = actor_context.extend staff
     \<lparr>sc_key = demo_shelf, sc_delta = JsInt 10, sc_type = RECEIPT, sc_reason = None,
      sc_ref_type = None, sc_ref_id = None, sc_idem = Some ''k1'', sc_expected = None\<rparr>"

definition demo_order :: reserve_command where
  "demo_order = actor_context.extend staff
     \<lparr>rc_key = demo_shelf, rc_order = Some 7, rc_quantity = JsInt 4, rc_expires = 1000,
      rc_expected = None, rc_idem = Some ''r1''\<rparr>"

definition demo_setup :: "inventory_command list" where
  "demo_setup =
    [IC_create_warehouse (actor_context.extend staff
       \<lparr>wc_code = ''W1'', wc_name = ''Main'', wc_city = None, wc_address = None\<rparr>),
     IC_create_location 0 (actor_context.extend staff
       \<lparr>lc_code = ''A'', lc_name = None, lc_zone = None, lc_aisle = None, lc_rack = None,
        lc_shelf = None, lc_bin = None\<rparr>)]"

definition stocked_db :: inv_db where
  "stocked_db = run_txs exec_inventory (demo_setup @ [IC_change demo_receipt]) (catalog_db demo_catalog)"

definition demo_db :: inv_db where
  "demo_db = run_txs exec_inventory (demo_setup @ [IC_change demo_receipt, IC_reserve demo_order])
     (catalog_db demo_catalog)"

lemma catalog_ok: "ledger_ok (catalog_db vs)"
  by (rule ledger_ok_eqI[OF ledger_ok_empty])
    (simp_all add: catalog_db_def empty_db_def bal_def held_def ledger_def rows_wf_def fun_eq_iff)

lemma stocked_ok: "ledger_ok stocked_db"
  unfolding stocked_db_def by (rule stock.run_inv[OF catalog_ok])

lemma demo_ok: "ledger_ok demo_db"
  unfolding demo_db_def by (rule stock.run_inv[OF catalog_ok])

section \<open>Properties\<close>

text \<open>C1: Whatever commands the inventory service runs, on any catalogue, in any order, committed or
  rejected: on every shelf the stored available stock is what is on hand less what is reserved, it
  is never negative (nothing is oversold), what is reserved is exactly the sum of the active
  reservations, and what is on hand is exactly the sum of the movement ledger.\<close>

theorem stock_always_reconciled:
  "let db = run_txs exec_inventory cs (catalog_db vs); b = bal db k in
     0 \<le> available b \<and> 0 \<le> reserved b \<and> available b = onHand b - reserved b
     \<and> reserved b = asum (\<lambda>_ r. if rs_key r = k \<and> rs_status r = RS_ACTIVE then rs_quantity r else 0)
         (reservations db)
     \<and> onHand b = asum (\<lambda>_ m. if mv_key m = k then mv_quantity m else 0) (movements db)"
  using stock_invD(1-3)[OF ledger_ok_inv[OF stock.run_inv[OF catalog_ok[of vs], of cs]], of k]
  by (simp add: Let_def consistent_def held_def ledger_def active_qty_def)

text \<open>C2: The history only grows: later commands append to the movement ledger and to the audit
  trail, a reservation leaves the active state at most once and keeps every other field, and a
  transfer moves only along the documented transitions.\<close>

theorem history_only_grows:
  "let db = run_txs exec_inventory cs (catalog_db vs); db' = run_txs exec_inventory (cs @ ds) (catalog_db vs) in
     prefix (movements db) (movements db') \<and> prefix (audits db) (audits db')
     \<and> (\<forall>i r. map_of (reservations db) i = Some r \<longrightarrow>
          (\<exists>r'. map_of (reservations db') i = Some r' \<and> (r' = r \<or>
             (rs_status r = RS_ACTIVE \<and> r' = r\<lparr>rs_status := rs_status r'\<rparr>))))
     \<and> (\<forall>i t. map_of (transfers db) i = Some t \<longrightarrow>
          (\<exists>t'. map_of (transfers db') i = Some t' \<and> transfer_path t t'))"
  using stock_log.run_adv[OF stock.run_inv[OF catalog_ok[of vs], of cs], of ds]
  by (simp add: run_txs_append Let_def advances_def settled_step_def transfers_advance_def)

theorem history_only_grows_witness:
  "\<exists>r'. map_of (reservations (run_txs exec_inventory
      ((demo_setup @ [IC_change demo_receipt, IC_reserve demo_order]) @ [IC_release_order 7 staff])
      (catalog_db demo_catalog))) 3 = Some r' \<and> rs_status r' = RS_RELEASED \<and> rs_quantity r' = 4"
proof -
  let ?cs = "demo_setup @ [IC_change demo_receipt, IC_reserve demo_order]"
  let ?db' = "run_txs exec_inventory (?cs @ [IC_release_order 7 staff]) (catalog_db demo_catalog)"
  have r: "map_of (reservations demo_db) 3 =
      Some \<lparr>rs_key = demo_shelf, rs_order = Some 7, rs_quantity = 4, rs_status = RS_ACTIVE,
        rs_expires = 1000, rs_idem = Some ''r1''\<rparr>"
    by code_simp
  have s: "map_option rs_status (map_of (reservations ?db') 3) = Some RS_RELEASED" by code_simp
  obtain r' where r': "map_of (reservations ?db') 3 = Some r'" and st: "rs_status r' = RS_RELEASED"
    using s by auto
  have "r' = the (map_of (reservations demo_db) 3)\<lparr>rs_status := rs_status r'\<rparr>"
    using history_only_grows[of ?cs demo_catalog "[IC_release_order 7 staff]", unfolded Let_def,
        folded demo_db_def, THEN conjunct2, THEN conjunct2, THEN conjunct1, rule_format, OF r] r' st r
    by (elim exE conjE disjE) simp_all
  then have "rs_quantity r' = 4" using r by (cases r') simp
  then show ?thesis using r' st by blast
qed

text \<open>C3: Reserving is exact: when the request is well formed, names an existing shelf, carries no
  used key and no stale version, it is accepted if and only if the shelf has that much available,
  and then promises exactly the quantity on that shelf and nothing anywhere else.\<close>

theorem reserve_exact:
  assumes "ledger_ok db"
    and "assert_tracked (actor_context.truncate c) = Inr ()"
    and "assert_stock_identity db (rc_key c) = Inr ()"
    and "assert_version (rc_expected c) (bal_version (bal db (rc_key c))) = Inr ()"
    and "\<not> bad_reserve_quantity (rc_quantity c)"
    and "rc_idem c = None \<or> reservation_by_idem db (the (rc_idem c)) = None"
  shows "case reserve c db of
      Inl e \<Rightarrow> e = Conflict ''INSUFFICIENT_STOCK'' \<and> available (bal db (rc_key c)) < the_int (rc_quantity c)
    | Inr (ir, db') \<Rightarrow> the_int (rc_quantity c) \<le> available (bal db (rc_key c))
        \<and> ir = (next_id db, new_reservation c)
        \<and> shelf db' = (shelf db)(rc_key c := (onHand (bal db (rc_key c)),
            reserved (bal db (rc_key c)) + the_int (rc_quantity c)))"
proof (cases "the_int (rc_quantity c) \<le> available (bal db (rc_key c))")
  case True
  from reserve_accepts[OF assms True] obtain db' where
    run: "reserve c db = Inr ((next_id db, new_reservation c), db')" by blast
  moreover have "reserve_replay c db = None"
    using assms(6) by (auto simp: reserve_replay_def truthy_def split: option.splits)
  ultimately show ?thesis
    using True reserve_in_refines[OF reserve_Inr[OF run]] by (simp add: shelf_ops shelf_def)
next
  case False
  then show ?thesis using reserve_refuses[OF assms(2-6)] by simp
qed

theorem reserve_exact_witness:
  "case reserve demo_order stocked_db of Inl e \<Rightarrow> False
   | Inr (ir, db') \<Rightarrow> fst ir = 3 \<and> shelf db' demo_shelf = (10, 4)"
proof -
  have pre: "assert_tracked (actor_context.truncate demo_order) = Inr ()"
    "assert_stock_identity stocked_db (rc_key demo_order) = Inr ()"
    "assert_version (rc_expected demo_order) (bal_version (bal stocked_db (rc_key demo_order))) = Inr ()"
    "\<not> bad_reserve_quantity (rc_quantity demo_order)"
    "rc_idem demo_order = None \<or> reservation_by_idem stocked_db (the (rc_idem demo_order)) = None"
    by code_simp+
  have num: "available (bal stocked_db (rc_key demo_order)) = 10" "next_id stocked_db = 3"
    "onHand (bal stocked_db (rc_key demo_order)) = 10" "reserved (bal stocked_db (rc_key demo_order)) = 0"
    "the_int (rc_quantity demo_order) = 4" "rc_key demo_order = demo_shelf"
    by code_simp+
  show ?thesis
    using reserve_exact[OF stocked_ok pre] num by (auto split: sum.splits)
qed

text \<open>C4: Releasing an order's stock always succeeds for a tracked request: it answers how many
  reservations were active, leaves the order none, gives every shelf back exactly what the order
  held there and takes no goods.\<close>

theorem order_release_total:
  assumes "ledger_ok db" and "assert_tracked ctx = Inr ()"
  shows "\<exists>db'. release_reservations_for_order oid ctx db = Inr (length (active_of_order db oid), db')
    \<and> ledger_ok db' \<and> active_of_order db' oid = []
    \<and> (\<forall>k. shelf db' k = (onHand (bal db k), reserved (bal db k) - order_qty db oid k))"
proof -
  have inv: "stock_inv db" "in_range db" using assms(1) by (simp_all add: ledger_ok_def)
  from release_order_spec[OF inv, of oid "[]" ctx] obtain db' where
    "release_order_reservations oid [] ctx db = Inr (length (active_of_order db oid), db')"
    "stock_inv db'" "in_range db'" "active_of_order db' oid = []"
    "\<And>k. shelf db' k = (onHand (bal db k), reserved (bal db k) - order_qty db oid k)" by metis
  then show ?thesis
    using assms(2) by (auto simp: release_reservations_for_order_def ledger_ok_def)
qed

theorem order_release_total_witness:
  "\<exists>db'. release_reservations_for_order 7 staff demo_db = Inr (1, db') \<and> shelf db' demo_shelf = (10, 0)"
proof -
  have "assert_tracked staff = Inr ()" "length (active_of_order demo_db 7) = 1"
    "onHand (bal demo_db demo_shelf) = 10" "reserved (bal demo_db demo_shelf) = 4"
    "order_qty demo_db 7 demo_shelf = 4" by code_simp+
  then show ?thesis using order_release_total[OF demo_ok, of staff 7] by auto
qed

text \<open>C5: Selling an order's stock (on payment) always succeeds too: every active reservation of the
  order is consumed once, and each shelf loses exactly the order's quantity from both what is on
  hand and what is reserved, so that what was available to others does not change.\<close>

theorem order_sale_total:
  assumes "ledger_ok db" and "\<not> blank (ctx_request ctx)"
  shows "\<exists>db'. consume_reservations_for_order oid ctx db = Inr (length (active_of_order db oid), db')
    \<and> ledger_ok db' \<and> active_of_order db' oid = []
    \<and> (\<forall>k. shelf db' k = (onHand (bal db k) - order_qty db oid k, reserved (bal db k) - order_qty db oid k))
    \<and> (\<forall>k. available (bal db' k) = available (bal db k))"
proof -
  have inv: "stock_inv db" "in_range db" using assms(1) by (simp_all add: ledger_ok_def)
  from sell_order_spec[OF inv, of ctx oid] obtain db' where
    s: "each_reservation (\<lambda>i. consume_single i ctx) (active_of_order db oid) db
       = Inr (length (active_of_order db oid), db')"
    "stock_inv db'" "in_range db'" "active_of_order db' oid = []"
    "\<And>k. shelf db' k = (onHand (bal db k) - order_qty db oid k, reserved (bal db k) - order_qty db oid k)"
    by metis
  have "available (bal db' k) = available (bal db k)" for k
    using stock_invD(1)[OF inv(1), of k] stock_invD(1)[OF s(2), of k] s(5)[of k]
    by (simp add: consistent_def shelf_def)
  with s show ?thesis
    using assms(2) by (auto simp: consume_reservations_for_order_def ledger_ok_def)
qed

theorem order_sale_total_witness:
  "\<exists>db'. consume_reservations_for_order 7 staff demo_db = Inr (1, db') \<and> shelf db' demo_shelf = (6, 0)"
proof -
  have "\<not> blank (ctx_request staff)" "length (active_of_order demo_db 7) = 1"
    "onHand (bal demo_db demo_shelf) = 10" "reserved (bal demo_db demo_shelf) = 4"
    "order_qty demo_db 7 demo_shelf = 4" by code_simp+
  then show ?thesis using order_sale_total[OF demo_ok, of staff 7] by auto
qed

text \<open>C6: A run of the expiry worker always commits and is complete: it expires exactly the first due
  reservations of the batch, in order of their deadline, gives their quantities back to their
  shelves, and leaves goods and every other reservation alone.\<close>

theorem expiry_total:
  assumes "ledger_ok db" and "assert_tracked ctx = Inr ()"
  shows "\<exists>db'. let ids = set (map fst (expiry_candidates now (nat (clamp_int batch 1 100 100)) db)) in
      expire_reservations ctx now batch db = Inr (length (batch_rows now ids db), db') \<and> ledger_ok db'
      \<and> (\<forall>i. map_of (reservations db') i = map_option
           (\<lambda>r. if i \<in> ids \<and> due now r then r\<lparr>rs_status := RS_EXPIRED\<rparr> else r) (map_of (reservations db) i))
      \<and> (\<forall>k. shelf db' k = (onHand (bal db k), reserved (bal db k) - row_qty k (batch_rows now ids db)))"
  using assms by (intro expire_reservations_spec)

theorem expiry_total_witness:
  "\<exists>db'. expire_reservations staff 2000 None demo_db = Inr (1, db') \<and> shelf db' demo_shelf = (10, 0)"
proof -
  let ?ids = "set (map fst (expiry_candidates 2000 (nat (clamp_int None 1 100 100)) demo_db))"
  have "assert_tracked staff = Inr ()" "length (batch_rows 2000 ?ids demo_db) = 1"
    "onHand (bal demo_db demo_shelf) = 10" "reserved (bal demo_db demo_shelf) = 4"
    "row_qty demo_shelf (batch_rows 2000 ?ids demo_db) = 4" by code_simp+
  then show ?thesis using expiry_total[OF demo_ok, of staff 2000 None] by (auto simp: Let_def)
qed

text \<open>C7: A stock command with an idempotency key is applied once: running it again after it returned
  answers the same movement and changes nothing.\<close>

theorem stock_command_idempotent:
  assumes "change_on_hand_in c db = Inr (im, db')" and "truthy (sc_idem c)"
  shows "change_on_hand_in c db' = Inr (im, db')"
  using assms by (rule change_on_hand_replay)

theorem stock_command_idempotent_witness:
  "change_on_hand_in demo_receipt stocked_db = Inr ((2, the (map_of (movements stocked_db) 2)), stocked_db)"
proof -
  let ?db = "run_txs exec_inventory demo_setup (catalog_db demo_catalog)"
  have run: "change_on_hand_in demo_receipt ?db = Inr ((2, the (map_of (movements stocked_db) 2)), stocked_db)"
    by code_simp
  have "truthy (sc_idem demo_receipt)" by code_simp
  from stock_command_idempotent[OF run this] show ?thesis .
qed

text \<open>C8: No transition of a transfer makes or loses goods: for every SKU, what lies on all shelves
  plus what the transfers in transit carry is the same before and after.\<close>

theorem transfers_conserve_goods:
  assumes "ledger_ok db" and "transition_transfer a i ctx db = Inr (t, db')"
  shows "on_shelves db' v + in_transit db' v = on_shelves db v + in_transit db v"
  using goods_conserved[OF ledger_ok_inv[OF assms(1)] assms(2)] .

definition transfer_setup :: "inventory_command list" where
  "transfer_setup = demo_setup @
    [IC_change demo_receipt,
     IC_create_warehouse (actor_context.extend staff
       \<lparr>wc_code = ''W2'', wc_name = ''Branch'', wc_city = None, wc_address = None\<rparr>),
     IC_create_location 3 (actor_context.extend staff
       \<lparr>lc_code = ''B'', lc_name = None, lc_zone = None, lc_aisle = None, lc_rack = None,
        lc_shelf = None, lc_bin = None\<rparr>)]"

definition padded_transfer :: create_transfer_command where
  "padded_transfer = actor_context.extend staff
     \<lparr>ct_code = Some '' T1 '', ct_source = 0, ct_target = 3,
      ct_items = [\<lparr>ci_variant = 50, ci_quantity = JsInt 6, ci_source = Some 1, ci_target = Some 4\<rparr>],
      ct_idem = Some ''t1''\<rparr>"

definition transfer_staff :: transfer_context where
  "transfer_staff = actor_context.extend staff \<lparr>tc_expected = None, tc_idem = None\<rparr>"

definition approved_db :: inv_db where
  "approved_db = run_txs exec_inventory (transfer_setup @
     [IC_create_transfer padded_transfer ''TRF-0'', IC_transfer TA_request 5 transfer_staff,
      IC_transfer TA_approve 5 transfer_staff]) (catalog_db demo_catalog)"

lemma approved_ok: "ledger_ok approved_db"
  unfolding approved_db_def by (rule stock.run_inv[OF catalog_ok])

theorem transfers_conserve_goods_witness:
  "\<exists>t db'. transition_transfer TA_dispatch 5 transfer_staff approved_db = Inr (t, db')
     \<and> tr_status t = TS_IN_TRANSIT \<and> on_shelves db' 50 = 4 \<and> in_transit db' 50 = 6"
proof -
  let ?run = "transition_transfer TA_dispatch 5 transfer_staff approved_db"
  have ok: "case ?run of Inl _ \<Rightarrow> False | Inr (t, db') \<Rightarrow> tr_status t = TS_IN_TRANSIT \<and> in_transit db' 50 = 6"
    "on_shelves approved_db 50 = 10" "in_transit approved_db 50 = 0"
    by code_simp+
  then obtain t db' where run: "?run = Inr (t, db')" "tr_status t = TS_IN_TRANSIT" "in_transit db' 50 = 6"
    by (auto split: sum.splits)
  then show ?thesis using transfers_conserve_goods[OF approved_ok run(1), of 50] ok by auto
qed

text \<open>A SKU the shop shows as in stock or low on stock can really be had: some shelf has at least
  one unit of it that no reservation holds.\<close>

theorem shown_stock_exists:
  assumes "ledger_ok db" and "(v, s) \<in> set (get_public_availability ids db)"
    and "s = IN_STOCK \<or> s = LOW_STOCK"
  shows "\<exists>k. sk_variant k = v \<and> 0 < available (bal db k)"
  using assms stock_status_available[OF ledger_ok_inv[OF assms(1)], of v]
  by (auto simp: get_public_availability_def)

theorem shown_stock_exists_witness:
  "\<exists>k. sk_variant k = 50 \<and> 0 < available (bal demo_db k)"
proof -
  have "(50, IN_STOCK) \<in> set (get_public_availability [50, 51, 50] demo_db)" by code_simp
  then show ?thesis using shown_stock_exists[OF demo_ok] by blast
qed

text \<open>Creating or changing warehouses and locations keeps the directory unambiguous: no two
  warehouses share a code, and no two locations of one warehouse do.\<close>

theorem directory_unambiguous:
  assumes "distinct (map (wh_code \<circ> snd) (warehouses db))"
    and "distinct (map (\<lambda>x. (loc_warehouse (snd x), loc_code (snd x))) (locations db))"
    and "c \<in> {IC_create_warehouse wc, IC_update_warehouse i wu, IC_create_location w lc, IC_update_location j lu}"
    and "exec_inventory c db = Inr (u, db')"
  shows "distinct (map (wh_code \<circ> snd) (warehouses db'))
    \<and> distinct (map (\<lambda>x. (loc_warehouse (snd x), loc_code (snd x))) (locations db'))"
proof -
  have wf: "directory_wf db" using assms(1,2) by (simp add: directory_wf_def)
  have "directory_wf db'"
    using assms(3,4) by (auto simp: res_iff intro: create_warehouse_wf[OF wf] update_warehouse_wf[OF wf]
        create_location_wf[OF wf] update_location_wf[OF wf])
  then show ?thesis by (simp add: directory_wf_def)
qed

theorem directory_unambiguous_witness:
  "\<exists>db'. exec_inventory (IC_create_warehouse (actor_context.extend staff
       \<lparr>wc_code = ''W9'', wc_name = ''New'', wc_city = None, wc_address = None\<rparr>)) demo_db = Inr ((), db')
     \<and> distinct (map (wh_code \<circ> snd) (warehouses db'))"
proof -
  let ?wc = "actor_context.extend staff \<lparr>wc_code = ''W9'', wc_name = ''New'', wc_city = None, wc_address = None\<rparr>"
  have ok: "case exec_inventory (IC_create_warehouse ?wc) demo_db of Inl _ \<Rightarrow> False | Inr _ \<Rightarrow> True"
    "distinct (map (wh_code \<circ> snd) (warehouses demo_db))"
    "distinct (map (\<lambda>x. (loc_warehouse (snd x), loc_code (snd x))) (locations demo_db))"
    by code_simp+
  then obtain u db' where run: "exec_inventory (IC_create_warehouse ?wc) demo_db = Inr (u, db')"
    by (auto split: sum.splits)
  show ?thesis
    using directory_unambiguous[OF ok(2,3) _ run, of ?wc] run by auto
qed

text \<open>C11: A transfer created with a code that has surrounding blanks cannot be retried: the stored
  code is trimmed, the replay compares it with the untrimmed one, and the retry under the same
  idempotency key is refused as a conflict instead of answering the stored transfer.\<close>

theorem padded_transfer_retry_refused:
  assumes "create_transfer c fresh db = Inr (x, db')" and "transfer_by_idem db (the (ct_idem c)) = None"
    and "truthy (ct_idem c)" and "ct_code c = Some code" and "trim code \<noteq> code" and "trim code \<noteq> []"
  shows "create_transfer c fresh' db' = Inl (Conflict ''Idempotency conflict'')"
  using assms by (rule create_transfer_padded_retry)

theorem padded_transfer_retry_refused_witness:
  "create_transfer padded_transfer ''TRF-1'' (run_txs exec_inventory
      (transfer_setup @ [IC_create_transfer padded_transfer ''TRF-0'']) (catalog_db demo_catalog))
    = Inl (Conflict ''Idempotency conflict'')"
proof -
  let ?db = "run_txs exec_inventory transfer_setup (catalog_db demo_catalog)"
  have ok: "case create_transfer padded_transfer ''TRF-0'' ?db of Inl _ \<Rightarrow> False | Inr _ \<Rightarrow> True"
    "transfer_by_idem ?db (the (ct_idem padded_transfer)) = None" "truthy (ct_idem padded_transfer)"
    "ct_code padded_transfer = Some '' T1 ''" "trim '' T1 '' \<noteq> '' T1 ''" "trim '' T1 '' \<noteq> []"
    by code_simp+
  then obtain x db' where run: "create_transfer padded_transfer ''TRF-0'' ?db = Inr (x, db')"
    by (auto split: sum.splits)
  then have "run_txs exec_inventory (transfer_setup @ [IC_create_transfer padded_transfer ''TRF-0''])
      (catalog_db demo_catalog) = db'"
    by (simp add: run_txs_append done_with_def)
  then show ?thesis using padded_transfer_retry_refused[OF run ok(2-6)] by simp
qed

end
