(* ===== verification/Promotion_Engine.thy ===== *)
theory Promotion_Engine
  imports Prelude "HOL-Library.Signed_Division"
begin

text \<open>
  The pure pricing of promotions (\<open>modules/promotions/promotion-engine.ts\<close>): which lines a
  promotion reaches, how a discount is spread over them to the last Rial, and which combination of
  promotions an order gets. Amounts are \<open>bigint\<close>, so there is no overflow; \<open>sdiv\<close> and \<open>smod\<close> are
  the truncating division of \<open>bigint\<close>.
\<close>

section \<open>Data\<close>

datatype engine_kind = EK_PERCENTAGE | EK_FIXED_CART | EK_FIXED_ITEM | EK_FREE_SHIPPING

datatype target_type = TG_PRODUCT | TG_VARIANT | TG_CATEGORY | TG_BRAND

record engine_target =
  et_type :: target_type
  et_target :: uid
  et_exclude :: bool

record engine_line =
  el_variant :: uid
  el_product :: uid
  el_categories :: "uid list"
  el_brand :: "uid option"
  el_price :: int
  el_quantity :: int

record engine_promotion =
  ep_id :: uid
  ep_coupon :: "uid option"
  ep_name :: string
  ep_kind :: engine_kind
  ep_percent :: "int option"
  ep_amount :: "int option"
  ep_max_discount :: "int option"
  ep_min_order :: "int option"
  ep_max_order :: "int option"
  ep_stackable :: bool
  ep_priority :: int
  ep_targets :: "engine_target list"

record applied_promotion =
  ap_promotion :: uid
  ap_coupon :: "uid option"
  ap_name :: string
  ap_kind :: engine_kind
  ap_item :: int
  ap_shipping :: int
  ap_allocations :: "(uid \<times> int) list"

record engine_result =
  er_applied :: "applied_promotion list"
  er_item :: int
  er_shipping :: int
  er_total :: int

section \<open>Eligible lines\<close>

definition target_matches :: "engine_line \<Rightarrow> engine_target \<Rightarrow> bool" where
  "target_matches l t =
     (case et_type t of
        TG_PRODUCT \<Rightarrow> et_target t = el_product l
      | TG_VARIANT \<Rightarrow> et_target t = el_variant l
      | TG_CATEGORY \<Rightarrow> et_target t \<in> set (el_categories l)
      | TG_BRAND \<Rightarrow> el_brand l = Some (et_target t))"

definition line_eligible :: "engine_line \<Rightarrow> engine_target list \<Rightarrow> bool" where
  "line_eligible l targets =
     (if \<exists>t \<in> set targets. et_exclude t \<and> target_matches l t then False
      else let includes = filter (\<lambda>t. \<not> et_exclude t) targets
           in includes = [] \<or> (\<exists>t \<in> set includes. target_matches l t))"

definition gross :: "engine_line \<Rightarrow> int" where
  "gross l = el_price l * el_quantity l"

section \<open>Spreading a discount\<close>

text \<open>The last loop of \<open>distribute\<close>: one Rial each, in the order of the remainders, while any is left.\<close>

fun hand_out :: "nat list \<Rightarrow> int \<Rightarrow> int list \<Rightarrow> int list \<Rightarrow> int list" where
  "hand_out [] left remaining out = out"
| "hand_out (i # is) left remaining out =
     (if left = 0 then out
      else if out ! i < remaining ! i
      then hand_out is (left - 1) remaining (out[i := out ! i + 1])
      else hand_out is left remaining out)"

definition base_of :: "int list \<Rightarrow> nat list \<Rightarrow> int" where
  "base_of remaining eligible = (\<Sum>i\<leftarrow>eligible. remaining ! i)"

definition share_of :: "int \<Rightarrow> int list \<Rightarrow> int \<Rightarrow> nat \<Rightarrow> int" where
  "share_of amt remaining base i = (amt * remaining ! i) sdiv base"

definition remainder_of :: "int \<Rightarrow> int list \<Rightarrow> int \<Rightarrow> nat \<Rightarrow> int" where
  "remainder_of amt remaining base i = (amt * remaining ! i) smod base"

definition shares :: "int \<Rightarrow> int list \<Rightarrow> nat list \<Rightarrow> int list" where
  "shares amt remaining eligible =
     fold (\<lambda>i out. out[i := share_of amt remaining (base_of remaining eligible) i]) eligible
       (map (\<lambda>_. 0) remaining)"

definition distribute :: "int \<Rightarrow> int list \<Rightarrow> nat list \<Rightarrow> int list" where
  "distribute amt remaining eligible =
     (let base = base_of remaining eligible in
      if amt \<le> 0 \<or> base \<le> 0 then map (\<lambda>_. 0) remaining
      else
        let given = (\<Sum>i\<leftarrow>eligible. share_of amt remaining base i);
            ranked = sort_key (\<lambda>i. (- remainder_of amt remaining base i, i)) eligible
        in hand_out ranked (amt - given) remaining (shares amt remaining eligible))"

section \<open>One promotion\<close>

record engine_state =
  es_remaining :: "int list"
  es_shipping :: int

definition eligible_lines :: "engine_line list \<Rightarrow> engine_target list \<Rightarrow> nat list" where
  "eligible_lines lines targets =
     filter (\<lambda>i. line_eligible (lines ! i) targets) [0..<length lines]"

definition cap :: "int option \<Rightarrow> int \<Rightarrow> int" where
  "cap m x = (case m of None \<Rightarrow> x | Some k \<Rightarrow> min x k)"

definition or_zero :: "int option \<Rightarrow> int" where
  "or_zero m = (case m of None \<Rightarrow> 0 | Some k \<Rightarrow> k)"

text \<open>The discount of one promotion: what each line gets, the item and the shipping discount.\<close>

definition discount_of ::
  "engine_promotion \<Rightarrow> engine_line list \<Rightarrow> engine_state \<Rightarrow> int list \<times> int \<times> int" where
  "discount_of p lines st =
     (let eligible = eligible_lines lines (ep_targets p);
          none = map (\<lambda>_. 0) lines
      in case ep_kind p of
        EK_FREE_SHIPPING \<Rightarrow> (none, 0, cap (ep_max_discount p) (es_shipping st))
      | EK_FIXED_ITEM \<Rightarrow>
          let alloc = fold (\<lambda>i out. out[i :=
                min (or_zero (ep_amount p) * el_quantity (lines ! i)) (es_remaining st ! i)]) eligible none;
              item = (\<Sum>i\<leftarrow>eligible. alloc ! i)
          in (case ep_max_discount p of
               None \<Rightarrow> (alloc, item, 0)
             | Some m \<Rightarrow> if item > m then (distribute m alloc eligible, m, 0) else (alloc, item, 0))
      | kind \<Rightarrow>
          let eligible_total = base_of (es_remaining st) eligible;
              wanted = (if kind = EK_PERCENTAGE
                then (eligible_total * or_zero (ep_percent p) + 5000) sdiv 10000
                else or_zero (ep_amount p));
              amt = min (cap (ep_max_discount p) wanted) eligible_total
          in (distribute amt (es_remaining st) eligible, amt, 0))"

definition in_order_range :: "engine_promotion \<Rightarrow> int \<Rightarrow> bool" where
  "in_order_range p v \<longleftrightarrow>
     (case ep_min_order p of None \<Rightarrow> True | Some m \<Rightarrow> m \<le> v)
     \<and> (case ep_max_order p of None \<Rightarrow> True | Some m \<Rightarrow> v \<le> m)"

definition apply_one ::
  "engine_promotion \<Rightarrow> engine_line list \<Rightarrow> engine_state \<Rightarrow> int
     \<Rightarrow> (applied_promotion \<times> engine_state) option" where
  "apply_one p lines st order_value =
     (if \<not> in_order_range p order_value then None
      else case discount_of p lines st of (alloc, item, ship) \<Rightarrow>
        if item + ship \<le> 0 then None
        else Some
          (\<lparr>ap_promotion = ep_id p, ap_coupon = ep_coupon p, ap_name = ep_name p, ap_kind = ep_kind p,
            ap_item = item, ap_shipping = ship,
            ap_allocations = map (\<lambda>i. (el_variant (lines ! i), alloc ! i))
              (filter (\<lambda>i. alloc ! i > 0) [0..<length lines])\<rparr>,
           \<lparr>es_remaining = map2 (-) (es_remaining st) alloc, es_shipping = es_shipping st - ship\<rparr>))"

section \<open>The best combination\<close>

definition fresh_state :: "engine_line list \<Rightarrow> int \<Rightarrow> engine_state" where
  "fresh_state lines shipping = \<lparr>es_remaining = map gross lines, es_shipping = shipping\<rparr>"

fun apply_stack ::
  "engine_promotion list \<Rightarrow> engine_line list \<Rightarrow> engine_state \<Rightarrow> int \<Rightarrow> applied_promotion list" where
  "apply_stack [] lines st v = []"
| "apply_stack (p # ps) lines st v =
     (case apply_one p lines st v of
        None \<Rightarrow> apply_stack ps lines st v
      | Some (a, st') \<Rightarrow> a # apply_stack ps lines st' v)"

definition worth :: "applied_promotion \<Rightarrow> int" where
  "worth a = ap_item a + ap_shipping a"

definition total_worth :: "applied_promotion list \<Rightarrow> int" where
  "total_worth as = (\<Sum>a\<leftarrow>as. worth a)"

fun best_of ::
  "engine_promotion list \<Rightarrow> engine_line list \<Rightarrow> int \<Rightarrow> int
     \<Rightarrow> applied_promotion list \<Rightarrow> int \<Rightarrow> applied_promotion list" where
  "best_of [] lines shipping v best best_total = best"
| "best_of (p # ps) lines shipping v best best_total =
     (case apply_one p lines (fresh_state lines shipping) v of
        Some (a, _) \<Rightarrow>
          if worth a > best_total then best_of ps lines shipping v [a] (worth a)
          else best_of ps lines shipping v best best_total
      | None \<Rightarrow> best_of ps lines shipping v best best_total)"

definition order_value :: "engine_line list \<Rightarrow> int" where
  "order_value lines = (\<Sum>l\<leftarrow>lines. gross l)"

definition evaluation_order :: "engine_promotion list \<Rightarrow> engine_promotion list" where
  "evaluation_order candidates = sort_key (\<lambda>p. (ep_priority p, ep_id p)) candidates"

definition evaluate_promotions ::
  "engine_line list \<Rightarrow> int \<Rightarrow> engine_promotion list \<Rightarrow> engine_result" where
  "evaluate_promotions lines shipping candidates =
     (let v = order_value lines;
          order = evaluation_order candidates;
          stacked = apply_stack (filter ep_stackable order) lines (fresh_state lines shipping) v;
          best = best_of (filter (\<lambda>p. \<not> ep_stackable p) order) lines shipping v stacked (total_worth stacked);
          item = (\<Sum>a\<leftarrow>best. ap_item a);
          ship = (\<Sum>a\<leftarrow>best. ap_shipping a)
      in \<lparr>er_applied = best, er_item = item, er_shipping = ship, er_total = item + ship\<rparr>)"

end
