(* ===== verification/Promotion_Bounds.thy ===== *)
theory Promotion_Bounds
  imports Promotion_Engine
begin

text \<open>
  What the pricing promises: a discount is spread exactly and never below zero on any line, a stack
  of promotions never takes more than the order and its shipping are worth, and the combination
  chosen is the best of those the rules allow, whatever the order of the candidates.
\<close>

section \<open>Spreading\<close>

lemma hand_out_spec:
  assumes "distinct is" "\<forall>i \<in> set is. i < length out" "0 \<le> left"
    and "left \<le> int (length (filter (\<lambda>i. out ! i < remaining ! i) is))"
  shows "length (hand_out is left remaining out) = length out
    \<and> (\<forall>j. j \<notin> set is \<longrightarrow> hand_out is left remaining out ! j = out ! j)
    \<and> (\<forall>j \<in> set is. out ! j \<le> hand_out is left remaining out ! j
         \<and> (hand_out is left remaining out ! j = out ! j \<or> hand_out is left remaining out ! j \<le> remaining ! j))
    \<and> (\<Sum>i\<leftarrow>is. hand_out is left remaining out ! i) = (\<Sum>i\<leftarrow>is. out ! i) + left"
  using assms
proof (induction "is" arbitrary: left out)
  case (Cons i "is")
  have fresh: "i \<notin> set is" and dist: "distinct is" using Cons.prems(1) by auto
  show ?case
  proof (cases "left = 0")
    case False
    show ?thesis
    proof (cases "out ! i < remaining ! i")
      case True
      let ?out = "out[i := out ! i + 1]"
      have same: "?out ! j = out ! j" if "j \<in> set is" for j
        using fresh that by (metis nth_list_update_neq)
      have at: "?out ! i = out ! i + 1" using Cons.prems(2) by simp
      have flt: "filter (\<lambda>i. ?out ! i < remaining ! i) is = filter (\<lambda>i. out ! i < remaining ! i) is"
        by (rule filter_cong) (simp_all add: same)
      have sum: "(\<Sum>j\<leftarrow>is. ?out ! j) = (\<Sum>j\<leftarrow>is. out ! j)"
        by (rule arg_cong[where f = sum_list]) (simp add: same)
      have pre: "\<forall>j \<in> set is. j < length ?out" "0 \<le> left - 1"
        "left - 1 \<le> int (length (filter (\<lambda>i. ?out ! i < remaining ! i) is))"
        using Cons.prems(2-4) False True unfolding flt by auto
      note ih = Cons.IH[OF dist pre]
      have run: "hand_out (i # is) left remaining out = hand_out is (left - 1) remaining ?out"
        using False True by simp
      have "hand_out is (left - 1) remaining ?out ! i = out ! i + 1"
        using ih fresh at by simp
      then show ?thesis
        unfolding run using ih True same by (auto simp: sum nth_list_update)
    next
      case skip: False
      have pre: "\<forall>j \<in> set is. j < length out"
        "left \<le> int (length (filter (\<lambda>i. out ! i < remaining ! i) is))"
        using Cons.prems(2,4) skip by auto
      note ih = Cons.IH[OF dist pre(1) Cons.prems(3) pre(2)]
      then show ?thesis using False skip fresh by auto
    qed
  qed simp
qed simp

lemma sum_list_mult: "(\<Sum>i\<leftarrow>is. c * f i) = c * (\<Sum>i\<leftarrow>is. (f i :: int))"
  by (induction "is") (auto simp: algebra_simps)

lemma sum_list_add: "(\<Sum>i\<leftarrow>is. f i + g i) = (\<Sum>i\<leftarrow>is. f i) + (\<Sum>i\<leftarrow>is. (g i :: int))"
  by (induction "is") auto

lemma sum_list_le: "(\<And>i. i \<in> set is \<Longrightarrow> f i \<le> (g i :: int)) \<Longrightarrow> (\<Sum>i\<leftarrow>is. f i) \<le> (\<Sum>i\<leftarrow>is. g i)"
  by (induction "is") (auto intro: add_mono)

lemma sum_list_count: "(\<Sum>i\<leftarrow>is. if P i then c else 0) = (c :: int) * int (length (filter P is))"
  by (induction "is") (auto simp: algebra_simps)

definition spreadable :: "int \<Rightarrow> int list \<Rightarrow> nat list \<Rightarrow> bool" where
  "spreadable amt remaining eligible \<longleftrightarrow>
     distinct eligible \<and> (\<forall>i \<in> set eligible. i < length remaining \<and> 0 \<le> remaining ! i)
     \<and> 0 \<le> amt \<and> amt \<le> base_of remaining eligible"

lemma share_bounds:
  assumes "0 \<le> amt" "amt \<le> base" "0 < base" "0 \<le> remaining ! i"
  shows "0 \<le> share_of amt remaining base i" "share_of amt remaining base i \<le> remaining ! i"
    "0 \<le> remainder_of amt remaining base i" "remainder_of amt remaining base i < base"
    "amt * remaining ! i = base * share_of amt remaining base i + remainder_of amt remaining base i"
    "0 < remainder_of amt remaining base i \<Longrightarrow> share_of amt remaining base i < remaining ! i"
proof -
  let ?x = "amt * remaining ! i"
  have nn: "0 \<le> ?x" using assms by simp
  have s: "share_of amt remaining base i = ?x div base" and r: "remainder_of amt remaining base i = ?x mod base"
    using nn assms(3) by (simp_all add: share_of_def remainder_of_def signed_divide_int_def signed_modulo_int_def
        sgn_if split: if_splits)
  have le: "?x \<le> base * remaining ! i" using assms by (intro mult_right_mono) auto
  show "0 \<le> share_of amt remaining base i" "0 \<le> remainder_of amt remaining base i"
    "remainder_of amt remaining base i < base"
    using nn assms(3) by (simp_all add: s r pos_imp_zdiv_nonneg_iff)
  have "?x div base \<le> (base * remaining ! i) div base"
    using le assms(3) by (intro zdiv_mono1)
  then show "share_of amt remaining base i \<le> remaining ! i" using assms(3) by (simp add: s)
  show eq: "?x = base * share_of amt remaining base i + remainder_of amt remaining base i"
    by (simp add: s r)
  assume "0 < remainder_of amt remaining base i"
  with eq le have "base * share_of amt remaining base i < base * remaining ! i" by linarith
  then show "share_of amt remaining base i < remaining ! i" using assms(3) by simp
qed

text \<open>The heart of the pricing: the whole discount is given, no line gets more than it has left, and
  lines that are not eligible get nothing.\<close>

lemma distribute_spec:
  assumes "spreadable amt remaining eligible"
  shows "length (distribute amt remaining eligible) = length remaining"
    "j < length remaining \<Longrightarrow> j \<notin> set eligible \<Longrightarrow> distribute amt remaining eligible ! j = 0"
    "j \<in> set eligible \<Longrightarrow> 0 \<le> distribute amt remaining eligible ! j
       \<and> distribute amt remaining eligible ! j \<le> remaining ! j"
    "(\<Sum>i\<leftarrow>eligible. distribute amt remaining eligible ! i) = amt"
proof -
  have sp: "distinct eligible" "\<forall>i \<in> set eligible. i < length remaining \<and> 0 \<le> remaining ! i"
    "0 \<le> amt" "amt \<le> base_of remaining eligible"
    using assms by (auto simp: spreadable_def)
  let ?base = "base_of remaining eligible"
  let ?d = "distribute amt remaining eligible"
  have "length ?d = length remaining \<and> (\<forall>j < length remaining. j \<notin> set eligible \<longrightarrow> ?d ! j = 0)
    \<and> (\<forall>j \<in> set eligible. 0 \<le> ?d ! j \<and> ?d ! j \<le> remaining ! j) \<and> (\<Sum>i\<leftarrow>eligible. ?d ! i) = amt"
  proof (cases "amt = 0")
    case True
    have "(\<Sum>i\<leftarrow>eligible. map (\<lambda>_. 0) remaining ! i) = (\<Sum>i\<leftarrow>eligible. (0::int))"
      by (rule arg_cong[where f = sum_list]) (use sp(2) in simp)
    then show ?thesis using True sp by (simp add: distribute_def)
  next
    case False
    then have pos: "0 < amt" "0 < ?base" using sp(3,4) by auto
    let ?s = "share_of amt remaining ?base" and ?r = "remainder_of amt remaining ?base"
    let ?out = "shares amt remaining eligible"
    let ?ranked = "sort_key (\<lambda>i. (- ?r i, i)) eligible"
    define left where "left = amt - (\<Sum>i\<leftarrow>eligible. ?s i)"
    note b = share_bounds[OF sp(3,4) pos(2)]
    have cells: "length ?out = length remaining"
      "\<forall>j < length remaining. ?out ! j = (if j \<in> set eligible then ?s j else 0)"
      using fold_cells[of eligible "map (\<lambda>_. 0) remaining" ?s] sp(1,2) by (auto simp: shares_def)
    have "amt * ?base = (\<Sum>i\<leftarrow>eligible. amt * remaining ! i)"
      by (simp add: base_of_def sum_list_mult)
    also have "\<dots> = (\<Sum>i\<leftarrow>eligible. ?base * ?s i + ?r i)"
      by (rule arg_cong[where f = sum_list], rule map_cong) (use b(5) sp(2) in auto)
    also have "\<dots> = ?base * (\<Sum>i\<leftarrow>eligible. ?s i) + (\<Sum>i\<leftarrow>eligible. ?r i)"
      by (simp add: sum_list_add sum_list_mult)
    finally have split: "?base * left = (\<Sum>i\<leftarrow>eligible. ?r i)"
      by (simp add: left_def algebra_simps)
    have "0 \<le> (\<Sum>i\<leftarrow>eligible. ?r i)" using b(3) sp(2) by (intro sum_list_nonneg) auto
    then have "0 \<le> ?base * left" by (simp add: split)
    then have left0: "0 \<le> left" using pos(2) by (auto simp: zero_le_mult_iff)
    have "(\<Sum>i\<leftarrow>eligible. ?r i) \<le> (\<Sum>i\<leftarrow>eligible. if ?out ! i < remaining ! i then ?base else 0)"
    proof (rule sum_list_le)
      fix i assume i: "i \<in> set eligible"
      then show "?r i \<le> (if ?out ! i < remaining ! i then ?base else 0)"
        using b(3,4,6)[of remaining i] sp(2) cells(2) by fastforce
    qed
    then have "?base * left \<le> ?base * int (length (filter (\<lambda>i. ?out ! i < remaining ! i) eligible))"
      using split by (simp add: sum_list_count)
    then have "left \<le> int (length (filter (\<lambda>i. ?out ! i < remaining ! i) eligible))"
      using pos(2) by simp
    also have "length (filter (\<lambda>i. ?out ! i < remaining ! i) eligible)
        = length (filter (\<lambda>i. ?out ! i < remaining ! i) ?ranked)"
      by (simp only: filter_sort length_sort)
    finally have room: "left \<le> int (length (filter (\<lambda>i. ?out ! i < remaining ! i) ?ranked))" .
    have d: "?d = hand_out ?ranked left remaining ?out"
      using pos by (simp add: distribute_def left_def Let_def)
    have rk: "distinct ?ranked" "\<forall>i \<in> set ?ranked. i < length ?out"
      using sp(1,2) cells(1) by auto
    note h = hand_out_spec[OF rk left0 room, folded d]
    have "(\<Sum>i\<leftarrow>eligible. ?out ! i) = (\<Sum>i\<leftarrow>eligible. ?s i)"
      by (rule arg_cong[where f = sum_list], rule map_cong) (use cells(2) sp(2) in auto)
    then have "(\<Sum>i\<leftarrow>eligible. ?d ! i) = amt"
      using h by (simp add: left_def)
    moreover have "0 \<le> ?d ! j \<and> ?d ! j \<le> remaining ! j" if "j \<in> set eligible" for j
      using h cells(2) sp(2) b(1,2)[of remaining j] that by fastforce
    ultimately show ?thesis using h cells by simp
  qed
  then show "length ?d = length remaining"
    "j < length remaining \<Longrightarrow> j \<notin> set eligible \<Longrightarrow> ?d ! j = 0"
    "j \<in> set eligible \<Longrightarrow> 0 \<le> ?d ! j \<and> ?d ! j \<le> remaining ! j"
    "(\<Sum>i\<leftarrow>eligible. ?d ! i) = amt"
    by blast+
qed

section \<open>One promotion\<close>

definition state_ok :: "engine_line list \<Rightarrow> engine_state \<Rightarrow> bool" where
  "state_ok lines st \<longleftrightarrow> length (es_remaining st) = length lines \<and> (\<forall>x \<in> set (es_remaining st). 0 \<le> x)
     \<and> 0 \<le> es_shipping st"

text \<open>What \<open>validatePromotionInput\<close> stores: no negative amount, percentage or cap.\<close>

definition sane :: "engine_promotion \<Rightarrow> bool" where
  "sane p \<longleftrightarrow> 0 \<le> or_zero (ep_percent p) \<and> 0 \<le> or_zero (ep_amount p) \<and> 0 \<le> or_zero (ep_max_discount p)"

definition sane_lines :: "engine_line list \<Rightarrow> bool" where
  "sane_lines lines \<longleftrightarrow> (\<forall>l \<in> set lines. 0 \<le> el_price l \<and> 0 \<le> el_quantity l)"

lemma eligible_simps [simp]:
  "distinct (eligible_lines lines ts)"
  "i \<in> set (eligible_lines lines ts) \<longleftrightarrow> i < length lines \<and> line_eligible (lines ! i) ts"
  by (auto simp: eligible_lines_def)

lemma sum_over_eligible:
  assumes "length xs = length lines" and "\<forall>j < length lines. j \<notin> set (eligible_lines lines ts) \<longrightarrow> xs ! j = 0"
  shows "sum_list xs = (\<Sum>i\<leftarrow>eligible_lines lines ts. xs ! i :: int)"
proof -
  let ?P = "\<lambda>i. line_eligible (lines ! i) ts"
  have "sum_list xs = (\<Sum>i\<leftarrow>[0..<length lines]. xs ! i)"
    using assms(1) by (metis map_nth)
  also have "\<dots> = (\<Sum>i\<leftarrow>[0..<length lines]. if ?P i then xs ! i else 0)"
    by (rule arg_cong[where f = sum_list], rule map_cong) (use assms(2) in auto)
  also have "\<dots> = (\<Sum>i\<leftarrow>eligible_lines lines ts. xs ! i)"
    by (simp add: eligible_lines_def sum_list_map_filter')
  finally show ?thesis .
qed

definition good_discount :: "engine_line list \<Rightarrow> engine_state \<Rightarrow> int list \<times> int \<times> int \<Rightarrow> bool" where
  "good_discount lines st d \<longleftrightarrow> (case d of (alloc, item, ship) \<Rightarrow>
     length alloc = length lines \<and> (\<forall>j < length lines. 0 \<le> alloc ! j \<and> alloc ! j \<le> es_remaining st ! j)
     \<and> sum_list alloc = item \<and> 0 \<le> item \<and> 0 \<le> ship \<and> ship \<le> es_shipping st)"

lemma sum_list_zeroes [simp]: "sum_list (map (\<lambda>_. 0) xs) = (0 :: int)"
  by (induction xs) auto

lemma good_distribute:
  assumes ok: "state_ok lines st"
    and sp: "spreadable amt rem (eligible_lines lines ts)" and len: "length rem = length lines"
    and le: "\<forall>j \<in> set (eligible_lines lines ts). rem ! j \<le> es_remaining st ! j"
  shows "good_discount lines st (distribute amt rem (eligible_lines lines ts), amt, 0)"
proof -
  let ?d = "distribute amt rem (eligible_lines lines ts)"
  note d = distribute_spec[OF sp]
  have "sum_list ?d = (\<Sum>i\<leftarrow>eligible_lines lines ts. ?d ! i)"
    by (rule sum_over_eligible) (use d(1,2) len in auto)
  moreover have "0 \<le> ?d ! j \<and> ?d ! j \<le> es_remaining st ! j" if j: "j < length lines" for j
  proof (cases "j \<in> set (eligible_lines lines ts)")
    case True
    then show ?thesis using d(3)[OF True] le by fastforce
  next
    case False
    have "es_remaining st ! j \<in> set (es_remaining st)" using ok j by (auto simp: state_ok_def)
    then show ?thesis using d(2)[of j] False j len ok by (auto simp: state_ok_def)
  qed
  ultimately show ?thesis
    using d(1,4) len sp ok by (simp add: good_discount_def spreadable_def state_ok_def)
qed

lemma base_nonneg: "\<forall>i \<in> set el. 0 \<le> rem ! i \<Longrightarrow> 0 \<le> base_of rem el"
  unfolding base_of_def by (rule sum_list_nonneg) auto

lemma discount_good:
  assumes ok: "state_ok lines st" and p: "sane p" and ls: "sane_lines lines"
  shows "good_discount lines st (discount_of p lines st)"
proof -
  let ?el = "eligible_lines lines (ep_targets p)"
  have rem: "length (es_remaining st) = length lines" "\<forall>j < length lines. 0 \<le> es_remaining st ! j"
    "0 \<le> es_shipping st"
    using ok by (auto simp: state_ok_def)
  have none: "good_discount lines st (map (\<lambda>_. 0) lines, 0, cap (ep_max_discount p) (es_shipping st))"
    using rem p by (auto simp: good_discount_def cap_def sane_def or_zero_def split: option.splits)
  have cart: "good_discount lines st (distribute (min (cap (ep_max_discount p) w) (base_of (es_remaining st) ?el))
      (es_remaining st) ?el, min (cap (ep_max_discount p) w) (base_of (es_remaining st) ?el), 0)"
    if "0 \<le> w" for w
    using rem p that base_nonneg[of ?el "es_remaining st"]
    by (intro good_distribute ok)
      (auto simp: spreadable_def cap_def sane_def or_zero_def split: option.splits)
  have percent: "0 \<le> (base_of (es_remaining st) ?el * or_zero (ep_percent p) + 5000) sdiv 10000"
    using rem p base_nonneg[of ?el "es_remaining st"]
    by (auto simp: sane_def signed_divide_int_def sgn_if)
  show ?thesis
  proof (cases "ep_kind p")
    case EK_FREE_SHIPPING
    then show ?thesis using none by (simp add: discount_of_def)
  next
    case EK_PERCENTAGE
    then show ?thesis using cart[OF percent] by (simp add: discount_of_def Let_def)
  next
    case EK_FIXED_CART
    then show ?thesis using cart[of "or_zero (ep_amount p)"] p by (simp add: discount_of_def Let_def sane_def)
  next
    case EK_FIXED_ITEM
    let ?f = "\<lambda>i. min (or_zero (ep_amount p) * el_quantity (lines ! i)) (es_remaining st ! i)"
    define alloc where "alloc = fold (\<lambda>i out. out[i := ?f i]) ?el (map (\<lambda>_. 0) lines)"
    have cells: "length alloc = length lines" "\<forall>j < length lines. alloc ! j = (if j \<in> set ?el then ?f j else 0)"
      using fold_cells[of ?el "map (\<lambda>_. 0) lines" ?f] by (auto simp: alloc_def)
    have f0: "0 \<le> ?f j \<and> ?f j \<le> es_remaining st ! j" if "j < length lines" for j
      using rem p ls that by (auto simp: sane_def sane_lines_def)
    have sum: "sum_list alloc = (\<Sum>i\<leftarrow>?el. alloc ! i)"
      by (rule sum_over_eligible) (use cells in auto)
    have nn: "0 \<le> (\<Sum>i\<leftarrow>?el. alloc ! i)"
      by (rule sum_list_nonneg) (use cells f0 in auto)
    have plain: "good_discount lines st (alloc, \<Sum>i\<leftarrow>?el. alloc ! i, 0)"
      using cells f0 rem sum nn by (auto simp: good_discount_def)
    have capped: "good_discount lines st (distribute m alloc ?el, m, 0)"
      if "ep_max_discount p = Some m" "m < (\<Sum>i\<leftarrow>?el. alloc ! i)" for m
      using that p cells f0 by (intro good_distribute ok)
        (auto simp: spreadable_def base_of_def sane_def or_zero_def)
    have "discount_of p lines st = (case ep_max_discount p of
        None \<Rightarrow> (alloc, \<Sum>i\<leftarrow>?el. alloc ! i, 0)
      | Some m \<Rightarrow> if (\<Sum>i\<leftarrow>?el. alloc ! i) > m then (distribute m alloc ?el, m, 0)
          else (alloc, \<Sum>i\<leftarrow>?el. alloc ! i, 0))"
      using EK_FIXED_ITEM
      by (simp add: discount_of_def Let_def alloc_def[symmetric] split: option.split)
    then show ?thesis using plain capped by (auto split: option.splits)
  qed
qed

section \<open>A stack of promotions\<close>

definition left_of :: "engine_state \<Rightarrow> int" where
  "left_of st = sum_list (es_remaining st)"

lemma sum_list_map2_minus:
  "length xs = length ys \<Longrightarrow> sum_list (map2 (-) xs ys) = sum_list xs - (sum_list ys :: int)"
  by (induction xs ys rule: list_induct2) auto

lemma apply_one_Some:
  assumes ok: "state_ok lines st" and p: "sane p" and ls: "sane_lines lines"
    and run: "apply_one p lines st v = Some (a, st')"
  shows "state_ok lines st'" "0 < worth a" "0 \<le> ap_item a" "0 \<le> ap_shipping a"
    "left_of st' = left_of st - ap_item a" "es_shipping st' = es_shipping st - ap_shipping a"
    "(\<Sum>x\<leftarrow>ap_allocations a. snd x) = ap_item a" "\<forall>x \<in> set (ap_allocations a). 0 < snd x"
proof -
  obtain alloc item ship where d: "discount_of p lines st = (alloc, item, ship)"
    by (cases "discount_of p lines st") auto
  have g: "length alloc = length lines" "\<forall>j < length lines. 0 \<le> alloc ! j \<and> alloc ! j \<le> es_remaining st ! j"
    "sum_list alloc = item" "0 \<le> item" "0 \<le> ship" "ship \<le> es_shipping st"
    using discount_good[OF ok p ls] by (auto simp: d good_discount_def)
  have r: "0 < item + ship" "ap_item a = item" "ap_shipping a = ship"
    "ap_allocations a = map (\<lambda>i. (el_variant (lines ! i), alloc ! i)) (filter (\<lambda>i. alloc ! i > 0) [0..<length lines])"
    "st' = \<lparr>es_remaining = map2 (-) (es_remaining st) alloc, es_shipping = es_shipping st - ship\<rparr>"
    using run by (auto simp: apply_one_def d split: if_splits)
  have len: "length (es_remaining st) = length lines" using ok by (simp add: state_ok_def)
  show "state_ok lines st'"
    using g len ok by (auto simp: r(5) state_ok_def in_set_conv_nth)
  show "0 < worth a" "0 \<le> ap_item a" "0 \<le> ap_shipping a" using r g by (simp_all add: worth_def)
  show "left_of st' = left_of st - ap_item a" "es_shipping st' = es_shipping st - ap_shipping a"
    using g len by (simp_all add: r left_of_def sum_list_map2_minus)
  have "(\<Sum>x\<leftarrow>ap_allocations a. snd x) = (\<Sum>i\<leftarrow>filter (\<lambda>i. alloc ! i > 0) [0..<length lines]. alloc ! i)"
    by (simp add: r(4) comp_def)
  also have "\<dots> = (\<Sum>i\<leftarrow>[0..<length lines]. if alloc ! i > 0 then alloc ! i else 0)"
    by (simp add: sum_list_map_filter')
  also have "\<dots> = (\<Sum>i\<leftarrow>[0..<length lines]. alloc ! i)"
    by (rule arg_cong[where f = sum_list], rule map_cong) (use g(2) in force)+
  also have "\<dots> = item" using g(1,3) by (metis map_nth)
  finally show "(\<Sum>x\<leftarrow>ap_allocations a. snd x) = ap_item a" by (simp add: r(2))
  show "\<forall>x \<in> set (ap_allocations a). 0 < snd x" by (auto simp: r(4))
qed

lemma state_ok_left: "state_ok lines st \<Longrightarrow> 0 \<le> left_of st \<and> 0 \<le> es_shipping st"
  by (auto simp: state_ok_def left_of_def intro: sum_list_nonneg)

definition fair :: "applied_promotion \<Rightarrow> bool" where
  "fair a \<longleftrightarrow> 0 < worth a \<and> 0 \<le> ap_item a \<and> 0 \<le> ap_shipping a
     \<and> (\<Sum>x\<leftarrow>ap_allocations a. snd x) = ap_item a \<and> (\<forall>x \<in> set (ap_allocations a). 0 < snd x)"

lemma apply_stack_bounds:
  assumes "state_ok lines st" "\<forall>p \<in> set ps. sane p" "sane_lines lines"
  shows "(\<Sum>a\<leftarrow>apply_stack ps lines st v. ap_item a) \<le> left_of st
    \<and> (\<Sum>a\<leftarrow>apply_stack ps lines st v. ap_shipping a) \<le> es_shipping st
    \<and> (\<forall>a \<in> set (apply_stack ps lines st v). fair a)"
  using assms
proof (induction ps arbitrary: st)
  case Nil
  then show ?case using state_ok_left by simp
next
  case (Cons p ps)
  show ?case
  proof (cases "apply_one p lines st v")
    case None
    then show ?thesis using Cons by simp
  next
    case (Some r)
    obtain a st' where r: "apply_one p lines st v = Some (a, st')" using Some by (cases r) auto
    have p: "sane p" using Cons.prems(2) by simp
    note one = apply_one_Some[OF Cons.prems(1) p Cons.prems(3) r]
    have "fair a" using one by (simp add: fair_def)
    then show ?thesis using Cons.IH[OF one(1)] Cons.prems(2,3) one(5,6) by (simp add: r)
  qed
qed

lemma fresh_ok: "sane_lines lines \<Longrightarrow> 0 \<le> shipping \<Longrightarrow> state_ok lines (fresh_state lines shipping)"
  by (auto simp: state_ok_def fresh_state_def sane_lines_def gross_def)

lemma fresh_left [simp]: "left_of (fresh_state lines shipping) = order_value lines"
  by (simp add: left_of_def fresh_state_def order_value_def)

lemma fresh_shipping [simp]: "es_shipping (fresh_state lines shipping) = shipping"
  by (simp add: fresh_state_def)

section \<open>The best combination\<close>

definition alone :: "engine_promotion \<Rightarrow> engine_line list \<Rightarrow> int \<Rightarrow> applied_promotion option" where
  "alone p lines shipping =
     map_option fst (apply_one p lines (fresh_state lines shipping) (order_value lines))"

lemma best_of_spec:
  assumes "best_total = total_worth best"
  shows "(best_of ps lines shipping (order_value lines) best best_total = best
      \<or> (\<exists>p \<in> set ps. \<exists>a. alone p lines shipping = Some a
           \<and> best_of ps lines shipping (order_value lines) best best_total = [a]))
    \<and> best_total \<le> total_worth (best_of ps lines shipping (order_value lines) best best_total)
    \<and> (\<forall>p \<in> set ps. \<forall>a. alone p lines shipping = Some a \<longrightarrow>
         worth a \<le> total_worth (best_of ps lines shipping (order_value lines) best best_total))"
  using assms
proof (induction ps arbitrary: best best_total)
  case Nil
  then show ?case by simp
next
  case (Cons p ps)
  show ?case
  proof (cases "apply_one p lines (fresh_state lines shipping) (order_value lines)")
    case None
    then show ?thesis using Cons.IH[OF Cons.prems] by (auto simp: alone_def)
  next
    case (Some r)
    obtain a st' where r: "r = (a, st')" by force
    have al: "alone p lines shipping = Some a" using Some by (simp add: alone_def r)
    show ?thesis
    proof (cases "worth a > best_total")
      case True
      have "worth a = total_worth [a]" by (simp add: total_worth_def)
      from Cons.IH[OF this] Some True al show ?thesis by (auto simp: r)
    next
      case False
      with Cons.IH[OF Cons.prems] Some al show ?thesis by (auto simp: r)
    qed
  qed
qed

lemma evaluation_order_set [simp]: "set (evaluation_order cs) = set cs"
  by (simp add: evaluation_order_def)

lemma evaluate_bounds:
  assumes ls: "sane_lines lines" and sh: "0 \<le> shipping" and cs: "\<forall>p \<in> set candidates. sane p"
  defines "r \<equiv> evaluate_promotions lines shipping candidates"
  shows "0 \<le> er_item r" "er_item r \<le> order_value lines" "0 \<le> er_shipping r" "er_shipping r \<le> shipping"
    "er_total r = er_item r + er_shipping r" "\<forall>a \<in> set (er_applied r). fair a"
    "er_total r = total_worth (er_applied r)"
proof -
  let ?v = "order_value lines" and ?o = "evaluation_order candidates"
  define stacked where "stacked = apply_stack (filter ep_stackable ?o) lines (fresh_state lines shipping) ?v"
  define best where "best = best_of (filter (\<lambda>p. \<not> ep_stackable p) ?o) lines shipping ?v stacked (total_worth stacked)"
  have r: "er_applied r = best" "er_item r = (\<Sum>a\<leftarrow>best. ap_item a)" "er_shipping r = (\<Sum>a\<leftarrow>best. ap_shipping a)"
    "er_total r = er_item r + er_shipping r"
    by (simp_all add: r_def evaluate_promotions_def Let_def best_def stacked_def)
  have st: "(\<Sum>a\<leftarrow>stacked. ap_item a) \<le> ?v \<and> (\<Sum>a\<leftarrow>stacked. ap_shipping a) \<le> shipping
      \<and> (\<forall>a \<in> set stacked. fair a)"
    using apply_stack_bounds[OF fresh_ok[OF ls sh], of "filter ep_stackable ?o" ?v] cs ls
    by (simp add: stacked_def)
  have single: "ap_item a \<le> ?v \<and> ap_shipping a \<le> shipping \<and> fair a"
    if al: "alone p lines shipping = Some a" and pin: "p \<in> set candidates" for p a
  proof -
    obtain st' where run: "apply_one p lines (fresh_state lines shipping) ?v = Some (a, st')"
      using al by (auto simp: alone_def)
    have p: "sane p" using cs pin by blast
    note one = apply_one_Some[OF fresh_ok[OF ls sh] p ls run]
    have "0 \<le> left_of st' \<and> 0 \<le> es_shipping st'" using one(1) by (rule state_ok_left)
    then show ?thesis using one by (auto simp: fair_def)
  qed
  have best: "(\<Sum>a\<leftarrow>best. ap_item a) \<le> ?v \<and> (\<Sum>a\<leftarrow>best. ap_shipping a) \<le> shipping \<and> (\<forall>a \<in> set best. fair a)"
    using best_of_spec[OF refl, of "filter (\<lambda>p. \<not> ep_stackable p) ?o" lines shipping stacked] st single
    unfolding best_def[symmetric] by auto
  then show "0 \<le> er_item r" "0 \<le> er_shipping r"
    unfolding r by (auto intro!: sum_list_nonneg simp: fair_def)
  show "er_item r \<le> ?v" "er_shipping r \<le> shipping" "\<forall>a \<in> set (er_applied r). fair a"
    using best by (simp_all add: r)
  show "er_total r = er_item r + er_shipping r" by (rule r(4))
  show "er_total r = total_worth (er_applied r)"
    by (simp add: r total_worth_def worth_def sum_list_add)
qed

lemma evaluate_best:
  assumes "p \<in> set candidates" "\<not> ep_stackable p" "alone p lines shipping = Some a"
  shows "worth a \<le> total_worth (er_applied (evaluate_promotions lines shipping candidates))"
  using assms best_of_spec[OF refl, of "filter (\<lambda>p. \<not> ep_stackable p) (evaluation_order candidates)" lines shipping
      "apply_stack (filter ep_stackable (evaluation_order candidates)) lines (fresh_state lines shipping) (order_value lines)"]
  by (simp add: evaluate_promotions_def Let_def)

lemma evaluate_beats_stack:
  "total_worth (apply_stack (filter ep_stackable (evaluation_order candidates)) lines
      (fresh_state lines shipping) (order_value lines))
     \<le> total_worth (er_applied (evaluate_promotions lines shipping candidates))"
  using best_of_spec[OF refl, of "filter (\<lambda>p. \<not> ep_stackable p) (evaluation_order candidates)" lines shipping
      "apply_stack (filter ep_stackable (evaluation_order candidates)) lines (fresh_state lines shipping) (order_value lines)"]
  by (simp add: evaluate_promotions_def Let_def)

lemma evaluate_order_irrelevant:
  assumes "mset candidates = mset candidates'" and "inj_on ep_id (set candidates)"
  shows "evaluate_promotions lines shipping candidates = evaluate_promotions lines shipping candidates'"
proof -
  have inj: "inj_on (\<lambda>p. (ep_priority p, ep_id p)) (set candidates)"
    using assms(2) by (auto simp: inj_on_def)
  have "evaluation_order candidates = evaluation_order candidates'"
    unfolding evaluation_order_def
    by (rule sort_key_inj_key_eq[OF _ inj]) (simp_all add: assms(1))
  then show ?thesis by (simp add: evaluate_promotions_def)
qed

end
