(* ===== verification/Status_Machines.thy ===== *)
theory Status_Machines
  imports Prelude
begin

text \<open>
  The status machines of \<open>common/state-machine.ts\<close> and \<open>custom-door-orders/door-state.ts\<close>: the
  transition tables, the guarded transition that advances a row and appends to its immutable
  history, and what the tables promise.
\<close>

section \<open>The tables\<close>

datatype order_status =
    OS_DRAFT | OS_PENDING_PAYMENT | OS_CREDIT_APPROVED | OS_PAID | OS_CANCELLED | OS_RETURNED

datatype payment_status =
    PAY_PENDING | PAY_PAID | PAY_FAILED | PAY_CANCELLED | PAY_REFUNDED | PAY_PARTIALLY_REFUNDED

datatype fulfillment_status =
    FS_PENDING | FS_PROCESSING | FS_READY_TO_SHIP | FS_SHIPPED | FS_DELIVERED | FS_RETURNED | FS_CANCELLED

datatype door_status =
    DS_DRAFT | DS_PENDING_QUOTE_APPROVAL | DS_AWAITING_DEPOSIT | DS_DEPOSIT_PAID
  | DS_AWAITING_TECHNICAL_APPROVAL | DS_APPROVED_FOR_PRODUCTION | DS_IN_PRODUCTION
  | DS_QUALITY_CONTROL | DS_READY_FOR_DELIVERY | DS_AWAITING_SETTLEMENT | DS_COMPLETED | DS_CANCELLED

fun order_transitions :: "order_status \<Rightarrow> order_status list" where
  "order_transitions OS_DRAFT = [OS_PENDING_PAYMENT, OS_CANCELLED]"
| "order_transitions OS_PENDING_PAYMENT = [OS_PAID, OS_CREDIT_APPROVED, OS_CANCELLED]"
| "order_transitions OS_CREDIT_APPROVED = [OS_CANCELLED, OS_RETURNED]"
| "order_transitions OS_PAID = []"
| "order_transitions OS_CANCELLED = []"
| "order_transitions OS_RETURNED = []"

fun payment_transitions :: "payment_status \<Rightarrow> payment_status list" where
  "payment_transitions PAY_PENDING = [PAY_PAID, PAY_FAILED, PAY_CANCELLED]"
| "payment_transitions PAY_PAID = [PAY_REFUNDED, PAY_PARTIALLY_REFUNDED]"
| "payment_transitions PAY_FAILED = [PAY_PENDING, PAY_CANCELLED]"
| "payment_transitions PAY_CANCELLED = [PAY_PENDING]"
| "payment_transitions PAY_REFUNDED = []"
| "payment_transitions PAY_PARTIALLY_REFUNDED = [PAY_REFUNDED]"

fun fulfillment_transitions :: "fulfillment_status \<Rightarrow> fulfillment_status list" where
  "fulfillment_transitions FS_PENDING = [FS_PROCESSING, FS_CANCELLED]"
| "fulfillment_transitions FS_PROCESSING = [FS_READY_TO_SHIP, FS_CANCELLED]"
| "fulfillment_transitions FS_READY_TO_SHIP = [FS_SHIPPED, FS_CANCELLED]"
| "fulfillment_transitions FS_SHIPPED = [FS_DELIVERED]"
| "fulfillment_transitions FS_DELIVERED = [FS_RETURNED]"
| "fulfillment_transitions FS_CANCELLED = []"
| "fulfillment_transitions FS_RETURNED = []"

fun door_transitions :: "door_status \<Rightarrow> door_status list" where
  "door_transitions DS_DRAFT = [DS_PENDING_QUOTE_APPROVAL, DS_AWAITING_DEPOSIT, DS_CANCELLED]"
| "door_transitions DS_PENDING_QUOTE_APPROVAL = [DS_AWAITING_DEPOSIT, DS_CANCELLED]"
| "door_transitions DS_AWAITING_DEPOSIT = [DS_DEPOSIT_PAID, DS_CANCELLED]"
| "door_transitions DS_DEPOSIT_PAID = [DS_AWAITING_TECHNICAL_APPROVAL, DS_CANCELLED]"
| "door_transitions DS_AWAITING_TECHNICAL_APPROVAL = [DS_APPROVED_FOR_PRODUCTION, DS_CANCELLED]"
| "door_transitions DS_APPROVED_FOR_PRODUCTION = [DS_IN_PRODUCTION, DS_CANCELLED]"
| "door_transitions DS_IN_PRODUCTION = [DS_QUALITY_CONTROL]"
| "door_transitions DS_QUALITY_CONTROL = [DS_IN_PRODUCTION, DS_READY_FOR_DELIVERY]"
| "door_transitions DS_READY_FOR_DELIVERY = [DS_AWAITING_SETTLEMENT, DS_COMPLETED]"
| "door_transitions DS_AWAITING_SETTLEMENT = [DS_COMPLETED]"
| "door_transitions DS_COMPLETED = []"
| "door_transitions DS_CANCELLED = []"

section \<open>The guarded transition\<close>

definition can_transition :: "'s \<Rightarrow> 's \<Rightarrow> ('s \<Rightarrow> 's list) \<Rightarrow> bool" where
  "can_transition from to table \<longleftrightarrow> from \<noteq> to \<and> to \<in> set (table from)"

definition assert_transition :: "'s \<Rightarrow> 's \<Rightarrow> ('s \<Rightarrow> 's list) \<Rightarrow> unit res" where
  "assert_transition from to table =
     throw_if (\<not> can_transition from to table) (Conflict ''ORDER_STATE_CONFLICT'') (Inr ())"

text \<open>A row of \<open>OrderTransition\<close>, \<open>PaymentTransition\<close> or \<open>FulfillmentTransition\<close>; the first row of a
  fulfillment has no \<open>from\<close>. The pair of parent and request id is unique where the latter is given.\<close>

record 's transition_row =
  tn_parent :: uid
  tn_from :: "'s option"
  tn_to :: 's
  tn_actor :: "string option"
  tn_request :: "string option"
  tn_reason :: "string option"

definition request_taken :: "uid \<Rightarrow> string option \<Rightarrow> 's transition_row list \<Rightarrow> bool" where
  "request_taken i request rows \<longleftrightarrow>
     request \<noteq> None \<and> (\<exists>r \<in> set rows. tn_parent r = i \<and> tn_request r = request)"

text \<open>\<open>recordTransition\<close> on the rows and the history of one machine: \<open>get\<close> and \<open>put\<close> read and write
  the status column of a row. The conditional update matches the row only while it still has the
  status the caller read; the answer is the index of the new history row.\<close>

definition record_transition ::
  "('s \<Rightarrow> 's list) \<Rightarrow> ('row \<Rightarrow> 's) \<Rightarrow> ('s \<Rightarrow> 'row \<Rightarrow> 'row) \<Rightarrow> uid \<Rightarrow> 's \<Rightarrow> 's
     \<Rightarrow> string option \<times> string option \<times> string option
     \<Rightarrow> (uid \<times> 'row) list \<times> 's transition_row list
     \<Rightarrow> ((uid \<times> 'row) list \<times> 's transition_row list) res" where
  "record_transition table get put i current next_status info st =
     andthen (assert_transition current next_status table) (\<lambda>_.
     throw_if (request_taken i (fst (snd info)) (snd st)) (DbError ''P2002'')
     (case map_of (fst st) i of
       None \<Rightarrow> Inl (Conflict ''ORDER_STATE_CONFLICT'')
     | Some row \<Rightarrow>
         throw_if (get row \<noteq> current) (Conflict ''ORDER_STATE_CONFLICT'')
         (Inr (AList.update i (put next_status row) (fst st), snd st @
           [\<lparr>tn_parent = i, tn_from = Some current, tn_to = next_status, tn_actor = fst info,
             tn_request = fst (snd info), tn_reason = snd (snd info)\<rparr>]))))"

lemma record_transition_Inr [res_iff]:
  "record_transition table get put i s s' info st = Inr st' \<longleftrightarrow>
     can_transition s s' table \<and> \<not> request_taken i (fst (snd info)) (snd st) \<and> (\<exists>row. map_of (fst st) i = Some row \<and> get row = s
       \<and> st' = (AList.update i (put s' row) (fst st), snd st @
           [\<lparr>tn_parent = i, tn_from = Some s, tn_to = s', tn_actor = fst info,
             tn_request = fst (snd info), tn_reason = snd (snd info)\<rparr>]))"
  by (auto simp: record_transition_def assert_transition_def res_iff split: option.splits)

section \<open>The interface of a status machine\<close>

text \<open>
  A client knows a machine by its table, its initial statuses and the statuses it never leaves.
  The history of a row is a path of the table from an initial status to the current one.
\<close>

fun status_path :: "('s \<Rightarrow> 's list) \<Rightarrow> 's \<Rightarrow> ('s \<times> 's) list \<Rightarrow> 's \<Rightarrow> bool" where
  "status_path table s [] t \<longleftrightarrow> s = t"
| "status_path table s ((a, b) # steps) t \<longleftrightarrow>
     a = s \<and> can_transition a b table \<and> status_path table b steps t"

lemma status_path_append:
  "status_path table s (xs @ ys) t \<longleftrightarrow> (\<exists>u. status_path table s xs u \<and> status_path table u ys t)"
  by (induction xs arbitrary: s) auto

definition trail :: "uid \<Rightarrow> 's transition_row list \<Rightarrow> ('s \<times> 's) list" where
  "trail i rows = List.map_filter
     (\<lambda>r. if tn_parent r = i then map_option (\<lambda>a. (a, tn_to r)) (tn_from r) else None) rows"

lemma trail_simps [simp]:
  "trail i [] = []"
  "trail i (rows @ [r]) = trail i rows @
     (case tn_from r of None \<Rightarrow> [] | Some a \<Rightarrow> if tn_parent r = i then [(a, tn_to r)] else [])"
  by (auto simp: trail_def map_filter_def split: option.splits)

locale status_machine =
  fixes table :: "'s \<Rightarrow> 's list" and final :: "'s \<Rightarrow> bool"
    and get :: "'row \<Rightarrow> 's" and put :: "'s \<Rightarrow> 'row \<Rightarrow> 'row"
  assumes final_stays: "final s \<Longrightarrow> table s = []"
    and get_put: "get (put s row) = s"
begin

definition history_ok :: "('s \<Rightarrow> bool) \<Rightarrow> (uid \<times> 'row) list \<times> 's transition_row list \<Rightarrow> bool" where
  "history_ok start st \<longleftrightarrow> (\<forall>i row. map_of (fst st) i = Some row \<longrightarrow>
     (\<exists>s0. start s0 \<and> status_path table s0 (trail i (snd st)) (get row)))"

lemma record_history:
  assumes "history_ok start st" and "record_transition table get put i s s' info st = Inr st'"
  shows "history_ok start st'"
proof -
  obtain row where row: "map_of (fst st) i = Some row" "get row = s" "can_transition s s' table"
    and st': "fst st' = AList.update i (put s' row) (fst st)"
      "\<And>j. trail j (snd st') = trail j (snd st) @ (if i = j then [(s, s')] else [])"
    using assms(2) by (auto simp: res_iff)
  show ?thesis
    unfolding history_ok_def
  proof (intro allI impI)
    fix j r assume "map_of (fst st') j = Some r"
    then have r: "if j = i then r = put s' row else map_of (fst st) j = Some r"
      by (simp add: st'(1) update_conv split: if_splits)
    obtain s0 where "start s0"
      "status_path table s0 (trail j (snd st)) (if j = i then s else get r)"
      using assms(1) r row by (cases "j = i") (force simp: history_ok_def)+
    then show "\<exists>s0. start s0 \<and> status_path table s0 (trail j (snd st')) (get r)"
      using r row by (intro exI[of _ s0]) (auto simp: st'(2) status_path_append get_put split: if_splits)
  qed
qed

lemma history_same:
  assumes "history_ok start (rows, lg)"
    and "\<And>i. map_option get (map_of rows' i) = map_option get (map_of rows i)" "\<And>i. trail i lg' = trail i lg"
  shows "history_ok start (rows', lg')"
  unfolding history_ok_def fst_conv snd_conv
proof (intro allI impI)
  fix i row assume "map_of rows' i = Some row"
  with assms(2)[of i] obtain r where "map_of rows i = Some r" "get r = get row" by (auto simp: map_option_case split: option.splits)
  then show "\<exists>s0. start s0 \<and> status_path table s0 (trail i lg') (get row)"
    using assms(1) by (fastforce simp: history_ok_def assms(3))
qed

lemma history_new:
  assumes "history_ok start (rows, lg)" "trail i lg = []" "start (get r)"
  shows "history_ok start (rows @ [(i, r)], lg)"
  using assms by (auto simp: history_ok_def map_add_def split: option.splits if_splits)

lemma final_path: "status_path table s steps t \<Longrightarrow> final s \<Longrightarrow> steps = [] \<and> t = s"
  by (cases "(table, s, steps, t)" rule: status_path.cases) (auto simp: can_transition_def final_stays)

lemma final_refused:
  "final s \<Longrightarrow> record_transition table get put i s s' info st = Inl (Conflict ''ORDER_STATE_CONFLICT'')"
  by (simp add: record_transition_def assert_transition_def can_transition_def final_stays)

end

text \<open>A machine whose transitions only go forward visits every status at most once.\<close>

locale forward_machine = status_machine table final get put
  for table :: "'s \<Rightarrow> 's list" and final and get :: "'row \<Rightarrow> 's" and put +
  fixes rank :: "'s \<Rightarrow> nat"
  assumes forward: "b \<in> set (table a) \<Longrightarrow> rank a < rank b"
begin

lemma path_rank: "status_path table s steps t \<Longrightarrow> rank s + length steps \<le> rank t"
proof (induction steps arbitrary: s)
  case (Cons x steps)
  obtain a b where x: "x = (a, b)" by force
  then have "rank s < rank b" "rank b + length steps \<le> rank t"
    using Cons by (auto simp: can_transition_def intro: forward)
  then show ?case by simp
qed simp

lemma never_back: "status_path table s steps t \<Longrightarrow> s = t \<longleftrightarrow> steps = []"
  using path_rank by (cases steps) fastforce+

end

section \<open>The machines\<close>

fun order_rank :: "order_status \<Rightarrow> nat" where
  "order_rank OS_DRAFT = 0" | "order_rank OS_PENDING_PAYMENT = 1" | "order_rank OS_CREDIT_APPROVED = 2"
| "order_rank OS_PAID = 3" | "order_rank OS_CANCELLED = 3" | "order_rank OS_RETURNED = 3"

fun fulfillment_rank :: "fulfillment_status \<Rightarrow> nat" where
  "fulfillment_rank FS_PENDING = 0" | "fulfillment_rank FS_PROCESSING = 1"
| "fulfillment_rank FS_READY_TO_SHIP = 2" | "fulfillment_rank FS_SHIPPED = 3"
| "fulfillment_rank FS_DELIVERED = 4" | "fulfillment_rank FS_RETURNED = 5" | "fulfillment_rank FS_CANCELLED = 5"

definition order_final :: "order_status \<Rightarrow> bool" where
  "order_final s \<longleftrightarrow> s = OS_PAID \<or> s = OS_CANCELLED \<or> s = OS_RETURNED"

definition payment_final :: "payment_status \<Rightarrow> bool" where
  "payment_final s \<longleftrightarrow> s = PAY_REFUNDED"

definition fulfillment_final :: "fulfillment_status \<Rightarrow> bool" where
  "fulfillment_final s \<longleftrightarrow> s = FS_CANCELLED \<or> s = FS_RETURNED"

definition door_final :: "door_status \<Rightarrow> bool" where
  "door_final s \<longleftrightarrow> s = DS_COMPLETED \<or> s = DS_CANCELLED"

text \<open>The money of a payment is moved only by a settled payment: once it leaves the unsettled statuses
  it never comes back to them.\<close>

definition settled :: "payment_status \<Rightarrow> bool" where
  "settled s \<longleftrightarrow> s = PAY_PAID \<or> s = PAY_PARTIALLY_REFUNDED \<or> s = PAY_REFUNDED"

lemma settled_path: "status_path payment_transitions s steps t \<Longrightarrow> settled s \<Longrightarrow> settled t"
proof (induction steps arbitrary: s)
  case (Cons x steps)
  obtain a b where x: "x = (a, b)" by force
  with Cons.prems have "settled b" by (cases s) (auto simp: can_transition_def settled_def)
  then show ?case using Cons x by auto
qed simp

end
