(* ===== verification/Promotions.thy ===== *)
theory Promotions
  imports Promotion_Bounds Status_Machines
begin

text \<open>
  Promotions and coupons with their capacity (\<open>modules/promotions/promotions.service.ts\<close>): pricing a
  cart against the current rules, holding capacity for an order at checkout, confirming it on
  settlement, returning it on cancellation, expiry and full refund.
\<close>

section \<open>State\<close>

datatype promotion_mode = PM_COUPON | PM_AUTOMATIC

datatype redemption_status = RD_RESERVED | RD_CONFIRMED | RD_RELEASED | RD_REFUNDED

datatype coupon_error =
    COUPON_NOT_FOUND | COUPON_INACTIVE | COUPON_NOT_STARTED | COUPON_EXPIRED | COUPON_EXHAUSTED
  | COUPON_CUSTOMER_LIMIT | COUPON_NOT_ELIGIBLE | COUPON_NOT_APPLICABLE

fun coupon_error_name :: "coupon_error \<Rightarrow> string" where
  "coupon_error_name COUPON_NOT_FOUND = ''COUPON_NOT_FOUND''"
| "coupon_error_name COUPON_INACTIVE = ''COUPON_INACTIVE''"
| "coupon_error_name COUPON_NOT_STARTED = ''COUPON_NOT_STARTED''"
| "coupon_error_name COUPON_EXPIRED = ''COUPON_EXPIRED''"
| "coupon_error_name COUPON_EXHAUSTED = ''COUPON_EXHAUSTED''"
| "coupon_error_name COUPON_CUSTOMER_LIMIT = ''COUPON_CUSTOMER_LIMIT''"
| "coupon_error_name COUPON_NOT_ELIGIBLE = ''COUPON_NOT_ELIGIBLE''"
| "coupon_error_name COUPON_NOT_APPLICABLE = ''COUPON_NOT_APPLICABLE''"

text \<open>\<open>conflictFromRejection\<close>\<close>

definition rejection :: "coupon_error \<Rightarrow> api_error" where
  "rejection e = Conflict (coupon_error_name e)"

record promotion =
  pm_name :: string
  pm_kind :: engine_kind
  pm_mode :: promotion_mode
  pm_percent :: "int option"
  pm_amount :: "int option"
  pm_max_discount :: "int option"
  pm_min_order :: "int option"
  pm_max_order :: "int option"
  pm_starts :: "int option"
  pm_ends :: "int option"
  pm_active :: bool
  pm_max_redemptions :: "int option"
  pm_per_customer :: "int option"
  pm_first_only :: bool
  pm_customer :: "uid option"
  pm_stackable :: bool
  pm_priority :: int
  pm_used :: int
  pm_version :: int
  pm_targets :: "engine_target list"

record coupon =
  cp_promotion :: uid
  cp_code :: string
  cp_active :: bool
  cp_max_redemptions :: "int option"
  cp_used :: int
  cp_customer :: "uid option"

record redemption =
  rd_promotion :: uid
  rd_coupon :: "uid option"
  rd_order :: uid
  rd_customer :: uid
  rd_status :: redemption_status
  rd_discount :: int
  rd_shipping :: int
  rd_refunded :: int
  rd_applied :: applied_promotion
  rd_version :: int
  rd_reason :: "string option"
  rd_confirmed_at :: "int option"
  rd_released_at :: "int option"

record promo_db =
  promotions :: "(uid \<times> promotion) list"
  coupons :: "(uid \<times> coupon) list"
  redemptions :: "(uid \<times> redemption) list"
  categories :: "(uid \<times> uid option) list"
  next_redemption :: uid

section \<open>Pricing\<close>

definition to_engine :: "uid \<Rightarrow> promotion \<Rightarrow> uid option \<Rightarrow> engine_promotion" where
  "to_engine i p c =
     \<lparr>ep_id = i, ep_coupon = c, ep_name = pm_name p, ep_kind = pm_kind p, ep_percent = pm_percent p,
      ep_amount = pm_amount p, ep_max_discount = pm_max_discount p, ep_min_order = pm_min_order p,
      ep_max_order = pm_max_order p, ep_stackable = pm_stackable p, ep_priority = pm_priority p,
      ep_targets = pm_targets p\<rparr>"

text \<open>The walk up the category tree stops at a root, at a missing row and at a cycle.\<close>

function ancestry :: "(uid \<times> uid option) list \<Rightarrow> uid list \<Rightarrow> uid \<Rightarrow> uid list" where
  "ancestry t chain i =
     (if i \<in> set chain then chain
      else case map_of t i of
        Some (Some p) \<Rightarrow> ancestry t (chain @ [i]) p
      | _ \<Rightarrow> chain @ [i])"
  by pat_completeness auto
termination
proof (relation "measure (\<lambda>(t, chain, i). card (fst ` set t - set chain))", simp, clarsimp)
  fix t :: "(uid \<times> uid option) list" and chain i p
  assume i: "i \<notin> set chain" and row: "map_of t i = Some (Some p)"
  have "i \<in> fst ` set t" using map_of_SomeD[OF row] by force
  with i have "fst ` set t - insert i (set chain) \<subset> fst ` set t - set chain" by auto
  then show "card (fst ` set t - insert i (set chain)) < card (fst ` set t - set chain)"
    by (intro psubset_card_mono) auto
qed

declare ancestry.simps [simp del]

definition category_ancestry :: "(uid \<times> uid option) list \<Rightarrow> uid \<Rightarrow> uid list" where
  "category_ancestry t c = (if map_of t c = None then [c] else ancestry t [] c)"

record pricing_line =
  pl_variant :: uid
  pl_product :: uid
  pl_category :: "uid option"
  pl_brand :: "uid option"
  pl_price :: int
  pl_quantity :: int

definition engine_line_of :: "promo_db \<Rightarrow> pricing_line \<Rightarrow> engine_line" where
  "engine_line_of db l =
     \<lparr>el_variant = pl_variant l, el_product = pl_product l,
      el_categories = (case pl_category l of None \<Rightarrow> [] | Some c \<Rightarrow> category_ancestry (categories db) c),
      el_brand = pl_brand l, el_price = pl_price l, el_quantity = pl_quantity l\<rparr>"

text \<open>An order as the promotion rules see it: its customer and status.\<close>

type_synonym order_facts = "(uid \<times> (uid \<times> order_status)) list"

definition customer_usage :: "promo_db \<Rightarrow> uid \<Rightarrow> uid \<Rightarrow> uid option \<Rightarrow> int" where
  "customer_usage db p customer exclude =
     asum (\<lambda>_ r. if rd_promotion r = p \<and> rd_customer r = customer
         \<and> (rd_status r = RD_RESERVED \<or> rd_status r = RD_CONFIRMED) \<and> exclude \<noteq> Some (rd_order r)
       then 1 else 0) (redemptions db)"

definition is_first_purchase :: "order_facts \<Rightarrow> uid \<Rightarrow> uid option \<Rightarrow> bool" where
  "is_first_purchase orders customer exclude \<longleftrightarrow>
     \<not> (\<exists>(i, c, s) \<in> set orders. c = customer
          \<and> s \<in> {OS_PENDING_PAYMENT, OS_PAID, OS_CREDIT_APPROVED} \<and> exclude \<noteq> Some i)"

definition full :: "int option \<Rightarrow> int \<Rightarrow> bool" where
  "full limit used = (case limit of None \<Rightarrow> False | Some m \<Rightarrow> used \<ge> m)"

definition usable :: "promo_db \<Rightarrow> order_facts \<Rightarrow> uid \<Rightarrow> promotion \<Rightarrow> uid \<Rightarrow> uid option \<Rightarrow> bool" where
  "usable db orders i p customer exclude \<longleftrightarrow>
     \<not> full (pm_max_redemptions p) (pm_used p)
     \<and> \<not> full (pm_per_customer p) (customer_usage db i customer exclude)
     \<and> (pm_first_only p \<longrightarrow> is_first_purchase orders customer exclude)"

record pricing_input =
  pi_customer :: uid
  pi_lines :: "pricing_line list"
  pi_shipping :: int
  pi_coupon :: "string option"
  pi_now :: int
  pi_shipping_known :: bool
  pi_exclude :: "uid option"

record pricing_outcome =
  po_result :: engine_result
  po_coupon :: "string option"
  po_error :: "coupon_error option"
  po_subtotal :: int

definition in_window :: "promotion \<Rightarrow> int \<Rightarrow> bool" where
  "in_window p now \<longleftrightarrow> pm_active p
     \<and> (case pm_starts p of None \<Rightarrow> True | Some s \<Rightarrow> s \<le> now)
     \<and> (case pm_ends p of None \<Rightarrow> True | Some e \<Rightarrow> e > now)"

definition automatic_candidates :: "promo_db \<Rightarrow> order_facts \<Rightarrow> pricing_input \<Rightarrow> engine_promotion list" where
  "automatic_candidates db orders inp =
     map (\<lambda>(i, p). to_engine i p None)
       (filter (\<lambda>(i, p). in_window p (pi_now inp) \<and> pm_mode p = PM_AUTOMATIC
            \<and> (pm_customer p = None \<or> pm_customer p = Some (pi_customer inp))
            \<and> usable db orders i p (pi_customer inp) (pi_exclude inp)) (promotions db))"

definition coupon_by_code :: "promo_db \<Rightarrow> string \<Rightarrow> (uid \<times> coupon) option" where
  "coupon_by_code db code = List.find (\<lambda>(_, c). cp_code c = code) (coupons db)"

definition not_for :: "uid option \<Rightarrow> uid \<Rightarrow> bool" where
  "not_for owner customer = (case owner of None \<Rightarrow> False | Some c \<Rightarrow> c \<noteq> customer)"

text \<open>The checks of a coupon, in their order; the answer is the candidate it adds.\<close>

definition check_coupon ::
  "promo_db \<Rightarrow> order_facts \<Rightarrow> pricing_input \<Rightarrow> engine_line list \<Rightarrow> string
     \<Rightarrow> coupon_error + engine_promotion" where
  "check_coupon db orders inp lines code =
     (let now = pi_now inp; customer = pi_customer inp in
     need (coupon_by_code db code) COUPON_NOT_FOUND (\<lambda>(ci, c).
     need (map_of (promotions db) (cp_promotion c)) COUPON_NOT_FOUND (\<lambda>p.
     let i = cp_promotion c in
     throw_if (pm_mode p \<noteq> PM_COUPON) COUPON_NOT_FOUND
     (throw_if (\<not> cp_active c \<or> \<not> pm_active p) COUPON_INACTIVE
     (throw_if (case pm_starts p of None \<Rightarrow> False | Some s \<Rightarrow> s > now) COUPON_NOT_STARTED
     (throw_if (case pm_ends p of None \<Rightarrow> False | Some e \<Rightarrow> e \<le> now) COUPON_EXPIRED
     (throw_if (not_for (cp_customer c) customer \<or> not_for (pm_customer p) customer) COUPON_NOT_ELIGIBLE
     (throw_if (full (cp_max_redemptions c) (cp_used c) \<or> full (pm_max_redemptions p) (pm_used p)) COUPON_EXHAUSTED
     (throw_if (full (pm_per_customer p) (customer_usage db i customer (pi_exclude inp))) COUPON_CUSTOMER_LIMIT
     (throw_if (pm_first_only p \<and> \<not> is_first_purchase orders customer (pi_exclude inp)) COUPON_NOT_ELIGIBLE
     (let probe = evaluate_promotions lines (pi_shipping inp) [to_engine i p (Some ci)];
          deferred = (\<not> pi_shipping_known inp \<and> pm_kind p = EK_FREE_SHIPPING)
      in throw_if (er_total probe = 0 \<and> \<not> deferred) COUPON_NOT_APPLICABLE
        (Inr (to_engine i p (Some ci))))))))))))))"

definition empty_result :: engine_result where
  "empty_result = \<lparr>er_applied = [], er_item = 0, er_shipping = 0, er_total = 0\<rparr>"

text \<open>\<open>price\<close>; \<open>norm\<close> is \<open>normalizeCouponCode\<close>, which needs the Unicode tables of the runtime.\<close>

definition price ::
  "(string \<Rightarrow> string) \<Rightarrow> promo_db \<Rightarrow> order_facts \<Rightarrow> pricing_input \<Rightarrow> pricing_outcome" where
  "price norm db orders inp =
     (let subtotal = (\<Sum>l\<leftarrow>pi_lines inp. pl_price l * pl_quantity l) in
      if pi_lines inp = []
      then \<lparr>po_result = empty_result, po_coupon = None, po_error = None, po_subtotal = subtotal\<rparr>
      else
        let lines = map (engine_line_of db) (pi_lines inp);
            autos = automatic_candidates db orders inp;
            code = (if truthy (pi_coupon inp) then Some (norm (the (pi_coupon inp))) else None);
            checked = map_option (check_coupon db orders inp lines) code;
            candidates = autos @ (case checked of Some (Inr p) \<Rightarrow> [p] | _ \<Rightarrow> []);
            result = evaluate_promotions lines (pi_shipping inp) candidates;
            deferred = (\<not> pi_shipping_known inp \<and> er_applied result = []
              \<and> (\<exists>c \<in> set candidates. ep_coupon c \<noteq> None \<and> ep_kind c = EK_FREE_SHIPPING));
            error = (case checked of Some (Inl e) \<Rightarrow> Some e
              | None \<Rightarrow> None
              | Some (Inr _) \<Rightarrow>
                  if \<not> deferred \<and> \<not> (\<exists>a \<in> set (er_applied result). ap_coupon a \<noteq> None)
                  then Some COUPON_NOT_APPLICABLE else None)
        in \<lparr>po_result = result, po_coupon = code, po_error = error, po_subtotal = subtotal\<rparr>)"

section \<open>Holding and returning capacity\<close>

definition below :: "int option \<Rightarrow> int \<Rightarrow> bool" where
  "below limit used = (case limit of None \<Rightarrow> True | Some m \<Rightarrow> used < m)"

text \<open>The conditional \<open>UPDATE ... SET usedCount = usedCount + 1\<close>: no row means no capacity.\<close>

definition claim_promotion :: "uid \<Rightarrow> promo_db \<Rightarrow> promo_db option" where
  "claim_promotion i db =
     (case map_of (promotions db) i of
        Some p \<Rightarrow> if pm_active p \<and> below (pm_max_redemptions p) (pm_used p)
          then Some (db\<lparr>promotions := AList.update i (p\<lparr>pm_used := pm_used p + 1\<rparr>) (promotions db)\<rparr>)
          else None
      | None \<Rightarrow> None)"

definition claim_coupon :: "uid \<Rightarrow> promo_db \<Rightarrow> promo_db option" where
  "claim_coupon i db =
     (case map_of (coupons db) i of
        Some c \<Rightarrow> if cp_active c \<and> below (cp_max_redemptions c) (cp_used c)
          then Some (db\<lparr>coupons := AList.update i (c\<lparr>cp_used := cp_used c + 1\<rparr>) (coupons db)\<rparr>)
          else None
      | None \<Rightarrow> None)"

definition new_redemption :: "uid \<Rightarrow> uid \<Rightarrow> promotion \<Rightarrow> applied_promotion \<Rightarrow> redemption" where
  "new_redemption oid customer p a =
     \<lparr>rd_promotion = ap_promotion a, rd_coupon = ap_coupon a, rd_order = oid, rd_customer = customer,
      rd_status = RD_RESERVED, rd_discount = ap_item a + ap_shipping a, rd_shipping = ap_shipping a,
      rd_refunded = 0, rd_applied = a, rd_version = pm_version p, rd_reason = None,
      rd_confirmed_at = None, rd_released_at = None\<rparr>"

definition add_redemption :: "redemption \<Rightarrow> promo_db \<Rightarrow> promo_db res" where
  "add_redemption r db =
     throw_if (\<exists>x \<in> set (redemptions db). rd_promotion (snd x) = rd_promotion r \<and> rd_order (snd x) = rd_order r)
       (DbError ''P2002'')
     (Inr (db\<lparr>redemptions := redemptions db @ [(next_redemption db, r)],
              next_redemption := Suc (next_redemption db)\<rparr>))"

definition reserve_one :: "uid \<Rightarrow> uid \<Rightarrow> applied_promotion \<Rightarrow> promo_db \<Rightarrow> promo_db res" where
  "reserve_one oid customer a db =
     need (map_of (promotions db) (ap_promotion a)) (DbError ''P2025'') (\<lambda>p.
     throw_if (\<not> pm_active p) (rejection COUPON_INACTIVE)
     (throw_if (full (pm_per_customer p) (customer_usage db (ap_promotion a) customer None))
       (rejection COUPON_CUSTOMER_LIMIT)
     (need (claim_promotion (ap_promotion a) db) (rejection COUPON_EXHAUSTED) (\<lambda>db1.
      need (case ap_coupon a of None \<Rightarrow> Some db1 | Some c \<Rightarrow> claim_coupon c db1)
        (rejection COUPON_EXHAUSTED) (\<lambda>db2.
      add_redemption (new_redemption oid customer p a) db2)))))"

fun reserve_promotions :: "uid \<Rightarrow> uid \<Rightarrow> applied_promotion list \<Rightarrow> promo_db \<Rightarrow> promo_db res" where
  "reserve_promotions oid customer [] db = Inr db"
| "reserve_promotions oid customer (a # as) db =
     andthen (reserve_one oid customer a db) (reserve_promotions oid customer as)"

text \<open>\<open>confirmForOrder\<close>: only reserved rows change.\<close>

definition confirm_for_order :: "uid \<Rightarrow> int \<Rightarrow> promo_db \<Rightarrow> promo_db" where
  "confirm_for_order oid now db =
     db\<lparr>redemptions := map (\<lambda>(i, r). (i, if rd_order r = oid \<and> rd_status r = RD_RESERVED
         then r\<lparr>rd_status := RD_CONFIRMED, rd_confirmed_at := Some now\<rparr> else r)) (redemptions db)\<rparr>"

definition return_promotion :: "uid \<Rightarrow> promo_db \<Rightarrow> promo_db" where
  "return_promotion i db =
     (case map_of (promotions db) i of
        Some p \<Rightarrow> if pm_used p > 0
          then db\<lparr>promotions := AList.update i (p\<lparr>pm_used := pm_used p - 1\<rparr>) (promotions db)\<rparr> else db
      | None \<Rightarrow> db)"

definition return_coupon :: "uid \<Rightarrow> promo_db \<Rightarrow> promo_db" where
  "return_coupon i db =
     (case map_of (coupons db) i of
        Some c \<Rightarrow> if cp_used c > 0
          then db\<lparr>coupons := AList.update i (c\<lparr>cp_used := cp_used c - 1\<rparr>) (coupons db)\<rparr> else db
      | None \<Rightarrow> db)"

definition return_capacity :: "uid \<Rightarrow> uid option \<Rightarrow> promo_db \<Rightarrow> promo_db" where
  "return_capacity p c db =
     (let db1 = return_promotion p db
      in case c of None \<Rightarrow> db1 | Some ci \<Rightarrow> return_coupon ci db1)"

definition put_redemption :: "uid \<Rightarrow> redemption \<Rightarrow> promo_db \<Rightarrow> promo_db" where
  "put_redemption i r db = db\<lparr>redemptions := AList.update i r (redemptions db)\<rparr>"

definition release_one :: "string \<Rightarrow> int \<Rightarrow> uid \<Rightarrow> promo_db \<Rightarrow> nat \<times> promo_db" where
  "release_one reason now i db =
     (case map_of (redemptions db) i of
        Some r \<Rightarrow>
          if rd_status r = RD_RESERVED
          then (1, return_capacity (rd_promotion r) (rd_coupon r)
            (put_redemption i (r\<lparr>rd_status := RD_RELEASED, rd_released_at := Some now,
               rd_reason := Some (take 64 reason)\<rparr>) db))
          else (0, db)
      | None \<Rightarrow> (0, db))"

fun release_each :: "string \<Rightarrow> int \<Rightarrow> uid list \<Rightarrow> promo_db \<Rightarrow> nat \<times> promo_db" where
  "release_each reason now [] db = (0, db)"
| "release_each reason now (i # is) db =
     (let (n, db1) = release_one reason now i db; (m, db2) = release_each reason now is db1
      in (n + m, db2))"

definition reserved_of :: "uid \<Rightarrow> promo_db \<Rightarrow> uid list" where
  "reserved_of oid db = map fst (filter (\<lambda>(_, r). rd_order r = oid \<and> rd_status r = RD_RESERVED) (redemptions db))"

definition release_for_order :: "uid \<Rightarrow> string \<Rightarrow> int \<Rightarrow> promo_db \<Rightarrow> nat \<times> promo_db" where
  "release_for_order oid reason now db = release_each reason now (reserved_of oid db) db"

definition refund_share :: "redemption \<Rightarrow> int \<Rightarrow> int \<Rightarrow> int" where
  "refund_share r paid refunded =
     (if refunded \<ge> paid then rd_discount r else (rd_discount r * refunded) sdiv paid)"

definition refund_one :: "int \<Rightarrow> int \<Rightarrow> int \<Rightarrow> uid \<Rightarrow> promo_db \<Rightarrow> promo_db" where
  "refund_one paid refunded now i db =
     (case map_of (redemptions db) i of
        Some r \<Rightarrow>
          let share = refund_share r paid refunded in
          if rd_status r \<noteq> RD_CONFIRMED \<or> share < rd_refunded r then db
          else if refunded \<ge> paid
          then return_capacity (rd_promotion r) (rd_coupon r)
            (put_redemption i (r\<lparr>rd_status := RD_REFUNDED, rd_refunded := share,
               rd_released_at := Some now, rd_reason := Some ''FULL_REFUND''\<rparr>) db)
          else put_redemption i (r\<lparr>rd_refunded := share\<rparr>) db
      | None \<Rightarrow> db)"

definition settled_of :: "uid \<Rightarrow> promo_db \<Rightarrow> uid list" where
  "settled_of oid db = map fst (filter (\<lambda>(_, r). rd_order r = oid
     \<and> (rd_status r = RD_CONFIRMED \<or> rd_status r = RD_REFUNDED)) (redemptions db))"

definition apply_refund :: "uid \<Rightarrow> int \<Rightarrow> int \<Rightarrow> int \<Rightarrow> promo_db \<Rightarrow> promo_db" where
  "apply_refund oid paid refunded now db =
     (if paid \<le> 0 then db else fold (refund_one paid refunded now) (settled_of oid db) db)"

end
