(* ===== verification/Promotion_Capacity.thy ===== *)
theory Promotion_Capacity
  imports Promotions
begin

text \<open>
  Capacity is exact: the counter of a promotion or coupon is the number of its live redemptions,
  it never passes its limit, and no customer passes the limit per customer, through every
  reservation, confirmation, release and refund.
\<close>

section \<open>Counting live redemptions\<close>

definition live :: "redemption \<Rightarrow> bool" where
  "live r \<longleftrightarrow> rd_status r = RD_RESERVED \<or> rd_status r = RD_CONFIRMED"

definition uses_by :: "(redemption \<Rightarrow> bool) \<Rightarrow> promo_db \<Rightarrow> int" where
  "uses_by P db = asum (\<lambda>_ r. if P r \<and> live r then 1 else 0) (redemptions db)"

definition of_promotion :: "uid \<Rightarrow> redemption \<Rightarrow> bool" where
  "of_promotion p r \<longleftrightarrow> rd_promotion r = p"

definition of_coupon :: "uid \<Rightarrow> redemption \<Rightarrow> bool" where
  "of_coupon c r \<longleftrightarrow> rd_coupon r = Some c"

definition of_customer :: "uid \<Rightarrow> uid \<Rightarrow> redemption \<Rightarrow> bool" where
  "of_customer p c r \<longleftrightarrow> rd_promotion r = p \<and> rd_customer r = c"

lemma customer_usage_uses: "customer_usage db p c None = uses_by (of_customer p c) db"
  unfolding customer_usage_def uses_by_def by (rule asum_cong) (auto simp: of_customer_def live_def)

lemma uses_by_other [simp]:
  "uses_by P (db\<lparr>promotions := ps\<rparr>) = uses_by P db"
  "uses_by P (db\<lparr>coupons := cs\<rparr>) = uses_by P db"
  "uses_by P (db\<lparr>next_redemption := n\<rparr>) = uses_by P db"
  by (simp_all add: uses_by_def)

lemma uses_by_append [simp]:
  "uses_by P (db\<lparr>redemptions := redemptions db @ [(i, r)]\<rparr>) = uses_by P db + (if P r \<and> live r then 1 else 0)"
  by (simp add: uses_by_def table_simps)

lemma uses_by_put [simp]:
  "map_of (redemptions db) i = Some r0 \<Longrightarrow> uses_by P (put_redemption i r db) =
     uses_by P db + (if P r \<and> live r then 1 else 0) - (if P r0 \<and> live r0 then 1 else 0)"
  by (simp add: uses_by_def put_redemption_def table_simps)

lemma put_redemption_fields [simp]:
  "promotions (put_redemption i r db) = promotions db"
  "coupons (put_redemption i r db) = coupons db"
  "redemptions (put_redemption i r db) = AList.update i r (redemptions db)"
  "next_redemption (put_redemption i r db) = next_redemption db"
  by (simp_all add: put_redemption_def)

lemma uses_by_pos:
  assumes "map_of (redemptions db) i = Some r" "P r" "live r"
  shows "1 \<le> uses_by P db"
proof -
  have "(if P r \<and> live r then 1 else 0 :: int) \<le> uses_by P db"
    unfolding uses_by_def
    by (rule asum_member_le[where f = "\<lambda>_ r. if P r \<and> live r then 1 else 0"])
      (use map_of_SomeD[OF assms(1)] in auto)
  then show ?thesis using assms(2,3) by simp
qed

section \<open>The invariant\<close>

text \<open>Between the two halves of a step a counter is one ahead of the redemptions.\<close>

definition counted :: "uid option \<Rightarrow> uid option \<Rightarrow> promo_db \<Rightarrow> bool" where
  "counted off_p off_c db \<longleftrightarrow>
     (\<forall>i p. map_of (promotions db) i = Some p \<longrightarrow>
        pm_used p = uses_by (of_promotion i) db + (if off_p = Some i then 1 else 0))
     \<and> (\<forall>i c. map_of (coupons db) i = Some c \<longrightarrow>
        cp_used c = uses_by (of_coupon i) db + (if off_c = Some i then 1 else 0))"

definition bounded :: "promo_db \<Rightarrow> bool" where
  "bounded db \<longleftrightarrow>
     (\<forall>i p m. map_of (promotions db) i = Some p \<longrightarrow> pm_max_redemptions p = Some m \<longrightarrow> pm_used p \<le> m)
     \<and> (\<forall>i c m. map_of (coupons db) i = Some c \<longrightarrow> cp_max_redemptions c = Some m \<longrightarrow> cp_used c \<le> m)"

definition limits_ok :: "promo_db \<Rightarrow> bool" where
  "limits_ok db \<longleftrightarrow> (\<forall>i p l c. map_of (promotions db) i = Some p \<longrightarrow> pm_per_customer p = Some l
     \<longrightarrow> uses_by (of_customer i c) db \<le> max l 0)"

definition redemption_rows :: "promo_db \<Rightarrow> bool" where
  "redemption_rows db \<longleftrightarrow> distinct (map fst (redemptions db))
     \<and> (\<forall>i \<in> set (map fst (redemptions db)). i < next_redemption db)"

definition promo_inv :: "promo_db \<Rightarrow> bool" where
  "promo_inv db \<longleftrightarrow> counted None None db \<and> bounded db \<and> limits_ok db \<and> redemption_rows db"

lemma promo_inv_fresh:
  assumes "redemptions db = []"
    and "\<forall>i p. map_of (promotions db) i = Some p \<longrightarrow> pm_used p = 0 \<and> (\<forall>m. pm_max_redemptions p = Some m \<longrightarrow> 0 \<le> m)"
    and "\<forall>i c. map_of (coupons db) i = Some c \<longrightarrow> cp_used c = 0 \<and> (\<forall>m. cp_max_redemptions c = Some m \<longrightarrow> 0 \<le> m)"
  shows "promo_inv db"
  using assms by (simp add: promo_inv_def counted_def bounded_def limits_ok_def redemption_rows_def uses_by_def)

section \<open>Claiming\<close>

lemma claim_promotion_counted:
  assumes "counted None off_c db" "claim_promotion i db = Some db1"
  shows "counted (Some i) off_c db1 \<and> redemptions db1 = redemptions db
    \<and> next_redemption db1 = next_redemption db \<and> coupons db1 = coupons db
    \<and> (\<forall>j. map_option pm_per_customer (map_of (promotions db1) j) = map_option pm_per_customer (map_of (promotions db) j))"
  using assms
  by (fastforce simp: counted_def claim_promotion_def update_conv below_def split: option.splits if_splits)

lemma claim_coupon_counted:
  assumes "counted off_p None db" "claim_coupon i db = Some db1"
  shows "counted off_p (Some i) db1 \<and> redemptions db1 = redemptions db
    \<and> next_redemption db1 = next_redemption db \<and> promotions db1 = promotions db"
  using assms
  by (fastforce simp: counted_def claim_coupon_def update_conv below_def split: option.splits if_splits)

lemma claim_bounded:
  "bounded db \<Longrightarrow> claim_promotion i db = Some db1 \<Longrightarrow> bounded db1"
  "bounded db \<Longrightarrow> claim_coupon i db = Some db1 \<Longrightarrow> bounded db1"
  by (fastforce simp: bounded_def claim_promotion_def claim_coupon_def update_conv below_def
      split: option.splits if_splits)+

lemma limits_ok_cong:
  assumes "limits_ok db" "redemptions db1 = redemptions db"
    and "\<forall>j. map_option pm_per_customer (map_of (promotions db1) j) = map_option pm_per_customer (map_of (promotions db) j)"
  shows "limits_ok db1"
  unfolding limits_ok_def
proof (intro allI impI)
  fix i p l c assume p: "map_of (promotions db1) i = Some p" "pm_per_customer p = Some l"
  then obtain p0 where "map_of (promotions db) i = Some p0" "pm_per_customer p0 = Some l"
    using assms(3)[rule_format, of i] by (auto simp: map_option_case split: option.splits)
  then have "uses_by (of_customer i c) db \<le> max l 0" using assms(1) by (auto simp: limits_ok_def)
  then show "uses_by (of_customer i c) db1 \<le> max l 0" using assms(2) by (simp add: uses_by_def)
qed

lemma add_redemption_counted:
  assumes "counted (Some (rd_promotion r)) (rd_coupon r) db" "live r" "add_redemption r db = Inr db1"
  shows "counted None None db1"
  using assms by (auto simp: counted_def add_redemption_def res_iff of_promotion_def of_coupon_def)

lemma add_redemption_rows: "redemption_rows db \<Longrightarrow> add_redemption r db = Inr db1 \<Longrightarrow> redemption_rows db1"
  by (fastforce simp: redemption_rows_def add_redemption_def res_iff less_SucI)

lemma reserve_one_inv:
  assumes inv: "promo_inv db" and run: "reserve_one oid customer a db = Inr db'"
  shows "promo_inv db'"
proof -
  let ?i = "ap_promotion a"
  obtain p db1 db2 where
    p: "map_of (promotions db) ?i = Some p" "\<not> full (pm_per_customer p) (customer_usage db ?i customer None)"
    and c1: "claim_promotion ?i db = Some db1"
    and c2: "(case ap_coupon a of None \<Rightarrow> Some db1 | Some c \<Rightarrow> claim_coupon c db1) = Some db2"
    and add: "add_redemption (new_redemption oid customer p a) db2 = Inr db'"
    using run by (auto simp: reserve_one_def res_iff)
  have base: "counted None None db" "limits_ok db" "redemption_rows db" "bounded db"
    using inv by (simp_all add: promo_inv_def)
  have "bounded db2"
    using c2 claim_bounded(1)[OF base(4) c1] claim_bounded(2) by (cases "ap_coupon a") auto
  then have bounded: "bounded db'" using add by (auto simp: bounded_def add_redemption_def res_iff)
  note k1 = claim_promotion_counted[OF base(1) c1]
  have k2: "counted (Some ?i) (ap_coupon a) db2 \<and> redemptions db2 = redemptions db1
      \<and> next_redemption db2 = next_redemption db1 \<and> promotions db2 = promotions db1"
    using c2 k1 claim_coupon_counted[of "Some ?i" db1] by (cases "ap_coupon a") auto
  have lim2: "limits_ok db2"
    by (rule limits_ok_cong[OF base(2)]) (use k1 k2 in auto)
  have rows2: "redemption_rows db2" using base(3) k1 k2 by (simp add: redemption_rows_def)
  have new: "live (new_redemption oid customer p a)" "rd_promotion (new_redemption oid customer p a) = ?i"
    "rd_coupon (new_redemption oid customer p a) = ap_coupon a" "rd_customer (new_redemption oid customer p a) = customer"
    by (simp_all add: new_redemption_def live_def)
  have "counted None None db'"
    by (rule add_redemption_counted[OF _ new(1) add]) (use k2 new in simp)
  moreover have "limits_ok db'"
    unfolding limits_ok_def
  proof (intro allI impI)
    fix j q l c assume q: "map_of (promotions db') j = Some q" "pm_per_customer q = Some l"
    have q2: "map_of (promotions db2) j = Some q" using q add by (auto simp: add_redemption_def res_iff)
    have uses: "uses_by (of_customer j c) db' = uses_by (of_customer j c) db + (if j = ?i \<and> c = customer then 1 else 0)"
      using add new k1 k2 by (auto simp: add_redemption_def res_iff of_customer_def uses_by_def table_simps)
    show "uses_by (of_customer j c) db' \<le> max l 0"
    proof (cases "j = ?i \<and> c = customer")
      case True
      have "map_option pm_per_customer (map_of (promotions db1) j) = map_option pm_per_customer (map_of (promotions db) j)"
        using k1 by blast
      then have "pm_per_customer p = Some l" using True p(1) q2 q(2) k2 by auto
      then show ?thesis using p(2) True uses by (simp add: full_def customer_usage_uses)
    next
      case False
      have "uses_by (of_customer j c) db2 \<le> max l 0" using lim2 q2 q(2) by (auto simp: limits_ok_def)
      then show ?thesis using False uses k1 k2 by (auto simp: uses_by_def)
    qed
  qed
  ultimately show ?thesis using add_redemption_rows[OF rows2 add] bounded by (simp add: promo_inv_def)
qed

lemma reserve_promotions_inv:
  "promo_inv db \<Longrightarrow> reserve_promotions oid customer as db = Inr db' \<Longrightarrow> promo_inv db'"
  by (induction "as" arbitrary: db) (auto simp: res_iff intro: reserve_one_inv)

section \<open>Returning\<close>

lemma uses_by_nonneg: "0 \<le> uses_by P db"
  unfolding uses_by_def by (rule asum_nonneg) simp

lemma return_promotion_counted:
  "counted (Some i) off_c db \<Longrightarrow> counted None off_c (return_promotion i db)"
  using uses_by_nonneg
  by (fastforce simp: counted_def return_promotion_def update_conv split: option.splits if_splits)

lemma return_coupon_counted:
  "counted off_p (Some i) db \<Longrightarrow> counted off_p None (return_coupon i db)"
  using uses_by_nonneg
  by (fastforce simp: counted_def return_coupon_def update_conv split: option.splits if_splits)

lemma return_capacity_counted:
  "counted (Some i) c db \<Longrightarrow> counted None None (return_capacity i c db)"
  by (auto simp: return_capacity_def Let_def split: option.splits
      intro: return_promotion_counted return_coupon_counted)

lemma return_bounded:
  "bounded db \<Longrightarrow> bounded (return_promotion i db)"
  "bounded db \<Longrightarrow> bounded (return_coupon j db)"
  by (fastforce simp: bounded_def return_promotion_def return_coupon_def update_conv
      split: option.splits if_splits)+

lemma return_capacity_bounded: "bounded db \<Longrightarrow> bounded (return_capacity i c db)"
  by (auto simp: return_capacity_def Let_def return_bounded split: option.splits)

lemma return_capacity_rows [simp]:
  "redemptions (return_capacity i c db) = redemptions db"
  "next_redemption (return_capacity i c db) = next_redemption db"
  by (auto simp: return_capacity_def return_promotion_def return_coupon_def Let_def split: option.splits)

lemma return_capacity_limits:
  "map_option pm_per_customer (map_of (promotions (return_capacity i c db)) j)
     = map_option pm_per_customer (map_of (promotions db) j)"
  by (auto simp: return_capacity_def return_promotion_def return_coupon_def Let_def update_conv
      split: option.splits)

definition same_use :: "redemption \<Rightarrow> redemption \<Rightarrow> bool" where
  "same_use r r' \<longleftrightarrow> rd_promotion r' = rd_promotion r \<and> rd_coupon r' = rd_coupon r
     \<and> rd_customer r' = rd_customer r \<and> rd_order r' = rd_order r"

lemma same_use_of:
  "same_use r r' \<Longrightarrow> of_promotion p r' = of_promotion p r"
  "same_use r r' \<Longrightarrow> of_coupon c r' = of_coupon c r"
  "same_use r r' \<Longrightarrow> of_customer p k r' = of_customer p k r"
  by (simp_all add: same_use_def of_promotion_def of_coupon_def of_customer_def)

lemma put_rows:
  assumes "redemption_rows db" "map_of (redemptions db) i = Some r0"
  shows "redemption_rows (put_redemption i r db)"
  using assms by (simp add: redemption_rows_def map_fst_update_same del: set_map)

text \<open>A live redemption that keeps its live status changes no counter.\<close>

lemma keep_live:
  assumes inv: "promo_inv db" and r: "map_of (redemptions db) i = Some r0" "live r0" "live r" "same_use r0 r"
  shows "promo_inv (put_redemption i r db)"
proof -
  have u: "uses_by (of_promotion p) (put_redemption i r db) = uses_by (of_promotion p) db"
    "uses_by (of_coupon c) (put_redemption i r db) = uses_by (of_coupon c) db"
    "uses_by (of_customer p k) (put_redemption i r db) = uses_by (of_customer p k) db" for p c k
    using r by (simp_all add: same_use_of)
  have "counted None None (put_redemption i r db)" using inv by (simp add: promo_inv_def counted_def u)
  moreover have "bounded (put_redemption i r db)" using inv by (simp add: promo_inv_def bounded_def)
  moreover have "limits_ok (put_redemption i r db)" using inv by (simp add: promo_inv_def limits_ok_def u)
  ultimately show ?thesis using inv put_rows[OF _ r(1)] by (simp add: promo_inv_def)
qed

text \<open>A redemption that stops being live gives exactly its unit of capacity back.\<close>

lemma leave_live:
  assumes inv: "promo_inv db" and r: "map_of (redemptions db) i = Some r0" "live r0" "\<not> live r" "same_use r0 r"
  shows "promo_inv (return_capacity (rd_promotion r0) (rd_coupon r0) (put_redemption i r db))"
proof -
  let ?db = "put_redemption i r db"
  have base: "counted None None db" "limits_ok db" "redemption_rows db" "bounded db"
    using inv by (simp_all add: promo_inv_def)
  have "counted (Some (rd_promotion r0)) (rd_coupon r0) ?db"
    using base(1) r by (auto simp: counted_def of_promotion_def of_coupon_def)
  moreover have "limits_ok ?db"
    unfolding limits_ok_def
  proof (intro allI impI)
    fix j p l c assume p: "map_of (promotions ?db) j = Some p" "pm_per_customer p = Some l"
    have "uses_by (of_customer j c) ?db \<le> uses_by (of_customer j c) db" using r by simp
    also have "\<dots> \<le> max l 0" using base(2) p by (simp add: limits_ok_def)
    finally show "uses_by (of_customer j c) ?db \<le> max l 0" .
  qed
  moreover have "bounded ?db" using base(4) by (simp add: bounded_def)
  moreover have "redemption_rows ?db" using put_rows[OF base(3) r(1)] .
  ultimately show ?thesis
    using limits_ok_cong[of ?db "return_capacity (rd_promotion r0) (rd_coupon r0) ?db"]
    by (simp add: promo_inv_def return_capacity_counted return_capacity_bounded return_capacity_limits
        redemption_rows_def)
qed

lemma release_one_inv: "promo_inv db \<Longrightarrow> promo_inv (snd (release_one reason now i db))"
  by (auto simp: release_one_def live_def same_use_def split: option.splits intro!: leave_live)

lemma release_each_inv: "promo_inv db \<Longrightarrow> promo_inv (snd (release_each reason now is db))"
proof (induction "is" arbitrary: db)
  case (Cons i "is")
  then have "promo_inv (snd (release_one reason now i db))" by (intro release_one_inv)
  from Cons.IH[OF this] show ?case by (simp add: case_prod_beta Let_def)
qed simp

lemma release_for_order_inv: "promo_inv db \<Longrightarrow> promo_inv (snd (release_for_order oid reason now db))"
  by (simp add: release_for_order_def release_each_inv)

lemma refund_one_inv: "promo_inv db \<Longrightarrow> promo_inv (refund_one paid refunded now i db)"
  by (auto simp: refund_one_def Let_def live_def same_use_def split: option.splits
      intro!: leave_live keep_live)

lemma apply_refund_inv: "promo_inv db \<Longrightarrow> promo_inv (apply_refund oid paid refunded now db)"
proof -
  have "promo_inv db \<Longrightarrow> promo_inv (fold (refund_one paid refunded now) is db)" for "is"
    by (induction "is" arbitrary: db) (auto intro: refund_one_inv)
  then show "promo_inv db \<Longrightarrow> ?thesis" by (simp add: apply_refund_def)
qed

lemma confirm_for_order_inv:
  assumes "promo_inv db"
  shows "promo_inv (confirm_for_order oid now db)"
proof -
  have u: "uses_by P (confirm_for_order oid now db) = uses_by P db"
    if "\<And>r s t. P (r\<lparr>rd_status := s, rd_confirmed_at := t\<rparr>) = P r" for P
    unfolding uses_by_def confirm_for_order_def
    by (simp add: table_simps, rule asum_cong) (auto simp: that live_def)
  have u3: "uses_by (of_promotion p) (confirm_for_order oid now db) = uses_by (of_promotion p) db"
    "uses_by (of_coupon c) (confirm_for_order oid now db) = uses_by (of_coupon c) db"
    "uses_by (of_customer p k) (confirm_for_order oid now db) = uses_by (of_customer p k) db" for p c k
    by (rule u, simp add: of_promotion_def of_coupon_def of_customer_def)+
  have same: "promotions (confirm_for_order oid now db) = promotions db"
    "coupons (confirm_for_order oid now db) = coupons db"
    "map fst (redemptions (confirm_for_order oid now db)) = map fst (redemptions db)"
    "next_redemption (confirm_for_order oid now db) = next_redemption db"
    by (auto simp: confirm_for_order_def)
  have "counted None None (confirm_for_order oid now db)"
    using assms by (simp add: promo_inv_def counted_def u3 same)
  moreover have "bounded (confirm_for_order oid now db)" "limits_ok (confirm_for_order oid now db)"
    using assms by (simp_all add: promo_inv_def bounded_def limits_ok_def u3 same)
  moreover have "redemption_rows (confirm_for_order oid now db)"
    using assms by (simp add: promo_inv_def redemption_rows_def same del: set_map)
  ultimately show ?thesis by (simp add: promo_inv_def)
qed

section \<open>The commands\<close>

datatype promotion_command =
    PC_reserve uid uid "applied_promotion list"
  | PC_confirm uid int
  | PC_release uid string int
  | PC_refund uid int int int

fun exec_promotion :: "promotion_command \<Rightarrow> promo_db \<Rightarrow> (unit \<times> promo_db) res" where
  "exec_promotion (PC_reserve oid customer as) db =
     andthen (reserve_promotions oid customer as db) (\<lambda>db'. Inr ((), db'))"
| "exec_promotion (PC_confirm oid now) db = Inr ((), confirm_for_order oid now db)"
| "exec_promotion (PC_release oid reason now) db = Inr ((), snd (release_for_order oid reason now db))"
| "exec_promotion (PC_refund oid paid refunded now) db = Inr ((), apply_refund oid paid refunded now db)"

interpretation capacity: tx_component exec_promotion promo_inv
proof (unfold_locales, goal_cases)
  case (1 db c r db')
  then show ?case
    by (cases c) (auto simp: res_iff confirm_for_order_inv release_for_order_inv apply_refund_inv
        intro: reserve_promotions_inv)
qed

section \<open>The refunded share\<close>

lemma refund_share_bounds:
  assumes "0 \<le> rd_discount r" "0 < paid" "0 \<le> refunded"
  shows "0 \<le> refund_share r paid refunded \<and> refund_share r paid refunded \<le> rd_discount r"
proof (cases "refunded \<ge> paid")
  case True
  then show ?thesis using assms by (simp add: refund_share_def)
next
  case False
  have nn: "0 \<le> rd_discount r * refunded" using assms by simp
  have "rd_discount r * refunded \<le> rd_discount r * paid" using False assms by (intro mult_left_mono) auto
  then have "rd_discount r * refunded div paid \<le> (rd_discount r * paid) div paid"
    using assms by (intro zdiv_mono1) auto
  then show ?thesis
    using False assms nn
    by (auto simp: refund_share_def signed_divide_int_def sgn_if pos_imp_zdiv_nonneg_iff)
qed

lemma refund_share_mono:
  assumes "0 \<le> rd_discount r" "0 < paid" "0 \<le> a" "a \<le> b"
  shows "refund_share r paid a \<le> refund_share r paid b"
proof (cases "b \<ge> paid")
  case True
  then show ?thesis using refund_share_bounds[OF assms(1-3)] by (simp add: refund_share_def)
next
  case False
  have "rd_discount r * a \<le> rd_discount r * b" using assms by (intro mult_left_mono) auto
  then have "rd_discount r * a div paid \<le> rd_discount r * b div paid" using assms by (intro zdiv_mono1) auto
  then show ?thesis
    using False assms by (auto simp: refund_share_def signed_divide_int_def sgn_if)
qed

end
