(* ===== verification/Door_Pricing.thy ===== *)
theory Door_Pricing
  imports Prelude
begin

text \<open>
  The price of custom doors, \<open>custom-door-orders/door-pricing.ts\<close>, and the manufacturing details of
  an item, \<open>door-manufacturing.ts\<close>. Money and measures are exact: \<open>bigint\<close> is \<open>int\<close>, a measure is a
  fraction of two of them. Messages in Persian are replaced by short names.
\<close>

section \<open>Money\<close>

definition is_digit :: "char \<Rightarrow> bool" where
  "is_digit c = (let n = of_char c :: nat in 48 \<le> n \<and> n \<le> 57)"

definition digits_value :: "string \<Rightarrow> int" where
  "digits_value s = foldl (\<lambda>n c. 10 * n + (of_char c - 48)) 0 s"

text \<open>\<open>(0|[1-9][0-9]{0,k})\<close>\<close>

definition decimal :: "nat \<Rightarrow> string \<Rightarrow> bool" where
  "decimal k s \<longleftrightarrow> s = ''0'' \<or>
     (s \<noteq> [] \<and> list_all is_digit s \<and> hd s \<noteq> CHR ''0'' \<and> length s \<le> k + 1)"

definition max_door_money :: int where
  "max_door_money = 9223372036854775807"

definition door_money :: "string \<Rightarrow> int res" where
  "door_money s = throw_if (\<not> decimal 18 s \<or> digits_value s > max_door_money)
     (BadRequest ''amount'') (Inr (digits_value s))"

definition checked_money :: "int \<Rightarrow> int res" where
  "checked_money v = throw_if (v < 0 \<or> v > max_door_money) (Unprocessable ''amount out of range'') (Inr v)"

definition ceil_div :: "int \<Rightarrow> int \<Rightarrow> int res" where
  "ceil_div n d = throw_if (n < 0 \<or> d \<le> 0) (BadRequest ''rule'') (Inr ((n + d - 1) div d))"

section \<open>Items, models and materials\<close>

record door_hole =
  ho_reference :: string
  ho_distance :: js_number

text \<open>\<open>holes\<close> is \<open>None\<close> when it is no array; a hole is \<open>None\<close> when it is null.\<close>

record door_manufacturing =
  mf_profile_color :: string
  mf_handle_side :: string
  mf_hinge_side :: string
  mf_drilling :: string
  mf_holes :: "door_hole option list option"

text \<open>\<open>di_manufacturing\<close> is \<open>None\<close> when undefined and \<open>Some None\<close> when null.\<close>

record door_item =
  di_model :: string
  di_width :: js_number
  di_height :: js_number
  di_quantity :: js_number
  di_selections :: "(string \<times> string) list"
  di_manufacturing :: "door_manufacturing option option"

datatype door_basis = AREA | PERIMETER | WIDTH | HEIGHT | FIXED

datatype door_unit = M2 | M | EACH

record door_component =
  dc_slot :: string
  dc_basis :: door_basis
  dc_multiplier :: int
  dc_divisor :: int
  dc_width_deduction :: int
  dc_height_deduction :: int
  dc_waste_bps :: int
  dc_minimum :: string

record door_technical =
  dt_min_width :: int
  dt_max_width :: int
  dt_min_height :: int
  dt_max_height :: int

record door_slot =
  sl_key :: string
  sl_title :: string
  sl_materials :: "string list"
  sl_required :: bool

record door_config =
  cf_technical :: "door_technical option"
  cf_manual_approval :: bool
  cf_slots :: "door_slot list"
  cf_incompatible :: "(string list \<times> string) list"
  cf_components :: "door_component list"
  cf_labor :: "(string \<times> string) option"
  cf_additional :: "(string \<times> string) list"
  cf_tax_bps :: int
  cf_discount :: string
  cf_minimum_total :: string

record door_model =
  dm_id :: string
  dm_title :: string
  dm_active :: bool
  dm_version :: nat
  dm_config :: door_config

record door_material =
  ma_id :: string
  ma_title :: string
  ma_active :: bool
  ma_version :: nat
  ma_variant :: "uid option"
  ma_unit :: door_unit
  ma_rate :: "string option"
  ma_valid_until :: "int option"
  ma_processing_fee :: string
  ma_stock_unit :: "string option"

section \<open>Manufacturing details\<close>

text \<open>The place of a hole from the top of the door; \<open>positions\<close> is the set of places seen so far. A
  height that is no integer is refused later by the price in any case.\<close>

definition hole_top :: "int \<Rightarrow> door_hole \<Rightarrow> int" where
  "hole_top height h =
     (if ho_reference h = ''TOP'' then the_int (ho_distance h) else height - the_int (ho_distance h))"

definition hole_ok :: "js_number \<Rightarrow> door_hole \<Rightarrow> bool" where
  "hole_ok height h \<longleftrightarrow> is_safe_integer (ho_distance h) \<and> is_integer height
     \<and> 0 < the_int (ho_distance h) \<and> the_int (ho_distance h) \<le> the_int height
     \<and> ho_reference h \<in> {''TOP'', ''BOTTOM''}"

fun check_holes :: "js_number \<Rightarrow> int list \<Rightarrow> door_hole option list \<Rightarrow> unit res" where
  "check_holes height positions [] = Inr ()"
| "check_holes height positions (None # hs) = Inl (BadRequest ''hole distance'')"
| "check_holes height positions (Some h # hs) =
     throw_if (\<not> hole_ok height h) (BadRequest ''hole distance'')
     (throw_if (hole_top (the_int height) h \<in> set positions) (BadRequest ''same hole'')
     (check_holes height (hole_top (the_int height) h # positions) hs))"

definition sides :: "string list" where
  "sides = [''RIGHT'', ''LEFT'', ''TOP'', ''BOTTOM'']"

definition validate_door_manufacturing :: "door_item \<Rightarrow> unit res" where
  "validate_door_manufacturing item =
     (case di_manufacturing item of
       None \<Rightarrow> Inr ()
     | Some None \<Rightarrow> Inl (BadRequest ''manufacturing'')
     | Some (Some v) \<Rightarrow>
         throw_if (mf_profile_color v \<notin> {''BLACK'', ''WHITE'', ''GOLD'', ''BRONZE''}
             \<or> mf_handle_side v \<notin> set sides \<or> mf_hinge_side v \<notin> set sides
             \<or> mf_drilling v \<notin> {''STANDARD'', ''CUSTOM''} \<or> mf_holes v = None)
           (BadRequest ''manufacturing'')
         (if mf_drilling v = ''STANDARD''
          then throw_if (length (the (mf_holes v)) \<noteq> 0) (BadRequest ''standard holes'') (Inr ())
          else throw_if (length (the (mf_holes v)) \<noteq> 4) (BadRequest ''four holes'')
            (check_holes (di_height item) [] (the (mf_holes v)))))"

section \<open>Measures\<close>

text \<open>The minimum quantity \<open>(0|[1-9][0-9]{0,12})(\.[0-9]{1,6})?\<close> as a fraction.\<close>

definition as_fraction :: "string \<Rightarrow> string \<Rightarrow> int \<times> int" where
  "as_fraction whole fraction =
     (digits_value whole * 10 ^ length fraction + digits_value fraction, 10 ^ length fraction)"

definition min_quantity :: "string \<Rightarrow> (int \<times> int) option" where
  "min_quantity s =
     (let whole = takeWhile (\<lambda>c. c \<noteq> CHR ''.'') s; rest = dropWhile (\<lambda>c. c \<noteq> CHR ''.'') s in
      if decimal 12 whole \<and> (rest = [] \<or>
           (2 \<le> length rest \<and> length rest \<le> 7 \<and> list_all is_digit (tl rest)))
      then Some (as_fraction whole (tl rest))
      else None)"

fun expected_unit :: "door_basis \<Rightarrow> door_unit" where
  "expected_unit AREA = M2"
| "expected_unit FIXED = EACH"
| "expected_unit _ = M"

fun basis_measure :: "door_basis \<Rightarrow> int \<Rightarrow> int \<Rightarrow> int" where
  "basis_measure AREA w h = w * h"
| "basis_measure PERIMETER w h = 2 * (w + h)"
| "basis_measure WIDTH w h = w"
| "basis_measure HEIGHT w h = h"
| "basis_measure FIXED w h = 1"

fun basis_scale :: "door_basis \<Rightarrow> int" where
  "basis_scale AREA = 1000000"
| "basis_scale FIXED = 1"
| "basis_scale _ = 1000"

text \<open>The quantity of the rule on a cut of \<open>w\<close> by \<open>h\<close>, and the larger one of two quantities.\<close>

definition rule_quantity :: "door_component \<Rightarrow> int \<Rightarrow> int \<Rightarrow> int \<times> int" where
  "rule_quantity rule w h =
     (basis_measure (dc_basis rule) w h * (dc_multiplier rule * (10000 + dc_waste_bps rule)),
      basis_scale (dc_basis rule) * (dc_divisor rule * 10000))"

definition at_least :: "int \<times> int \<Rightarrow> int \<times> int \<Rightarrow> int \<times> int" where
  "at_least m q = (if fst q * snd m < fst m * snd q then m else q)"

definition measured :: "int \<Rightarrow> int \<Rightarrow> door_component \<Rightarrow> door_unit \<Rightarrow> (int \<times> int) res" where
  "measured width height rule unit =
     (let w = width - dc_width_deduction rule; h = height - dc_height_deduction rule in
      throw_if (w \<le> 0 \<or> h \<le> 0) (Unprocessable ''cut dimensions'')
      (throw_if (unit \<noteq> expected_unit (dc_basis rule)) (Unprocessable ''tariff unit'')
      (need (min_quantity (dc_minimum rule)) (BadRequest ''minimum quantity'')
        (\<lambda>m. Inr (at_least m (rule_quantity rule w h))))))"

section \<open>The price of a line\<close>

datatype door_reason =
    R_technical | R_dimensions | R_manual | R_formula | R_tariff string | R_rule string

record door_part =
  pt_title :: string
  pt_amount :: "int option"
  pt_numerator :: int
  pt_denominator :: int
  pt_material :: string
  pt_variant :: "uid option"
  pt_unit :: door_unit
  pt_stock_unit :: "string option"

record door_line =
  ln_item :: nat
  ln_title :: string
  ln_manufacturing :: "door_manufacturing option"
  ln_quantity :: int
  ln_width :: int
  ln_height :: int
  ln_unit_total :: "int option"
  ln_total :: "int option"
  ln_parts :: "door_part list"
  ln_model :: door_model
  ln_materials :: "door_material list"

text \<open>\<open>new Map(...)\<close> keeps the last entry of a key; an empty id counts as none.\<close>

definition material_of :: "door_material list \<Rightarrow> string \<Rightarrow> door_material option" where
  "material_of materials = map_of (rev (map (\<lambda>m. (ma_id m, m)) materials))"

definition selected :: "door_item \<Rightarrow> string \<Rightarrow> string option" where
  "selected item slot =
     (case map_of (rev (di_selections item)) slot of None \<Rightarrow> None
      | Some i \<Rightarrow> if i = [] then None else Some i)"

fun choose_materials :: "door_material list \<Rightarrow> door_item \<Rightarrow> door_slot list \<Rightarrow> door_material list res" where
  "choose_materials materials item [] = Inr []"
| "choose_materials materials item (slot # slots) =
     (case selected item (sl_key slot) of
       None \<Rightarrow> if sl_required slot then Inl (Unprocessable (sl_title slot))
               else choose_materials materials item slots
     | Some i \<Rightarrow>
         throw_if (i \<notin> set (sl_materials slot)) (Unprocessable (sl_title slot))
         (need (material_of materials i) (Unprocessable (sl_title slot)) (\<lambda>material.
          throw_if (\<not> ma_active material) (Unprocessable (sl_title slot))
          (andthen (choose_materials materials item slots) (\<lambda>chosen. Inr (material # chosen))))))"

definition clashing :: "door_material list \<Rightarrow> (string list \<times> string) list \<Rightarrow> (string list \<times> string) option" where
  "clashing chosen rules =
     find (\<lambda>rule. list_all (\<lambda>i. i \<in> ma_id ` set chosen) (fst rule)) rules"

definition expired_tariff :: "int \<Rightarrow> door_material \<Rightarrow> bool" where
  "expired_tariff now m = (case ma_valid_until m of None \<Rightarrow> False | Some t \<Rightarrow> t \<le> now)"

definition part_amount :: "int \<Rightarrow> door_material \<Rightarrow> int \<times> int \<Rightarrow> int option res" where
  "part_amount now m q =
     (if ma_rate m = None \<or> expired_tariff now m then Inr None
      else andthen (door_money (the (ma_rate m))) (\<lambda>rate.
        andthen (ceil_div (fst q * rate) (snd q)) (\<lambda>cost.
        andthen (door_money (ma_processing_fee m)) (\<lambda>fee.
        andthen (checked_money (cost + fee)) (\<lambda>amount. Inr (Some amount))))))"

definition part_of :: "int \<Rightarrow> door_material \<Rightarrow> int \<times> int \<Rightarrow> int option \<Rightarrow> door_part" where
  "part_of quantity m q amount =
     \<lparr>pt_title = ma_title m, pt_amount = amount, pt_numerator = fst q * quantity,
      pt_denominator = snd q, pt_material = ma_id m, pt_variant = ma_variant m,
      pt_unit = ma_unit m, pt_stock_unit = ma_stock_unit m\<rparr>"

fun price_parts ::
  "door_material list \<Rightarrow> int \<Rightarrow> door_item \<Rightarrow> int \<Rightarrow> int \<Rightarrow> int \<Rightarrow> door_component list \<Rightarrow> door_part list res"
where
  "price_parts materials now item w h q [] = Inr []"
| "price_parts materials now item w h q (c # cs) =
     (case selected item (dc_slot c) of
       None \<Rightarrow> price_parts materials now item w h q cs
     | Some i \<Rightarrow>
         need (material_of materials i) (Crash ''TypeError'') (\<lambda>m.
         andthen (measured w h c (ma_unit m)) (\<lambda>amount_of.
         andthen (part_amount now m amount_of) (\<lambda>amount.
         andthen (price_parts materials now item w h q cs) (\<lambda>parts.
         Inr (part_of q m amount_of amount # parts))))))"

definition priced :: "door_part list \<Rightarrow> int" where
  "priced parts = (\<Sum>p\<leftarrow>parts. case pt_amount p of None \<Rightarrow> 0 | Some a \<Rightarrow> a)"

definition labor_cost :: "int \<Rightarrow> int \<Rightarrow> (string \<times> string) option \<Rightarrow> int res" where
  "labor_cost w h labor =
     (case labor of None \<Rightarrow> Inr 0
     | Some (fixed, per_square_meter) \<Rightarrow>
         andthen (door_money fixed) (\<lambda>base.
         andthen (door_money per_square_meter) (\<lambda>rate.
         andthen (ceil_div (w * h * rate) 1000000) (\<lambda>cost. Inr (base + cost)))))"

fun additional_cost :: "(string \<times> string) list \<Rightarrow> int res" where
  "additional_cost [] = Inr 0"
| "additional_cost (x # xs) =
     andthen (door_money (snd x)) (\<lambda>a. andthen (additional_cost xs) (\<lambda>b. Inr (a + b)))"

text \<open>Labour, extras, tax, discount and the minimum on top of the parts.\<close>

definition unit_price :: "door_config \<Rightarrow> int \<Rightarrow> int \<Rightarrow> int \<Rightarrow> int res" where
  "unit_price cfg w h parts_total =
     andthen (labor_cost w h (cf_labor cfg)) (\<lambda>labor.
     andthen (additional_cost (cf_additional cfg)) (\<lambda>extra.
     let net = parts_total + labor + extra in
     andthen (ceil_div (net * cf_tax_bps cfg) 10000) (\<lambda>tax.
     andthen (door_money (cf_discount cfg)) (\<lambda>discount.
     throw_if (discount > net + tax) (Unprocessable ''discount'')
     (andthen (door_money (cf_minimum_total cfg)) (\<lambda>minimum.
     checked_money (max (net + tax - discount) minimum)))))))"

definition dimension_ok :: "js_number \<Rightarrow> bool" where
  "dimension_ok v \<longleftrightarrow> is_safe_integer v \<and> 0 < the_int v \<and> the_int v \<le> 2147483647"

definition outside :: "door_technical \<Rightarrow> int \<Rightarrow> int \<Rightarrow> bool" where
  "outside t w h \<longleftrightarrow> w < dt_min_width t \<or> w > dt_max_width t \<or> h < dt_min_height t \<or> h > dt_max_height t"

definition model_reasons :: "door_config \<Rightarrow> int \<Rightarrow> int \<Rightarrow> door_reason list" where
  "model_reasons cfg w h =
     (case cf_technical cfg of None \<Rightarrow> [R_technical]
      | Some t \<Rightarrow> if outside t w h then [R_dimensions] else [])
     @ (if cf_manual_approval cfg then [R_manual] else [])"

definition formula_missing :: "door_config \<Rightarrow> bool" where
  "formula_missing cfg \<longleftrightarrow> cf_components cfg = [] \<or> cf_labor cfg = None"

definition unpriced :: "door_part list \<Rightarrow> door_reason list" where
  "unpriced parts = map (\<lambda>p. R_tariff (pt_title p)) (filter (\<lambda>p. pt_amount p = None) parts)"

definition without_rule :: "door_material list \<Rightarrow> door_part list \<Rightarrow> door_reason list" where
  "without_rule chosen parts =
     map (\<lambda>m. R_rule (ma_title m)) (filter (\<lambda>m. ma_id m \<notin> pt_material ` set parts) chosen)"

definition pricing_reasons :: "door_config \<Rightarrow> door_material list \<Rightarrow> door_part list \<Rightarrow> door_reason list" where
  "pricing_reasons cfg chosen parts =
     (if formula_missing cfg then [R_formula] else []) @ unpriced parts @ without_rule chosen parts"

definition find_model :: "door_model list \<Rightarrow> string \<Rightarrow> door_model option" where
  "find_model models i = find (\<lambda>m. dm_id m = i \<and> dm_active m) models"

definition selections_ok :: "door_config \<Rightarrow> door_item \<Rightarrow> bool" where
  "selections_ok cfg item \<longleftrightarrow> distinct (map fst (di_selections item))
     \<and> list_all (\<lambda>s. fst s \<in> sl_key ` set (cf_slots cfg)) (di_selections item)"

text \<open>One line of the quote with the price of one door; the line is complete when no reason stands
  against its price.\<close>

definition build_line ::
  "nat \<Rightarrow> door_item \<Rightarrow> door_model \<Rightarrow> door_material list \<Rightarrow> door_part list \<Rightarrow> int \<Rightarrow> door_line"
where
  "build_line index item model chosen parts unit =
     (let complete = pricing_reasons (dm_config model) chosen parts = [];
          q = the_int (di_quantity item) in
      \<lparr>ln_item = index, ln_title = dm_title model,
       ln_manufacturing = (case di_manufacturing item of None \<Rightarrow> None | Some m \<Rightarrow> m),
       ln_quantity = q, ln_width = the_int (di_width item), ln_height = the_int (di_height item),
       ln_unit_total = (if complete then Some unit else None),
       ln_total = (if complete then Some (unit * q) else None),
       ln_parts = parts, ln_model = model, ln_materials = chosen\<rparr>)"

definition price_line ::
  "door_model list \<Rightarrow> door_material list \<Rightarrow> int \<Rightarrow> nat \<Rightarrow> door_item \<Rightarrow> (door_reason list \<times> door_line) res"
where
  "price_line models materials now index item =
     andthen (validate_door_manufacturing item) (\<lambda>_.
     throw_if (\<not> (dimension_ok (di_width item) \<and> dimension_ok (di_height item) \<and> dimension_ok (di_quantity item)))
       (BadRequest ''dimensions'')
     (let w = the_int (di_width item); h = the_int (di_height item); q = the_int (di_quantity item) in
     throw_if (q > 1000) (BadRequest ''quantity'')
     (need (find_model models (di_model item)) (Unprocessable ''model'') (\<lambda>model.
     let cfg = dm_config model in
     throw_if (\<not> selections_ok cfg item) (Unprocessable ''selections'')
     (andthen (choose_materials materials item (cf_slots cfg)) (\<lambda>chosen.
     throw_if (clashing chosen (cf_incompatible cfg) \<noteq> None)
       (Unprocessable (snd (the (clashing chosen (cf_incompatible cfg)))))
     (andthen (price_parts materials now item w h q (cf_components cfg)) (\<lambda>parts.
     andthen (unit_price cfg w h (priced parts)) (\<lambda>unit.
     andthen (checked_money (unit * q)) (\<lambda>_.
     Inr (model_reasons cfg w h @ pricing_reasons cfg chosen parts,
       build_line index item model chosen parts unit)))))))))))"

section \<open>The quote\<close>

record door_quote =
  dq_lines :: "door_line list"
  dq_reasons :: "(nat \<times> door_reason) list"
  dq_calculated :: "int option"
  dq_total :: "int option"
  dq_deposit :: "int option"
  dq_deposit_policy :: "int option"
  dq_adjustments :: "(string \<times> int) list"
  dq_approval_reason :: "string option"

record quote_run =
  qr_lines :: "door_line list"
  qr_reasons :: "(nat \<times> door_reason) list"
  qr_calculated :: int
  qr_complete :: bool

fun price_items ::
  "door_model list \<Rightarrow> door_material list \<Rightarrow> int \<Rightarrow> nat \<Rightarrow> door_item list \<Rightarrow> quote_run \<Rightarrow> quote_run res"
where
  "price_items models materials now index [] run = Inr run"
| "price_items models materials now index (item # items) run =
     andthen (price_line models materials now index item) (\<lambda>(reasons, line).
     let run' = run\<lparr>qr_lines := qr_lines run @ [line],
                    qr_reasons := qr_reasons run @ map (Pair (index + 1)) reasons\<rparr> in
     case ln_total line of
       None \<Rightarrow> price_items models materials now (index + 1) items (run'\<lparr>qr_complete := False\<rparr>)
     | Some amount \<Rightarrow> andthen (checked_money (qr_calculated run + amount)) (\<lambda>calculated.
         price_items models materials now (index + 1) items (run'\<lparr>qr_calculated := calculated\<rparr>)))"

definition quote_of :: "quote_run \<Rightarrow> door_quote" where
  "quote_of run =
     (let calculated = (if qr_complete run then Some (qr_calculated run) else None);
          approved = qr_complete run \<and> qr_reasons run = [] in
      \<lparr>dq_lines = qr_lines run, dq_reasons = qr_reasons run, dq_calculated = calculated,
       dq_total = (if approved then calculated else None),
       dq_deposit = (if approved then calculated else None),
       dq_deposit_policy = calculated, dq_adjustments = [], dq_approval_reason = None\<rparr>)"

definition price_doors ::
  "door_item list \<Rightarrow> door_model list \<Rightarrow> door_material list \<Rightarrow> int \<Rightarrow> door_quote res"
where
  "price_doors items models materials now =
     throw_if (items = [] \<or> length items > 50) (BadRequest ''items'')
     (andthen (price_items models materials now 0 items
         \<lparr>qr_lines = [], qr_reasons = [], qr_calculated = 0, qr_complete = True\<rparr>)
       (\<lambda>run. Inr (quote_of run)))"

end
