(* ===== verification/Door_Price_Facts.thy ===== *)
theory Door_Price_Facts
  imports Door_Pricing
begin

text \<open>
  What the door prices promise: exact rounding, totals that add up and stay in the column range, a
  final price exactly when nothing speaks against it, prices that grow with the door, and look-ups
  that never fail.
\<close>

section \<open>Rounding\<close>

lemma ceil_div_Inr [res_iff]: "ceil_div n d = Inr q \<longleftrightarrow> 0 \<le> n \<and> 0 < d \<and> q = (n + d - 1) div d"
  by (auto simp: ceil_div_def res_iff)

lemma ceil_least:
  assumes "0 < (d :: int)"
  shows "(n + d - 1) div d \<le> q \<longleftrightarrow> n \<le> q * d"
proof -
  define c where "c = (n + d - 1) div d"
  have eq: "n + d - 1 = c * d + (n + d - 1) mod d" unfolding c_def by simp
  have r: "0 \<le> (n + d - 1) mod d" "(n + d - 1) mod d < d" using assms by simp_all
  have up: "c * d \<le> q * d" if "c \<le> q" using mult_right_mono[OF that] assms by simp
  have down: "(q + 1) * d \<le> c * d" if "\<not> c \<le> q" using mult_right_mono[of "q + 1" c d] that assms by simp
  have "c \<le> q \<longleftrightarrow> n \<le> q * d"
  proof
    assume "c \<le> q" with up eq r show "n \<le> q * d" by linarith
  next
    assume n: "n \<le> q * d"
    show "c \<le> q"
    proof (rule ccontr)
      assume "\<not> c \<le> q"
      with down have "q * d + d \<le> c * d" by (simp add: distrib_right)
      with n eq r show False by linarith
    qed
  qed
  then show ?thesis by (simp add: c_def)
qed

lemma ceil_mono:
  assumes "0 < (d :: int)" "0 < d'" "n * d' \<le> n' * d"
  shows "(n + d - 1) div d \<le> (n' + d' - 1) div d'"
proof -
  define c where "c = (n' + d' - 1) div d'"
  have "n' \<le> c * d'" using ceil_least[OF assms(2), of n' c] by (simp add: c_def)
  then have "n' * d \<le> c * d' * d" using assms(1) by simp
  with assms(3) have "n * d' \<le> (c * d) * d'" by (simp add: ac_simps)
  then have "n \<le> c * d" using assms(2) by simp
  then show ?thesis using ceil_least[OF assms(1), of n c] by (simp add: c_def)
qed

lemma ceil_nonneg: "0 \<le> n \<Longrightarrow> 0 < d \<Longrightarrow> 0 \<le> (n + d - 1) div (d :: int)"
  by (rule pos_imp_zdiv_nonneg_iff[THEN iffD2]) simp_all

section \<open>Money\<close>

lemma digits_nonneg:
  assumes "list_all is_digit s" and "0 \<le> n"
  shows "0 \<le> foldl (\<lambda>n c. 10 * n + (of_char c - 48)) (n :: int) s"
  using assms
proof (induction s arbitrary: n)
  case (Cons c s)
  have "48 \<le> (of_char c :: nat)" using Cons.prems(1) by (simp add: is_digit_def Let_def)
  then have "(48 :: int) \<le> of_char c"
    by (metis of_nat_le_iff of_nat_numeral of_nat_of_char)
  then have "0 \<le> 10 * n + (of_char c - 48 :: int)" using Cons.prems(2) by simp
  then show ?case using Cons.IH Cons.prems(1) by simp
qed simp

lemma zero_digit: "is_digit CHR ''0''"
  by code_simp

lemma decimal_digits: "decimal k s \<Longrightarrow> list_all is_digit s"
  unfolding decimal_def
  by (elim disjE conjE) (simp_all only: list.pred_inject zero_digit simp_thms)

lemma digits_value_nonneg: "list_all is_digit s \<Longrightarrow> 0 \<le> digits_value s"
  unfolding digits_value_def by (rule digits_nonneg) simp_all

lemma door_money_nonneg: "door_money s = Inr v \<Longrightarrow> 0 \<le> v"
  by (auto simp: door_money_def res_iff intro: digits_value_nonneg decimal_digits)

lemma checked_money_Inr [res_iff]: "checked_money v = Inr w \<longleftrightarrow> w = v \<and> 0 \<le> v \<and> v \<le> max_door_money"
  by (auto simp: checked_money_def res_iff)

lemma additional_nonneg: "additional_cost xs = Inr v \<Longrightarrow> 0 \<le> v"
  by (induction xs arbitrary: v) (auto simp: res_iff dest: door_money_nonneg)

section \<open>Measures\<close>

text \<open>A quantity is a fraction that is not negative; \<open>leq\<close> compares two of them.\<close>

definition quantity :: "int \<times> int \<Rightarrow> bool" where
  "quantity q \<longleftrightarrow> 0 \<le> fst q \<and> 0 < snd q"

definition leq :: "int \<times> int \<Rightarrow> int \<times> int \<Rightarrow> bool" where
  "leq p q \<longleftrightarrow> fst p * snd q \<le> fst q * snd p"

lemma as_fraction_quantity:
  assumes "list_all is_digit whole" "list_all is_digit fraction"
  shows "quantity (as_fraction whole fraction)"
  using digits_value_nonneg[OF assms(1)] digits_value_nonneg[OF assms(2)]
  by (simp add: quantity_def as_fraction_def)

lemma min_quantity_pos:
  assumes "min_quantity s = Some q"
  shows "quantity q"
proof -
  define rest where "rest = dropWhile (\<lambda>c. c \<noteq> CHR ''.'') s"
  define whole where "whole = takeWhile (\<lambda>c. c \<noteq> CHR ''.'') s"
  have q: "decimal 12 whole" "rest = [] \<or> list_all is_digit (tl rest)" "q = as_fraction whole (tl rest)"
    using assms by (simp_all add: min_quantity_def Let_def split: if_splits flip: rest_def whole_def) blast
  have "list_all is_digit (tl rest)" using q(2) by (cases rest) simp_all
  then show ?thesis unfolding q(3) by (rule as_fraction_quantity[OF decimal_digits[OF q(1)]])
qed

definition rule_ok :: "door_component \<Rightarrow> bool" where
  "rule_ok c \<longleftrightarrow> 0 < dc_multiplier c \<and> 0 < dc_divisor c \<and> 0 \<le> dc_waste_bps c"

lemma basis_scale_pos: "0 < basis_scale b"
  by (cases b) simp_all

lemma basis_mono:
  "0 < w \<Longrightarrow> 0 < h \<Longrightarrow> w \<le> w' \<Longrightarrow> h \<le> h' \<Longrightarrow> basis_measure b w h \<le> basis_measure b w' h'"
  by (cases b) (auto intro: mult_mono)

lemma basis_nonneg: "0 < w \<Longrightarrow> 0 < h \<Longrightarrow> 0 \<le> basis_measure b w h"
  by (cases b) simp_all

lemma rule_quantity_ok: "rule_ok c \<Longrightarrow> 0 < w \<Longrightarrow> 0 < h \<Longrightarrow> quantity (rule_quantity c w h)"
  using basis_nonneg[of w h "dc_basis c"] basis_scale_pos[of "dc_basis c"]
  by (simp add: quantity_def rule_quantity_def rule_ok_def)

lemma rule_quantity_mono:
  assumes "rule_ok c" "0 < w" "0 < h" "w \<le> w'" "h \<le> h'"
  shows "leq (rule_quantity c w h) (rule_quantity c w' h')"
  using basis_mono[OF assms(2-5), of "dc_basis c"] basis_scale_pos[of "dc_basis c"] assms(1)
  by (simp add: leq_def rule_quantity_def rule_ok_def mult_right_mono)

lemma at_least_ok: "quantity m \<Longrightarrow> quantity q \<Longrightarrow> quantity (at_least m q)"
  by (simp add: at_least_def)

lemma at_least_upper: "leq m (at_least m q) \<and> leq q (at_least m q)"
  by (auto simp: at_least_def leq_def)

lemma at_least_mono:
  assumes "quantity m" "quantity p" "quantity q" "leq p q"
  shows "leq (at_least m p) (at_least m q)"
proof -
  have "leq p m" if "fst q * snd m < fst m * snd q"
  proof -
    have "fst p * snd q * snd m \<le> fst q * snd p * snd m"
      using assms(1,4) by (simp add: leq_def quantity_def)
    also have "\<dots> = fst q * snd m * snd p" by simp
    also have "\<dots> \<le> fst m * snd q * snd p"
      using that assms(2) by (intro mult_right_mono) (simp_all add: quantity_def)
    finally have "fst p * snd m * snd q \<le> fst m * snd p * snd q" by (simp add: ac_simps)
    then show ?thesis using assms(3) by (simp add: leq_def quantity_def)
  qed
  then show ?thesis using assms(4) by (auto simp: at_least_def leq_def)
qed

lemma measured_Inr:
  "measured w h c u = Inr q \<longleftrightarrow>
     0 < w - dc_width_deduction c \<and> 0 < h - dc_height_deduction c \<and> u = expected_unit (dc_basis c)
     \<and> (\<exists>m. min_quantity (dc_minimum c) = Some m
          \<and> q = at_least m (rule_quantity c (w - dc_width_deduction c) (h - dc_height_deduction c)))"
  by (auto simp: measured_def Let_def res_iff)

lemma measured_pos: "measured w h c u = Inr q \<Longrightarrow> rule_ok c \<Longrightarrow> quantity q"
  unfolding measured_Inr
  by (elim conjE exE) (simp add: at_least_ok rule_quantity_ok min_quantity_pos)

lemma measured_mono:
  assumes "measured w h c u = Inr q" "measured w' h' c u = Inr q'"
    and "rule_ok c" "w \<le> w'" "h \<le> h'"
  shows "leq q q'"
proof -
  obtain m where m: "min_quantity (dc_minimum c) = Some m"
    "0 < w - dc_width_deduction c" "0 < h - dc_height_deduction c"
    "q = at_least m (rule_quantity c (w - dc_width_deduction c) (h - dc_height_deduction c))"
    "q' = at_least m (rule_quantity c (w' - dc_width_deduction c) (h' - dc_height_deduction c))"
    using assms(1,2) by (auto simp: measured_Inr)
  show ?thesis
    unfolding m(4,5) using assms(3-5) m(2,3)
    by (intro at_least_mono rule_quantity_ok rule_quantity_mono min_quantity_pos[OF m(1)]) simp_all
qed

section \<open>Parts\<close>

lemma part_amount_Inr:
  "part_amount now m q = Inr a \<longleftrightarrow>
     (if ma_rate m = None \<or> expired_tariff now m then a = None
      else \<exists>rate fee. door_money (the (ma_rate m)) = Inr rate \<and> 0 \<le> fst q * rate \<and> 0 < snd q
        \<and> door_money (ma_processing_fee m) = Inr fee
        \<and> 0 \<le> (fst q * rate + snd q - 1) div snd q + fee
        \<and> (fst q * rate + snd q - 1) div snd q + fee \<le> max_door_money
        \<and> a = Some ((fst q * rate + snd q - 1) div snd q + fee))"
  by (auto simp: part_amount_def res_iff)

lemma part_amount_mono:
  assumes a: "part_amount now m q = Inr a" "part_amount now m q' = Inr a'"
    and q: "leq q q'"
  shows "(case a of None \<Rightarrow> 0 | Some x \<Rightarrow> x) \<le> (case a' of None \<Rightarrow> 0 | Some x \<Rightarrow> x)"
proof (cases "ma_rate m = None \<or> expired_tariff now m")
  case False
  obtain rate fee where r: "door_money (the (ma_rate m)) = Inr rate" "0 < snd q" "0 < snd q'"
    "a = Some ((fst q * rate + snd q - 1) div snd q + fee)"
    "a' = Some ((fst q' * rate + snd q' - 1) div snd q' + fee)"
    using a False by (auto simp: part_amount_Inr)
  have "fst q * snd q' * rate \<le> fst q' * snd q * rate"
    using q door_money_nonneg[OF r(1)] by (intro mult_right_mono) (simp_all add: leq_def)
  then have "(fst q * rate) * snd q' \<le> (fst q' * rate) * snd q" by (simp add: ac_simps)
  from ceil_mono[OF r(2,3) this] show ?thesis by (simp add: r(4,5))
qed (use a in \<open>simp add: part_amount_Inr\<close>)

lemma part_amount_nonneg: "part_amount now m q = Inr (Some a) \<Longrightarrow> 0 \<le> a"
  by (auto simp: part_amount_Inr split: if_splits)

lemma price_parts_nonneg:
  "price_parts materials now item w h n cs = Inr ps \<Longrightarrow> 0 \<le> priced ps"
proof (induction cs arbitrary: ps)
  case (Cons c cs)
  show ?case
  proof (cases "selected item (dc_slot c)")
    case None
    then show ?thesis using Cons by simp
  next
    case (Some i)
    obtain m q a rest where p: "part_amount now m q = Inr a" "ps = part_of n m q a # rest"
      "price_parts materials now item w h n cs = Inr rest"
      using Cons.prems Some by (auto simp: res_iff)
    show ?thesis
      using Cons.IH[OF p(3)] p(1)
      by (cases a) (auto simp: p(2) priced_def part_of_def dest: part_amount_nonneg)
  qed
qed (simp add: priced_def)

lemma price_parts_mono:
  assumes "price_parts materials now item w h n cs = Inr ps"
    and "price_parts materials now item' w' h' n' cs = Inr ps'"
    and "selected item = selected item'" "\<forall>c \<in> set cs. rule_ok c" "w \<le> w'" "h \<le> h'"
  shows "priced ps \<le> priced ps'"
  using assms(1,2,4)
proof (induction cs arbitrary: ps ps')
  case (Cons c cs)
  show ?case
  proof (cases "selected item (dc_slot c)")
    case None
    then show ?thesis using Cons assms(3) by simp
  next
    case (Some i)
    obtain m q a rest where p: "material_of materials i = Some m" "measured w h c (ma_unit m) = Inr q"
      "part_amount now m q = Inr a" "ps = part_of n m q a # rest"
      "price_parts materials now item w h n cs = Inr rest"
      using Cons.prems(1) Some by (auto simp: res_iff)
    obtain q' a' rest' where p': "measured w' h' c (ma_unit m) = Inr q'"
      "part_amount now m q' = Inr a'" "ps' = part_of n' m q' a' # rest'"
      "price_parts materials now item' w' h' n' cs = Inr rest'"
      using Cons.prems(2) Some p(1) assms(3) by (auto simp: need_Inr andthen_Inr)
    have "leq q q'"
      using measured_mono[OF p(2) p'(1)] Cons.prems(3) assms(5,6) by simp
    from part_amount_mono[OF p(3) p'(2) this] Cons.IH[OF p(5) p'(4)] Cons.prems(3)
    show ?thesis by (simp add: p(4) p'(3) priced_def part_of_def)
  qed
qed (simp add: priced_def)

section \<open>The price of one door\<close>

lemma labor_mono:
  assumes "labor_cost w h l = Inr a" "labor_cost w' h' l = Inr a'"
    and "0 < w" "0 < h" "w \<le> w'" "h \<le> h'"
  shows "0 \<le> a \<and> a \<le> a'"
proof (cases l)
  case (Some lab)
  obtain fixed per where lab: "lab = (fixed, per)" by force
  obtain base rate where r: "door_money fixed = Inr base" "door_money per = Inr rate"
    "a = base + (w * h * rate + 1000000 - 1) div 1000000"
    "a' = base + (w' * h' * rate + 1000000 - 1) div 1000000" "0 \<le> w * h * rate"
    using assms(1,2) by (auto simp: labor_cost_def Some lab res_iff)
  have "w * h * rate \<le> w' * h' * rate"
    using assms(3-6) door_money_nonneg[OF r(2)] by (intro mult_right_mono mult_mono) simp_all
  then show ?thesis
    using ceil_mono[of 1000000 1000000 "w * h * rate" "w' * h' * rate"] ceil_nonneg[OF r(5), of 1000000]
      door_money_nonneg[OF r(1)] r(3,4) by linarith
qed (use assms in \<open>simp add: labor_cost_def\<close>)

lemma unit_price_Inr:
  assumes "unit_price cfg w h p = Inr u"
  obtains labor extra net tax discount minimum where "labor_cost w h (cf_labor cfg) = Inr labor"
    "additional_cost (cf_additional cfg) = Inr extra" "net = p + labor + extra"
    "tax = (net * cf_tax_bps cfg + 10000 - 1) div 10000" "door_money (cf_discount cfg) = Inr discount"
    "door_money (cf_minimum_total cfg) = Inr minimum" "discount \<le> net + tax"
    "u = max (net + tax - discount) minimum" "0 \<le> u" "u \<le> max_door_money"
proof -
  show thesis
    using assms unfolding unit_price_def Let_def andthen_Inr ceil_div_Inr throw_if_Inr checked_money_Inr not_less
    by (elim exE conjE) (rule that[OF _ _ refl refl]; simp)
qed

lemma unit_price_mono:
  assumes u: "unit_price cfg w h p = Inr u" "unit_price cfg w' h' p' = Inr u'"
    and le: "0 < w" "0 < h" "w \<le> w'" "h \<le> h'" "p \<le> p'" "0 \<le> cf_tax_bps cfg"
  shows "u \<le> u'"
proof -
  obtain labor extra net tax discount minimum where a: "labor_cost w h (cf_labor cfg) = Inr labor"
    "additional_cost (cf_additional cfg) = Inr extra" "net = p + labor + extra"
    "tax = (net * cf_tax_bps cfg + 10000 - 1) div 10000" "door_money (cf_discount cfg) = Inr discount"
    "door_money (cf_minimum_total cfg) = Inr minimum" "u = max (net + tax - discount) minimum"
    by (rule unit_price_Inr[OF u(1)])
  obtain labor' extra' net' tax' discount' minimum' where b': "labor_cost w' h' (cf_labor cfg) = Inr labor'"
    "additional_cost (cf_additional cfg) = Inr extra'" "net' = p' + labor' + extra'"
    "tax' = (net' * cf_tax_bps cfg + 10000 - 1) div 10000" "door_money (cf_discount cfg) = Inr discount'"
    "door_money (cf_minimum_total cfg) = Inr minimum'" "u' = max (net' + tax' - discount') minimum'"
    by (rule unit_price_Inr[OF u(2)])
  have same: "extra' = extra" "discount' = discount" "minimum' = minimum"
    using a(2,5,6) b'(2,5,6) by simp_all
  note b = b'(1) b'(3)[unfolded same] b'(4) b'(7)[unfolded same]
  have net: "net \<le> net'" using labor_mono[OF a(1) b(1) le(1-4)] le(5) by (simp add: a(3) b(2))
  then have "net * cf_tax_bps cfg \<le> net' * cf_tax_bps cfg" using le(6) by (rule mult_right_mono)
  then have "tax \<le> tax'" unfolding a(4) b(3) by (intro zdiv_mono1) simp_all
  with net show ?thesis unfolding a(7) b(4) by linarith
qed

section \<open>Lines\<close>

lemma price_line_Inr:
  assumes "price_line models materials now index item = Inr (rs, l)"
  obtains w h n model chosen parts u where
    "w = the_int (di_width item)" "h = the_int (di_height item)" "n = the_int (di_quantity item)"
    "0 < w" "0 < h" "0 < n" "n \<le> 1000"
    "find_model models (di_model item) = Some model"
    "selections_ok (dm_config model) item"
    "choose_materials materials item (cf_slots (dm_config model)) = Inr chosen"
    "price_parts materials now item w h n (cf_components (dm_config model)) = Inr parts"
    "unit_price (dm_config model) w h (priced parts) = Inr u"
    "0 \<le> u * n" "u * n \<le> max_door_money"
    "rs = model_reasons (dm_config model) w h @ pricing_reasons (dm_config model) chosen parts"
    "l = build_line index item model chosen parts u"
  using assms unfolding price_line_def Let_def res_iff dimension_ok_def not_less not_not
    sum.inject prod.inject
  by (elim exE conjE) (rule that[OF refl refl refl]; (assumption | rule sym, assumption | simp))

lemma unit_price_range: "unit_price cfg w h p = Inr u \<Longrightarrow> 0 \<le> u \<and> u \<le> max_door_money"
  by (erule unit_price_Inr) simp

definition line_adds_up :: "door_line \<Rightarrow> bool" where
  "line_adds_up l \<longleftrightarrow>
     (case ln_unit_total l of None \<Rightarrow> ln_total l = None
      | Some u \<Rightarrow> 0 \<le> u \<and> 0 < ln_quantity l \<and> ln_total l = Some (u * ln_quantity l)
          \<and> u * ln_quantity l \<le> max_door_money)"

lemma price_line_adds_up:
  assumes "price_line models materials now index item = Inr (rs, l)"
  shows "line_adds_up l \<and> (ln_total l = None \<longrightarrow> rs \<noteq> []) \<and> ln_quantity l = the_int (di_quantity item)"
proof (rule price_line_Inr[OF assms])
  fix w h n model chosen parts u
  assume n: "n = the_int (di_quantity item)" "0 < n"
    and u: "unit_price (dm_config model) w h (priced parts) = Inr u" "u * n \<le> max_door_money"
    and rs: "rs = model_reasons (dm_config model) w h @ pricing_reasons (dm_config model) chosen parts"
    and l: "l = build_line index item model chosen parts u"
  show ?thesis
    using n u(2) unit_price_range[OF u(1)]
    by (simp add: l rs build_line_def Let_def line_adds_up_def)
qed

lemma price_line_mono:
  assumes a: "price_line models materials now index item = Inr (rs, l)" "ln_unit_total l = Some u"
    and b: "price_line models materials now index' item' = Inr (rs', l')" "ln_unit_total l' = Some u'"
    and same: "di_model item' = di_model item" "di_selections item' = di_selections item"
    and bigger: "the_int (di_width item) \<le> the_int (di_width item')"
      "the_int (di_height item) \<le> the_int (di_height item')"
    and ok: "\<And>m. find_model models (di_model item) = Some m \<Longrightarrow>
      (\<forall>c \<in> set (cf_components (dm_config m)). rule_ok c) \<and> 0 \<le> cf_tax_bps (dm_config m)"
  shows "u \<le> u'"
proof -
  obtain w h n model chosen parts v where l: "w = the_int (di_width item)" "h = the_int (di_height item)"
    "0 < w" "0 < h" "find_model models (di_model item) = Some model"
    "price_parts materials now item w h n (cf_components (dm_config model)) = Inr parts"
    "unit_price (dm_config model) w h (priced parts) = Inr v"
    "l = build_line index item model chosen parts v"
    by (rule price_line_Inr[OF a(1)])
  obtain w' h' n' model' chosen' parts' v' where l': "w' = the_int (di_width item')"
    "h' = the_int (di_height item')" "find_model models (di_model item') = Some model'"
    "price_parts materials now item' w' h' n' (cf_components (dm_config model')) = Inr parts'"
    "unit_price (dm_config model') w' h' (priced parts') = Inr v'"
    "l' = build_line index' item' model' chosen' parts' v'"
    by (rule price_line_Inr[OF b(1)])
  have model: "model' = model" using l(5) l'(3) same(1) by simp
  have sel: "selected item = selected item'" by (simp add: selected_def fun_eq_iff same(2))
  have le: "w \<le> w'" "h \<le> h'" using bigger by (simp_all add: l(1,2) l'(1,2))
  have "priced parts \<le> priced parts'"
    using price_parts_mono[OF l(6) l'(4)[unfolded model] sel _ le] ok[OF l(5)] by blast
  then have "v \<le> v'"
    using unit_price_mono[OF l(7) l'(5)[unfolded model] l(3,4) le] ok[OF l(5)] by blast
  then show ?thesis
    using a(2) b(2) by (simp add: l(8) l'(6) build_line_def Let_def split: if_splits)
qed

section \<open>Quotes\<close>

definition line_amount :: "door_line \<Rightarrow> int" where
  "line_amount l = (case ln_total l of None \<Rightarrow> 0 | Some t \<Rightarrow> t)"

lemma price_items_spec:
  assumes "price_items models materials now index items run = Inr run'"
  shows "\<exists>ls rs. qr_lines run' = qr_lines run @ ls \<and> length ls = length items
    \<and> (\<forall>l \<in> set ls. line_adds_up l)
    \<and> qr_reasons run' = qr_reasons run @ rs
    \<and> qr_calculated run' = qr_calculated run + (\<Sum>l\<leftarrow>ls. line_amount l)
    \<and> (qr_complete run' \<longleftrightarrow> qr_complete run \<and> (\<forall>l \<in> set ls. ln_total l \<noteq> None))
    \<and> ((\<exists>l \<in> set ls. ln_total l = None) \<longrightarrow> rs \<noteq> [])
    \<and> (0 \<le> qr_calculated run \<and> qr_calculated run \<le> max_door_money \<longrightarrow>
         0 \<le> qr_calculated run' \<and> qr_calculated run' \<le> max_door_money)"
  using assms
proof (induction items arbitrary: index run)
  case (Cons item items)
  obtain rs l where l: "price_line models materials now index item = Inr (rs, l)"
    using Cons.prems by (auto simp: andthen_Inr)
  define mid where "mid = (case ln_total l of
      None \<Rightarrow> run\<lparr>qr_lines := qr_lines run @ [l],
        qr_reasons := qr_reasons run @ map (Pair (index + 1)) rs, qr_complete := False\<rparr>
    | Some t \<Rightarrow> run\<lparr>qr_lines := qr_lines run @ [l],
        qr_reasons := qr_reasons run @ map (Pair (index + 1)) rs, qr_calculated := qr_calculated run + t\<rparr>)"
  have rest: "price_items models materials now (index + 1) items mid = Inr run'"
    and range: "ln_total l \<noteq> None \<Longrightarrow> 0 \<le> qr_calculated mid \<and> qr_calculated mid \<le> max_door_money"
    using Cons.prems by (auto simp: l mid_def Let_def res_iff split: option.splits)
  have line: "line_adds_up l" "ln_total l = None \<Longrightarrow> rs \<noteq> []"
    using price_line_adds_up[OF l] by simp_all
  have mid: "qr_lines mid = qr_lines run @ [l]"
    "qr_reasons mid = qr_reasons run @ map (Pair (index + 1)) rs"
    "qr_calculated mid = qr_calculated run + line_amount l"
    "qr_complete mid \<longleftrightarrow> qr_complete run \<and> ln_total l \<noteq> None"
    by (auto simp: mid_def line_amount_def split: option.splits)
  obtain ls rs' where IH: "qr_lines run' = qr_lines mid @ ls" "length ls = length items"
    "\<forall>l \<in> set ls. line_adds_up l" "qr_reasons run' = qr_reasons mid @ rs'"
    "qr_calculated run' = qr_calculated mid + (\<Sum>l\<leftarrow>ls. line_amount l)"
    "qr_complete run' \<longleftrightarrow> qr_complete mid \<and> (\<forall>l \<in> set ls. ln_total l \<noteq> None)"
    "(\<exists>l \<in> set ls. ln_total l = None) \<longrightarrow> rs' \<noteq> []"
    "0 \<le> qr_calculated mid \<and> qr_calculated mid \<le> max_door_money \<longrightarrow>
       0 \<le> qr_calculated run' \<and> qr_calculated run' \<le> max_door_money"
    using Cons.IH[OF rest] by (elim exE conjE) (rule that)
  show ?case
  proof (intro exI conjI)
    show "qr_lines run' = qr_lines run @ (l # ls)" by (simp add: IH(1) mid(1))
    show "length (l # ls) = length (item # items)" by (simp add: IH(2))
    show "\<forall>l \<in> set (l # ls). line_adds_up l" using line(1) IH(3) by simp
    show "qr_reasons run' = qr_reasons run @ (map (Pair (index + 1)) rs @ rs')"
      by (simp add: IH(4) mid(2))
    show "qr_calculated run' = qr_calculated run + (\<Sum>l\<leftarrow>l # ls. line_amount l)"
      by (simp add: IH(5) mid(3))
    show "qr_complete run' \<longleftrightarrow> qr_complete run \<and> (\<forall>l \<in> set (l # ls). ln_total l \<noteq> None)"
      by (simp add: IH(6) mid(4))
    show "(\<exists>l \<in> set (l # ls). ln_total l = None) \<longrightarrow> map (Pair (index + 1)) rs @ rs' \<noteq> []"
      using line(2) IH(7) by auto
    show "0 \<le> qr_calculated run \<and> qr_calculated run \<le> max_door_money \<longrightarrow>
       0 \<le> qr_calculated run' \<and> qr_calculated run' \<le> max_door_money"
      using IH(8) range mid(3) by (cases "ln_total l") (simp_all add: line_amount_def)
  qed
qed simp

section \<open>Look-ups that never fail\<close>

definition no_crash :: "'a res \<Rightarrow> bool" where
  "no_crash m \<longleftrightarrow> (\<forall>e. m \<noteq> Inl (Crash e))"

lemma no_crash_simps [simp]:
  "no_crash (Inr x)" "no_crash (Inl (BadRequest m))" "no_crash (Inl (Unprocessable m))"
  by (simp_all add: no_crash_def)

lemma no_crash_throw: "no_crash (Inl e :: 'a res) \<Longrightarrow> (\<not> c \<Longrightarrow> no_crash k) \<Longrightarrow> no_crash (throw_if c e k :: 'a res)"
  by (simp add: throw_if_def)

lemma no_crash_need:
  "no_crash (Inl e :: 'a res) \<Longrightarrow> (\<And>x. v = Some x \<Longrightarrow> no_crash (k x)) \<Longrightarrow> no_crash (need v e k :: 'a res)"
  by (cases v) simp_all

lemma no_crash_andthen:
  "no_crash m \<Longrightarrow> (\<And>x. m = Inr x \<Longrightarrow> no_crash (k x)) \<Longrightarrow> no_crash (andthen m k)"
  by (cases m) (auto simp: no_crash_def)

lemmas no_crash_intros = no_crash_throw no_crash_need no_crash_andthen

lemma no_crash_money [simp]:
  "no_crash (door_money s)" "no_crash (checked_money v)" "no_crash (ceil_div n d)"
  by (auto simp: door_money_def checked_money_def ceil_div_def intro: no_crash_throw)

lemma no_crash_measured [simp]: "no_crash (measured w h c u)"
  unfolding measured_def Let_def by (intro no_crash_intros) simp_all

lemma no_crash_amount [simp]: "no_crash (part_amount now m q)"
  unfolding part_amount_def by (auto intro!: no_crash_andthen)

lemma no_crash_holes [simp]: "no_crash (check_holes height seen hs)"
  by (induction height seen hs rule: check_holes.induct) (auto intro!: no_crash_throw)

lemma no_crash_manufacturing [simp]: "no_crash (validate_door_manufacturing item)"
  unfolding validate_door_manufacturing_def
  by (auto intro!: no_crash_throw split: option.splits)

lemma no_crash_choose [simp]: "no_crash (choose_materials materials item slots)"
  by (induction slots) (auto intro!: no_crash_intros split: option.splits)

lemma no_crash_additional [simp]: "no_crash (additional_cost xs)"
  by (induction xs) (auto intro!: no_crash_andthen)

lemma no_crash_unit [simp]: "no_crash (unit_price cfg w h p)"
  unfolding unit_price_def labor_cost_def Let_def
  by (intro no_crash_intros) (auto intro!: no_crash_andthen split: option.splits)

lemma chosen_known:
  "choose_materials materials item slots = Inr chosen \<Longrightarrow> slot \<in> set slots \<Longrightarrow>
     selected item (sl_key slot) = Some i \<Longrightarrow>
     \<exists>m. material_of materials i = Some m \<and> ma_active m \<and> i \<in> set (sl_materials slot)"
  by (induction slots arbitrary: chosen) (auto simp: res_iff split: option.splits if_splits)

lemma selected_slot:
  assumes "selections_ok cfg item" "selected item key = Some i"
  shows "\<exists>slot \<in> set (cf_slots cfg). sl_key slot = key"
proof -
  have "(key, i) \<in> set (di_selections item)"
    using assms(2) map_of_SomeD[of "rev (di_selections item)" key i]
    by (auto simp: selected_def split: option.splits if_splits)
  then show ?thesis using assms(1) by (force simp: selections_ok_def list_all_iff)
qed

lemma no_crash_parts:
  assumes "\<And>key i. selected item key = Some i \<Longrightarrow> material_of materials i \<noteq> None"
  shows "no_crash (price_parts materials now item w h n cs)"
proof (induction cs)
  case (Cons c cs)
  show ?case
  proof (cases "selected item (dc_slot c)")
    case (Some i)
    then obtain m where "material_of materials i = Some m" using assms by blast
    then show ?thesis using Cons.IH by (simp add: Some no_crash_andthen)
  qed (simp add: Cons.IH)
qed simp

lemma no_crash_line: "no_crash (price_line models materials now index item)"
  unfolding price_line_def Let_def
proof (intro no_crash_intros no_crash_parts)
  fix model chosen key i
  assume "\<not> \<not> selections_ok (dm_config model) item"
    "choose_materials materials item (cf_slots (dm_config model)) = Inr chosen"
    "selected item key = Some i"
  then show "material_of materials i \<noteq> None"
    using selected_slot chosen_known by (metis option.distinct(1))
qed simp_all

lemma no_crash_items: "no_crash (price_items models materials now index items run)"
proof (induction items arbitrary: index run)
  case (Cons item items)
  show ?case
    unfolding price_items.simps
    by (intro no_crash_andthen no_crash_line)
      (auto simp: Let_def intro!: no_crash_andthen Cons.IH split: option.splits prod.splits)
qed simp

end
