(* ===== verification/Retry.thy ===== *)
theory Retry
  imports Prelude
begin

text \<open>
  Serializable transactions that abort are run again: \<open>common/serializable-retry.ts\<close>,
  \<open>common/retry.ts\<close> and the inventory's own loop. An operation is the sequence of outcomes its
  successive attempts would have, since the database may change between them.
\<close>

section \<open>Failures\<close>

text \<open>What an attempt may throw: an error of the Prisma client, with its code and the SQL state of a
  raw query, or an exception of the service itself.\<close>

datatype failure =
    Prisma string "string option"
  | Thrown api_error

definition is_prisma_transaction_conflict :: "failure \<Rightarrow> bool" where
  "is_prisma_transaction_conflict e = (case e of
     Prisma code meta \<Rightarrow> code = ''P2034''
       \<or> (code = ''P2010'' \<and> (meta = Some ''40001'' \<or> meta = Some ''40P01''))
   | Thrown _ \<Rightarrow> False)"

definition is_prisma_serializable_contention :: "failure \<Rightarrow> bool" where
  "is_prisma_serializable_contention e = (case e of
     Prisma code meta \<Rightarrow> code = ''P2034'' \<or> code = ''P2002'' | Thrown _ \<Rightarrow> False)"

section \<open>The shared loop\<close>

definition serializable_retries :: int where
  "serializable_retries = 3"

text \<open>The answer comes with the pauses the loop made, in milliseconds.\<close>

function retry_loop ::
  "(failure \<Rightarrow> bool) \<Rightarrow> int \<Rightarrow> (nat \<Rightarrow> failure + 'a) \<Rightarrow> nat \<Rightarrow> nat \<Rightarrow> (failure + 'a) \<times> int list" where
  "retry_loop retryable backoff op attempt max_attempts =
     (if attempt > max_attempts then (Inl (Thrown (Unavailable ''Unreachable serializable retry state.'')), [])
      else case op attempt of
        Inr a \<Rightarrow> (Inr a, [])
      | Inl e \<Rightarrow>
          if \<not> retryable e \<or> attempt = max_attempts
          then (Inl (if retryable e then Thrown (Conflict ''CONFLICT'') else e), [])
          else let (r, waits) = retry_loop retryable backoff op (attempt + 1) max_attempts
               in (r, (if backoff > 0 then [backoff * int attempt] else []) @ waits))"
  by pat_completeness auto
termination by (relation "measure (\<lambda>(_, _, _, attempt, max_attempts). Suc max_attempts - attempt)") auto

declare retry_loop.simps [simp del]

definition with_serializable_retry ::
  "(nat \<Rightarrow> failure + 'a) \<Rightarrow> (failure \<Rightarrow> bool) \<Rightarrow> int \<Rightarrow> int option \<Rightarrow> (failure + 'a) \<times> int list" where
  "with_serializable_retry op is_contention backoff attempts =
     retry_loop (\<lambda>e. is_contention e \<or> is_prisma_serializable_contention e) backoff op 1
       (nat (max 1 (case attempts of None \<Rightarrow> serializable_retries | Some n \<Rightarrow> n)))"

section \<open>The inventory's loop\<close>

definition retry_cap :: "nat \<Rightarrow> int" where
  "retry_cap attempt = min 150 (25 * 2 ^ (attempt - 1))"

text \<open>\<open>retryDelayMs\<close>; \<open>r\<close> is what \<open>randomInt(half + 1)\<close> drew.\<close>

definition retry_delay_ms :: "nat \<Rightarrow> int \<Rightarrow> int" where
  "retry_delay_ms attempt r = retry_cap attempt div 2 + r"

fun inventory_retry :: "(nat \<Rightarrow> failure + 'a) \<Rightarrow> nat \<Rightarrow> nat \<Rightarrow> failure + 'a" where
  "inventory_retry op attempt 0 = Inl (Thrown (Conflict ''Stock operation could not be applied''))"
| "inventory_retry op attempt (Suc left) =
     (case op attempt of
        Inr a \<Rightarrow> Inr a
      | Inl e \<Rightarrow>
          if is_prisma_transaction_conflict e
          then (if left > 0 then inventory_retry op (attempt + 1) left
                else Inl (Thrown (Conflict ''Stock operation could not be applied'')))
          else Inl e)"

definition inventory_with_serializable_retry :: "(nat \<Rightarrow> failure + 'a) \<Rightarrow> failure + 'a" where
  "inventory_with_serializable_retry op = inventory_retry op 0 3"

section \<open>What the loops promise\<close>

definition gives_up :: "('e \<Rightarrow> bool) \<Rightarrow> 'e + 'a \<Rightarrow> bool" where
  "gives_up retryable r = (case r of Inl e \<Rightarrow> \<not> retryable e | Inr _ \<Rightarrow> True)"

text \<open>Which attempt decides the answer: the first one that is not to be retried.\<close>

lemma retry_loop_first:
  assumes "attempt \<le> n" "n \<le> max_attempts" "gives_up retryable (op n)"
    and "\<And>i. attempt \<le> i \<Longrightarrow> i < n \<Longrightarrow> \<not> gives_up retryable (op i)"
  shows "fst (retry_loop retryable backoff op attempt max_attempts) = op n"
  using assms
proof (induction "n - attempt" arbitrary: attempt)
  case 0
  then have "attempt = n" by simp
  then show ?case
    using "0.prems"(2,3)
    by (subst retry_loop.simps) (auto simp: gives_up_def split: sum.splits)
next
  case (Suc d)
  then have lt: "attempt < n" by simp
  obtain e where e: "op attempt = Inl e" "retryable e"
    using Suc.prems(4)[of attempt] lt by (auto simp: gives_up_def split: sum.splits)
  have "fst (retry_loop retryable backoff op (attempt + 1) max_attempts) = op n"
    using Suc lt by (intro Suc.hyps(1)) auto
  then show ?case
    using e lt Suc.prems(2) by (subst retry_loop.simps) (auto simp: Let_def split: prod.splits)
qed

lemma retry_loop_exhausted:
  assumes "attempt \<le> max_attempts"
    and "\<And>i. attempt \<le> i \<Longrightarrow> i \<le> max_attempts \<Longrightarrow> \<not> gives_up retryable (op i)"
  shows "fst (retry_loop retryable backoff op attempt max_attempts) = Inl (Thrown (Conflict ''CONFLICT''))"
  using assms
proof (induction "max_attempts - attempt" arbitrary: attempt)
  case 0
  then show ?case
    by (subst retry_loop.simps) (auto simp: gives_up_def split: sum.splits)
next
  case (Suc d)
  obtain e where e: "op attempt = Inl e" "retryable e"
    using Suc.prems(1) Suc.prems(2)[of attempt] by (auto simp: gives_up_def split: sum.splits)
  have "fst (retry_loop retryable backoff op (attempt + 1) max_attempts) = Inl (Thrown (Conflict ''CONFLICT''))"
    using Suc by (intro Suc.hyps(1)) auto
  then show ?case
    using e Suc.hyps(2) by (subst retry_loop.simps) (auto simp: Let_def split: prod.splits)
qed

lemma retry_loop_waits:
  "length (snd (retry_loop retryable backoff op attempt max_attempts)) \<le> max_attempts - attempt"
proof (induction retryable backoff op attempt max_attempts rule: retry_loop.induct)
  case (1 retryable backoff op attempt max_attempts)
  show ?case
  proof (cases "attempt < max_attempts")
    case True
    then show ?thesis
      using 1 by (subst retry_loop.simps) (fastforce simp: Let_def split: sum.splits prod.splits)
  next
    case False
    then show ?thesis
      by (subst retry_loop.simps) (auto simp: Let_def split: sum.splits prod.splits)
  qed
qed

lemma inventory_retry_first:
  assumes "n < left" "gives_up is_prisma_transaction_conflict (op (attempt + n))"
    and "\<And>i. i < n \<Longrightarrow> \<not> gives_up is_prisma_transaction_conflict (op (attempt + i))"
  shows "inventory_retry op attempt left = op (attempt + n)"
  using assms
proof (induction n arbitrary: attempt left)
  case 0
  then show ?case by (cases left) (auto simp: gives_up_def split: sum.splits)
next
  case (Suc n)
  then obtain l where l: "left = Suc l" by (cases left) auto
  have "inventory_retry op (attempt + 1) l = op (attempt + 1 + n)"
    using Suc.prems Suc.prems(3)[of "Suc i" for i] l by (intro Suc.IH) auto
  then show ?case
    using Suc.prems(1) Suc.prems(3)[of 0] l by (auto simp: gives_up_def split: sum.splits)
qed

lemma retry_delay_bounds:
  assumes "1 \<le> attempt" "0 \<le> r" "r \<le> retry_cap attempt div 2"
  shows "12 \<le> retry_delay_ms attempt r \<and> retry_delay_ms attempt r \<le> 150"
proof -
  have "(1::int) \<le> 2 ^ (attempt - 1)" by simp
  then have "25 \<le> retry_cap attempt" "retry_cap attempt \<le> 150" by (auto simp: retry_cap_def)
  then show ?thesis using assms by (auto simp: retry_delay_ms_def)
qed

section \<open>A transaction nothing disturbs\<close>

text \<open>\<open>serializable is_contention m\<close> is the answer of a service that wraps the transaction \<open>m\<close> in the
  shared loop when every attempt finds the same database.\<close>

definition as_failure :: "api_error \<Rightarrow> failure" where
  "as_failure e = (case e of DbError code \<Rightarrow> Prisma code None | _ \<Rightarrow> Thrown e)"

definition of_failure :: "failure \<Rightarrow> api_error" where
  "of_failure f = (case f of Prisma code _ \<Rightarrow> DbError code | Thrown e \<Rightarrow> e)"

definition serializable :: "(api_error \<Rightarrow> bool) \<Rightarrow> 'a res \<Rightarrow> 'a res" where
  "serializable is_contention m =
     map_sum of_failure id (fst (with_serializable_retry (\<lambda>_. map_sum as_failure id m)
       (\<lambda>f. case f of Thrown e \<Rightarrow> is_contention e | Prisma _ _ \<Rightarrow> False) 0 None))"

lemma of_as_failure [simp]: "of_failure (as_failure e) = e"
  by (simp add: of_failure_def as_failure_def split: api_error.splits)

lemma serializable_cases:
  "serializable is_contention m =
     (case m of Inr r \<Rightarrow> Inr r
      | Inl e \<Rightarrow> Inl (if (case as_failure e of Thrown e \<Rightarrow> is_contention e | Prisma _ _ \<Rightarrow> False)
            \<or> is_prisma_serializable_contention (as_failure e) then Conflict ''CONFLICT'' else e))"
  by (cases m) (simp_all add: serializable_def with_serializable_retry_def serializable_retries_def
    retry_loop.simps of_failure_def[of "Thrown _"] eval_nat_numeral)

lemma serializable_Inr [res_iff]: "serializable is_contention m = Inr r \<longleftrightarrow> m = Inr r"
  by (simp add: serializable_cases split: sum.splits)

end
