(* ===== verification/Pricing_Properties.thy ===== *)
theory Pricing_Properties
  imports Promotion_Capacity Door_Price_Facts Retry
begin

text \<open>
  The properties of the promotion engine, of the capacity of promotions, of the price of custom doors
  and of the retry loop, each with a concrete run as its witness.
\<close>

section \<open>The promotion engine\<close>

definition basket :: "engine_line list" where
  "basket =
    [\<lparr>el_variant = 1, el_product = 10, el_categories = [5], el_brand = None, el_price = 999, el_quantity = 3\<rparr>,
     \<lparr>el_variant = 2, el_product = 11, el_categories = [6, 5], el_brand = Some 7, el_price = 500, el_quantity = 1\<rparr>]"

definition ten_percent :: engine_promotion where
  "ten_percent = \<lparr>ep_id = 1, ep_coupon = None, ep_name = ''ten'', ep_kind = EK_PERCENTAGE,
     ep_percent = Some 1000, ep_amount = None, ep_max_discount = None, ep_min_order = None,
     ep_max_order = None, ep_stackable = True, ep_priority = 2, ep_targets = []\<rparr>"

definition fixed_brand :: engine_promotion where
  "fixed_brand = ten_percent\<lparr>ep_id := 2, ep_kind := EK_FIXED_CART, ep_percent := None, ep_amount := Some 700,
     ep_priority := 1, ep_targets := [\<lparr>et_type = TG_BRAND, et_target = 7, et_exclude = False\<rparr>]\<rparr>"

definition half_off :: engine_promotion where
  "half_off = ten_percent\<lparr>ep_id := 3, ep_percent := Some 5000, ep_stackable := False\<rparr>"



text \<open>C13: The customer gets the best offer: no promotion that must stand alone would save more on
  this order than the combination chosen, nor would all stackable promotions together.\<close>

theorem best_offer_is_chosen:
  "(\<forall>p a st. p \<in> set candidates \<and> \<not> ep_stackable p
       \<and> apply_one p lines (fresh_state lines shipping) (order_value lines) = Some (a, st)
      \<longrightarrow> ap_item a + ap_shipping a \<le> er_total (evaluate_promotions lines shipping candidates))
   \<and> (\<Sum>a\<leftarrow>apply_stack (filter ep_stackable (evaluation_order candidates)) lines
          (fresh_state lines shipping) (order_value lines). ap_item a + ap_shipping a)
       \<le> er_total (evaluate_promotions lines shipping candidates)"
proof -
  have total: "total_worth as = (\<Sum>a\<leftarrow>as. ap_item a) + (\<Sum>a\<leftarrow>as. ap_shipping a)" for as
    by (simp add: total_worth_def worth_def sum_list_addf)
  have e: "er_total (evaluate_promotions lines shipping candidates)
      = total_worth (er_applied (evaluate_promotions lines shipping candidates))"
    by (simp add: evaluate_promotions_def Let_def total)
  show ?thesis
    using evaluate_beats_stack[of candidates lines shipping] evaluate_best[of _ candidates lines shipping]
    unfolding e by (auto simp: alone_def worth_def total_worth_def)
qed

theorem best_offer_is_chosen_witness:
  "er_total (evaluate_promotions basket 300 [ten_percent, fixed_brand, half_off]) = 1749
    \<and> fst (the (apply_one half_off basket (fresh_state basket 300) (order_value basket)))
        = hd (er_applied (evaluate_promotions basket 300 [ten_percent, fixed_brand, half_off]))
    \<and> 800 \<le> er_total (evaluate_promotions basket 300 [ten_percent, fixed_brand, half_off])"
proof -
  let ?c = "[ten_percent, fixed_brand, half_off]"
  have run: "er_total (evaluate_promotions basket 300 ?c) = 1749"
    "fst (the (apply_one half_off basket (fresh_state basket 300) (order_value basket)))
       = hd (er_applied (evaluate_promotions basket 300 ?c))"
    "(\<Sum>a\<leftarrow>apply_stack (filter ep_stackable (evaluation_order ?c)) basket
        (fresh_state basket 300) (order_value basket). ap_item a + ap_shipping a) = 800"
    by code_simp+
  then show ?thesis using best_offer_is_chosen[of ?c basket 300] by linarith
qed

text \<open>C14: The price does not depend on the order in which the database lists the promotions.\<close>

theorem offer_ignores_listing_order:
  assumes "mset candidates = mset candidates'" and "inj_on ep_id (set candidates)"
  shows "evaluate_promotions lines shipping candidates = evaluate_promotions lines shipping candidates'"
  using assms by (rule evaluate_order_irrelevant)

theorem offer_ignores_listing_order_witness:
  "evaluate_promotions basket 300 [ten_percent, fixed_brand] = evaluate_promotions basket 300 [fixed_brand, ten_percent]"
proof (rule offer_ignores_listing_order)
  show "mset [ten_percent, fixed_brand] = mset [fixed_brand, ten_percent]" by simp
  show "inj_on ep_id (set [ten_percent, fixed_brand])" by (simp add: fixed_brand_def ten_percent_def)
qed

section \<open>Capacity\<close>

text \<open>C15: However orders reserve, confirm, release and refund them, promotions and coupons are never
  oversold: from a catalogue without redemptions, the counters equal the redemptions that stand, no
  limit is exceeded, and no customer holds more than a promotion allows him.\<close>

theorem promotions_never_oversold:
  assumes "redemptions db = []"
    and "\<forall>i p. map_of (promotions db) i = Some p \<longrightarrow> pm_used p = 0 \<and> (\<forall>m. pm_max_redemptions p = Some m \<longrightarrow> 0 \<le> m)"
    and "\<forall>i c. map_of (coupons db) i = Some c \<longrightarrow> cp_used c = 0 \<and> (\<forall>m. cp_max_redemptions c = Some m \<longrightarrow> 0 \<le> m)"
  shows "let db' = run_txs exec_promotion cs db in
    (\<forall>i p. map_of (promotions db') i = Some p \<longrightarrow>
        pm_used p = uses_by (of_promotion i) db' \<and> (\<forall>m. pm_max_redemptions p = Some m \<longrightarrow> pm_used p \<le> m)
        \<and> (\<forall>l cu. pm_per_customer p = Some l \<longrightarrow> uses_by (of_customer i cu) db' \<le> max l 0))
    \<and> (\<forall>i c. map_of (coupons db') i = Some c \<longrightarrow>
        cp_used c = uses_by (of_coupon i) db' \<and> (\<forall>m. cp_max_redemptions c = Some m \<longrightarrow> cp_used c \<le> m))"
proof -
  have "promo_inv (run_txs exec_promotion cs db)" by (rule capacity.run_inv[OF promo_inv_fresh[OF assms]])
  then show ?thesis
    unfolding promo_inv_def counted_def bounded_def limits_ok_def Let_def by auto
qed

definition one_use :: promo_db where
  "one_use = \<lparr>promotions = [(1, \<lparr>pm_name = ''ten'', pm_kind = EK_PERCENTAGE, pm_mode = PM_AUTOMATIC,
      pm_percent = Some 1000, pm_amount = None, pm_max_discount = None, pm_min_order = None, pm_max_order = None,
      pm_starts = None, pm_ends = None, pm_active = True, pm_max_redemptions = Some 1, pm_per_customer = Some 1,
      pm_first_only = False, pm_customer = None, pm_stackable = True, pm_priority = 2, pm_used = 0,
      pm_version = 1, pm_targets = []\<rparr>)],
    coupons = [], redemptions = [], categories = [], next_redemption = 0\<rparr>"

definition ten_applied :: applied_promotion where
  "ten_applied = \<lparr>ap_promotion = 1, ap_coupon = None, ap_name = ''ten'', ap_kind = EK_PERCENTAGE,
     ap_item = 350, ap_shipping = 0, ap_allocations = [(1, 350)]\<rparr>"

theorem promotions_never_oversold_witness:
  "\<exists>p. map_of (promotions (run_txs exec_promotion [PC_reserve 7 3 [ten_applied], PC_reserve 8 4 [ten_applied]] one_use)) 1
      = Some p \<and> pm_used p = 1"
proof -
  let ?db = "run_txs exec_promotion [PC_reserve 7 3 [ten_applied], PC_reserve 8 4 [ten_applied]] one_use"
  have fresh: "redemptions one_use = []"
    "\<forall>i p. map_of (promotions one_use) i = Some p \<longrightarrow> pm_used p = 0 \<and> (\<forall>m. pm_max_redemptions p = Some m \<longrightarrow> 0 \<le> m)"
    "\<forall>i c. map_of (coupons one_use) i = Some c \<longrightarrow> cp_used c = 0 \<and> (\<forall>m. cp_max_redemptions c = Some m \<longrightarrow> 0 \<le> m)"
    by (simp_all add: one_use_def)
  have run: "map_option pm_max_redemptions (map_of (promotions ?db) 1) = Some (Some 1)"
    "uses_by (of_promotion 1) ?db = 1" by code_simp+
  then show ?thesis using promotions_never_oversold[OF fresh, of "[PC_reserve 7 3 [ten_applied], PC_reserve 8 4 [ten_applied]]"]
    by (auto simp: Let_def)
qed

section \<open>The retry loop\<close>

text \<open>C16: The retry loop answers what its first deciding attempt answers, a success or an error that
  is no contention; when every attempt meets contention it answers a conflict. It never pauses more
  often than it retries.\<close>

theorem retry_answers_first_decision:
  "let retried = (\<lambda>e. is_contention e \<or> is_prisma_serializable_contention e);
       n = nat (max 1 (case attempts of None \<Rightarrow> serializable_retries | Some k \<Rightarrow> k));
       (answer, waits) = with_serializable_retry op is_contention backoff attempts
   in answer = (case List.find (\<lambda>i. gives_up retried (op i)) [1..<n + 1] of
        Some i \<Rightarrow> op i | None \<Rightarrow> Inl (Thrown (Conflict ''CONFLICT'')))
    \<and> length waits \<le> n - 1"
proof -
  define retried where "retried = (\<lambda>e. is_contention e \<or> is_prisma_serializable_contention e)"
  define n where "n = nat (max 1 (case attempts of None \<Rightarrow> serializable_retries | Some k \<Rightarrow> k))"
  have w: "with_serializable_retry op is_contention backoff attempts = retry_loop retried backoff op 1 n"
    by (simp add: with_serializable_retry_def retried_def n_def)
  have n: "1 \<le> n" by (simp add: n_def)
  have "fst (retry_loop retried backoff op 1 n) =
      (case List.find (\<lambda>i. gives_up retried (op i)) [1..<n + 1] of
         Some i \<Rightarrow> op i | None \<Rightarrow> Inl (Thrown (Conflict ''CONFLICT'')))"
  proof (cases "List.find (\<lambda>i. gives_up retried (op i)) [1..<n + 1]")
    case None
    then have "\<And>i. 1 \<le> i \<Longrightarrow> i \<le> n \<Longrightarrow> \<not> gives_up retried (op i)" by (auto simp: find_None_iff)
    then show ?thesis using None retry_loop_exhausted[OF n, of retried op backoff] by simp
  next
    case (Some i)
    then obtain k where k: "k < n" "i = k + 1" "gives_up retried (op i)"
      "\<And>j. j < k \<Longrightarrow> \<not> gives_up retried (op (j + 1))"
      by (auto simp: find_Some_iff simp del: upt_Suc)
    have "\<not> gives_up retried (op j)" if "1 \<le> j" "j < i" for j
      using k(2) k(4)[of "j - 1"] that by simp
    then show ?thesis using Some k retry_loop_first[of 1 i n retried op backoff] by simp
  qed
  then show ?thesis
    using retry_loop_waits[of retried backoff op 1 n]
    by (simp add: Let_def case_prod_unfold w flip: retried_def n_def)
qed

section \<open>Custom doors\<close>

text \<open>C17: A door quotation adds up. Each line has a total exactly when it has a unit price, and it is
  the unit price times the quantity; the calculated total is there exactly when every line is
  priced, and it is the sum of the lines; the quotation has a final total exactly when it is
  calculated and no reason stands against it; no amount leaves the money range.\<close>

theorem door_quote_adds_up:
  assumes "price_doors items models materials now = Inr q"
  shows "length (dq_lines q) = length items
    \<and> (\<forall>l \<in> set (dq_lines q). ln_total l = map_option (\<lambda>u. u * ln_quantity l) (ln_unit_total l))
    \<and> dq_calculated q = (if \<forall>l \<in> set (dq_lines q). ln_total l \<noteq> None
         then Some (\<Sum>l\<leftarrow>dq_lines q. the (ln_total l)) else None)
    \<and> dq_total q = (if dq_reasons q = [] then dq_calculated q else None)
    \<and> (dq_reasons q = [] \<longrightarrow> dq_calculated q \<noteq> None)
    \<and> (\<forall>t. dq_calculated q = Some t \<longrightarrow> 0 \<le> t \<and> t \<le> max_door_money)"
proof -
  let ?run0 = "\<lparr>qr_lines = [], qr_reasons = [], qr_calculated = 0, qr_complete = True\<rparr>"
  obtain run where run: "price_items models materials now 0 items ?run0 = Inr run" and q: "q = quote_of run"
    using assms by (auto simp: price_doors_def res_iff)
  from price_items_spec[OF run] obtain ls rs where s: "qr_lines run = ls" "length ls = length items"
    "\<forall>l \<in> set ls. line_adds_up l" "qr_reasons run = rs" "qr_calculated run = (\<Sum>l\<leftarrow>ls. line_amount l)"
    "qr_complete run \<longleftrightarrow> (\<forall>l \<in> set ls. ln_total l \<noteq> None)"
    "(\<exists>l \<in> set ls. ln_total l = None) \<longrightarrow> rs \<noteq> []"
    "0 \<le> qr_calculated run" "qr_calculated run \<le> max_door_money"
    by (auto simp: max_door_money_def)
  have lines: "\<forall>l \<in> set ls. ln_total l = map_option (\<lambda>u. u * ln_quantity l) (ln_unit_total l)"
    using s(3) by (fastforce simp: line_adds_up_def split: option.splits)
  have amounts: "\<forall>l \<in> set ls. ln_total l \<noteq> None \<Longrightarrow> (\<Sum>l\<leftarrow>ls. line_amount l) = (\<Sum>l\<leftarrow>ls. the (ln_total l))"
    by (intro arg_cong[where f = sum_list] map_cong) (auto simp: line_amount_def)
  show ?thesis
    using s lines amounts by (auto simp: q quote_of_def Let_def)
qed

definition door_materials :: "door_material list" where
  "door_materials = map (\<lambda>(i, u, r). \<lparr>ma_id = i, ma_title = i, ma_active = True, ma_version = 1,
      ma_variant = None, ma_unit = u, ma_rate = Some r, ma_valid_until = None, ma_processing_fee = ''0'',
      ma_stock_unit = None\<rparr>)
    [(''glass'', M2, ''10001''), (''profile'', M, ''2000''), (''hinge'', EACH, ''3000'')]"

definition door_rule :: "string \<Rightarrow> door_basis \<Rightarrow> int \<Rightarrow> door_component" where
  "door_rule slot b m = \<lparr>dc_slot = slot, dc_basis = b, dc_multiplier = m, dc_divisor = 1, dc_width_deduction = 0,
     dc_height_deduction = 0, dc_waste_bps = 0, dc_minimum = ''0.75''\<rparr>"

definition glass_door :: door_model where
  "glass_door = \<lparr>dm_id = ''m'', dm_title = ''M'', dm_active = True, dm_version = 1, dm_config =
     \<lparr>cf_technical = Some \<lparr>dt_min_width = 100, dt_max_width = 3000, dt_min_height = 100, dt_max_height = 3000\<rparr>,
      cf_manual_approval = False,
      cf_slots = map (\<lambda>m. \<lparr>sl_key = ma_id m, sl_title = ma_id m, sl_materials = [ma_id m], sl_required = True\<rparr>) door_materials,
      cf_incompatible = [],
      cf_components = [door_rule ''glass'' AREA 1, door_rule ''profile'' PERIMETER 1, door_rule ''hinge'' FIXED 2],
      cf_labor = Some (''1000'', ''2000''), cf_additional = [], cf_tax_bps = 900, cf_discount = ''0'',
      cf_minimum_total = ''0''\<rparr>\<rparr>"

definition door_of :: "int \<Rightarrow> int \<Rightarrow> door_item" where
  "door_of w h = \<lparr>di_model = ''m'', di_width = JsInt w, di_height = JsInt h, di_quantity = JsInt 2,
     di_selections = [(''glass'', ''glass''), (''profile'', ''profile''), (''hinge'', ''hinge'')],
     di_manufacturing = None\<rparr>"

lemma small_door_price:
  "\<exists>q. price_doors [door_of 500 1000] [glass_door] door_materials 0 = Inr q \<and> dq_total q = Some 46874
    \<and> dq_reasons q = []"
proof -
  have "case price_doors [door_of 500 1000] [glass_door] door_materials 0 of
      Inl _ \<Rightarrow> False | Inr q \<Rightarrow> dq_total q = Some 46874 \<and> dq_reasons q = []" by code_simp
  then show ?thesis by (auto split: sum.splits)
qed

theorem door_quote_adds_up_witness:
  "\<exists>q. price_doors [door_of 500 1000] [glass_door] door_materials 0 = Inr q
     \<and> (\<Sum>l\<leftarrow>dq_lines q. the (ln_total l)) = 46874"
proof -
  obtain q where q: "price_doors [door_of 500 1000] [glass_door] door_materials 0 = Inr q"
    "dq_total q = Some 46874" "dq_reasons q = []" using small_door_price by blast
  then show ?thesis using door_quote_adds_up[OF q(1)] by (auto split: if_splits)
qed

lemma one_item_quote:
  assumes "price_doors [item] models materials now = Inr q" "dq_calculated q = Some t"
  obtains rs l u where "price_line models materials now 0 item = Inr (rs, l)" "ln_unit_total l = Some u"
    "t = u * the_int (di_quantity item)" "0 \<le> u" "0 < the_int (di_quantity item)"
proof -
  let ?run0 = "\<lparr>qr_lines = [], qr_reasons = [], qr_calculated = 0, qr_complete = True\<rparr>"
  obtain run where run: "price_items models materials now 0 [item] ?run0 = Inr run" and q: "q = quote_of run"
    using assms(1) by (auto simp: price_doors_def res_iff simp del: price_items.simps)
  then obtain rs l where line: "price_line models materials now 0 item = Inr (rs, l)" by (auto simp: res_iff)
  have a: "ln_total l = Some t"
    using run q line assms(2)
    by (cases "ln_total l") (auto simp: quote_of_def Let_def checked_money_def res_iff)
  have adds: "line_adds_up l" "ln_quantity l = the_int (di_quantity item)"
    using price_line_adds_up[OF line] by simp_all
  then obtain u where "ln_unit_total l = Some u" "0 \<le> u" "0 < ln_quantity l" "t = u * ln_quantity l"
    using a by (auto simp: line_adds_up_def split: option.splits)
  with a adds show ?thesis using line that by simp
qed

text \<open>C18: A bigger door of the same model and materials, in the same number or more, never costs
  less, as long as the model's rules have positive factors and no negative waste or tax.\<close>

theorem bigger_door_never_cheaper:
  assumes "price_doors [item] models materials now = Inr q" and "dq_calculated q = Some t"
    and "price_doors [item'] models materials now = Inr q'" and "dq_calculated q' = Some t'"
    and "di_model item' = di_model item" and "di_selections item' = di_selections item"
    and "the_int (di_width item) \<le> the_int (di_width item')"
    and "the_int (di_height item) \<le> the_int (di_height item')"
    and "the_int (di_quantity item) \<le> the_int (di_quantity item')"
    and "\<forall>m \<in> set models. 0 \<le> cf_tax_bps (dm_config m)
      \<and> (\<forall>c \<in> set (cf_components (dm_config m)). 0 < dc_multiplier c \<and> 0 < dc_divisor c \<and> 0 \<le> dc_waste_bps c)"
  shows "t \<le> t'"
proof -
  obtain rs l u where a: "price_line models materials now 0 item = Inr (rs, l)" "ln_unit_total l = Some u"
    "t = u * the_int (di_quantity item)" "0 \<le> u" "0 < the_int (di_quantity item)"
    by (rule one_item_quote[OF assms(1,2)])
  obtain rs' l' u' where b: "price_line models materials now 0 item' = Inr (rs', l')" "ln_unit_total l' = Some u'"
    "t' = u' * the_int (di_quantity item')"
    by (rule one_item_quote[OF assms(3,4)])
  have "u \<le> u'"
  proof (rule price_line_mono[OF a(1,2) b(1,2) assms(5-8)])
    fix m assume "find_model models (di_model item) = Some m"
    then have "m \<in> set models" by (auto simp: find_model_def find_Some_iff)
    then show "(\<forall>c \<in> set (cf_components (dm_config m)). rule_ok c) \<and> 0 \<le> cf_tax_bps (dm_config m)"
      using assms(10) by (simp add: rule_ok_def)
  qed
  then show ?thesis using a assms(9) b(3) by (auto intro: mult_mono)
qed

theorem bigger_door_never_cheaper_witness:
  "\<exists>q t. price_doors [door_of 600 1000] [glass_door] door_materials 0 = Inr q
     \<and> dq_calculated q = Some t \<and> 46874 \<le> t"
proof -
  obtain q where q: "price_doors [door_of 500 1000] [glass_door] door_materials 0 = Inr q"
    "dq_calculated q = Some 46874" using small_door_price by (auto simp: price_doors_def res_iff quote_of_def Let_def split: if_splits)
  have "case price_doors [door_of 600 1000] [glass_door] door_materials 0 of
      Inl _ \<Rightarrow> False | Inr q \<Rightarrow> dq_calculated q \<noteq> None" by code_simp
  then obtain q' t where q': "price_doors [door_of 600 1000] [glass_door] door_materials 0 = Inr q'"
    "dq_calculated q' = Some t" by (auto split: sum.splits)
  have rules: "\<forall>m \<in> set [glass_door]. 0 \<le> cf_tax_bps (dm_config m)
      \<and> (\<forall>c \<in> set (cf_components (dm_config m)). 0 < dc_multiplier c \<and> 0 < dc_divisor c \<and> 0 \<le> dc_waste_bps c)"
    by (simp add: glass_door_def door_rule_def)
  show ?thesis
    using bigger_door_never_cheaper[OF q q' _ _ _ _ _ rules] q' by (simp add: door_of_def)
qed

text \<open>C19: Pricing never fails with a runtime error (an undefined material, a division by zero):
  whatever the items, models and materials, it answers a quotation or a declared HTTP error.\<close>

theorem door_pricing_never_crashes:
  "price_doors items models materials now \<noteq> Inl (Crash e)"
proof -
  have "no_crash (price_doors items models materials now)"
    unfolding price_doors_def by (intro no_crash_throw no_crash_andthen no_crash_items) simp_all
  then show ?thesis by (simp add: no_crash_def)
qed

lemma check_holes_Inr:
  "check_holes height positions hs = Inr () \<longleftrightarrow>
     (\<forall>x \<in> set hs. \<exists>h. x = Some h \<and> hole_ok height h) \<and> distinct (map (hole_top (the_int height) \<circ> the) hs)
     \<and> set (map (hole_top (the_int height) \<circ> the) hs) \<inter> set positions = {}"
  by (induction height positions hs rule: check_holes.induct) (auto simp: res_iff)

text \<open>C20: An item with custom drilling is accepted exactly when its sides, colour and mode are known
  and it has four holes, all on the door and no two at the same place, whether they are measured
  from its top or from its bottom.\<close>

theorem custom_drilling_accepted:
  assumes "di_manufacturing item = Some (Some v)" and "mf_drilling v = ''CUSTOM''"
    and "di_height item = JsInt height"
  shows "validate_door_manufacturing item = Inr () \<longleftrightarrow>
    mf_profile_color v \<in> {''BLACK'', ''WHITE'', ''GOLD'', ''BRONZE''}
    \<and> mf_handle_side v \<in> {''RIGHT'', ''LEFT'', ''TOP'', ''BOTTOM''}
    \<and> mf_hinge_side v \<in> {''RIGHT'', ''LEFT'', ''TOP'', ''BOTTOM''}
    \<and> (\<exists>hs. mf_holes v = Some (map Some hs) \<and> length hs = 4
        \<and> (\<forall>h \<in> set hs. is_safe_integer (ho_distance h) \<and> ho_reference h \<in> {''TOP'', ''BOTTOM''}
             \<and> 0 \<le> hole_top height h \<and> hole_top height h \<le> height
             \<and> 0 < the_int (ho_distance h) \<and> the_int (ho_distance h) \<le> height)
        \<and> distinct (map (hole_top height) hs))"
    (is "_ \<longleftrightarrow> ?c \<and> ?a \<and> ?b \<and> (\<exists>hs. ?holes hs)")
proof -
  have v: "validate_door_manufacturing item = Inr () \<longleftrightarrow> ?c \<and> ?a \<and> ?b \<and> (\<exists>xs. mf_holes v = Some xs
      \<and> length xs = 4 \<and> check_holes (JsInt height) [] xs = Inr ())"
    using assms by (auto simp: validate_door_manufacturing_def res_iff sides_def)
  have ok: "hole_ok (JsInt height) h \<longleftrightarrow> is_safe_integer (ho_distance h) \<and> ho_reference h \<in> {''TOP'', ''BOTTOM''}
      \<and> 0 \<le> hole_top height h \<and> hole_top height h \<le> height
      \<and> 0 < the_int (ho_distance h) \<and> the_int (ho_distance h) \<le> height" for h
    by (auto simp: hole_ok_def hole_top_def)
  have "(\<exists>xs. mf_holes v = Some xs \<and> length xs = 4 \<and> check_holes (JsInt height) [] xs = Inr ())
      \<longleftrightarrow> (\<exists>hs. ?holes hs)" (is "?l \<longleftrightarrow> ?r")
  proof
    assume ?l
    then obtain xs where xs: "mf_holes v = Some xs" "length xs = 4"
      "\<forall>x \<in> set xs. \<exists>h. x = Some h \<and> hole_ok (JsInt height) h"
      "distinct (map (hole_top height \<circ> the) xs)" by (auto simp: check_holes_Inr)
    have "xs = map Some (map the xs)" using xs(3) by (intro nth_equalityI) (auto simp: all_set_conv_all_nth)
    with xs show ?r by (intro exI[of _ "map the xs"]) (auto simp: ok)
  next
    assume ?r
    then show ?l by (auto simp: check_holes_Inr ok comp_def)
  qed
  with v show ?thesis by simp
qed

definition drilled_door :: door_item where
  "drilled_door = (door_of 500 1000)\<lparr>di_manufacturing := Some (Some
     \<lparr>mf_profile_color = ''BLACK'', mf_handle_side = ''LEFT'', mf_hinge_side = ''RIGHT'', mf_drilling = ''CUSTOM'',
      mf_holes = Some (map (\<lambda>(r, d). Some \<lparr>ho_reference = r, ho_distance = JsInt d\<rparr>)
        [(''TOP'', 100), (''TOP'', 300), (''BOTTOM'', 300), (''BOTTOM'', 900)])\<rparr>)\<rparr>"

theorem custom_drilling_accepted_witness:
  "validate_door_manufacturing drilled_door \<noteq> Inr ()"
proof -
  let ?v = "the (the (di_manufacturing drilled_door))"
  have "di_manufacturing drilled_door = Some (Some ?v)" "mf_drilling ?v = ''CUSTOM''"
    "di_height drilled_door = JsInt 1000" by (simp_all add: drilled_door_def door_of_def)
  note c = custom_drilling_accepted[OF this]
  have "\<not> distinct (map (hole_top 1000) hs)" if "mf_holes ?v = Some (map Some hs)" for hs
  proof -
    have "hs = map the (the (mf_holes ?v))" using that by (simp add: comp_def)
    then show ?thesis by (simp add: drilled_door_def hole_top_def)
  qed
  with c show ?thesis by blast
qed

end
