(* ===== verification/Json.thy ===== *)
theory Json
  imports Prelude
begin

text \<open>
  \<open>JSON.stringify\<close> on the flat objects the services hash into the fingerprint of a request, and the
  proof that two requests with the same text are the same request.
\<close>

section \<open>Rendering\<close>

definition digit :: "nat \<Rightarrow> char" where
  "digit n = char_of (48 + n)"

fun show_nat :: "nat \<Rightarrow> string" where
  "show_nat n = (if n < 10 then [digit n] else show_nat (n div 10) @ [digit (n mod 10)])"

declare show_nat.simps [simp del]

definition show_int :: "int \<Rightarrow> string" where
  "show_int i = (if i < 0 then CHR ''-'' # show_nat (nat (- i)) else show_nat (nat i))"

definition hex_digit :: "nat \<Rightarrow> char" where
  "hex_digit n = char_of (if n < 10 then 48 + n else 87 + n)"

abbreviation quote_char :: char where "quote_char \<equiv> CHR 0x22"
abbreviation backslash :: char where "backslash \<equiv> CHR 0x5C"

definition json_escape :: "char \<Rightarrow> string" where
  "json_escape c =
     (let n = of_char c :: nat in
      if c = quote_char then [backslash, quote_char]
      else if c = backslash then [backslash, backslash]
      else if n = 8 then [backslash, CHR ''b'']
      else if n = 9 then [backslash, CHR ''t'']
      else if n = 10 then [backslash, CHR ''n'']
      else if n = 12 then [backslash, CHR ''f'']
      else if n = 13 then [backslash, CHR ''r'']
      else if n < 32 then backslash # ''u00'' @ [hex_digit (n div 16), hex_digit (n mod 16)]
      else [c])"

definition json_string :: "string \<Rightarrow> string" where
  "json_string s = quote_char # concat (map json_escape s) @ [quote_char]"

fun json_value :: "jval \<Rightarrow> string" where
  "json_value JNull = ''null''"
| "json_value (JBool b) = (if b then ''true'' else ''false'')"
| "json_value (JNum i) = show_int i"
| "json_value (JStr s) = json_string s"
| "json_value (JId i) = json_string (show_nat i)"

fun json_fields :: "(string \<times> jval) list \<Rightarrow> string" where
  "json_fields [] = ''}''"
| "json_fields [(k, v)] = json_string k @ '':'' @ json_value v @ ''}''"
| "json_fields ((k, v) # xs) = json_string k @ '':'' @ json_value v @ '','' @ json_fields xs"

text \<open>An array of plain values.\<close>

fun json_items :: "jval list \<Rightarrow> string" where
  "json_items [] = '']''"
| "json_items [v] = json_value v @ '']''"
| "json_items (v # vs) = json_value v @ '','' @ json_items vs"

definition json_array :: "jval list \<Rightarrow> string" where
  "json_array vs = CHR ''['' # json_items vs"

definition json_object :: "(string \<times> jval) list \<Rightarrow> string" where
  "json_object xs = CHR 0x7B # json_fields xs"

section \<open>Evaluating on binary numerals\<close>

text \<open>The same text computed with integers, for the evaluation of examples.\<close>

lemma json_escape_code [code]:
  "json_escape c =
     (if c = quote_char then [backslash, quote_char]
      else if c = backslash then [backslash, backslash]
      else if (of_char c :: int) < 32 then
        (let n = of_char c :: nat in if n = 8 then [backslash, CHR ''b'']
         else if n = 9 then [backslash, CHR ''t'']
         else if n = 10 then [backslash, CHR ''n'']
         else if n = 12 then [backslash, CHR ''f'']
         else if n = 13 then [backslash, CHR ''r'']
         else backslash # ''u00'' @ [hex_digit (n div 16), hex_digit (n mod 16)])
      else [c])"
  unfolding json_escape_def Let_def of_nat_of_char[symmetric, where 'a = int] by auto

function show_digits :: "int \<Rightarrow> string" where
  "show_digits i = (if i < 10 then [''0123456789'' ! nat i]
     else show_digits (i div 10) @ [''0123456789'' ! nat (i mod 10)])"
  by auto
termination by (relation "measure nat") auto

declare show_digits.simps [simp del]

lemma digit_nth: "n < 10 \<Longrightarrow> digit n = ''0123456789'' ! n"
proof -
  assume "n < 10"
  then have "n \<in> {0, 1, 2, 3, 4, 5, 6, 7, 8, 9}" by auto
  then show ?thesis unfolding digit_def by (elim insertE emptyE; hypsubst; code_simp)
qed

lemma show_nat_digits: "0 \<le> i \<Longrightarrow> show_nat (nat i) = show_digits i"
proof (induction i rule: show_digits.induct)
  case (1 i)
  show ?case
  proof (cases "i < 10")
    case True
    then have "nat i < 10" using 1(2) by simp
    then show ?thesis using True by (subst show_nat.simps, subst show_digits.simps) (simp add: digit_nth)
  next
    case False
    have "show_nat (nat i div 10) = show_digits (i div 10)" using 1 False by (simp add: nat_div_distrib)
    moreover have "digit (nat i mod 10) = ''0123456789'' ! nat (i mod 10)"
      using digit_nth[of "nat (i mod 10)"] 1(2) by (simp add: nat_mod_distrib)
    moreover have "\<not> nat i < 10" using False by simp
    ultimately show ?thesis
      using False by (subst show_nat.simps, subst show_digits.simps) simp
  qed
qed

lemma show_int_code [code]: "show_int i = (if i < 0 then CHR ''-'' # show_digits (- i) else show_digits i)"
  by (simp add: show_int_def show_nat_digits)

section \<open>Reading back\<close>

definition unhex :: "char \<Rightarrow> nat" where
  "unhex c = (let n = of_char c :: nat in if n < 58 then n - 48 else n - 87)"

fun json_read :: "string \<Rightarrow> (string \<times> string) option" where
  "json_read [] = None"
| "json_read (c # r) =
     (if c = quote_char then Some ([], r)
      else if c \<noteq> backslash then map_option (\<lambda>(s, t). (c # s, t)) (json_read r)
      else case r of
        [] \<Rightarrow> None
      | e # r' \<Rightarrow>
          if e = CHR ''u''
          then (case r' of a # b # x # y # r'' \<Rightarrow>
                 map_option (\<lambda>(s, t). (char_of (16 * unhex x + unhex y) # s, t)) (json_read r'')
               | _ \<Rightarrow> None)
          else map_option (\<lambda>(s, t). ((if e = CHR ''b'' then char_of (8::nat)
              else if e = CHR ''t'' then char_of (9::nat) else if e = CHR ''n'' then char_of (10::nat)
              else if e = CHR ''f'' then char_of (12::nat) else if e = CHR ''r'' then char_of (13::nat)
              else e) # s, t)) (json_read r'))"

lemma hex_small: "n < 16 \<Longrightarrow> unhex (hex_digit n) = n"
  by (auto simp: unhex_def hex_digit_def of_char_of Let_def)

lemma json_read_escape:
  "json_read (json_escape c @ r) = map_option (\<lambda>(s, t). (c # s, t)) (json_read r)"
proof -
  define n where "n = (of_char c :: nat)"
  have c: "char_of n = c" by (simp add: n_def)
  have hex: "16 * unhex (hex_digit (n div 16)) + unhex (hex_digit (n mod 16)) = n" if "n < 32"
    using that by (simp add: hex_small)
  consider "c = quote_char" | "c = backslash" | "n = 8" | "n = 9" | "n = 10" | "n = 12" | "n = 13"
    | "c \<noteq> quote_char" "c \<noteq> backslash" "n \<notin> {8, 9, 10, 12, 13}" "n < 32"
    | "c \<noteq> quote_char" "c \<noteq> backslash" "\<not> n < 32"
    by fastforce
  then show ?thesis
  proof cases
    case 8
    then show ?thesis using hex c by (simp add: json_escape_def Let_def flip: n_def)
  next
    case 9
    then have "json_escape c = [c]" by (simp add: json_escape_def Let_def flip: n_def)
    then show ?thesis using 9 by simp
  qed (use c in \<open>auto simp: json_escape_def Let_def simp flip: n_def\<close>)
qed

lemma json_read_string: "json_read (concat (map json_escape s) @ quote_char # r) = Some (s, r)"
  by (induction s) (simp_all only: list.map concat.simps append_assoc json_read_escape append_Nil
    option.map prod.case json_read.simps simp_thms if_True)

lemma json_string_prefix:
  "json_string s @ r = json_string t @ r' \<Longrightarrow> s = t \<and> r = r'"
proof -
  assume "json_string s @ r = json_string t @ r'"
  then have "json_read (concat (map json_escape s) @ quote_char # r)
      = json_read (concat (map json_escape t) @ quote_char # r')"
    by (simp add: json_string_def)
  then show ?thesis by (simp only: json_read_string option.inject prod.inject)
qed

section \<open>The text determines the object\<close>

definition is_number_char :: "char \<Rightarrow> bool" where
  "is_number_char c \<longleftrightarrow> c = CHR ''-'' \<or> (let n = of_char c :: nat in 48 \<le> n \<and> n \<le> 57)"

definition parse_nat :: "string \<Rightarrow> nat" where
  "parse_nat s = foldl (\<lambda>n c. 10 * n + (of_char c - 48)) 0 s"

lemma digit_facts:
  "n < 10 \<Longrightarrow> of_char (digit n) = 48 + n" "n < 10 \<Longrightarrow> is_number_char (digit n)"
  "n < 10 \<Longrightarrow> digit n \<noteq> CHR ''-''"
proof -
  assume n: "n < 10"
  show of: "of_char (digit n) = 48 + n" using n by (simp add: digit_def of_char_of)
  show "is_number_char (digit n)" unfolding is_number_char_def Let_def of using n by simp
  show "digit n \<noteq> CHR ''-''"
  proof
    assume "digit n = CHR ''-''"
    then have "of_char (digit n) = (45 :: nat)" by simp
    with of show False by simp
  qed
qed

lemma parse_show_nat: "parse_nat (show_nat n) = n"
proof (induction n rule: show_nat.induct)
  case (1 n)
  show ?case
  proof (cases "n < 10")
    case True
    then show ?thesis by (subst show_nat.simps) (simp add: parse_nat_def digit_facts)
  next
    case False
    then have "parse_nat (show_nat (n div 10)) = n div 10" using 1 by simp
    with False show ?thesis
      by (subst show_nat.simps) (simp add: parse_nat_def digit_facts)
  qed
qed

lemma show_nat_inj: "show_nat m = show_nat n \<longleftrightarrow> m = n"
  by (metis parse_show_nat)

lemma show_nat_chars: "list_all is_number_char (show_nat n) \<and> show_nat n \<noteq> [] \<and> hd (show_nat n) \<noteq> CHR ''-''"
proof (induction n rule: show_nat.induct)
  case (1 n)
  show ?case
  proof (cases "n < 10")
    case False
    then have "show_nat n = show_nat (n div 10) @ [digit (n mod 10)]" by (subst show_nat.simps) simp
    then show ?thesis using 1[OF False] by (simp add: digit_facts hd_append)
  next
    case True
    then have "show_nat n = [digit n]" by (subst show_nat.simps) simp
    with True show ?thesis by (simp add: digit_facts)
  qed
qed

lemma show_int_chars: "list_all is_number_char (show_int i)"
  using show_nat_chars by (simp add: show_int_def is_number_char_def)

lemma show_int_inj: "show_int i = show_int j \<Longrightarrow> i = j"
proof -
  assume e: "show_int i = show_int j"
  have hd: "hd (show_nat n) \<noteq> CHR ''-''" for n using show_nat_chars by blast
  have "i < 0 \<longleftrightarrow> j < 0" using e hd[of "nat i"] hd[of "nat j"] unfolding show_int_def
    by (metis list.sel(1))
  with e show ?thesis by (auto simp: show_int_def show_nat_inj split: if_splits)
qed

lemma number_prefix:
  assumes "list_all P xs" "list_all P ys" "\<not> P c" "\<not> P d" "xs @ c # r = ys @ d # r'"
  shows "xs = ys \<and> r = r' \<and> c = d"
  using assms
proof (induction xs arbitrary: ys)
  case Nil
  then show ?case by (cases ys) auto
next
  case (Cons x xs)
  then show ?case by (cases ys) auto
qed

text \<open>Identifiers are strings to JavaScript.\<close>

fun plain :: "jval \<Rightarrow> jval" where
  "plain (JId i) = JStr (show_nat i)"
| "plain v = v"

lemma json_value_plain: "json_value v = json_value (plain v)"
  by (cases v) simp_all

definition ends_value :: "char \<Rightarrow> bool" where
  "ends_value c \<longleftrightarrow> c = CHR '','' \<or> c = CHR 0x7D"

lemma ends_value_no_number: "ends_value c \<Longrightarrow> \<not> is_number_char c"
  by (auto simp: ends_value_def is_number_char_def)

text \<open>The first character of a value tells its kind.\<close>

lemma json_value_head:
  "hd (json_value (JNum i)) = CHR ''-'' \<or> 48 \<le> (of_char (hd (json_value (JNum i))) :: nat)
     \<and> (of_char (hd (json_value (JNum i))) :: nat) \<le> 57"
  "json_value v \<noteq> []"
proof -
  have "show_int i \<noteq> []" using show_nat_chars by (simp add: show_int_def)
  then have "is_number_char (hd (show_int i))"
    using show_int_chars[of i] by (cases "show_int i") simp_all
  then show "hd (json_value (JNum i)) = CHR ''-'' \<or> 48 \<le> (of_char (hd (json_value (JNum i))) :: nat)
     \<and> (of_char (hd (json_value (JNum i))) :: nat) \<le> 57"
    by (auto simp: is_number_char_def Let_def)
  show "json_value v \<noteq> []"
    using show_nat_chars by (cases v) (simp_all add: show_int_def json_string_def)
qed

lemma number_head: "\<exists>c s. show_int i = c # s \<and> is_number_char c"
proof -
  have "show_int i \<noteq> []" using show_nat_chars by (simp add: show_int_def)
  then show ?thesis using show_int_chars[of i] by (cases "show_int i") simp_all
qed

lemma not_number [simp]:
  "\<not> is_number_char CHR ''n''" "\<not> is_number_char CHR ''t''" "\<not> is_number_char CHR ''f''"
  "\<not> is_number_char quote_char"
  by (simp_all add: is_number_char_def)

lemma plain_value_prefix:
  assumes e: "json_value v @ c # r = json_value w @ d # r'"
    and ends: "ends_value c" "ends_value d"
    and pl: "plain v = v" "plain w = w"
  shows "v = w \<and> c = d \<and> r = r'"
proof (cases v)
  case (JNum i)
  obtain x s where x: "show_int i = x # s" "is_number_char x" using number_head by blast
  show ?thesis
  proof (cases w)
    case (JNum j)
    have "show_int i @ c # r = show_int j @ d # r'" using e by (simp add: \<open>v = JNum i\<close> JNum)
    from number_prefix[OF show_int_chars show_int_chars ends_value_no_number[OF ends(1)]
        ends_value_no_number[OF ends(2)] this]
    show ?thesis using show_int_inj by (simp add: \<open>v = JNum i\<close> JNum)
  qed (use e x pl in \<open>auto simp: \<open>v = JNum i\<close> json_string_def split: if_splits\<close>)
next
  case (JStr s)
  show ?thesis
  proof (cases w)
    case (JStr t)
    have "json_string s @ (c # r) = json_string t @ (d # r')" using e by (simp add: \<open>v = JStr s\<close> JStr)
    from json_string_prefix[OF this] show ?thesis by (simp add: \<open>v = JStr s\<close> JStr)
  next
    case (JNum j)
    obtain x u where "show_int j = x # u" "is_number_char x" using number_head by blast
    then show ?thesis using e by (auto simp: \<open>v = JStr s\<close> JNum json_string_def)
  qed (use e pl in \<open>auto simp: \<open>v = JStr s\<close> json_string_def split: if_splits\<close>)
next
  case JNull
  show ?thesis
  proof (cases w)
    case (JNum j)
    obtain x u where "show_int j = x # u" "is_number_char x" using number_head by blast
    then show ?thesis using e by (auto simp: \<open>v = JNull\<close> JNum)
  qed (use e pl in \<open>auto simp: \<open>v = JNull\<close> json_string_def split: if_splits\<close>)
next
  case (JBool b)
  show ?thesis
  proof (cases w)
    case (JNum j)
    obtain x u where "show_int j = x # u" "is_number_char x" using number_head by blast
    then show ?thesis using e by (auto simp: \<open>v = JBool b\<close> JNum split: if_splits)
  qed (use e pl in \<open>auto simp: \<open>v = JBool b\<close> json_string_def split: if_splits\<close>)
qed (use pl in simp)

lemma value_prefix:
  assumes "json_value v @ c # r = json_value w @ d # r'" "ends_value c" "ends_value d"
  shows "plain v = plain w \<and> c = d \<and> r = r'"
proof -
  have "plain (plain v) = plain v" for v by (cases v) simp_all
  then show ?thesis
    using plain_value_prefix[of "plain v" c r "plain w" d r'] assms by (simp flip: json_value_plain)
qed

lemma json_fields_inj:
  "json_fields xs = json_fields ys \<Longrightarrow> map (\<lambda>(k, v). (k, plain v)) xs = map (\<lambda>(k, v). (k, plain v)) ys"
proof (induction xs arbitrary: ys rule: json_fields.induct)
  case 1
  then show ?case by (cases ys rule: json_fields.cases) (simp_all add: json_string_def)
next
  case (2 k v)
  show ?case
  proof (cases ys rule: json_fields.cases)
    case (2 k' v')
    with json_string_prefix[of k "CHR '':'' # json_value v @ ''}''" k' "CHR '':'' # json_value v' @ ''}''"]
      value_prefix[of v "CHR 0x7D" "[]" v' "CHR 0x7D" "[]"] 2 "2.prems"
    show ?thesis by (simp add: ends_value_def)
  next
    case (3 k' v' x zs)
    with json_string_prefix[of k "CHR '':'' # json_value v @ ''}''" k'
        "CHR '':'' # json_value v' @ '','' @ json_fields (x # zs)"]
      value_prefix[of v "CHR 0x7D" "[]" v' "CHR '',''" "json_fields (x # zs)"] "2.prems"
    show ?thesis by (simp add: ends_value_def)
  qed (use "2.prems" in \<open>simp add: json_string_def\<close>)
next
  case (3 k v x zs)
  show ?case
  proof (cases ys rule: json_fields.cases)
    case (2 k' v')
    with json_string_prefix[of k "CHR '':'' # json_value v @ '','' @ json_fields (x # zs)" k'
        "CHR '':'' # json_value v' @ ''}''"]
      value_prefix[of v "CHR '',''" "json_fields (x # zs)" v' "CHR 0x7D" "[]"] "3.prems"
    show ?thesis by (simp add: ends_value_def)
  next
    case (3 k' v' x' zs')
    with json_string_prefix[of k "CHR '':'' # json_value v @ '','' @ json_fields (x # zs)" k'
        "CHR '':'' # json_value v' @ '','' @ json_fields (x' # zs')"]
      value_prefix[of v "CHR '',''" "json_fields (x # zs)" v' "CHR '',''" "json_fields (x' # zs')"]
      "3.prems" "3.IH"[of "x' # zs'"]
    show ?thesis by (simp add: ends_value_def)
  qed (use "3.prems" in \<open>simp add: json_string_def\<close>)
qed

lemma json_object_inj:
  "json_object xs = json_object ys \<Longrightarrow> map (\<lambda>(k, v). (k, plain v)) xs = map (\<lambda>(k, v). (k, plain v)) ys"
  unfolding json_object_def by (rule json_fields_inj) (simp only: list.inject simp_thms)

end
