(* ===== verification/Market.thy ===== *)
theory Market
  imports Inventory_Commands Promotion_Capacity Json
begin

text \<open>
  The tables of the shop front: what is for sale at which price, the carts of the customers, the
  shipping methods and quotes, and the records that make cart changes and checkouts idempotent.
\<close>

text \<open>The columns of \<open>ProductVariant\<close> and \<open>Product\<close> that carts and orders read; their status is in the
  inventory.\<close>

record goods =
  gd_product :: uid
  gd_category :: "uid option"
  gd_brand :: "uid option"
  gd_sku :: string
  gd_product_title :: string
  gd_variant_title :: "string option"
  gd_price :: int

section \<open>Carts\<close>

text \<open>A cart of a customer with its items (one per variant) and its \<open>CartCouponIntent\<close>.\<close>

record cart =
  ca_customer :: uid
  ca_version :: int
  ca_items :: "(uid \<times> int) list"
  ca_coupon :: "string option"

record cart_line =
  cl_variant :: uid
  cl_quantity :: int
  cl_title :: string
  cl_sku :: string
  cl_unit_price :: int
  cl_total :: int
  cl_available :: int

record cart_view =
  cv_id :: "uid option"
  cv_version :: int
  cv_lines :: "cart_line list"
  cv_subtotal :: int
  cv_quoted :: int

text \<open>\<open>cm_legacy\<close> is the plain key of rows written by earlier releases, \<open>cm_key\<close> the hashed one.\<close>

record cart_mutation =
  cm_customer :: uid
  cm_scope :: string
  cm_legacy :: "string option"
  cm_key :: "string option"
  cm_fingerprint :: string
  cm_answer :: cart_view
  cm_expires :: int

section \<open>Shipping and checkout\<close>

record address =
  ad_province :: string
  ad_city :: string
  ad_street :: string
  ad_postal_code :: string
  ad_recipient :: string
  ad_mobile :: string

record shipping_method =
  sm_code :: string
  sm_title :: string
  sm_amount :: int
  sm_policy :: string
  sm_active :: bool

record shipping_quote =
  sq_customer :: uid
  sq_cart :: uid
  sq_cart_version :: int
  sq_method :: uid
  sq_code :: string
  sq_title :: string
  sq_address :: string
  sq_subtotal :: int
  sq_amount :: int
  sq_price_policy :: string
  sq_policy :: string
  sq_discount :: int
  sq_expires :: int
  sq_consumed :: "int option"
  sq_order :: "uid option"

record checkout_answer =
  ck_order :: uid
  ck_number :: string
  ck_lines :: "(uid \<times> int \<times> int) list"
  ck_subtotal :: int
  ck_discount :: int
  ck_promotions :: "applied_promotion list"
  ck_coupon :: "string option"
  ck_shipping :: int
  ck_total :: int
  ck_address :: address
  ck_quote :: "uid \<times> shipping_quote"
  ck_expires :: int
  ck_created :: int
  ck_reservations :: "(uid \<times> uid \<times> int) list"

record checkout_record =
  kr_customer :: uid
  kr_key :: string
  kr_fingerprint :: string
  kr_order :: "uid option"
  kr_answer :: "checkout_answer option"
  kr_expires :: int

record market_db =
  goods_table :: "(uid \<times> goods) list"
  carts :: "(uid \<times> cart) list"
  cart_mutations :: "(uid \<times> cart_mutation) list"
  shipping_methods :: "(uid \<times> shipping_method) list"
  shipping_quotes :: "(uid \<times> shipping_quote) list"
  checkout_records :: "checkout_record list"

definition empty_market :: market_db where
  "empty_market = \<lparr>goods_table = [], carts = [], cart_mutations = [], shipping_methods = [],
     shipping_quotes = [], checkout_records = []\<rparr>"

end
