(* ===== verification/Shop_State.thy ===== *)
theory Shop_State
  imports Market Door_Pricing Retry
begin

text \<open>
  The state the commercial services share: orders, payments, refunds, fulfillments, their immutable
  histories, the records that make commands idempotent and the outbox, beside the inventory and the
  promotions; and the writes they make. Custom door orders have their own tables.
\<close>

section \<open>Orders and payments\<close>

record order_item =
  oi_variant :: uid
  oi_quantity :: int
  oi_unit_price :: int

record order_row =
  or_number :: string
  or_customer :: uid
  or_status :: order_status
  or_subtotal :: int
  or_discount :: int
  or_shipping :: int
  or_total :: int
  or_expires :: int
  or_address :: "string option"
  or_items :: "(uid \<times> order_item) list"

record payment =
  pay_order :: uid
  pay_provider :: string
  pay_amount :: int
  pay_status :: payment_status
  pay_authority :: "string option"
  pay_reference :: "string option"
  pay_refunded :: int
  pay_key :: string
  pay_fingerprint :: string
  pay_correlation :: "string option"
  pay_environment :: string

record refund =
  rf_payment :: uid
  rf_amount :: int
  rf_reference :: string
  rf_reason :: string
  rf_note :: "string option"
  rf_key :: string
  rf_fingerprint :: string
  rf_actor :: string
  rf_request :: string
  rf_created :: int

record receivable =
  rv_customer :: uid
  rv_order :: "uid option"
  rv_kind :: string
  rv_amount :: int
  rv_issued :: int
  rv_entries :: "(string \<times> int \<times> int) list"

record customer =
  cu_user :: string
  cu_active :: bool

section \<open>Fulfillment\<close>

record fulfillment =
  fu_order :: uid
  fu_status :: fulfillment_status

record pick =
  pk_fulfillment :: uid
  pk_item :: uid
  pk_quantity :: int
  pk_actor :: string
  pk_request :: string
  pk_created :: int

record shipment =
  sh_order :: uid
  sh_fulfillment :: uid
  sh_carrier :: string
  sh_tracking :: string
  sh_address :: "string option"
  sh_lines :: "(uid \<times> int) list"
  sh_actor :: string
  sh_request :: string
  sh_dispatched :: int

section \<open>Command records and the outbox\<close>

text \<open>The stored answers (\<open>responseJson\<close>) of the commands on orders.\<close>

datatype answer =
    Cancelled_answer uid string nat int
  | Fulfillment_answer uid uid fulfillment_status int
  | Pick_answer uid uid int string string int
  | Dispatch_answer uid string string int
  | Delivery_answer uid uid string int

record command_record =
  ir_order :: uid
  ir_scope :: string
  ir_key :: string
  ir_fingerprint :: string
  ir_answer :: "answer option"
  ir_expires :: int

text \<open>A deduplication key \<open>prefix:id\<close> or \<open>prefix:id:suffix\<close>.\<close>

datatype dedup_key = Dedup string uid string

record outbox_event =
  ob_topic :: string
  ob_aggregate :: string
  ob_aggregate_id :: uid
  ob_key :: dedup_key
  ob_payload :: "(string \<times> jval) list"

section \<open>Custom door orders\<close>

record door_order =
  do_status :: door_status
  do_version :: int
  do_quote_version :: int
  do_technical :: bool
  do_accepted :: "int option"
  do_delivery :: "string option"
  do_items :: "(door_item \<times> string) list"

record door_quotation =
  qt_order :: uid
  qt_version :: int
  qt_approved :: bool
  qt_total :: "int option"
  qt_deposit :: "int option"
  qt_snapshot :: door_quote
  qt_approved_by :: "string option"

record door_requirement =
  rq_order :: uid
  rq_quote :: uid
  rq_part :: door_part
  rq_quantity :: "int option"
  rq_reservation :: "uid option"
  rq_consumed :: "int option"

record door_record =
  dr_order :: uid
  dr_action :: string
  dr_message :: string
  dr_payload :: "(string \<times> jval) list"
  dr_actor :: "string option"

record door_db =
  door_models :: "door_model list"
  door_materials :: "door_material list"
  door_orders :: "(uid \<times> door_order) list"
  door_quotations :: "(uid \<times> door_quotation) list"
  door_allocations :: "(uid \<times> uid) list"
  door_requirements :: "(uid \<times> door_requirement) list"
  door_records :: "door_record list"
  door_commands :: "(string \<times> string \<times> uid) list"

section \<open>The shop\<close>

record shop_db =
  stock :: inv_db
  promo :: promo_db
  doors :: door_db
  market :: market_db
  customers :: "(uid \<times> customer) list"
  orders :: "(uid \<times> order_row) list"
  order_log :: "order_status transition_row list"
  payments :: "(uid \<times> payment) list"
  payment_log :: "payment_status transition_row list"
  refunds :: "(uid \<times> refund) list"
  receivables :: "(uid \<times> receivable) list"
  fulfillments :: "(uid \<times> fulfillment) list"
  fulfillment_log :: "fulfillment_status transition_row list"
  picks :: "(uid \<times> pick) list"
  shipments :: "(uid \<times> shipment) list"
  command_records :: "command_record list"
  outbox :: "outbox_event list"
  next_row :: uid

definition empty_doors :: door_db where
  "empty_doors = \<lparr>door_models = [], door_materials = [], door_orders = [], door_quotations = [], door_allocations = [],
     door_requirements = [], door_records = [], door_commands = []\<rparr>"

definition empty_promo :: promo_db where
  "empty_promo = \<lparr>promotions = [], coupons = [], redemptions = [], categories = [], next_redemption = 0\<rparr>"

definition empty_shop :: shop_db where
  "empty_shop = \<lparr>stock = empty_db, promo = empty_promo, doors = empty_doors, market = empty_market, customers = [],
     orders = [], order_log = [], payments = [], payment_log = [], refunds = [], receivables = [],
     fulfillments = [], fulfillment_log = [], picks = [], shipments = [], command_records = [],
     outbox = [], next_row = 0\<rparr>"

definition is_door_order :: "shop_db \<Rightarrow> uid \<Rightarrow> bool" where
  "is_door_order sh oid \<longleftrightarrow> map_of (door_orders (doors sh)) oid \<noteq> None"

definition payments_of :: "shop_db \<Rightarrow> uid \<Rightarrow> (uid \<times> payment) list" where
  "payments_of sh oid = filter (\<lambda>(_, p). pay_order p = oid) (payments sh)"

definition fulfillment_of :: "shop_db \<Rightarrow> uid \<Rightarrow> (uid \<times> fulfillment) option" where
  "fulfillment_of sh oid = List.find (\<lambda>(_, f). fu_order f = oid) (fulfillments sh)"

definition customer_of_user :: "shop_db \<Rightarrow> string \<Rightarrow> (uid \<times> customer) option" where
  "customer_of_user sh user = List.find (\<lambda>(_, c). cu_user c = user) (customers sh)"

section \<open>Writes\<close>

definition audit :: "audit_event \<Rightarrow> shop_db \<Rightarrow> shop_db" where
  "audit e sh = sh\<lparr>stock := record_audit e (stock sh)\<rparr>"

definition add_outbox :: "outbox_event \<Rightarrow> shop_db \<Rightarrow> shop_db res" where
  "add_outbox e sh =
     throw_if (ob_key e \<in> ob_key ` set (outbox sh)) (DbError ''P2002'')
       (Inr (sh\<lparr>outbox := outbox sh @ [e]\<rparr>))"

text \<open>\<open>recordTransition\<close> on the three machines; \<open>info\<close> is the actor, the request and the reason.\<close>

type_synonym change_info = "string option \<times> string option \<times> string option"

definition order_step :: "uid \<Rightarrow> order_status \<Rightarrow> order_status \<Rightarrow> change_info \<Rightarrow> shop_db \<Rightarrow> shop_db res" where
  "order_step i s t info sh =
     andthen (record_transition order_transitions or_status (\<lambda>st r. r\<lparr>or_status := st\<rparr>) i s t info
       (orders sh, order_log sh)) (\<lambda>(rows, rlog). Inr (sh\<lparr>orders := rows, order_log := rlog\<rparr>))"

definition payment_step :: "uid \<Rightarrow> payment_status \<Rightarrow> payment_status \<Rightarrow> change_info \<Rightarrow> shop_db \<Rightarrow> shop_db res" where
  "payment_step i s t info sh =
     andthen (record_transition payment_transitions pay_status (\<lambda>st r. r\<lparr>pay_status := st\<rparr>) i s t info
       (payments sh, payment_log sh)) (\<lambda>(rows, rlog). Inr (sh\<lparr>payments := rows, payment_log := rlog\<rparr>))"

definition fulfillment_step ::
  "uid \<Rightarrow> fulfillment_status \<Rightarrow> fulfillment_status \<Rightarrow> change_info \<Rightarrow> shop_db \<Rightarrow> shop_db res" where
  "fulfillment_step i s t info sh =
     andthen (record_transition fulfillment_transitions fu_status (\<lambda>st r. r\<lparr>fu_status := st\<rparr>) i s t info
       (fulfillments sh, fulfillment_log sh)) (\<lambda>(rows, rlog).
     Inr (sh\<lparr>fulfillments := rows, fulfillment_log := rlog\<rparr>))"

text \<open>A step of the inventory or of the promotions inside the transaction of a shop command.\<close>

definition on_stock :: "(inv_db \<Rightarrow> ('a \<times> inv_db) res) \<Rightarrow> shop_db \<Rightarrow> ('a \<times> shop_db) res" where
  "on_stock f sh = andthen (f (stock sh)) (\<lambda>(a, db). Inr (a, sh\<lparr>stock := db\<rparr>))"

definition on_promo :: "(promo_db \<Rightarrow> promo_db) \<Rightarrow> shop_db \<Rightarrow> shop_db" where
  "on_promo f sh = sh\<lparr>promo := f (promo sh)\<rparr>"

definition put_payment :: "uid \<Rightarrow> payment \<Rightarrow> shop_db \<Rightarrow> shop_db" where
  "put_payment i p sh = sh\<lparr>payments := AList.update i p (payments sh)\<rparr>"

section \<open>Idempotent commands\<close>

definition find_record :: "uid \<Rightarrow> string \<Rightarrow> string \<Rightarrow> shop_db \<Rightarrow> command_record option" where
  "find_record oid scope key sh =
     List.find (\<lambda>r. ir_order r = oid \<and> ir_scope r = scope \<and> ir_key r = key) (command_records sh)"

text \<open>\<open>orderCommandIdempotencyRecord.create\<close>: the triple is unique and the order must exist.\<close>

definition add_record :: "command_record \<Rightarrow> shop_db \<Rightarrow> shop_db res" where
  "add_record r sh =
     throw_if (find_record (ir_order r) (ir_scope r) (ir_key r) sh \<noteq> None) (DbError ''P2002'')
     (throw_if (map_of (orders sh) (ir_order r) = None) (DbError ''P2003'')
     (Inr (sh\<lparr>command_records := command_records sh @ [r]\<rparr>)))"

text \<open>What a record found under the key of a new request means: the same request is answered from it,
  a different one is refused, and an unfinished one is \<open>busy\<close>.\<close>

definition replayed :: "command_record \<Rightarrow> string \<Rightarrow> api_error \<Rightarrow> answer res" where
  "replayed r fingerprint busy =
     throw_if (ir_fingerprint r \<noteq> fingerprint) (Conflict ''IDEMPOTENCY_CONFLICT'')
     (need (ir_answer r) busy Inr)"

section \<open>Financial proof\<close>

text \<open>\<open>hasFulfillmentFinancialProof\<close>: a cash order has a settled payment; a credit order has one sale
  document for its total, one matching ledger entry and no payment at all.\<close>

definition receivable_of :: "shop_db \<Rightarrow> uid \<Rightarrow> receivable option" where
  "receivable_of sh oid = map_option snd (List.find (\<lambda>(_, r). rv_order r = Some oid) (receivables sh))"

definition settled_payments :: "shop_db \<Rightarrow> uid \<Rightarrow> (uid \<times> payment) list" where
  "settled_payments sh oid =
     filter (\<lambda>(_, p). pay_status p = PAY_PAID \<or> pay_status p = PAY_PARTIALLY_REFUNDED) (payments_of sh oid)"

definition has_financial_proof :: "shop_db \<Rightarrow> uid \<Rightarrow> order_row \<Rightarrow> bool" where
  "has_financial_proof sh oid order =
     (if or_status order = OS_PAID then settled_payments sh oid \<noteq> []
      else if or_status order \<noteq> OS_CREDIT_APPROVED then False
      else case receivable_of sh oid of
        None \<Rightarrow> False
      | Some d \<Rightarrow> rv_kind d = ''SALE'' \<and> rv_customer d = or_customer order \<and> rv_amount d = or_total order
          \<and> payments_of sh oid = []
          \<and> (case filter (\<lambda>e. fst e = ''SALE'') (rv_entries d) of
               [e] \<Rightarrow> fst (snd e) = rv_amount d \<and> snd (snd e) = rv_issued d
             | _ \<Rightarrow> False))"

section \<open>The machines\<close>

text \<open>The rows of the shop are run by the status machines: no row ever leaves a final status, orders
  and fulfillments only move forward.\<close>

interpretation order_rows: forward_machine order_transitions order_final or_status
  "\<lambda>st r. r\<lparr>or_status := st\<rparr>" order_rank
proof unfold_locales
  show "order_final s \<Longrightarrow> order_transitions s = []" for s by (cases s) (simp_all add: order_final_def)
  show "b \<in> set (order_transitions a) \<Longrightarrow> order_rank a < order_rank b" for a b by (cases a) auto
qed simp

interpretation payment_rows: status_machine payment_transitions payment_final pay_status
  "\<lambda>st r. r\<lparr>pay_status := st\<rparr>"
proof unfold_locales
  show "payment_final s \<Longrightarrow> payment_transitions s = []" for s by (simp add: payment_final_def)
qed simp

interpretation fulfillment_rows: forward_machine fulfillment_transitions fulfillment_final fu_status
  "\<lambda>st r. r\<lparr>fu_status := st\<rparr>" fulfillment_rank
proof unfold_locales
  show "fulfillment_final s \<Longrightarrow> fulfillment_transitions s = []" for s
    by (cases s) (simp_all add: fulfillment_final_def)
  show "b \<in> set (fulfillment_transitions a) \<Longrightarrow> fulfillment_rank a < fulfillment_rank b" for a b
    by (cases a) auto
qed simp

interpretation door_rows: status_machine door_transitions door_final do_status
  "\<lambda>st r. r\<lparr>do_status := st\<rparr>"
proof unfold_locales
  show "door_final s \<Longrightarrow> door_transitions s = []" for s by (cases s) (simp_all add: door_final_def)
qed simp

end
