(* ===== verification/Books.thy ===== *)
theory Books
  imports Shop_State
begin

text \<open>
  The abstract specification of the shop: its books, that is the orders, payments, refunds,
  fulfillments, picks and shipments, and the steps that are allowed on them. Every committed command
  of the services is a sequence of these steps (\<open>Shop_Commands\<close>), so what is proved here of the steps
  holds of the program.
\<close>

section \<open>The books\<close>

record books =
  bk_orders :: "(uid \<times> order_row) list"
  bk_order_log :: "order_status transition_row list"
  bk_payments :: "(uid \<times> payment) list"
  bk_payment_log :: "payment_status transition_row list"
  bk_refunds :: "(uid \<times> refund) list"
  bk_fulfillments :: "(uid \<times> fulfillment) list"
  bk_fulfillment_log :: "fulfillment_status transition_row list"
  bk_picks :: "(uid \<times> pick) list"
  bk_shipments :: "(uid \<times> shipment) list"
  bk_doors :: "uid list"
  bk_next :: uid

definition books_of :: "shop_db \<Rightarrow> books" where
  "books_of sh = \<lparr>bk_orders = orders sh, bk_order_log = order_log sh, bk_payments = payments sh,
     bk_payment_log = payment_log sh, bk_refunds = refunds sh, bk_fulfillments = fulfillments sh,
     bk_fulfillment_log = fulfillment_log sh, bk_picks = picks sh, bk_shipments = shipments sh,
     bk_doors = map fst (door_orders (doors sh)), bk_next = next_row sh\<rparr>"

abbreviation move_order where
  "move_order \<equiv> record_transition order_transitions or_status (\<lambda>st r. r\<lparr>or_status := st\<rparr>)"

abbreviation move_payment where
  "move_payment \<equiv> record_transition payment_transitions pay_status (\<lambda>st r. r\<lparr>pay_status := st\<rparr>)"

abbreviation move_fulfillment where
  "move_fulfillment \<equiv> record_transition fulfillment_transitions fu_status (\<lambda>st r. r\<lparr>fu_status := st\<rparr>)"

text \<open>A settled payment of the full amount of an order.\<close>

definition paid_in_full :: "books \<Rightarrow> uid \<Rightarrow> order_row \<Rightarrow> bool" where
  "paid_in_full b i o' \<longleftrightarrow> (\<exists>j p. map_of (bk_payments b) j = Some p \<and> pay_order p = i \<and> settled (pay_status p)
     \<and> pay_amount p = or_total o')"

definition quantity_picked :: "books \<Rightarrow> uid \<Rightarrow> int \<Rightarrow> bool" where
  "quantity_picked b item q \<longleftrightarrow> (\<exists>x \<in> set (bk_picks b). pk_item (snd x) = item \<and> pk_quantity (snd x) = q)"

definition ship_lines :: "order_row \<Rightarrow> (uid \<times> int) list" where
  "ship_lines o' = map (\<lambda>(i, l). (i, oi_quantity l)) (or_items o')"

section \<open>The steps\<close>

inductive book_step :: "books \<Rightarrow> books \<Rightarrow> bool" where
  time_passes: "bk_next b \<le> n \<Longrightarrow> book_step b (b\<lparr>bk_next := n\<rparr>)"
| order_placed: "or_status o' = OS_DRAFT \<Longrightarrow> bk_next b < n \<Longrightarrow>
    book_step b (b\<lparr>bk_orders := bk_orders b @ [(bk_next b, o')], bk_next := n\<rparr>)"
| order_submitted: "move_order i OS_DRAFT OS_PENDING_PAYMENT info (bk_orders b, bk_order_log b) = Inr (os, lg) \<Longrightarrow>
    book_step b (b\<lparr>bk_orders := os, bk_order_log := lg\<rparr>)"
| order_cancelled: "move_order i OS_PENDING_PAYMENT OS_CANCELLED info (bk_orders b, bk_order_log b) = Inr (os, lg) \<Longrightarrow>
    book_step b (b\<lparr>bk_orders := os, bk_order_log := lg\<rparr>)"
| order_paid: "move_order i OS_PENDING_PAYMENT OS_PAID info (bk_orders b, bk_order_log b) = Inr (os, lg) \<Longrightarrow>
    map_of (bk_orders b) i = Some o' \<Longrightarrow> i \<notin> set (bk_doors b) \<Longrightarrow> paid_in_full b i o' \<Longrightarrow>
    book_step b (b\<lparr>bk_orders := os, bk_order_log := lg\<rparr>)"
| door_order_paid: "move_order i OS_PENDING_PAYMENT OS_PAID info (bk_orders b, bk_order_log b) = Inr (os, lg) \<Longrightarrow>
    i \<in> set (bk_doors b) \<Longrightarrow> book_step b (b\<lparr>bk_orders := os, bk_order_log := lg\<rparr>)"
| payment_opened: "pay_status p = PAY_PENDING \<Longrightarrow> pay_refunded p = 0 \<Longrightarrow>
    map_of (bk_orders b) (pay_order p) \<noteq> None \<Longrightarrow>
    book_step b (b\<lparr>bk_payments := bk_payments b @ [(bk_next b, p)], bk_next := Suc (bk_next b)\<rparr>)"
| payment_noted: "map_of (bk_payments b) i = Some p \<Longrightarrow>
    book_step b (b\<lparr>bk_payments := AList.update i (p\<lparr>pay_authority := a, pay_reference := r\<rparr>) (bk_payments b)\<rparr>)"
| payment_verified: "move_payment i PAY_PENDING PAY_PAID info (bk_payments b, bk_payment_log b) = Inr (ps, lg) \<Longrightarrow>
    book_step b (b\<lparr>bk_payments := ps, bk_payment_log := lg\<rparr>)"
| payment_failed: "move_payment i PAY_PENDING PAY_FAILED info (bk_payments b, bk_payment_log b) = Inr (ps, lg) \<Longrightarrow>
    book_step b (b\<lparr>bk_payments := ps, bk_payment_log := lg\<rparr>)"
| partly_refunded: "map_of (bk_payments b) i = Some p \<Longrightarrow> pay_status p = PAY_PARTIALLY_REFUNDED \<Longrightarrow>
    rf_payment f = i \<Longrightarrow> 0 < rf_amount f \<Longrightarrow> pay_refunded p + rf_amount f < pay_amount p \<Longrightarrow>
    book_step b (b\<lparr>bk_payments := AList.update i (p\<lparr>pay_refunded := pay_refunded p + rf_amount f\<rparr>) (bk_payments b),
      bk_refunds := bk_refunds b @ [(bk_next b, f)], bk_next := Suc (bk_next b)\<rparr>)"
| refunded: "map_of (bk_payments b) i = Some p \<Longrightarrow> rf_payment f = i \<Longrightarrow> 0 < rf_amount f \<Longrightarrow>
    pay_refunded p + rf_amount f \<le> pay_amount p \<Longrightarrow>
    t = (if pay_refunded p + rf_amount f = pay_amount p then PAY_REFUNDED else PAY_PARTIALLY_REFUNDED) \<Longrightarrow>
    move_payment i (pay_status p) t info
      (AList.update i (p\<lparr>pay_refunded := pay_refunded p + rf_amount f\<rparr>) (bk_payments b), bk_payment_log b) = Inr (ps, lg) \<Longrightarrow>
    book_step b (b\<lparr>bk_payments := ps, bk_payment_log := lg,
      bk_refunds := bk_refunds b @ [(bk_next b, f)], bk_next := Suc (bk_next b)\<rparr>)"
| fulfillment_opened: "map_of (bk_orders b) i = Some o' \<Longrightarrow> or_status o' = OS_PAID \<Longrightarrow>
    \<forall>x \<in> set (bk_fulfillments b). fu_order (snd x) \<noteq> i \<Longrightarrow>
    book_step b (b\<lparr>bk_fulfillments := bk_fulfillments b @ [(bk_next b, \<lparr>fu_order = i, fu_status = FS_PENDING\<rparr>)],
      bk_next := Suc (bk_next b)\<rparr>)"
| fulfillment_noted: "tn_from r = None \<Longrightarrow> tn_parent r \<in> fst ` set (bk_fulfillments b) \<Longrightarrow>
    book_step b (b\<lparr>bk_fulfillment_log := bk_fulfillment_log b @ [r]\<rparr>)"
| fulfillment_worked: "(s, t) \<in> {(FS_PENDING, FS_PROCESSING), (FS_PROCESSING, FS_READY_TO_SHIP), (FS_SHIPPED, FS_DELIVERED)} \<Longrightarrow>
    move_fulfillment i s t info (bk_fulfillments b, bk_fulfillment_log b) = Inr (fs, lg) \<Longrightarrow>
    book_step b (b\<lparr>bk_fulfillments := fs, bk_fulfillment_log := lg\<rparr>)"
| item_picked: "map_of (bk_orders b) i = Some o' \<Longrightarrow> map_of (or_items o') (pk_item k) = Some l \<Longrightarrow>
    pk_quantity k = oi_quantity l \<Longrightarrow> \<forall>x \<in> set (bk_picks b). pk_item (snd x) \<noteq> pk_item k \<Longrightarrow>
    book_step b (b\<lparr>bk_picks := bk_picks b @ [(bk_next b, k)], bk_next := Suc (bk_next b)\<rparr>)"
| shipped: "map_of (bk_orders b) i = Some o' \<Longrightarrow> sh_order s = i \<Longrightarrow> sh_lines s = ship_lines o' \<Longrightarrow>
    map_of (bk_fulfillments b) (sh_fulfillment s) = Some f \<Longrightarrow> fu_order f = i \<Longrightarrow>
    or_items o' \<noteq> [] \<Longrightarrow>
    \<forall>(item, l) \<in> set (or_items o'). quantity_picked b item (oi_quantity l) \<Longrightarrow>
    move_fulfillment (sh_fulfillment s) FS_READY_TO_SHIP FS_SHIPPED info (bk_fulfillments b, bk_fulfillment_log b) = Inr (fs, lg) \<Longrightarrow>
    book_step b (b\<lparr>bk_fulfillments := fs, bk_fulfillment_log := lg,
      bk_shipments := bk_shipments b @ [(bk_next b, s)], bk_next := Suc (bk_next b)\<rparr>)"

section \<open>Keys and histories\<close>

definition ids_of :: "books \<Rightarrow> uid set" where
  "ids_of b = fst ` set (bk_orders b) \<union> fst ` set (bk_payments b) \<union> fst ` set (bk_fulfillments b)
     \<union> fst ` set (bk_refunds b) \<union> tn_parent ` set (bk_order_log b) \<union> tn_parent ` set (bk_payment_log b)
     \<union> tn_parent ` set (bk_fulfillment_log b)"

definition fresh_ids :: "books \<Rightarrow> bool" where
  "fresh_ids b \<longleftrightarrow> (\<forall>i \<in> ids_of b. i < bk_next b)"

lemma map_of_fresh: "\<forall>i \<in> fst ` set t. i < (n :: nat) \<Longrightarrow> map_of t n = None"
  by (force simp: map_of_eq_None_iff)

lemma trail_fresh: "\<forall>i \<in> tn_parent ` set lg. i < (n :: nat) \<Longrightarrow> trail n lg = []"
  by (force simp: trail_def map_filter_def filter_empty_conv)

lemma map_of_in_fst: "map_of t i = Some x \<Longrightarrow> i \<in> fst ` set t"
  by (force dest: map_of_SomeD)

lemma move_keys:
  assumes "record_transition table get put i s t info (rows, lg) = Inr (rows', lg')"
  shows "fst ` set rows' = fst ` set rows" "tn_parent ` set lg' = insert i (tn_parent ` set lg)"
    "i \<in> fst ` set rows"
proof -
  from assms obtain row where r: "map_of rows i = Some row" "rows' = AList.update i (put t row) rows"
    "tn_parent ` set lg' = insert i (tn_parent ` set lg)" by (auto simp: res_iff)
  show k: "i \<in> fst ` set rows" by (rule map_of_in_fst[OF r(1)])
  show "fst ` set rows' = fst ` set rows" using k by (auto simp: r(2) fst_set_update)
  show "tn_parent ` set lg' = insert i (tn_parent ` set lg)" by (rule r(3))
qed

lemma step_fresh_ids:
  assumes "book_step b b'" "fresh_ids b"
  shows "fresh_ids b'"
proof -
  have less: "bk_next b \<le> bk_next b'" and ids: "ids_of b' \<subseteq> ids_of b \<union> {x. bk_next b \<le> x \<and> x < bk_next b'}"
    if "fresh_ids b"
  proof -
    show "bk_next b \<le> bk_next b'" using assms(1) by cases simp_all
    show "ids_of b' \<subseteq> ids_of b \<union> {x. bk_next b \<le> x \<and> x < bk_next b'}"
      using assms(1)
    proof cases
      case (refunded i p f t info ps lg)
      show ?thesis using that map_of_in_fst[OF refunded(2)] move_keys[OF refunded(7)] unfolding refunded(1) by (simp add: ids_of_def fst_set_update fresh_ids_def) (blast?)
    next
      case (partly_refunded i p f)
      show ?thesis using that map_of_in_fst[OF partly_refunded(2)] unfolding partly_refunded(1) by (simp add: ids_of_def fst_set_update fresh_ids_def) (blast?)
    next
      case (payment_noted i p a r)
      show ?thesis using that map_of_in_fst[OF payment_noted(2)] unfolding payment_noted(1) by (simp add: ids_of_def fst_set_update fresh_ids_def) (blast?)
    next
      case (order_submitted i info os lg)
      show ?thesis using that move_keys[OF order_submitted(2)] unfolding order_submitted(1) by (simp add: ids_of_def fst_set_update fresh_ids_def) (blast?)
    next
      case (order_cancelled i info os lg)
      show ?thesis using that move_keys[OF order_cancelled(2)] unfolding order_cancelled(1) by (simp add: ids_of_def fst_set_update fresh_ids_def) (blast?)
    next
      case (order_paid i info os lg o')
      show ?thesis using that move_keys[OF order_paid(2)] unfolding order_paid(1) by (simp add: ids_of_def fst_set_update fresh_ids_def) (blast?)
    next
      case (door_order_paid i info os lg)
      show ?thesis using that move_keys[OF door_order_paid(2)] unfolding door_order_paid(1) by (simp add: ids_of_def fst_set_update fresh_ids_def) (blast?)
    next
      case (payment_verified i info ps lg)
      show ?thesis using that move_keys[OF payment_verified(2)] unfolding payment_verified(1) by (simp add: ids_of_def fst_set_update fresh_ids_def) (blast?)
    next
      case (payment_failed i info ps lg)
      show ?thesis using that move_keys[OF payment_failed(2)] unfolding payment_failed(1) by (simp add: ids_of_def fst_set_update fresh_ids_def) (blast?)
    next
      case (fulfillment_worked s t info i fs lg)
      show ?thesis using that move_keys[OF fulfillment_worked(3)] unfolding fulfillment_worked(1) by (simp add: ids_of_def fst_set_update fresh_ids_def) (blast?)
    next
      case (shipped i o' s f info fs lg)
      show ?thesis using that move_keys[OF shipped(9)] unfolding shipped(1) by (simp add: ids_of_def fst_set_update fresh_ids_def) (blast?)
    next
      case (fulfillment_noted r)
      show ?thesis using that fulfillment_noted(3) unfolding fulfillment_noted(1) by (simp add: ids_of_def fst_set_update fresh_ids_def) (blast?)
    qed (simp_all add: ids_of_def, (blast+)?)
  qed
  show ?thesis using less ids assms(2) by (fastforce simp: fresh_ids_def)
qed

definition histories :: "books \<Rightarrow> bool" where
  "histories b \<longleftrightarrow> order_rows.history_ok (\<lambda>s. s = OS_DRAFT) (bk_orders b, bk_order_log b)
     \<and> payment_rows.history_ok (\<lambda>s. s = PAY_PENDING) (bk_payments b, bk_payment_log b)
     \<and> fulfillment_rows.history_ok (\<lambda>s. s = FS_PENDING) (bk_fulfillments b, bk_fulfillment_log b)"


lemma map_of_update_same:
  "map_of t i = Some p \<Longrightarrow> f q = f p \<Longrightarrow> map_option f (map_of (AList.update i q t) j) = map_option f (map_of t j)"
  by (simp add: update_conv)

lemma step_histories:
  assumes "book_step b b'" "fresh_ids b" "histories b"
  shows "histories b'"
proof -
  have tr: "trail (bk_next b) (bk_order_log b) = []" "trail (bk_next b) (bk_payment_log b) = []"
    "trail (bk_next b) (bk_fulfillment_log b) = []"
    using assms(2) by (auto intro!: trail_fresh simp: fresh_ids_def ids_of_def)
  note ho = assms(3)[unfolded histories_def, THEN conjunct1]
  note hp = assms(3)[unfolded histories_def, THEN conjunct2, THEN conjunct1]
  note hf = assms(3)[unfolded histories_def, THEN conjunct2, THEN conjunct2]
  show ?thesis
    using assms(1)
  proof cases
    case (refunded i p f t info ps lg)
    have "payment_rows.history_ok (\<lambda>s. s = PAY_PENDING) (AList.update i (p\<lparr>pay_refunded := pay_refunded p + rf_amount f\<rparr>)
        (bk_payments b), bk_payment_log b)"
      by (rule payment_rows.history_same[OF hp]) (simp_all add: map_of_update_same[OF refunded(2)])
    then show ?thesis
      using refunded(1) ho hf payment_rows.record_history[OF _ refunded(7)] by (simp add: histories_def)
  next
    case (partly_refunded i p f)
    have "payment_rows.history_ok (\<lambda>s. s = PAY_PENDING) (AList.update i (p\<lparr>pay_refunded := pay_refunded p + rf_amount f\<rparr>)
        (bk_payments b), bk_payment_log b)"
      by (rule payment_rows.history_same[OF hp]) (simp_all add: map_of_update_same[OF partly_refunded(2)])
    then show ?thesis using partly_refunded(1) ho hf by (simp add: histories_def)
  next
    case (payment_noted i p r a)
    have "payment_rows.history_ok (\<lambda>s. s = PAY_PENDING) (AList.update i (p\<lparr>pay_authority := a, pay_reference := r\<rparr>)
        (bk_payments b), bk_payment_log b)"
      by (rule payment_rows.history_same[OF hp]) (simp_all add: map_of_update_same[OF payment_noted(2)])
    then show ?thesis using payment_noted(1) ho hf by (simp add: histories_def)
  next
    case (fulfillment_noted r)
    then show ?thesis
      using fulfillment_rows.history_same[OF hf, of "bk_fulfillments b" "bk_fulfillment_log b @ [r]"] ho hp
      by (simp add: histories_def)
  qed (use ho hp hf tr in \<open>simp_all add: histories_def order_rows.history_new payment_rows.history_new
      fulfillment_rows.history_new order_rows.record_history payment_rows.record_history fulfillment_rows.record_history\<close>)
qed

section \<open>Money\<close>

text \<open>What has been refunded of a payment is recorded refund by refund, and its status says how much.\<close>

definition refunded_of :: "books \<Rightarrow> uid \<Rightarrow> int" where
  "refunded_of b i = asum (\<lambda>_ f. if rf_payment f = i then rf_amount f else 0) (bk_refunds b)"

definition money_ok :: "payment \<Rightarrow> bool" where
  "money_ok p \<longleftrightarrow>
     (case pay_status p of
        PAY_PARTIALLY_REFUNDED \<Rightarrow> 0 < pay_refunded p \<and> pay_refunded p < pay_amount p
      | PAY_REFUNDED \<Rightarrow> 0 < pay_refunded p \<and> pay_refunded p = pay_amount p
      | _ \<Rightarrow> pay_refunded p = 0)"

definition accounts_ok :: "books \<Rightarrow> bool" where
  "accounts_ok b \<longleftrightarrow> (\<forall>i p. map_of (bk_payments b) i = Some p \<longrightarrow> money_ok p \<and> pay_refunded p = refunded_of b i)
     \<and> (\<forall>x \<in> set (bk_refunds b). rf_payment (snd x) \<in> fst ` set (bk_payments b) \<and> 0 < rf_amount (snd x))"

lemma step_accounts:
  assumes "book_step b b'" "fresh_ids b" "accounts_ok b"
  shows "accounts_ok b'"
proof -
  note pay = assms(3)[unfolded accounts_ok_def, THEN conjunct1, rule_format]
  note ref = assms(3)[unfolded accounts_ok_def, THEN conjunct2]
  have next_none: "refunded_of b (bk_next b) = 0"
    unfolding refunded_of_def
  proof (rule asum_cong[THEN trans[OF _ asum_zero]])
    fix k f assume "(k, f) \<in> set (bk_refunds b)"
    then have "rf_payment f \<in> fst ` set (bk_payments b)" using ref by force
    then have "rf_payment f < bk_next b" using assms(2) by (auto simp: fresh_ids_def ids_of_def)
    then show "(if rf_payment f = bk_next b then rf_amount f else 0) = 0" by simp
  qed
  show ?thesis
    using assms(1)
  proof cases
    case (payment_opened p)
    then show ?thesis
      using assms(3) next_none
      by (auto simp: accounts_ok_def refunded_of_def money_ok_def map_of_snoc split: option.splits if_splits)
  next
    case (payment_noted i p r a)
    have "money_ok (p\<lparr>pay_authority := x, pay_reference := y\<rparr>) = money_ok p" for x y
      by (simp add: money_ok_def split: payment_status.split)
    then show ?thesis
      using payment_noted assms(3) by (auto simp: accounts_ok_def refunded_of_def update_conv fst_set_update)
  next
    case (payment_verified i info ps lg)
    obtain p where p: "map_of (bk_payments b) i = Some p" "pay_status p = PAY_PENDING"
      "ps = AList.update i (p\<lparr>pay_status := PAY_PAID\<rparr>) (bk_payments b)"
      using payment_verified(2) by (auto simp: res_iff)
    have "money_ok (p\<lparr>pay_status := PAY_PAID\<rparr>)" using pay[OF p(1)] p(2) by (simp add: money_ok_def)
    then show ?thesis
      using payment_verified(1) assms(3) pay[OF p(1)] map_of_in_fst[OF p(1)]
      by (auto simp: p(3) accounts_ok_def refunded_of_def update_conv fst_set_update)
  next
    case (payment_failed i info ps lg)
    obtain p where p: "map_of (bk_payments b) i = Some p" "pay_status p = PAY_PENDING"
      "ps = AList.update i (p\<lparr>pay_status := PAY_FAILED\<rparr>) (bk_payments b)"
      using payment_failed(2) by (auto simp: res_iff)
    have "money_ok (p\<lparr>pay_status := PAY_FAILED\<rparr>)" using pay[OF p(1)] p(2) by (simp add: money_ok_def)
    then show ?thesis
      using payment_failed(1) assms(3) pay[OF p(1)] map_of_in_fst[OF p(1)]
      by (auto simp: p(3) accounts_ok_def refunded_of_def update_conv fst_set_update)
  next
    case (partly_refunded i p f)
    then show ?thesis
      using assms(3) pay[OF partly_refunded(2)] map_of_in_fst[OF partly_refunded(2)]
      by (auto simp: accounts_ok_def refunded_of_def update_conv fst_set_update money_ok_def asum_append)
  next
    case (refunded i p f t info ps lg)
    obtain lg' where ps: "ps = AList.update i (p\<lparr>pay_refunded := pay_refunded p + rf_amount f, pay_status := t\<rparr>)
        (AList.update i (p\<lparr>pay_refunded := pay_refunded p + rf_amount f\<rparr>) (bk_payments b))"
      and st: "can_transition (pay_status p) t payment_transitions"
      using refunded(7) by (auto simp: res_iff update_conv)
    have "0 \<le> pay_refunded p" using pay[OF refunded(2)] by (auto simp: money_ok_def split: payment_status.splits)
    then have "money_ok (p\<lparr>pay_refunded := pay_refunded p + rf_amount f, pay_status := t\<rparr>)"
      using refunded(4-6) by (auto simp: money_ok_def)
    then show ?thesis
      using refunded(1,3-5) assms(3) pay[OF refunded(2)] map_of_in_fst[OF refunded(2)]
      by (auto simp: ps accounts_ok_def refunded_of_def update_conv fst_set_update asum_append)
  qed (use assms(3) in \<open>simp_all add: accounts_ok_def refunded_of_def\<close>)
qed

section \<open>Paid orders and their fulfillment\<close>

definition paid_ok :: "books \<Rightarrow> bool" where
  "paid_ok b \<longleftrightarrow> (\<forall>i o'. map_of (bk_orders b) i = Some o' \<longrightarrow> or_status o' = OS_PAID \<longrightarrow> i \<notin> set (bk_doors b) \<longrightarrow>
     paid_in_full b i o')"

text \<open>The steps keep what a settled payment proves.\<close>

definition payments_kept :: "books \<Rightarrow> books \<Rightarrow> bool" where
  "payments_kept b b' \<longleftrightarrow> (\<forall>j p. map_of (bk_payments b) j = Some p \<longrightarrow>
     (\<exists>p'. map_of (bk_payments b') j = Some p' \<and> pay_order p' = pay_order p \<and> pay_amount p' = pay_amount p
        \<and> (settled (pay_status p) \<longrightarrow> settled (pay_status p'))))"

lemma step_payments_kept:
  assumes "book_step b b'"
  shows "payments_kept b b'"
  using assms
proof cases
  case (refunded i p f t info ps lg)
  have "settled t" using refunded(6) by (simp add: settled_def)
  then show ?thesis using refunded(1,2,7) by (auto simp: payments_kept_def res_iff update_conv)
qed (auto simp: payments_kept_def res_iff update_conv settled_def map_of_snoc)

lemma paid_in_full_kept:
  "payments_kept b b' \<Longrightarrow> paid_in_full b i o' \<Longrightarrow> or_total o'' = or_total o' \<Longrightarrow> paid_in_full b' i o''"
  unfolding paid_in_full_def payments_kept_def by metis

text \<open>An order keeps its contents, and once paid or cancelled it stays so.\<close>

definition order_kept :: "order_row \<Rightarrow> order_row \<Rightarrow> bool" where
  "order_kept o' o'' \<longleftrightarrow> or_total o'' = or_total o' \<and> or_items o'' = or_items o' \<and> or_customer o'' = or_customer o'
     \<and> (order_final (or_status o') \<longrightarrow> or_status o'' = or_status o')"

lemma step_orders_kept:
  assumes "book_step b b'" "map_of (bk_orders b) i = Some o'"
  shows "\<exists>o''. map_of (bk_orders b') i = Some o'' \<and> order_kept o' o''"
  using assms by cases (auto simp: res_iff update_conv map_of_snoc order_kept_def order_final_def split: option.splits)

lemma step_doors: "book_step b b' \<Longrightarrow> bk_doors b' = bk_doors b"
  by (induction rule: book_step.induct) simp_all

lemma step_paid:
  assumes "book_step b b'" "paid_ok b"
  shows "paid_ok b'"
  unfolding paid_ok_def
proof (intro allI impI)
  fix i o'' assume now: "map_of (bk_orders b') i = Some o''" "or_status o'' = OS_PAID" "i \<notin> set (bk_doors b')"
  have kept: "payments_kept b b'" by (rule step_payments_kept[OF assms(1)])
  have "\<exists>o'. paid_in_full b i o' \<and> or_total o'' = or_total o'"
  proof (cases "\<exists>o'. map_of (bk_orders b) i = Some o' \<and> or_status o' = OS_PAID")
    case True
    then obtain o' where o': "map_of (bk_orders b) i = Some o'" "or_status o' = OS_PAID" by blast
    have "paid_in_full b i o'" using assms(2) o' now(3) step_doors[OF assms(1)] by (simp add: paid_ok_def)
    moreover have "or_total o'' = or_total o'"
      using step_orders_kept[OF assms(1) o'(1)] now(1) by (auto simp: order_kept_def)
    ultimately show ?thesis by blast
  next
    case False
    show ?thesis
      using assms(1)
    proof cases
      case (order_paid j info os lg o')
      then have "i = j" "or_total o'' = or_total o'"
        using now(1,2) False by (auto simp: res_iff update_conv split: if_splits)
      then show ?thesis using order_paid(5) by blast
    qed (use False now in \<open>auto simp: res_iff update_conv map_of_snoc split: option.splits if_splits\<close>)
  qed
  then show "paid_in_full b' i o''" using paid_in_full_kept[OF kept] by blast
qed

definition gone :: "fulfillment_status \<Rightarrow> bool" where
  "gone s \<longleftrightarrow> s = FS_SHIPPED \<or> s = FS_DELIVERED"

lemma step_fulfillments_kept:
  assumes "book_step b b'" "map_of (bk_fulfillments b) f = Some x"
  shows "\<exists>x'. map_of (bk_fulfillments b') f = Some x' \<and> fu_order x' = fu_order x \<and> (gone (fu_status x) \<longrightarrow> gone (fu_status x'))"
  using assms by cases (auto simp: res_iff update_conv map_of_snoc gone_def split: option.splits)

lemma step_picks_grow: "book_step b b' \<Longrightarrow> quantity_picked b item q \<Longrightarrow> quantity_picked b' item q"
  by (induction rule: book_step.induct) (auto simp: quantity_picked_def)

definition one_each :: "books \<Rightarrow> bool" where
  "one_each b \<longleftrightarrow> (\<forall>f x g y. map_of (bk_fulfillments b) f = Some x \<longrightarrow> map_of (bk_fulfillments b) g = Some y \<longrightarrow>
     fu_order x = fu_order y \<longrightarrow> f = g)"

definition work_paid :: "books \<Rightarrow> bool" where
  "work_paid b \<longleftrightarrow> (\<forall>f x. map_of (bk_fulfillments b) f = Some x \<longrightarrow>
     (\<exists>o'. map_of (bk_orders b) (fu_order x) = Some o' \<and> or_status o' = OS_PAID))"

definition shipped_right :: "books \<Rightarrow> shipment \<Rightarrow> bool" where
  "shipped_right b s \<longleftrightarrow> (\<exists>f o'. map_of (bk_fulfillments b) (sh_fulfillment s) = Some f \<and> fu_order f = sh_order s
     \<and> gone (fu_status f) \<and> map_of (bk_orders b) (sh_order s) = Some o' \<and> sh_lines s = ship_lines o' \<and> or_items o' \<noteq> []
     \<and> (\<forall>(item, l) \<in> set (or_items o'). quantity_picked b item (oi_quantity l)))"

definition shipments_ok :: "books \<Rightarrow> bool" where
  "shipments_ok b \<longleftrightarrow> (\<forall>x \<in> set (bk_shipments b). shipped_right b (snd x))
     \<and> (\<forall>f x. map_of (bk_fulfillments b) f = Some x \<longrightarrow> gone (fu_status x) \<longrightarrow>
          (\<exists>y \<in> set (bk_shipments b). sh_fulfillment (snd y) = f))
     \<and> distinct (map (sh_order \<circ> snd) (bk_shipments b))"

lemma step_one_each:
  assumes "book_step b b'" "one_each b"
  shows "one_each b'"
  using assms(1)
proof cases
  case (fulfillment_opened i o')
  have none: "fu_order y \<noteq> i" if "map_of (bk_fulfillments b) g = Some y" for g y
    using fulfillment_opened(4) map_of_SomeD[OF that] by force
  let ?fs = "bk_fulfillments b @ [(bk_next b, \<lparr>fu_order = i, fu_status = FS_PENDING\<rparr>)]"
  have old: "map_of (bk_fulfillments b) f = Some x \<or> f = bk_next b \<and> fu_order x = i"
    if "map_of ?fs f = Some x" for f x
    using that by (auto simp: map_of_snoc split: option.splits if_splits)
  have "f = g" if "map_of ?fs f = Some x" "map_of ?fs g = Some y" "fu_order x = fu_order y" for f g x y
    using old[OF that(1)] old[OF that(2)] that(3) none[of f x] none[of g y] assms(2)[unfolded one_each_def] by metis
  then show ?thesis unfolding one_each_def fulfillment_opened(1) by (simp; blast?)
qed (use assms(2) in \<open>auto simp: one_each_def res_iff update_conv split: if_splits\<close>)

lemma step_work_paid:
  assumes "book_step b b'" "work_paid b"
  shows "work_paid b'"
  unfolding work_paid_def
proof (intro allI impI)
  fix f x assume x: "map_of (bk_fulfillments b') f = Some x"
  have "\<exists>o'. map_of (bk_orders b) (fu_order x) = Some o' \<and> or_status o' = OS_PAID"
  proof (cases "map_of (bk_fulfillments b) f")
    case None
    show ?thesis
      using assms(1) by cases (use None x in \<open>auto simp: res_iff update_conv map_of_snoc split: if_splits\<close>)
  next
    case (Some x0)
    have "fu_order x = fu_order x0" using step_fulfillments_kept[OF assms(1) Some] x by auto
    then show ?thesis using assms(2) Some by (simp add: work_paid_def)
  qed
  then show "\<exists>o'. map_of (bk_orders b') (fu_order x) = Some o' \<and> or_status o' = OS_PAID"
    using step_orders_kept[OF assms(1)] by (fastforce simp: order_kept_def order_final_def)
qed

lemma shipped_right_kept:
  assumes "book_step b b'" "shipped_right b s"
  shows "shipped_right b' s"
proof -
  from assms(2) obtain f o' where s: "map_of (bk_fulfillments b) (sh_fulfillment s) = Some f" "fu_order f = sh_order s"
    "gone (fu_status f)" "map_of (bk_orders b) (sh_order s) = Some o'" "sh_lines s = ship_lines o'" "or_items o' \<noteq> []"
    "\<forall>(item, l) \<in> set (or_items o'). quantity_picked b item (oi_quantity l)"
    by (auto simp: shipped_right_def)
  obtain f' where f': "map_of (bk_fulfillments b') (sh_fulfillment s) = Some f'" "fu_order f' = fu_order f"
    "gone (fu_status f')" using step_fulfillments_kept[OF assms(1) s(1)] s(3) by blast
  obtain o'' where o'': "map_of (bk_orders b') (sh_order s) = Some o''" "or_items o'' = or_items o'"
    using step_orders_kept[OF assms(1) s(4)] by (auto simp: order_kept_def)
  have "sh_lines s = ship_lines o''" using s(5) o''(2) by (simp add: ship_lines_def)
  then show ?thesis
    unfolding shipped_right_def using f' o'' s(2,6,7) step_picks_grow[OF assms(1)] by fastforce
qed

lemma step_shipments:
  assumes "book_step b b'" "shipments_ok b" "one_each b"
  shows "shipments_ok b'"
proof -
  have old: "\<forall>x \<in> set (bk_shipments b). shipped_right b' (snd x)"
    using assms(2) shipped_right_kept[OF assms(1)] by (auto simp: shipments_ok_def)
  show ?thesis
    using assms(1)
  proof cases
    case (shipped i o' s f info fs lg)
    have f: "fu_status f = FS_READY_TO_SHIP" "fs = AList.update (sh_fulfillment s) (f\<lparr>fu_status := FS_SHIPPED\<rparr>) (bk_fulfillments b)"
      using shipped(5,9) by (auto simp: res_iff)
    have fresh: "sh_order s \<notin> sh_order ` snd ` set (bk_shipments b)"
    proof
      assume "sh_order s \<in> sh_order ` snd ` set (bk_shipments b)"
      then obtain x where x: "x \<in> set (bk_shipments b)" "sh_order (snd x) = sh_order s" by force
      then obtain g where g: "map_of (bk_fulfillments b) (sh_fulfillment (snd x)) = Some g" "fu_order g = sh_order s"
        "gone (fu_status g)" using assms(2) by (auto simp: shipments_ok_def shipped_right_def)
      have "sh_fulfillment (snd x) = sh_fulfillment s"
        using assms(3)[unfolded one_each_def, rule_format, OF g(1) shipped(5)] g(2) shipped(3,6) by simp
      then show False using g f(1) shipped(5) by (simp add: gone_def)
    qed
    have "shipped_right b' s"
      using shipped(2-8) f by (auto simp: shipped(1) shipped_right_def update_conv gone_def quantity_picked_def)
    then show ?thesis
      using assms(2) old fresh f
      by (auto simp: shipped(1) shipments_ok_def update_conv image_image comp_def split: if_splits)
  next
    case (fulfillment_worked s t i info fs lg)
    obtain f where f: "map_of (bk_fulfillments b) i = Some f" "fu_status f = s"
      "fs = AList.update i (f\<lparr>fu_status := t\<rparr>) (bk_fulfillments b)"
      using fulfillment_worked(3) by (auto simp: res_iff)
    have g: "gone t \<Longrightarrow> gone s" using fulfillment_worked(2) by (auto simp: gone_def)
    have "\<exists>y \<in> set (bk_shipments b). sh_fulfillment (snd y) = j"
      if jx: "map_of fs j = Some x" "gone (fu_status x)" for j x
    proof -
      obtain x0 where "map_of (bk_fulfillments b) j = Some x0" "gone (fu_status x0)"
        using jx f g by (auto simp: update_conv split: if_splits)
      then show ?thesis using assms(2) by (auto simp: shipments_ok_def)
    qed
    then show ?thesis using assms(2) old by (simp add: fulfillment_worked(1) shipments_ok_def)
  qed (use assms(2) old in \<open>auto simp: shipments_ok_def map_of_snoc gone_def split: option.splits if_splits\<close>)
qed

section \<open>The invariant\<close>

definition keyed :: "books \<Rightarrow> bool" where
  "keyed b \<longleftrightarrow> distinct (map fst (bk_fulfillments b))"

lemma step_keyed:
  assumes "book_step b b'" "fresh_ids b" "keyed b"
  shows "keyed b'"
  using assms(1)
proof cases
  case (fulfillment_opened i o')
  have "bk_next b \<notin> fst ` set (bk_fulfillments b)" using assms(2) by (auto simp: fresh_ids_def ids_of_def)
  then show ?thesis using assms(3) by (simp add: fulfillment_opened(1) keyed_def)
next
  case (fulfillment_worked s t i info fs lg)
  then obtain f where "map_of (bk_fulfillments b) i = Some f" "fs = AList.update i (f\<lparr>fu_status := t\<rparr>) (bk_fulfillments b)"
    by (auto simp: res_iff)
  then show ?thesis using assms(3) by (simp add: fulfillment_worked(1) keyed_def map_fst_update_same)
next
  case (shipped i o' s f info fs lg)
  then have "fs = AList.update (sh_fulfillment s) (f\<lparr>fu_status := FS_SHIPPED\<rparr>) (bk_fulfillments b)"
    by (auto simp: res_iff)
  then show ?thesis using assms(3) shipped(5) by (simp add: shipped(1) keyed_def map_fst_update_same)
qed (use assms(3) in \<open>simp_all add: keyed_def\<close>)

definition books_ok :: "books \<Rightarrow> bool" where
  "books_ok b \<longleftrightarrow> fresh_ids b \<and> histories b \<and> accounts_ok b \<and> paid_ok b \<and> one_each b \<and> work_paid b \<and> shipments_ok b
     \<and> keyed b"

lemma step_books_ok: "book_step b b' \<Longrightarrow> books_ok b \<Longrightarrow> books_ok b'"
  by (simp add: books_ok_def step_fresh_ids step_histories step_accounts step_paid step_one_each step_work_paid step_shipments step_keyed)

abbreviation book_steps :: "books \<Rightarrow> books \<Rightarrow> bool" where
  "book_steps \<equiv> book_step\<^sup>*\<^sup>*"

lemma steps_books_ok: "book_steps b b' \<Longrightarrow> books_ok b \<Longrightarrow> books_ok b'"
  by (induction rule: rtranclp_induct) (auto intro: step_books_ok)

lemma books_ok_empty: "books_ok (books_of (empty_shop\<lparr>customers := cs, stock := st, promo := pr, market := mk\<rparr>))"
  by (simp add: books_ok_def books_of_def empty_shop_def empty_doors_def fresh_ids_def ids_of_def histories_def
    order_rows.history_ok_def payment_rows.history_ok_def fulfillment_rows.history_ok_def accounts_ok_def paid_ok_def
    one_each_def work_paid_def shipments_ok_def keyed_def)

end
