(* ===== verification/Cart.thy ===== *)
theory Cart
  imports Shop_State
begin

text \<open>
  The cart of a customer: its lines (\<open>orders/cart.service.ts\<close>, \<open>orders/cart-runtime.ts\<close>), what is shown
  of it (\<open>orders/cart-view.ts\<close>) and its coupon (\<open>orders/cart-coupon.service.ts\<close>). Identifiers are keys of
  the database, so trimming them (\<open>normalizeCartServiceVariantId\<close>) has nothing to do here. The guest cart
  of an anonymous browser is another service.
\<close>

section \<open>Constants and checks\<close>

definition max_cart_lines :: nat where
  "max_cart_lines = 100"

definition max_cart_quantity :: int where
  "max_cart_quantity = 99"

definition cart_replay_ttl :: int where
  "cart_replay_ttl = 24 * 60 * 60 * 1000"

definition cart_cleanup_batch :: nat where
  "cart_cleanup_batch = 100"

definition control_free :: "string \<Rightarrow> bool" where
  "control_free s = list_all (\<lambda>c. let n = of_char c :: nat in 32 \<le> n \<and> n \<noteq> 127) s"

definition normalize_cart_mutation_key :: "string \<Rightarrow> string res" where
  "normalize_cart_mutation_key value =
     (let normalized = trim value in
      throw_if (length normalized = 0 \<or> length normalized > 128 \<or> \<not> control_free normalized)
        (BadRequest ''INVALID_REQUEST'') (Inr normalized))"

definition validate_cart_quantity :: "js_number \<Rightarrow> unit res" where
  "validate_cart_quantity q =
     throw_if (\<not> is_integer q \<or> the_int q < 1 \<or> the_int q > max_cart_quantity)
       (Unprocessable ''CART_QUANTITY_INVALID'') (Inr ())"

text \<open>\<open>runCartSerializable\<close> on a database nothing else changes.\<close>

definition cart_serializable :: "'a res \<Rightarrow> 'a res" where
  "cart_serializable m =
     map_sum of_failure id (fst (retry_loop is_prisma_serializable_contention 0 (\<lambda>_. map_sum as_failure id m) 1 5))"

section \<open>Reading a cart\<close>

definition put_market :: "market_db \<Rightarrow> shop_db \<Rightarrow> shop_db" where
  "put_market m sh = sh\<lparr>market := m\<rparr>"

definition cart_of :: "shop_db \<Rightarrow> uid \<Rightarrow> (uid \<times> cart) option" where
  "cart_of sh cid = List.find (\<lambda>(_, c). ca_customer c = cid) (carts (market sh))"

text \<open>\<open>orderBy: [{ variantId: 'asc' }, ...]\<close>\<close>

definition cart_items :: "cart \<Rightarrow> (uid \<times> int) list" where
  "cart_items c = sort_key fst (ca_items c)"

definition shelf_active :: "inv_db \<Rightarrow> stock_key \<Rightarrow> bool" where
  "shelf_active db k \<longleftrightarrow>
     (case map_of (warehouses db) (sk_warehouse k) of None \<Rightarrow> False | Some w \<Rightarrow> wh_active w)
     \<and> (case map_of (locations db) (sk_location k) of None \<Rightarrow> False | Some l \<Rightarrow> loc_active l)"

definition active_balances :: "inv_db \<Rightarrow> uid \<Rightarrow> (stock_key \<times> balance) list" where
  "active_balances db v = filter (\<lambda>(k, _). sk_variant k = v \<and> shelf_active db k) (balances db)"

definition available_of :: "inv_db \<Rightarrow> uid \<Rightarrow> int" where
  "available_of db v = (\<Sum>x\<leftarrow>active_balances db v. available (snd x))"

definition sellable :: "shop_db \<Rightarrow> uid \<Rightarrow> bool" where
  "sellable sh v \<longleftrightarrow>
     (case map_of (variants (stock sh)) v of None \<Rightarrow> False
      | Some x \<Rightarrow> var_active x \<and> var_status x = PS_ACTIVE \<and> var_product_status x = PS_ACTIVE)"

definition cart_line_of :: "shop_db \<Rightarrow> uid \<times> int \<Rightarrow> cart_line res" where
  "cart_line_of sh item =
     need (map_of (goods_table (market sh)) (fst item)) (Crash ''TypeError'') (\<lambda>g.
     Inr \<lparr>cl_variant = fst item, cl_quantity = snd item,
       cl_title = (case gd_variant_title g of None \<Rightarrow> gd_product_title g | Some t \<Rightarrow> t), cl_sku = gd_sku g,
       cl_unit_price = gd_price g, cl_total = gd_price g * snd item,
       cl_available = available_of (stock sh) (fst item)\<rparr>)"

fun map_res :: "('a \<Rightarrow> 'b res) \<Rightarrow> 'a list \<Rightarrow> 'b list res" where
  "map_res f [] = Inr []"
| "map_res f (x # xs) = andthen (f x) (\<lambda>y. andthen (map_res f xs) (\<lambda>ys. Inr (y # ys)))"

definition build_cart_view :: "shop_db \<Rightarrow> int \<Rightarrow> uid \<Rightarrow> cart \<Rightarrow> cart_view res" where
  "build_cart_view sh now i c =
     andthen (map_res (cart_line_of sh) (cart_items c)) (\<lambda>ls.
     Inr \<lparr>cv_id = Some i, cv_version = ca_version c, cv_lines = ls,
          cv_subtotal = (\<Sum>l\<leftarrow>ls. cl_total l), cv_quoted = now\<rparr>)"

definition empty_cart_view :: "int \<Rightarrow> cart_view" where
  "empty_cart_view now = \<lparr>cv_id = None, cv_version = 0, cv_lines = [], cv_subtotal = 0, cv_quoted = now\<rparr>"

definition pricing_line_of :: "shop_db \<Rightarrow> uid \<times> int \<Rightarrow> pricing_line res" where
  "pricing_line_of sh item =
     need (map_of (goods_table (market sh)) (fst item)) (Crash ''TypeError'') (\<lambda>g.
     Inr \<lparr>pl_variant = fst item, pl_product = gd_product g, pl_category = gd_category g, pl_brand = gd_brand g,
       pl_price = gd_price g, pl_quantity = snd item\<rparr>)"

definition pricing_lines :: "shop_db \<Rightarrow> cart \<Rightarrow> pricing_line list res" where
  "pricing_lines sh c = map_res (pricing_line_of sh) (cart_items c)"

definition facts_of_orders :: "shop_db \<Rightarrow> order_facts" where
  "facts_of_orders sh = map (\<lambda>(i, o'). (i, or_customer o', or_status o')) (orders sh)"

definition cart_customer :: "shop_db \<Rightarrow> string \<Rightarrow> uid res" where
  "cart_customer sh user = need (customer_of_user sh user) (Conflict ''CUSTOMER_ACCOUNT_REQUIRED'') (\<lambda>(cid, _). Inr cid)"

text \<open>\<open>getForUser\<close>: the view and, for an existing cart, the current promotions.\<close>

definition get_for_user ::
  "(string \<Rightarrow> string) \<Rightarrow> int \<Rightarrow> string \<Rightarrow> shop_db \<Rightarrow> (cart_view \<times> pricing_outcome option) res" where
  "get_for_user norm now user sh =
     andthen (cart_customer sh user) (\<lambda>cid.
     case cart_of sh cid of
       None \<Rightarrow> Inr (empty_cart_view now, None)
     | Some (i, c) \<Rightarrow>
         andthen (build_cart_view sh now i c) (\<lambda>view.
         andthen (pricing_lines sh c) (\<lambda>ls.
         Inr (view, Some (price norm (promo sh) (facts_of_orders sh)
           \<lparr>pi_customer = cid, pi_lines = ls, pi_shipping = 0, pi_coupon = ca_coupon c, pi_now = now,
            pi_shipping_known = False, pi_exclude = None\<rparr>)))))"

section \<open>Changing the lines\<close>

definition put_cart :: "uid \<Rightarrow> cart \<Rightarrow> shop_db \<Rightarrow> shop_db" where
  "put_cart i c sh = put_market ((market sh)\<lparr>carts := AList.update i c (carts (market sh))\<rparr>) sh"

text \<open>\<open>cart.upsert\<close> with an empty update.\<close>

definition open_cart :: "uid \<Rightarrow> shop_db \<Rightarrow> (uid \<times> cart) \<times> shop_db" where
  "open_cart cid sh =
     (case cart_of sh cid of
        Some x \<Rightarrow> (x, sh)
      | None \<Rightarrow>
          let c = \<lparr>ca_customer = cid, ca_version = 1, ca_items = [], ca_coupon = None\<rparr>
          in ((next_row sh, c), put_market ((market sh)\<lparr>carts := carts (market sh) @ [(next_row sh, c)]\<rparr>)
                (sh\<lparr>next_row := Suc (next_row sh)\<rparr>)))"

definition persisted_cart :: "shop_db \<Rightarrow> int \<Rightarrow> uid \<Rightarrow> cart_view res" where
  "persisted_cart sh now i =
     need (map_of (carts (market sh)) i) (DbError ''P2025'') (build_cart_view sh now i)"

definition write_line ::
  "uid \<Rightarrow> uid \<Rightarrow> (int option \<Rightarrow> js_number) \<Rightarrow> int \<Rightarrow> shop_db \<Rightarrow> (cart_view \<times> shop_db) res" where
  "write_line cid v resolve now sh =
     throw_if (\<not> sellable sh v) (NotFound ''SKU_NOT_FOUND'')
     (let ((i, c), sh1) = open_cart cid sh; line = map_of (ca_items c) v in
      throw_if (line = None \<and> length (ca_items c) \<ge> max_cart_lines) (Conflict ''CART_LINE_LIMIT_EXCEEDED'')
      (andthen (validate_cart_quantity (resolve line)) (\<lambda>_.
       let q = the_int (resolve line);
           sh2 = (if line = Some q then sh1
             else put_cart i (c\<lparr>ca_items := AList.update v q (ca_items c), ca_version := ca_version c + 1\<rparr>) sh1) in
       andthen (persisted_cart sh2 now i) (\<lambda>view. Inr (view, sh2)))))"

definition remove_line :: "uid \<Rightarrow> uid \<Rightarrow> int \<Rightarrow> shop_db \<Rightarrow> (cart_view \<times> shop_db) res" where
  "remove_line cid v now sh =
     (case cart_of sh cid of
        None \<Rightarrow> Inr (empty_cart_view now, sh)
      | Some (i, c) \<Rightarrow>
          let sh1 = (if map_of (ca_items c) v = None then sh
            else put_cart i (c\<lparr>ca_items := filter (\<lambda>x. fst x \<noteq> v) (ca_items c), ca_version := ca_version c + 1\<rparr>) sh) in
          andthen (persisted_cart sh1 now i) (\<lambda>view. Inr (view, sh1)))"

section \<open>Idempotent changes\<close>

definition put_mutations :: "(uid \<times> cart_mutation) list \<Rightarrow> shop_db \<Rightarrow> shop_db" where
  "put_mutations ms sh = put_market ((market sh)\<lparr>cart_mutations := ms\<rparr>) sh"

definition drop_mutations :: "uid list \<Rightarrow> shop_db \<Rightarrow> shop_db" where
  "drop_mutations is sh = put_mutations (filter (\<lambda>x. fst x \<notin> set is) (cart_mutations (market sh))) sh"

definition cleanup_cart_mutations :: "uid \<Rightarrow> int \<Rightarrow> shop_db \<Rightarrow> shop_db" where
  "cleanup_cart_mutations cid now sh =
     drop_mutations (map fst (take cart_cleanup_batch (sort_key (\<lambda>(i, m). (cm_expires m, i))
       (filter (\<lambda>(_, m). cm_customer m = cid \<and> cm_expires m \<le> now) (cart_mutations (market sh)))))) sh"

definition find_mutation :: "(cart_mutation \<Rightarrow> bool) \<Rightarrow> shop_db \<Rightarrow> (uid \<times> cart_mutation) option" where
  "find_mutation P sh = List.find (\<lambda>(_, m). P m) (cart_mutations (market sh))"

text \<open>A live row answers; an expired one is deleted and counts as none.\<close>

definition live_mutation ::
  "(cart_mutation \<Rightarrow> bool) \<Rightarrow> int \<Rightarrow> shop_db \<Rightarrow> cart_mutation option \<times> shop_db" where
  "live_mutation P now sh =
     (case find_mutation P sh of
        None \<Rightarrow> (None, sh)
      | Some (i, m) \<Rightarrow> if cm_expires m > now then (Some m, sh) else (None, drop_mutations [i] sh))"

definition find_replay ::
  "uid \<Rightarrow> string \<Rightarrow> string \<Rightarrow> string \<Rightarrow> int \<Rightarrow> shop_db \<Rightarrow> cart_mutation option \<times> shop_db" where
  "find_replay cid scope key legacy now sh =
     (case live_mutation (\<lambda>m. cm_customer m = cid \<and> cm_scope m = scope \<and> cm_key m = Some key) now sh of
        (Some m, sh1) \<Rightarrow> (Some m, sh1)
      | (None, sh1) \<Rightarrow> live_mutation (\<lambda>m. cm_customer m = cid \<and> cm_legacy m = Some legacy) now sh1)"

definition add_mutation :: "cart_mutation \<Rightarrow> shop_db \<Rightarrow> shop_db res" where
  "add_mutation m sh =
     throw_if (find_mutation (\<lambda>x. cm_customer x = cm_customer m \<and> cm_scope x = cm_scope m \<and> cm_key x = cm_key m) sh \<noteq> None)
       (DbError ''P2002'')
     (Inr (put_mutations (cart_mutations (market sh) @ [(next_row sh, m)]) (sh\<lparr>next_row := Suc (next_row sh)\<rparr>)))"

definition mutation_text :: "string \<Rightarrow> (string \<times> jval) list \<Rightarrow> string" where
  "mutation_text scope payload = CHR 0x7B # json_string ''scope'' @ '':'' @ json_string scope @ '',''
     @ json_string ''payload'' @ '':'' @ json_object payload @ ''}''"

definition run_mutation ::
  "(string \<Rightarrow> string) \<Rightarrow> int \<Rightarrow> uid \<Rightarrow> string \<Rightarrow> string \<Rightarrow> (string \<times> jval) list
     \<Rightarrow> (shop_db \<Rightarrow> (cart_view \<times> shop_db) res) \<Rightarrow> shop_db \<Rightarrow> (cart_view \<times> shop_db) res" where
  "run_mutation sha now cid scope key payload op sh =
     cart_serializable (
     let fp = sha (mutation_text scope payload); sh0 = cleanup_cart_mutations cid now sh in
     case find_replay cid scope (sha key) key now sh0 of
       (Some m, sh1) \<Rightarrow>
         throw_if (\<not> (cm_fingerprint m = fp \<or> (cm_legacy m \<noteq> None \<and> cm_fingerprint m = sha (json_object payload))))
           (Conflict ''IDEMPOTENCY_CONFLICT'') (Inr (cm_answer m, sh1))
     | (None, sh1) \<Rightarrow>
         andthen (op sh1) (\<lambda>(view, sh2).
         andthen (add_mutation \<lparr>cm_customer = cid, cm_scope = scope, cm_legacy = None, cm_key = Some (sha key),
             cm_fingerprint = fp, cm_answer = view, cm_expires = now + cart_replay_ttl\<rparr> sh2) (\<lambda>sh3.
         Inr (view, sh3))))"

definition add_to_cart ::
  "(string \<Rightarrow> string) \<Rightarrow> int \<Rightarrow> string \<Rightarrow> uid \<Rightarrow> js_number \<Rightarrow> string \<Rightarrow> shop_db \<Rightarrow> (cart_view \<times> shop_db) res" where
  "add_to_cart sha now user v q raw_key sh =
     andthen (validate_cart_quantity q) (\<lambda>_.
     andthen (normalize_cart_mutation_key raw_key) (\<lambda>key.
     andthen (cart_customer sh user) (\<lambda>cid.
     run_mutation sha now cid ''cart.add:/api/v1/cart/lines'' key
       [(''variantId'', JId v), (''quantity'', JNum (the_int q))]
       (write_line cid v (\<lambda>current. case current of None \<Rightarrow> q | Some n \<Rightarrow> JsInt (n + the_int q)) now) sh)))"

definition set_in_cart ::
  "(string \<Rightarrow> string) \<Rightarrow> int \<Rightarrow> string \<Rightarrow> uid \<Rightarrow> js_number \<Rightarrow> string \<Rightarrow> shop_db \<Rightarrow> (cart_view \<times> shop_db) res" where
  "set_in_cart sha now user v q raw_key sh =
     andthen (validate_cart_quantity q) (\<lambda>_.
     andthen (normalize_cart_mutation_key raw_key) (\<lambda>key.
     andthen (cart_customer sh user) (\<lambda>cid.
     run_mutation sha now cid ''cart.set:/api/v1/cart/lines/:variantId'' key
       [(''variantId'', JId v), (''quantity'', JNum (the_int q))]
       (write_line cid v (\<lambda>_. q) now) sh)))"

definition remove_from_cart ::
  "(string \<Rightarrow> string) \<Rightarrow> int \<Rightarrow> string \<Rightarrow> uid \<Rightarrow> string \<Rightarrow> shop_db \<Rightarrow> (cart_view \<times> shop_db) res" where
  "remove_from_cart sha now user v raw_key sh =
     andthen (normalize_cart_mutation_key raw_key) (\<lambda>key.
     andthen (cart_customer sh user) (\<lambda>cid.
     run_mutation sha now cid ''cart.remove:/api/v1/cart/lines/:variantId'' key
       [(''variantId'', JId v)] (remove_line cid v now) sh))"

section \<open>The coupon of a cart\<close>

text \<open>\<open>COUPON_CODE_PATTERN\<close>, \<open>[A-Z0-9]{4,40}\<close>.\<close>

definition coupon_code_pattern :: "string \<Rightarrow> bool" where
  "coupon_code_pattern s \<longleftrightarrow> 4 \<le> length s \<and> length s \<le> 40
     \<and> list_all (\<lambda>c. let n = of_char c :: nat in (48 \<le> n \<and> n \<le> 57) \<or> (65 \<le> n \<and> n \<le> 90)) s"

definition coupon_audit :: "string \<Rightarrow> uid \<Rightarrow> (string \<times> jval) list \<Rightarrow> string \<Rightarrow> string \<Rightarrow> audit_event" where
  "coupon_audit action i meta user request =
     \<lparr>ae_action = action, ae_entity = ''cart'', ae_entity_id = i, ae_before = [], ae_after = [],
      ae_metadata = meta, ae_actor = Some user, ae_request = Some request\<rparr>"

text \<open>\<open>limited\<close> is the answer of the Redis rate limiter.\<close>

definition apply_coupon ::
  "(string \<Rightarrow> string) \<Rightarrow> unit res \<Rightarrow> int \<Rightarrow> string \<Rightarrow> string \<Rightarrow> string \<Rightarrow> shop_db \<Rightarrow> (unit \<times> shop_db) res" where
  "apply_coupon norm limited now user raw request sh =
     andthen (cart_customer sh user) (\<lambda>cid.
     andthen limited (\<lambda>_.
     throw_if (\<not> coupon_code_pattern (norm raw)) (Unprocessable ''COUPON_NOT_FOUND'')
     (need (cart_of sh cid) (Conflict ''CART_EMPTY'') (\<lambda>(i, c).
      throw_if (ca_items c = []) (Conflict ''CART_EMPTY'')
      (andthen (pricing_lines sh c) (\<lambda>ls.
       case po_error (price norm (promo sh) (facts_of_orders sh)
           \<lparr>pi_customer = cid, pi_lines = ls, pi_shipping = 0, pi_coupon = Some (norm raw), pi_now = now,
            pi_shipping_known = False, pi_exclude = None\<rparr>) of
         Some e \<Rightarrow> Inl (Unprocessable (coupon_error_name e))
       | None \<Rightarrow> Inr ((), audit (coupon_audit ''cart.coupon.applied'' i [(''code'', JStr (norm raw))] user request)
           (put_cart i (c\<lparr>ca_coupon := Some (norm raw), ca_version := ca_version c + 1\<rparr>) sh))))))))"

definition remove_coupon :: "string \<Rightarrow> string \<Rightarrow> shop_db \<Rightarrow> (unit \<times> shop_db) res" where
  "remove_coupon user request sh =
     andthen (cart_customer sh user) (\<lambda>cid.
     case cart_of sh cid of
       None \<Rightarrow> Inr ((), sh)
     | Some (i, c) \<Rightarrow>
         if ca_coupon c = None then Inr ((), sh)
         else Inr ((), audit (coupon_audit ''cart.coupon.removed'' i [] user request)
           (put_cart i (c\<lparr>ca_coupon := None, ca_version := ca_version c + 1\<rparr>) sh)))"

end
