(* ===== verification/Order_Commands.thy ===== *)
theory Order_Commands
  imports Shop_State
begin

text \<open>
  Cancelling and expiring orders (\<open>orders/order-command.service.ts\<close>). \<open>sha\<close> is SHA-256 in hexadecimal,
  \<open>now\<close> the clock the transaction reads.
\<close>

definition order_state_conflict :: api_error where
  "order_state_conflict = Conflict ''ORDER_STATE_CONFLICT''"

definition order_command_contention :: api_error where
  "order_command_contention = Crash ''ORDER_COMMAND_CONTENTION''"

definition order_serializable :: "'a res \<Rightarrow> 'a res" where
  "order_serializable m = serializable (\<lambda>e. e = order_command_contention) m"

section \<open>Cancelling\<close>

record cancel_command =
  cc_order :: uid
  cc_scope :: string
  cc_owner :: "uid option"
  cc_actor :: string
  cc_request :: string
  cc_key :: string
  cc_fingerprint :: string
  cc_reason :: string

definition record_ttl :: int where
  "record_ttl = 24 * 60 * 60 * 1000"

definition purge_records :: "uid \<Rightarrow> string \<Rightarrow> string \<Rightarrow> int \<Rightarrow> shop_db \<Rightarrow> shop_db" where
  "purge_records oid scope key now sh = sh\<lparr>command_records := filter
     (\<lambda>r. \<not> (ir_order r = oid \<and> ir_scope r = scope \<and> ir_key r = key \<and> ir_expires r \<le> now))
     (command_records sh)\<rparr>"

definition finish_record :: "uid \<Rightarrow> string \<Rightarrow> string \<Rightarrow> answer \<Rightarrow> shop_db \<Rightarrow> shop_db" where
  "finish_record oid scope key a sh = sh\<lparr>command_records := map
     (\<lambda>r. if ir_order r = oid \<and> ir_scope r = scope \<and> ir_key r = key then r\<lparr>ir_answer := Some a\<rparr> else r)
     (command_records sh)\<rparr>"

definition closed_event ::
  "string \<Rightarrow> string \<Rightarrow> string \<Rightarrow> uid \<Rightarrow> uid \<Rightarrow> string \<Rightarrow> nat \<Rightarrow> int \<Rightarrow> outbox_event" where
  "closed_event topic key_name stamp oid customer reason released now =
     \<lparr>ob_topic = topic, ob_aggregate = ''order'', ob_aggregate_id = oid,
      ob_key = Dedup key_name oid [],
      ob_payload = [(''orderId'', JId oid), (''customerId'', JId customer), (''reason'', JStr reason),
        (''releasedReservations'', JNum (int released)), (stamp, JNum now)]\<rparr>"

definition closed_audit ::
  "string \<Rightarrow> uid \<Rightarrow> nat \<Rightarrow> (string \<times> jval) list \<Rightarrow> string option \<Rightarrow> string \<Rightarrow> audit_event" where
  "closed_audit action oid released meta actor request =
     \<lparr>ae_action = action, ae_entity = ''order'', ae_entity_id = oid,
      ae_before = [(''status'', JStr ''PENDING_PAYMENT'')],
      ae_after = [(''status'', JStr ''CANCELLED''), (''releasedReservations'', JNum (int released))],
      ae_metadata = meta, ae_actor = actor, ae_request = Some request\<rparr>"

text \<open>The part of the transaction that closes the order: state, stock, promotions, outbox, audit.\<close>

definition close_order ::
  "cancel_command \<Rightarrow> order_row \<Rightarrow> int \<Rightarrow> shop_db \<Rightarrow> (answer \<times> shop_db) res" where
  "close_order c order now sh =
     (let oid = cc_order c; actor = Some (cc_actor c); request = Some (cc_request c) in
     andthen (order_step oid OS_PENDING_PAYMENT OS_CANCELLED (actor, request, Some (cc_reason c)) sh) (\<lambda>sh1.
     andthen (on_stock (release_reservations_for_order oid \<lparr>ctx_actor = actor, ctx_request = request\<rparr>) sh1)
       (\<lambda>(released, sh2).
     let sh3 = on_promo (\<lambda>p. snd (release_for_order oid (cc_reason c) now p)) sh2 in
     andthen (add_outbox (closed_event ''ORDER_CANCELLED'' ''order-cancelled'' ''cancelledAt'' oid
         (or_customer order) (cc_reason c) released now) sh3) (\<lambda>sh4.
     Inr (Cancelled_answer oid (or_number order) released now,
       audit (closed_audit ''order.cancelled'' oid released
         [(''reason'', JStr (cc_reason c)), (''transitionId'', JNum (int (length (order_log sh))))]
         actor (cc_request c)) sh4)))))"

definition cancel_fresh ::
  "cancel_command \<Rightarrow> string \<Rightarrow> int \<Rightarrow> shop_db \<Rightarrow> (answer \<times> shop_db) res" where
  "cancel_fresh c key now sh =
     (let oid = cc_order c in
     andthen (add_record \<lparr>ir_order = oid, ir_scope = cc_scope c, ir_key = key,
         ir_fingerprint = cc_fingerprint c, ir_answer = None, ir_expires = now + record_ttl\<rparr> sh) (\<lambda>sh1.
     need (map_of (orders sh1) oid) (NotFound ''ORDER_NOT_FOUND'') (\<lambda>order.
     throw_if (cc_owner c \<noteq> None \<and> cc_owner c \<noteq> Some (or_customer order)) (NotFound ''ORDER_NOT_FOUND'')
     (throw_if (is_door_order sh1 oid) order_state_conflict
     (throw_if (or_status order \<noteq> OS_PENDING_PAYMENT) order_state_conflict
     (andthen (close_order c order now sh1) (\<lambda>(a, sh2).
     Inr (a, finish_record oid (cc_scope c) key a sh2))))))))"

definition cancel_body ::
  "(string \<Rightarrow> string) \<Rightarrow> int \<Rightarrow> cancel_command \<Rightarrow> shop_db \<Rightarrow> (answer \<times> shop_db) res" where
  "cancel_body sha now c sh =
     (let oid = cc_order c; key = sha (cc_key c); sh0 = purge_records oid (cc_scope c) key now sh in
      case find_record oid (cc_scope c) key sh0 of
        Some r \<Rightarrow> andthen (replayed r (cc_fingerprint c) order_command_contention) (\<lambda>a. Inr (a, sh0))
      | None \<Rightarrow> cancel_fresh c key now sh0)"

definition cancel_order ::
  "(string \<Rightarrow> string) \<Rightarrow> int \<Rightarrow> cancel_command \<Rightarrow> shop_db \<Rightarrow> (answer \<times> shop_db) res" where
  "cancel_order sha now c sh = order_serializable (cancel_body sha now c sh)"

definition assert_caller :: "string \<Rightarrow> string \<Rightarrow> unit res" where
  "assert_caller actor request = throw_if (actor = [] \<or> request = []) (Conflict ''CONFLICT'') (Inr ())"

definition cancel_fingerprint :: "(string \<Rightarrow> string) \<Rightarrow> string \<Rightarrow> string \<Rightarrow> string" where
  "cancel_fingerprint sha actor reason =
     sha (json_object [(''actorId'', JStr actor), (''reason'', JStr reason)])"

definition cancel_as_customer ::
  "(string \<Rightarrow> string) \<Rightarrow> int \<Rightarrow> string \<Rightarrow> uid \<Rightarrow> string \<Rightarrow> string \<Rightarrow> shop_db \<Rightarrow> (answer \<times> shop_db) res" where
  "cancel_as_customer sha now user oid key request sh =
     andthen (assert_caller user request) (\<lambda>_.
     need (customer_of_user sh user) (Conflict ''CONFLICT'') (\<lambda>(cid, _).
     cancel_order sha now \<lparr>cc_order = oid, cc_scope = ''order.cancel:customer'', cc_owner = Some cid,
       cc_actor = user, cc_request = request, cc_key = key,
       cc_fingerprint = cancel_fingerprint sha user ''CUSTOMER_CANCELLED'',
       cc_reason = ''CUSTOMER_CANCELLED''\<rparr> sh))"

definition cancel_as_staff ::
  "(string \<Rightarrow> string) \<Rightarrow> int \<Rightarrow> string \<Rightarrow> uid \<Rightarrow> string \<Rightarrow> string \<Rightarrow> shop_db \<Rightarrow> (answer \<times> shop_db) res" where
  "cancel_as_staff sha now user oid key request sh =
     andthen (assert_caller user request) (\<lambda>_.
     cancel_order sha now \<lparr>cc_order = oid, cc_scope = ''order.cancel:staff'', cc_owner = None,
       cc_actor = user, cc_request = request, cc_key = key,
       cc_fingerprint = cancel_fingerprint sha user ''STAFF_CANCELLED'',
       cc_reason = ''STAFF_CANCELLED''\<rparr> sh)"

section \<open>Expiry\<close>

text \<open>Who expires orders: a member of staff, or the worker, which has no actor.\<close>

datatype expiry_caller = Staff_caller string string | System_caller string

definition caller_actor :: "expiry_caller \<Rightarrow> string option" where
  "caller_actor c = (case c of Staff_caller a _ \<Rightarrow> Some a | System_caller _ \<Rightarrow> None)"

definition caller_request :: "expiry_caller \<Rightarrow> string" where
  "caller_request c = (case c of Staff_caller _ r \<Rightarrow> r | System_caller r \<Rightarrow> r)"

definition request_id_for_order :: "string \<Rightarrow> uid \<Rightarrow> string" where
  "request_id_for_order base oid = take 128 (base @ '':'' @ show_nat oid)"

definition expirable :: "int \<Rightarrow> shop_db \<Rightarrow> uid \<Rightarrow> order_row \<Rightarrow> bool" where
  "expirable now sh oid order \<longleftrightarrow> or_status order = OS_PENDING_PAYMENT \<and> \<not> is_door_order sh oid
     \<and> or_expires order \<le> now \<and> payments_of sh oid = []"

definition release_for_expiry :: "expiry_caller \<Rightarrow> uid \<Rightarrow> string \<Rightarrow> inv_db \<Rightarrow> (nat \<times> inv_db) res" where
  "release_for_expiry who oid request =
     (case who of
        System_caller _ \<Rightarrow> release_reservations_for_order_from_expiry oid request
      | Staff_caller a r \<Rightarrow> release_reservations_for_order oid \<lparr>ctx_actor = Some a, ctx_request = Some r\<rparr>)"

definition expire_pending :: "expiry_caller \<Rightarrow> int \<Rightarrow> uid \<Rightarrow> order_row \<Rightarrow> shop_db \<Rightarrow> shop_db res" where
  "expire_pending who now oid order sh =
     (let request = request_id_for_order (caller_request who) oid; actor = caller_actor who in
     andthen (order_step oid OS_PENDING_PAYMENT OS_CANCELLED (actor, Some request, Some ''RESERVATION_EXPIRED'') sh)
       (\<lambda>sh1.
     andthen (on_stock (release_for_expiry who oid request) sh1) (\<lambda>(released, sh2).
     let sh3 = on_promo (\<lambda>p. snd (release_for_order oid ''RESERVATION_EXPIRED'' now p)) sh2 in
     andthen (add_outbox (closed_event ''ORDER_EXPIRED'' ''order-expired'' ''expiredAt'' oid
         (or_customer order) ''RESERVATION_EXPIRED'' released now) sh3) (\<lambda>sh4.
     Inr (audit (closed_audit ''order.expired'' oid released
       ([(''reason'', JStr ''RESERVATION_EXPIRED''), (''transitionId'', JNum (int (length (order_log sh))))]
        @ (if actor = None then [(''systemActor'', JStr ''order-reservation-expiry'')] else []))
       actor request) sh4)))))"

definition expire_order_body :: "expiry_caller \<Rightarrow> int \<Rightarrow> uid \<Rightarrow> shop_db \<Rightarrow> (bool \<times> shop_db) res" where
  "expire_order_body who now oid sh =
     (case map_of (orders sh) oid of
        None \<Rightarrow> Inr (False, sh)
      | Some order \<Rightarrow>
          if \<not> expirable now sh oid order then Inr (False, sh)
          else andthen (expire_pending who now oid order sh) (\<lambda>sh'. Inr (True, sh')))"

definition expire_order :: "expiry_caller \<Rightarrow> int \<Rightarrow> uid \<Rightarrow> shop_db \<Rightarrow> (bool \<times> shop_db) res" where
  "expire_order who now oid sh = order_serializable (expire_order_body who now oid sh)"

text \<open>The batch: each order in its own transaction, so the orders expired before an error stay
  expired; an order that changed meanwhile is skipped.\<close>

fun expire_each :: "expiry_caller \<Rightarrow> int \<Rightarrow> uid list \<Rightarrow> nat \<Rightarrow> shop_db \<Rightarrow> nat res \<times> shop_db" where
  "expire_each who now [] n sh = (Inr n, sh)"
| "expire_each who now (oid # oids) n sh =
     (case expire_order who now oid sh of
        Inr (done, sh') \<Rightarrow> expire_each who now oids (if done then n + 1 else n) sh'
      | Inl e \<Rightarrow> if e = order_state_conflict then expire_each who now oids n sh else (Inl e, sh))"

definition expiry_orders :: "int \<Rightarrow> nat \<Rightarrow> shop_db \<Rightarrow> uid list" where
  "expiry_orders now batch sh =
     map fst (take batch (sort_key (\<lambda>(i, o'). (or_expires o', i))
       (filter (\<lambda>(i, o'). expirable now sh i o') (orders sh))))"

definition expire_batch :: "expiry_caller \<Rightarrow> int \<Rightarrow> js_number option \<Rightarrow> shop_db \<Rightarrow> nat res \<times> shop_db" where
  "expire_batch who now batch sh =
     expire_each who now (expiry_orders now (nat (clamp_int batch 1 100 100)) sh) 0 sh"

definition expire_pending_payment_orders ::
  "string \<Rightarrow> string \<Rightarrow> int \<Rightarrow> js_number option \<Rightarrow> shop_db \<Rightarrow> nat res \<times> shop_db" where
  "expire_pending_payment_orders actor request now batch sh =
     (case assert_caller actor request of
        Inl e \<Rightarrow> (Inl e, sh) | Inr _ \<Rightarrow> expire_batch (Staff_caller actor request) now batch sh)"

definition system_context :: "string \<Rightarrow> expiry_caller res" where
  "system_context request =
     throw_if (\<not> correlation_id request)
       (BadRequest ''A bounded correlation ID is required for order expiry.'') (Inr (System_caller request))"

definition expire_abandoned_orders_as_system ::
  "string \<Rightarrow> int \<Rightarrow> js_number option \<Rightarrow> shop_db \<Rightarrow> nat res \<times> shop_db" where
  "expire_abandoned_orders_as_system request now batch sh =
     (case system_context request of Inl e \<Rightarrow> (Inl e, sh) | Inr who \<Rightarrow> expire_batch who now batch sh)"

definition expire_abandoned_order_as_system ::
  "uid \<Rightarrow> string \<Rightarrow> int \<Rightarrow> shop_db \<Rightarrow> (bool \<times> shop_db) res" where
  "expire_abandoned_order_as_system oid request now sh =
     andthen (system_context request) (\<lambda>who. expire_order who now oid sh)"

end
