(* ===== verification/Checkout.thy ===== *)
theory Checkout
  imports Cart Order_Commands
begin

text \<open>
  From the cart to the order: shipping quotes (\<open>orders/configured-shipping-quote.adapter.ts\<close>) and checkout
  (\<open>orders/checkout.service.ts\<close>). The delivery address arrives normalized or refused:
  \<open>normalizeCheckoutAddress\<close> works on Unicode, so its answer is an argument.
\<close>

section \<open>Shipping quotes\<close>

definition shipping_quote_ttl :: int where
  "shipping_quote_ttl = 15 * 60 * 1000"

definition price_policy :: string where
  "price_policy = ''catalog-sale-price-v1''"

definition checkout_address_hash :: "(string \<Rightarrow> string) \<Rightarrow> address \<Rightarrow> string" where
  "checkout_address_hash sha a = sha (json_array [JStr (ad_province a), JStr (ad_city a), JStr (ad_street a),
     JStr (ad_postal_code a), JStr (ad_recipient a), JStr (ad_mobile a)])"

definition active_methods :: "shop_db \<Rightarrow> (uid \<times> shipping_method) list" where
  "active_methods sh = sort_key (\<lambda>(i, m). (sm_code m, i)) (filter (\<lambda>(_, m). sm_active m) (shipping_methods (market sh)))"

definition put_quotes :: "(uid \<times> shipping_quote) list \<Rightarrow> shop_db \<Rightarrow> shop_db" where
  "put_quotes qs sh = put_market ((market sh)\<lparr>shipping_quotes := qs\<rparr>) sh"

definition cart_pricing ::
  "(string \<Rightarrow> string) \<Rightarrow> shop_db \<Rightarrow> uid \<Rightarrow> cart \<Rightarrow> pricing_line list \<Rightarrow> int \<Rightarrow> int \<Rightarrow> pricing_outcome" where
  "cart_pricing norm sh cid c ls shipping now =
     price norm (promo sh) (facts_of_orders sh)
       \<lparr>pi_customer = cid, pi_lines = ls, pi_shipping = shipping, pi_coupon = ca_coupon c, pi_now = now,
        pi_shipping_known = True, pi_exclude = None\<rparr>"

definition new_quote ::
  "(string \<Rightarrow> string) \<Rightarrow> uid \<Rightarrow> uid \<Rightarrow> cart \<Rightarrow> uid \<Rightarrow> shipping_method \<Rightarrow> address \<Rightarrow> int \<Rightarrow> int \<Rightarrow> int \<Rightarrow> shipping_quote" where
  "new_quote sha cid i c mi m a subtotal discount now =
     \<lparr>sq_customer = cid, sq_cart = i, sq_cart_version = ca_version c, sq_method = mi, sq_code = sm_code m,
      sq_title = sm_title m, sq_address = checkout_address_hash sha a, sq_subtotal = subtotal,
      sq_amount = sm_amount m, sq_price_policy = price_policy, sq_policy = sm_policy m, sq_discount = discount,
      sq_expires = now + shipping_quote_ttl, sq_consumed = None, sq_order = None\<rparr>"

text \<open>One quote per active method, each offer on its own.\<close>

fun quote_methods ::
  "(string \<Rightarrow> string) \<Rightarrow> (string \<Rightarrow> string) \<Rightarrow> uid \<Rightarrow> uid \<Rightarrow> cart \<Rightarrow> pricing_line list \<Rightarrow> address \<Rightarrow> int \<Rightarrow> int
     \<Rightarrow> (uid \<times> shipping_method) list \<Rightarrow> shop_db \<Rightarrow> (uid \<times> shipping_quote) list \<times> shop_db" where
  "quote_methods sha norm cid i c ls a subtotal now [] sh = ([], sh)"
| "quote_methods sha norm cid i c ls a subtotal now (m # ms) sh =
     (let discount = er_total (po_result (cart_pricing norm sh cid c ls (sm_amount (snd m)) now));
          q = new_quote sha cid i c (fst m) (snd m) a subtotal discount now;
          sh1 = put_quotes (shipping_quotes (market sh) @ [(next_row sh, q)]) (sh\<lparr>next_row := Suc (next_row sh)\<rparr>);
          (qs, sh2) = quote_methods sha norm cid i c ls a subtotal now ms sh1
      in ((next_row sh, q) # qs, sh2))"

definition all_sellable :: "shop_db \<Rightarrow> cart \<Rightarrow> bool" where
  "all_sellable sh c \<longleftrightarrow> list_all (\<lambda>x. sellable sh (fst x)) (ca_items c)"

definition preview_for_user ::
  "(string \<Rightarrow> string) \<Rightarrow> (string \<Rightarrow> string) \<Rightarrow> int \<Rightarrow> string \<Rightarrow> address res \<Rightarrow> shop_db
     \<Rightarrow> ((cart_view \<times> (uid \<times> shipping_quote) list) \<times> shop_db) res" where
  "preview_for_user sha norm now user normalized sh =
     andthen normalized (\<lambda>a.
     need (customer_of_user sh user) (Conflict ''CONFLICT'') (\<lambda>(cid, _).
     need (cart_of sh cid) (Conflict ''CART_EMPTY'') (\<lambda>(i, c).
     throw_if (ca_items c = []) (Conflict ''CART_EMPTY'')
     (throw_if (\<not> all_sellable sh c) (Conflict ''QUOTE_CHANGED'')
     (throw_if (active_methods sh = []) (Conflict ''SHIPPING_UNAVAILABLE'')
     (andthen (build_cart_view sh now i c) (\<lambda>view.
      andthen (pricing_lines sh c) (\<lambda>ls.
      let sh1 = put_quotes (filter (\<lambda>(_, q). \<not> (sq_customer q = cid \<and> sq_consumed q = None \<and> sq_expires q \<le> now))
            (shipping_quotes (market sh))) sh;
          (qs, sh2) = quote_methods sha norm cid i c ls a (cv_subtotal view) now (active_methods sh) sh1
      in Inr ((view, qs), sh2)))))))))"

definition quote_valid ::
  "(string \<Rightarrow> string) \<Rightarrow> shop_db \<Rightarrow> shipping_quote \<Rightarrow> uid \<Rightarrow> uid \<Rightarrow> cart \<Rightarrow> address \<Rightarrow> int \<Rightarrow> bool" where
  "quote_valid sha sh q cid i c a now \<longleftrightarrow>
     sq_customer q = cid \<and> sq_cart q = i \<and> sq_cart_version q = ca_version c \<and> sq_consumed q = None
     \<and> sq_order q = None \<and> sq_expires q > now \<and> sq_address q = checkout_address_hash sha a
     \<and> (case map_of (shipping_methods (market sh)) (sq_method q) of
          None \<Rightarrow> False
        | Some m \<Rightarrow> sm_active m \<and> sq_code q = sm_code m \<and> sq_title q = sm_title m \<and> sq_amount q = sm_amount m
            \<and> sq_policy q = sm_policy m)"

definition require_valid_quote ::
  "(string \<Rightarrow> string) \<Rightarrow> shop_db \<Rightarrow> uid \<Rightarrow> uid \<Rightarrow> uid \<Rightarrow> cart \<Rightarrow> address \<Rightarrow> int \<Rightarrow> shipping_quote res" where
  "require_valid_quote sha sh qi cid i c a now =
     need (map_of (shipping_quotes (market sh)) qi) (Conflict ''SHIPPING_QUOTE_CHANGED'') (\<lambda>q.
     throw_if (\<not> quote_valid sha sh q cid i c a now) (Conflict ''SHIPPING_QUOTE_CHANGED'') (Inr q))"

section \<open>Holding the stock of an order\<close>

definition checkout_contention :: api_error where
  "checkout_contention = Crash ''CheckoutContentionError''"

text \<open>The places of a variant, in the order of the codes of their warehouses and locations.\<close>

definition code_at :: "('r \<Rightarrow> string) \<Rightarrow> (uid \<times> 'r) list \<Rightarrow> uid \<Rightarrow> string" where
  "code_at code t i = (case map_of t i of None \<Rightarrow> [] | Some r \<Rightarrow> code r)"

definition stock_places :: "inv_db \<Rightarrow> uid \<Rightarrow> (stock_key \<times> balance) list" where
  "stock_places db v = sort_key (\<lambda>(k, b).
       (code_at wh_code (warehouses db) (sk_warehouse k), code_at loc_code (locations db) (sk_location k),
        - available b))
     (filter (\<lambda>(_, b). available b > 0) (active_balances db v))"

definition held_balance :: "int \<Rightarrow> balance \<Rightarrow> balance" where
  "held_balance q b = b\<lparr>reserved := reserved b + q, available := available b - q, bal_version := bal_version b + 1\<rparr>"

text \<open>The conditional \<open>updateMany\<close>: the row must still be what was read.\<close>

definition still_there :: "inv_db \<Rightarrow> stock_key \<Rightarrow> balance \<Rightarrow> int \<Rightarrow> bool" where
  "still_there db k b q \<longleftrightarrow>
     (case map_of (balances db) k of None \<Rightarrow> False
      | Some b' \<Rightarrow> bal_version b' = bal_version b \<and> available b' \<ge> q \<and> shelf_active db k)"

record hold =
  hd_order :: uid
  hd_customer :: uid
  hd_key :: string
  hd_expires :: int
  hd_actor :: string
  hd_request :: string

definition reservation_idempotency_key :: "(string \<Rightarrow> string) \<Rightarrow> hold \<Rightarrow> uid \<Rightarrow> uid \<Rightarrow> string" where
  "reservation_idempotency_key sha h v l = ''checkout:'' @
     sha (json_array [JId (hd_customer h), JStr (hd_key h), JId v, JId l])"

definition held_reservation :: "(string \<Rightarrow> string) \<Rightarrow> hold \<Rightarrow> stock_key \<Rightarrow> int \<Rightarrow> reservation" where
  "held_reservation sha h k q =
     \<lparr>rs_key = k, rs_order = Some (hd_order h), rs_quantity = q, rs_status = RS_ACTIVE, rs_expires = hd_expires h,
      rs_idem = Some (reservation_idempotency_key sha h (sk_variant k) (sk_location k))\<rparr>"

definition held_event :: "hold \<Rightarrow> stock_key \<Rightarrow> int \<Rightarrow> uid \<Rightarrow> audit_event" where
  "held_event h k q i =
     \<lparr>ae_action = ''inventory.reservation.created'', ae_entity = ''stock-reservation'', ae_entity_id = i,
      ae_before = [], ae_after = [],
      ae_metadata = [(''orderId'', JId (hd_order h)), (''warehouseId'', JId (sk_warehouse k)),
        (''locationId'', JId (sk_location k)), (''variantId'', JId (sk_variant k)), (''quantity'', JNum q)],
      ae_actor = Some (hd_actor h), ae_request = Some (hd_request h)\<rparr>"

definition hold_at ::
  "(string \<Rightarrow> string) \<Rightarrow> hold \<Rightarrow> stock_key \<Rightarrow> balance \<Rightarrow> int \<Rightarrow> inv_db \<Rightarrow> (uid \<times> inv_db) res" where
  "hold_at sha h k b q db =
     throw_if (\<not> still_there db k b q) checkout_contention
     (andthen (put_balance k (held_balance q (bal db k)) db) (\<lambda>db1.
      andthen (add_reservation (held_reservation sha h k q) db1) (\<lambda>(i, db2).
      Inr (i, record_audit (held_event h k q i) db2))))"

fun hold_places ::
  "(string \<Rightarrow> string) \<Rightarrow> hold \<Rightarrow> (stock_key \<times> balance) list \<Rightarrow> int \<Rightarrow> inv_db
     \<Rightarrow> ((uid \<times> uid \<times> int) list \<times> inv_db) res" where
  "hold_places sha h [] remaining db = Inr ([], db)"
| "hold_places sha h ((k, b) # places) remaining db =
     (if remaining = 0 then Inr ([], db)
      else let q = min remaining (available b) in
        andthen (hold_at sha h k b q db) (\<lambda>(i, db1).
        andthen (hold_places sha h places (remaining - q) db1) (\<lambda>(rs, db2).
        Inr ((i, sk_variant k, q) # rs, db2))))"

definition hold_line ::
  "(string \<Rightarrow> string) \<Rightarrow> hold \<Rightarrow> uid \<Rightarrow> int \<Rightarrow> inv_db \<Rightarrow> ((uid \<times> uid \<times> int) list \<times> inv_db) res" where
  "hold_line sha h v q db =
     (let places = stock_places db v in
      throw_if ((\<Sum>x\<leftarrow>places. available (snd x)) < q) (Conflict ''INSUFFICIENT_STOCK'')
        (hold_places sha h places q db))"

fun hold_lines ::
  "(string \<Rightarrow> string) \<Rightarrow> hold \<Rightarrow> (uid \<times> int \<times> int) list \<Rightarrow> inv_db \<Rightarrow> ((uid \<times> uid \<times> int) list \<times> inv_db) res" where
  "hold_lines sha h [] db = Inr ([], db)"
| "hold_lines sha h (l # ls) db =
     andthen (hold_line sha h (fst l) (fst (snd l)) db) (\<lambda>(rs, db1).
     andthen (hold_lines sha h ls db1) (\<lambda>(rs', db2). Inr (rs @ rs', db2)))"

section \<open>The order\<close>

definition checkout_ttl :: int where
  "checkout_ttl = 24 * 60 * 60 * 1000"

definition reservation_ttl :: int where
  "reservation_ttl = 15 * 60 * 1000"

record checkout_input =
  ci_user :: string
  ci_address :: "address res"
  ci_quote :: uid
  ci_key :: string
  ci_request :: string
  ci_number :: string

definition address_fields :: "address \<Rightarrow> (string \<times> jval) list" where
  "address_fields a = [(''provinceCode'', JStr (ad_province a)), (''city'', JStr (ad_city a)),
     (''address'', JStr (ad_street a)), (''postalCode'', JStr (ad_postal_code a)),
     (''recipient'', JStr (ad_recipient a)), (''mobile'', JStr (ad_mobile a))]"

definition checkout_fingerprint :: "(string \<Rightarrow> string) \<Rightarrow> address \<Rightarrow> uid \<Rightarrow> string" where
  "checkout_fingerprint sha a qi = sha (CHR 0x7B # json_string ''address'' @ '':'' @ json_object (address_fields a)
     @ '','' @ json_string ''shippingQuoteId'' @ '':'' @ json_value (JId qi) @ ''}'')"

text \<open>The record that makes a checkout idempotent; the scope is always the same.\<close>

definition put_checkouts :: "checkout_record list \<Rightarrow> shop_db \<Rightarrow> shop_db" where
  "put_checkouts rs sh = put_market ((market sh)\<lparr>checkout_records := rs\<rparr>) sh"

definition find_checkout :: "uid \<Rightarrow> string \<Rightarrow> shop_db \<Rightarrow> checkout_record option" where
  "find_checkout cid key sh = List.find (\<lambda>r. kr_customer r = cid \<and> kr_key r = key) (checkout_records (market sh))"

definition purge_checkouts :: "uid \<Rightarrow> string \<Rightarrow> int \<Rightarrow> shop_db \<Rightarrow> shop_db" where
  "purge_checkouts cid key now sh = put_checkouts (filter
     (\<lambda>r. \<not> (kr_customer r = cid \<and> kr_key r = key \<and> kr_expires r \<le> now)) (checkout_records (market sh))) sh"

definition finish_checkout :: "uid \<Rightarrow> string \<Rightarrow> checkout_answer \<Rightarrow> shop_db \<Rightarrow> shop_db" where
  "finish_checkout cid key a sh = put_checkouts (map (\<lambda>r. if kr_customer r = cid \<and> kr_key r = key
     then r\<lparr>kr_order := Some (ck_order a), kr_answer := Some a\<rparr> else r) (checkout_records (market sh))) sh"

text \<open>The lines of the order, with the price of the catalogue now.\<close>

definition order_line_of :: "shop_db \<Rightarrow> uid \<times> int \<Rightarrow> (uid \<times> int \<times> int) res" where
  "order_line_of sh item =
     need (map_of (goods_table (market sh)) (fst item)) (Crash ''TypeError'') (\<lambda>g. Inr (fst item, snd item, gd_price g))"

definition lines_total :: "(uid \<times> int \<times> int) list \<Rightarrow> int" where
  "lines_total ls = (\<Sum>l\<leftarrow>ls. snd (snd l) * fst (snd l))"

definition number_items :: "uid \<Rightarrow> (uid \<times> int \<times> int) list \<Rightarrow> (uid \<times> order_item) list" where
  "number_items start ls = map (\<lambda>(i, v, q, p). (start + i, \<lparr>oi_variant = v, oi_quantity = q, oi_unit_price = p\<rparr>))
     (zip [0..<length ls] ls)"

definition draft_order ::
  "checkout_input \<Rightarrow> uid \<Rightarrow> address \<Rightarrow> (uid \<times> int \<times> int) list \<Rightarrow> shipping_quote \<Rightarrow> int \<Rightarrow> int \<Rightarrow> uid \<Rightarrow> order_row" where
  "draft_order inp cid a ls q discount now start =
     \<lparr>or_number = ci_number inp, or_customer = cid, or_status = OS_DRAFT, or_subtotal = lines_total ls,
      or_discount = discount, or_shipping = sq_amount q, or_total = lines_total ls + sq_amount q - discount,
      or_expires = now + reservation_ttl, or_address = Some (json_object (address_fields a)),
      or_items = number_items start ls\<rparr>"

definition add_order :: "order_row \<Rightarrow> shop_db \<Rightarrow> shop_db res" where
  "add_order o' sh =
     throw_if (\<exists>x \<in> set (orders sh). or_number (snd x) = or_number o') (DbError ''P2002'')
     (Inr (sh\<lparr>orders := orders sh @ [(next_row sh, o')], next_row := next_row sh + 1 + length (or_items o')\<rparr>))"

definition consume_quote :: "uid \<Rightarrow> uid \<Rightarrow> int \<Rightarrow> shop_db \<Rightarrow> shop_db res" where
  "consume_quote qi oid now sh =
     (case map_of (shipping_quotes (market sh)) qi of
        None \<Rightarrow> Inl checkout_contention
      | Some q \<Rightarrow>
          throw_if (sq_consumed q \<noteq> None \<or> sq_order q \<noteq> None) checkout_contention
            (Inr (put_quotes (AList.update qi (q\<lparr>sq_consumed := Some now, sq_order := Some oid\<rparr>)
              (shipping_quotes (market sh))) sh)))"

definition order_created_event :: "uid \<Rightarrow> uid \<Rightarrow> int \<Rightarrow> outbox_event" where
  "order_created_event oid cid expires =
     \<lparr>ob_topic = ''ORDER_CREATED'', ob_aggregate = ''order'', ob_aggregate_id = oid,
      ob_key = Dedup ''order-created'' oid [],
      ob_payload = [(''orderId'', JId oid), (''customerId'', JId cid), (''reservationExpiresAt'', JNum expires)]\<rparr>"

definition empty_cart :: "uid \<Rightarrow> cart \<Rightarrow> shop_db \<Rightarrow> shop_db" where
  "empty_cart i c sh = put_cart i (c\<lparr>ca_items := [], ca_coupon := None, ca_version := ca_version c + 1\<rparr>) sh"

definition checkout_audit :: "checkout_input \<Rightarrow> uid \<Rightarrow> order_row \<Rightarrow> shipping_quote \<Rightarrow> nat \<Rightarrow> nat \<Rightarrow> audit_event" where
  "checkout_audit inp oid o' q items holds =
     \<lparr>ae_action = ''order.checkout.created'', ae_entity = ''order'', ae_entity_id = oid, ae_before = [],
      ae_after = [(''status'', JStr ''PENDING_PAYMENT''), (''subtotal'', JStr (show_int (or_subtotal o'))),
        (''shipping'', JStr (show_int (or_shipping o'))), (''discount'', JStr (show_int (or_discount o'))),
        (''grandTotal'', JStr (show_int (or_total o')))],
      ae_metadata = [(''itemCount'', JNum (int items)), (''reservationCount'', JNum (int holds)),
        (''shippingMethod'', JStr (sq_code q))],
      ae_actor = Some (ci_user inp), ae_request = Some (ci_request inp)\<rparr>"

definition checkout_answer_of ::
  "uid \<Rightarrow> order_row \<Rightarrow> (uid \<times> int \<times> int) list \<Rightarrow> pricing_outcome \<Rightarrow> address \<Rightarrow> uid \<Rightarrow> shipping_quote
     \<Rightarrow> int \<Rightarrow> (uid \<times> uid \<times> int) list \<Rightarrow> checkout_answer" where
  "checkout_answer_of oid o' ls offer a qi q now holds =
     \<lparr>ck_order = oid, ck_number = or_number o', ck_lines = ls, ck_subtotal = or_subtotal o',
      ck_discount = or_discount o', ck_promotions = er_applied (po_result offer), ck_coupon = po_coupon offer,
      ck_shipping = or_shipping o', ck_total = or_total o', ck_address = a, ck_quote = (qi, q),
      ck_expires = or_expires o', ck_created = now, ck_reservations = holds\<rparr>"

text \<open>The writes of the transaction, in their order: the order, its promotions, its state, its stock, the
  quote, the outbox, the cart.\<close>

definition place_order ::
  "(string \<Rightarrow> string) \<Rightarrow> int \<Rightarrow> checkout_input \<Rightarrow> uid \<Rightarrow> uid \<Rightarrow> cart \<Rightarrow> (uid \<times> int \<times> int) list
     \<Rightarrow> pricing_outcome \<Rightarrow> uid \<Rightarrow> order_row \<Rightarrow> shop_db \<Rightarrow> ((uid \<times> uid \<times> int) list \<times> shop_db) res" where
  "place_order sha now inp cid i c ls offer oid o' sh =
     andthen (add_order o' sh) (\<lambda>sh1.
     andthen (reserve_promotions oid cid (er_applied (po_result offer)) (promo sh1)) (\<lambda>p.
     andthen (order_step oid OS_DRAFT OS_PENDING_PAYMENT
       (Some (ci_user inp), Some (ci_request inp), Some ''CHECKOUT_COMPLETED'') (sh1\<lparr>promo := p\<rparr>)) (\<lambda>sh2.
     andthen (on_stock (hold_lines sha \<lparr>hd_order = oid, hd_customer = cid, hd_key = sha (ci_key inp),
         hd_expires = or_expires o', hd_actor = ci_user inp, hd_request = ci_request inp\<rparr> ls) sh2) (\<lambda>(holds, sh3).
     andthen (consume_quote (ci_quote inp) oid now sh3) (\<lambda>sh4.
     andthen (add_outbox (order_created_event oid cid (or_expires o')) sh4) (\<lambda>sh5.
     Inr (holds, empty_cart i c sh5)))))))"

definition checkout_fresh ::
  "(string \<Rightarrow> string) \<Rightarrow> (string \<Rightarrow> string) \<Rightarrow> int \<Rightarrow> checkout_input \<Rightarrow> uid \<Rightarrow> address \<Rightarrow> shop_db
     \<Rightarrow> (checkout_answer \<times> shop_db) res" where
  "checkout_fresh sha norm now inp cid a sh =
     need (cart_of sh cid) (Conflict ''CART_EMPTY'') (\<lambda>(i, c).
     throw_if (ca_items c = []) (Conflict ''CART_EMPTY'')
     (throw_if (\<not> all_sellable sh c) (NotFound ''SKU_NOT_FOUND'')
     (andthen (require_valid_quote sha sh (ci_quote inp) cid i c a now) (\<lambda>q.
      andthen (map_res (order_line_of sh) (cart_items c)) (\<lambda>ls.
      throw_if (lines_total ls \<noteq> sq_subtotal q \<or> sq_price_policy q \<noteq> price_policy) (Conflict ''QUOTE_CHANGED'')
      (andthen (pricing_lines sh c) (\<lambda>pls.
       let offer = cart_pricing norm sh cid c pls (sq_amount q) now;
           discount = er_total (po_result offer);
           o' = draft_order inp cid a ls q discount now (next_row sh + 1);
           oid = next_row sh in
       throw_if (discount \<noteq> sq_discount q) (Conflict ''QUOTE_CHANGED'')
       (andthen (place_order sha now inp cid i c ls offer oid o' sh) (\<lambda>(holds, sh1).
        let answer = checkout_answer_of oid o' ls offer a (ci_quote inp) q now holds in
        Inr (answer, audit (checkout_audit inp oid o' q (length ls) (length holds))
          (finish_checkout cid (sha (ci_key inp)) answer sh1)))))))))))"

definition checkout_body ::
  "(string \<Rightarrow> string) \<Rightarrow> (string \<Rightarrow> string) \<Rightarrow> int \<Rightarrow> checkout_input \<Rightarrow> uid \<Rightarrow> address \<Rightarrow> shop_db
     \<Rightarrow> (checkout_answer \<times> shop_db) res" where
  "checkout_body sha norm now inp cid a sh =
     (let key = sha (ci_key inp); fp = checkout_fingerprint sha a (ci_quote inp);
          sh0 = purge_checkouts cid key now sh in
      case find_checkout cid key sh0 of
        Some r \<Rightarrow>
          throw_if (kr_fingerprint r \<noteq> fp) (Conflict ''IDEMPOTENCY_CONFLICT'')
            (need (kr_answer r) checkout_contention (\<lambda>answer. Inr (answer, sh0)))
      | None \<Rightarrow>
          checkout_fresh sha norm now inp cid a (put_checkouts (checkout_records (market sh0) @
            [\<lparr>kr_customer = cid, kr_key = key, kr_fingerprint = fp, kr_order = None, kr_answer = None,
              kr_expires = now + checkout_ttl\<rparr>]) sh0))"

definition create_for_user ::
  "(string \<Rightarrow> string) \<Rightarrow> (string \<Rightarrow> string) \<Rightarrow> int \<Rightarrow> checkout_input \<Rightarrow> shop_db \<Rightarrow> (checkout_answer \<times> shop_db) res" where
  "create_for_user sha norm now inp sh =
     andthen (ci_address inp) (\<lambda>a.
     need (customer_of_user sh (ci_user inp)) (Conflict ''CONFLICT'') (\<lambda>(cid, _).
     serializable (\<lambda>e. e = checkout_contention) (checkout_body sha norm now inp cid a sh)))"

end
