(* ===== verification/Checkout_Stock.thy ===== *)
theory Checkout_Stock
  imports Checkout Inventory_Commands
begin

text \<open>
  What holding the stock of an order does to the ledger: the balances stay reconciled, and the order
  holds exactly what each line asks for.
\<close>

definition variant_held :: "inv_db \<Rightarrow> uid \<Rightarrow> uid \<Rightarrow> int" where
  "variant_held db oid v = asum (\<lambda>_ r. if rs_order r = Some oid \<and> rs_status r = RS_ACTIVE
     \<and> sk_variant (rs_key r) = v then rs_quantity r else 0) (reservations db)"

lemma hold_at_Inr:
  assumes "hold_at sha h k b q db = Inr (i, db')"
  shows "map_of (balances db) k \<noteq> None" "q \<le> available (bal db k)" "i = next_id db"
    "int4 (reserved (bal db k) + q)"
    "db' = record_audit (held_event h k q (next_id db))
       (db\<lparr>balances := AList.update k (held_balance q (bal db k)) (balances db),
          reservations := reservations db @ [(next_id db, held_reservation sha h k q)],
          next_id := Suc (next_id db)\<rparr>)"
  using assms
  by (auto simp: hold_at_def res_iff still_there_def bal_def find_or_def held_balance_def split: option.splits)

lemma hold_at_ok:
  assumes ok: "ledger_ok db" and run: "hold_at sha h k b q db = Inr (i, db')" and q: "0 < q"
  shows "ledger_ok db'"
proof (rule ledger_okI)
  note run = hold_at_Inr[OF run]
  note inv = ledger_ok_inv[OF ok]
  show "stock_inv db'"
  proof (rule stock_inv_step[OF inv, where k = k and b' = "held_balance q (bal db k)"])
    show "consistent (held_balance q (bal db k))"
      using stock_invD(1)[OF inv, of k] run(2) q by (auto simp: consistent_def held_balance_def)
    show "rows_wf db'"
      using stock_invD(4)[OF inv] q
      by (auto simp: run(5) rows_wf_def record_audit_def held_reservation_def distinct_update)
  qed (auto simp: run(5) stock_simps held_reservation_def held_balance_def active_qty_def)
  show "int4 (onHand (bal db' k'))" for k'
    using ledger_ok_onHand[OF ok, of k'] ledger_ok_onHand[OF ok, of k] by (auto simp: run(5) stock_simps held_balance_def)
qed

lemma hold_at_held:
  "hold_at sha h k b q db = Inr (i, db') \<Longrightarrow> variant_held db' oid v = variant_held db oid v
     + (if oid = hd_order h \<and> v = sk_variant k then q else 0)"
  by (drule hold_at_Inr(5)) (auto simp: variant_held_def record_audit_def asum_append held_reservation_def)

lemma hold_places_ok:
  assumes "hold_places sha h places q db = Inr (rs, db')" "ledger_ok db" "0 \<le> q" "\<forall>x \<in> set places. 0 < available (snd x)"
  shows "ledger_ok db'"
  using assms
proof (induction places arbitrary: q db rs)
  case (Cons x places)
  obtain k b where x: "x = (k, b)" by force
  show ?case
  proof (cases "q = 0")
    case True
    then show ?thesis using Cons.prems by (simp add: x)
  next
    case False
    let ?p = "min q (available b)"
    have p: "0 < ?p" using False Cons.prems(3,4) by (auto simp: x)
    obtain i db1 rs' where run: "hold_at sha h k b ?p db = Inr (i, db1)"
      "hold_places sha h places (q - ?p) db1 = Inr (rs', db')"
      using Cons.prems(1) False by (auto simp: x res_iff Let_def)
    show ?thesis
      using Cons.IH[OF run(2) hold_at_ok[OF Cons.prems(2) run(1) p]] Cons.prems(4) by auto
  qed
qed simp

lemma hold_places_held:
  assumes "hold_places sha h places q db = Inr (rs, db')" "0 \<le> q" "q \<le> (\<Sum>x\<leftarrow>places. available (snd x))"
    "\<forall>x \<in> set places. 0 < available (snd x) \<and> sk_variant (fst x) = v"
  shows "variant_held db' oid u = variant_held db oid u + (if oid = hd_order h \<and> u = v then q else 0)"
    "(\<Sum>r\<leftarrow>rs. snd (snd r)) = q" "\<forall>r \<in> set rs. fst (snd r) = v \<and> 0 < snd (snd r)"
proof -
  have "variant_held db' oid u = variant_held db oid u + (if oid = hd_order h \<and> u = v then q else 0)
    \<and> (\<Sum>r\<leftarrow>rs. snd (snd r)) = q \<and> (\<forall>r \<in> set rs. fst (snd r) = v \<and> 0 < snd (snd r))"
    using assms
  proof (induction places arbitrary: q db rs)
    case (Cons x places)
    obtain k b where x: "x = (k, b)" by force
    show ?case
    proof (cases "q = 0")
      case True
      then show ?thesis using Cons.prems by (simp add: x)
    next
      case False
      let ?p = "min q (available b)"
      obtain i db1 rs' where run: "hold_at sha h k b ?p db = Inr (i, db1)"
        "hold_places sha h places (q - ?p) db1 = Inr (rs', db')" "rs = (i, sk_variant k, ?p) # rs'"
        using Cons.prems(1) False by (auto simp: x res_iff Let_def)
      have nn: "0 \<le> (\<Sum>x\<leftarrow>places. available (snd x))"
        by (rule sum_list_nonneg) (use Cons.prems(4) in \<open>auto intro: less_imp_le\<close>)
      have IH: "variant_held db' oid u = variant_held db1 oid u + (if oid = hd_order h \<and> u = v then q - ?p else 0)
        \<and> (\<Sum>r\<leftarrow>rs'. snd (snd r)) = q - ?p \<and> (\<forall>r \<in> set rs'. fst (snd r) = v \<and> 0 < snd (snd r))"
        by (rule Cons.IH[OF run(2)]) (use Cons.prems(2-4) nn in \<open>auto simp: x\<close>)
      show ?thesis
        using IH hold_at_held[OF run(1), of oid u] Cons.prems(2,4) False by (auto simp: run(3) x)
    qed
  qed simp
  then show "variant_held db' oid u = variant_held db oid u + (if oid = hd_order h \<and> u = v then q else 0)"
    "(\<Sum>r\<leftarrow>rs. snd (snd r)) = q" "\<forall>r \<in> set rs. fst (snd r) = v \<and> 0 < snd (snd r)" by blast+
qed

lemma stock_places_rows: "x \<in> set (stock_places db v) \<Longrightarrow> 0 < available (snd x) \<and> sk_variant (fst x) = v"
  by (auto simp: stock_places_def active_balances_def)

lemma hold_line_ok:
  assumes "hold_line sha h v q db = Inr (rs, db')" "ledger_ok db" "0 \<le> q"
  shows "ledger_ok db'"
  using assms hold_places_ok stock_places_rows by (fastforce simp: hold_line_def res_iff Let_def)

lemma hold_line_held:
  assumes "hold_line sha h v q db = Inr (rs, db')" "0 \<le> q"
  shows "variant_held db' oid u = variant_held db oid u + (if oid = hd_order h \<and> u = v then q else 0)"
    "(\<Sum>r\<leftarrow>rs. snd (snd r)) = q"
  using hold_places_held[of sha h "stock_places db v" q db rs db' v] assms stock_places_rows[of _ db v]
  by (auto simp: hold_line_def res_iff Let_def)

definition asked :: "uid \<Rightarrow> (uid \<times> int \<times> int) list \<Rightarrow> int" where
  "asked v ls = (\<Sum>l\<leftarrow>ls. if fst l = v then fst (snd l) else 0)"

lemma hold_lines_spec:
  assumes "hold_lines sha h ls db = Inr (rs, db')" "\<forall>l \<in> set ls. 0 \<le> fst (snd l)"
  shows "ledger_ok db \<Longrightarrow> ledger_ok db'"
    "variant_held db' oid v = variant_held db oid v + (if oid = hd_order h then asked v ls else 0)"
    "(\<Sum>r\<leftarrow>rs. snd (snd r)) = (\<Sum>l\<leftarrow>ls. fst (snd l))"
proof -
  have "(ledger_ok db \<longrightarrow> ledger_ok db')
    \<and> variant_held db' oid v = variant_held db oid v + (if oid = hd_order h then asked v ls else 0)
    \<and> (\<Sum>r\<leftarrow>rs. snd (snd r)) = (\<Sum>l\<leftarrow>ls. fst (snd l))"
    using assms
  proof (induction ls arbitrary: db rs)
    case (Cons l ls)
    obtain r1 db1 r2 where run: "hold_line sha h (fst l) (fst (snd l)) db = Inr (r1, db1)"
      "hold_lines sha h ls db1 = Inr (r2, db')" "rs = r1 @ r2"
      using Cons.prems(1) by (auto simp: res_iff)
    have q: "0 \<le> fst (snd l)" using Cons.prems(2) by simp
    show ?case
      using Cons.IH[OF run(2)] hold_line_ok[OF run(1) _ q] hold_line_held(1)[OF run(1) q, of oid v]
        hold_line_held(2)[OF run(1) q] Cons.prems(2)
      by (auto simp: run(3) asked_def)
  qed (simp add: asked_def)
  then show "ledger_ok db \<Longrightarrow> ledger_ok db'"
    "variant_held db' oid v = variant_held db oid v + (if oid = hd_order h then asked v ls else 0)"
    "(\<Sum>r\<leftarrow>rs. snd (snd r)) = (\<Sum>l\<leftarrow>ls. fst (snd l))" by blast+
qed

end
