(* ===== verification/Shop_Effects.thy ===== *)
theory Shop_Effects
  imports Books Checkout_Stock Promotion_Capacity
begin

text \<open>
  The invariant of the whole shop and how a committed piece of work changes it: the stock ledger stays
  reconciled, the promotions within their limits, the carts within theirs, and the books move by the
  steps of their specification. \<open>evolves\<close> says this of two databases; the lemmas give it for the writes
  every service uses, and for the carts.
\<close>

section \<open>The invariant\<close>

definition cart_ok :: "cart \<Rightarrow> bool" where
  "cart_ok c \<longleftrightarrow> distinct (map fst (ca_items c)) \<and> length (ca_items c) \<le> max_cart_lines
     \<and> (\<forall>x \<in> set (ca_items c). 1 \<le> snd x \<and> snd x \<le> max_cart_quantity)"

definition carts_ok :: "market_db \<Rightarrow> bool" where
  "carts_ok m \<longleftrightarrow> (\<forall>x \<in> set (carts m). cart_ok (snd x))"

definition shop_ok :: "shop_db \<Rightarrow> bool" where
  "shop_ok sh \<longleftrightarrow> ledger_ok (stock sh) \<and> promo_inv (promo sh) \<and> carts_ok (market sh) \<and> books_ok (books_of sh)"

definition evolves :: "shop_db \<Rightarrow> shop_db \<Rightarrow> bool" where
  "evolves sh sh' \<longleftrightarrow> (shop_ok sh \<longrightarrow> shop_ok sh' \<and> book_steps (books_of sh) (books_of sh'))"

named_theorems evolving \<open>writes that evolve the shop\<close>

lemma evolves_refl [simp, evolving]: "evolves sh sh"
  by (simp add: evolves_def)

lemma evolves_trans [trans]: "evolves x y \<Longrightarrow> evolves y z \<Longrightarrow> evolves x z"
  by (auto simp: evolves_def)

lemma evolvesI:
  assumes "shop_ok sh \<Longrightarrow> ledger_ok (stock sh')" "shop_ok sh \<Longrightarrow> promo_inv (promo sh')"
    and "shop_ok sh \<Longrightarrow> carts_ok (market sh')" "shop_ok sh \<Longrightarrow> book_steps (books_of sh) (books_of sh')"
  shows "evolves sh sh'"
proof -
  have "books_ok (books_of sh')" if "shop_ok sh"
    using steps_books_ok[OF assms(4)[OF that]] that by (simp add: shop_ok_def)
  then show ?thesis using assms by (auto simp: evolves_def shop_ok_def)
qed

lemma evolves_if: "shop_ok sh \<Longrightarrow> evolves sh sh' \<Longrightarrow> shop_ok sh'"
  by (simp add: evolves_def)

text \<open>The databases reached along the way inherit the invariant.\<close>

lemma evolves_under: "(shop_ok sh \<Longrightarrow> evolves sh sh') \<Longrightarrow> evolves sh sh'"
  by (auto simp: evolves_def)

lemma books_of_other [simp]:
  "books_of (sh\<lparr>stock := x1\<rparr>) = books_of sh"
  "books_of (sh\<lparr>promo := x2\<rparr>) = books_of sh"
  "books_of (sh\<lparr>market := x3\<rparr>) = books_of sh"
  "books_of (sh\<lparr>command_records := x4\<rparr>) = books_of sh"
  "books_of (sh\<lparr>outbox := x5\<rparr>) = books_of sh"
  "books_of (sh\<lparr>receivables := x6\<rparr>) = books_of sh"
  by (simp_all add: books_of_def)

lemma books_of_fields [simp]:
  "bk_orders (books_of sh) = orders sh" "bk_order_log (books_of sh) = order_log sh"
  "bk_payments (books_of sh) = payments sh" "bk_payment_log (books_of sh) = payment_log sh"
  "bk_refunds (books_of sh) = refunds sh" "bk_fulfillments (books_of sh) = fulfillments sh"
  "bk_fulfillment_log (books_of sh) = fulfillment_log sh" "bk_picks (books_of sh) = picks sh"
  "bk_shipments (books_of sh) = shipments sh" "bk_doors (books_of sh) = map fst (door_orders (doors sh))"
  "bk_next (books_of sh) = next_row sh"
  by (simp_all add: books_of_def)

section \<open>Writes\<close>

lemma ledger_ok_same:
  "balances db' = balances db \<Longrightarrow> reservations db' = reservations db \<Longrightarrow> movements db' = movements db
     \<Longrightarrow> next_id db' = next_id db \<Longrightarrow> ledger_ok db \<Longrightarrow> ledger_ok db'"
  unfolding ledger_ok_def stock_inv_def in_range_def rows_wf_def held_def ledger_def bal_def by metis

lemma evolves_stock:
  "(shop_ok sh \<Longrightarrow> ledger_ok (stock sh) \<Longrightarrow> ledger_ok db) \<Longrightarrow> evolves sh (sh\<lparr>stock := db\<rparr>)"
  by (rule evolvesI) (simp_all add: shop_ok_def)

lemma evolves_promo:
  "(promo_inv (promo sh) \<Longrightarrow> promo_inv p) \<Longrightarrow> evolves sh (sh\<lparr>promo := p\<rparr>)"
  by (rule evolvesI) (simp_all add: shop_ok_def)

lemma evolves_market:
  "(carts_ok (market sh) \<Longrightarrow> carts_ok m) \<Longrightarrow> evolves sh (sh\<lparr>market := m\<rparr>)"
  by (rule evolvesI) (simp_all add: shop_ok_def)

lemma evolves_records [evolving]: "evolves sh (sh\<lparr>command_records := rs\<rparr>)"
  by (rule evolvesI) (simp_all add: shop_ok_def)

lemma evolves_outbox [evolving]: "evolves sh (sh\<lparr>outbox := es\<rparr>)"
  by (rule evolvesI) (simp_all add: shop_ok_def)

lemma evolves_audit [evolving]: "evolves sh (audit e sh)"
  unfolding audit_def by (rule evolves_stock) (erule ledger_ok_same[rotated 4], simp_all add: record_audit_def)

lemma evolves_next [evolving]: "next_row sh \<le> n \<Longrightarrow> evolves sh (sh\<lparr>next_row := n\<rparr>)"
proof (rule evolvesI)
  assume n: "next_row sh \<le> n"
  have "book_step (books_of sh) (books_of sh\<lparr>bk_next := n\<rparr>)" by (rule time_passes) (simp add: n)
  then show "book_steps (books_of sh) (books_of (sh\<lparr>next_row := n\<rparr>))" by (simp add: books_of_def)
qed (simp_all add: shop_ok_def)

lemma evolves_add_outbox: "add_outbox e sh = Inr sh' \<Longrightarrow> evolves sh sh'"
  by (auto simp: add_outbox_def res_iff intro: evolving)

lemma evolves_add_record: "add_record r sh = Inr sh' \<Longrightarrow> evolves sh sh'"
  by (auto simp: add_record_def res_iff intro: evolving)

lemma evolves_on_stock:
  assumes "on_stock f sh = Inr (r, sh')" "\<And>r db. ledger_ok (stock sh) \<Longrightarrow> f (stock sh) = Inr (r, db) \<Longrightarrow> ledger_ok db"
  shows "evolves sh sh'"
  using assms by (auto simp: on_stock_def res_iff intro: evolves_stock)

lemma evolves_on_promo: "(promo_inv (promo sh) \<Longrightarrow> promo_inv (f (promo sh))) \<Longrightarrow> evolves sh (on_promo f sh)"
  unfolding on_promo_def by (rule evolves_promo)

text \<open>A step of the books that touches nothing else.\<close>

lemma evolves_step:
  assumes "stock sh' = stock sh" "promo sh' = promo sh" "market sh' = market sh"
    and "shop_ok sh \<Longrightarrow> book_step (books_of sh) (books_of sh')"
  shows "evolves sh sh'"
  by (rule evolvesI) (use assms in \<open>auto simp: shop_ok_def\<close>)

section \<open>Carts\<close>

lemma cart_of_ok: "carts_ok (market sh) \<Longrightarrow> cart_of sh cid = Some (i, c) \<Longrightarrow> cart_ok c"
  by (auto simp: cart_of_def carts_ok_def find_Some_iff) (metis nth_mem snd_conv)

lemma evolves_put_cart: "(carts_ok (market sh) \<Longrightarrow> cart_ok c) \<Longrightarrow> evolves sh (put_cart i c sh)"
  unfolding put_cart_def put_market_def
proof (rule evolves_market)
  assume c: "carts_ok (market sh) \<Longrightarrow> cart_ok c" "carts_ok (market sh)"
  then show "carts_ok (market sh\<lparr>carts := AList.update i c (carts (market sh))\<rparr>)"
    using set_update_subset[of i c "carts (market sh)"] by (force simp: carts_ok_def)
qed

lemma carts_ok_other [simp]:
  "carts_ok (m\<lparr>cart_mutations := x1\<rparr>) = carts_ok m"
  "carts_ok (m\<lparr>shipping_quotes := x2\<rparr>) = carts_ok m"
  "carts_ok (m\<lparr>checkout_records := x3\<rparr>) = carts_ok m"
  by (simp_all add: carts_ok_def)

lemma evolves_put_mutations [evolving]: "evolves sh (put_mutations ms sh)"
  unfolding put_mutations_def put_market_def by (rule evolves_market) simp

lemma evolves_put_quotes [evolving]: "evolves sh (put_quotes qs sh)"
  unfolding put_quotes_def put_market_def by (rule evolves_market) simp

lemma evolves_put_checkouts [evolving]: "evolves sh (put_checkouts rs sh)"
  unfolding put_checkouts_def put_market_def by (rule evolves_market) simp

lemma cart_ok_empty: "cart_ok \<lparr>ca_customer = cid, ca_version = 1, ca_items = [], ca_coupon = None\<rparr>"
  by (simp add: cart_ok_def)

lemma evolves_open_cart:
  assumes "open_cart cid sh = ((i, c), sh1)"
  shows "evolves sh sh1" "carts_ok (market sh) \<Longrightarrow> cart_ok c"
proof -
  show "evolves sh sh1"
  proof (cases "cart_of sh cid")
    case None
    let ?m = "market sh\<lparr>carts := carts (market sh) @ [(i, c)]\<rparr>"
    have sh1: "sh1 = (sh\<lparr>next_row := Suc (next_row sh)\<rparr>)\<lparr>market := ?m\<rparr>" "cart_ok c"
      using assms None cart_ok_empty[of cid] by (auto simp: open_cart_def Let_def put_market_def)
    have "evolves (sh\<lparr>next_row := Suc (next_row sh)\<rparr>) sh1"
      unfolding sh1(1) by (rule evolves_market) (use sh1(2) in \<open>simp add: carts_ok_def\<close>)
    with evolves_next[of sh "Suc (next_row sh)"] show ?thesis by (auto intro: evolves_trans)
  qed (use assms in \<open>simp add: open_cart_def\<close>)
  show "carts_ok (market sh) \<Longrightarrow> cart_ok c"
    using assms cart_of_ok cart_ok_empty by (auto simp: open_cart_def Let_def split: option.splits)
qed

lemma cart_ok_put:
  assumes "cart_ok c" "1 \<le> q" "q \<le> max_cart_quantity" "map_of (ca_items c) v = None \<longrightarrow> length (ca_items c) < max_cart_lines"
  shows "cart_ok (c\<lparr>ca_items := AList.update v q (ca_items c), ca_version := n\<rparr>)"
proof -
  have "length (AList.update v q t) = (if map_of t v = None then Suc (length t) else length t)" for t
    by (induction t) auto
  moreover have "\<forall>x \<in> set (AList.update v q (ca_items c)). 1 \<le> snd x \<and> snd x \<le> max_cart_quantity"
    using set_update_subset[of v q "ca_items c"] assms(1-3) by (auto simp: cart_ok_def)
  ultimately show ?thesis using assms(1,4) by (auto simp: cart_ok_def distinct_update)
qed

lemma evolves_write_line:
  assumes "write_line cid v resolve now sh = Inr (view, sh')"
  shows "evolves sh sh'"
proof -
  obtain i c sh1 where opened: "open_cart cid sh = ((i, c), sh1)" by (metis prod.collapse)
  let ?l = "map_of (ca_items c) v"
  let ?q = "the_int (resolve ?l)"
  let ?c = "c\<lparr>ca_items := AList.update v ?q (ca_items c), ca_version := ca_version c + 1\<rparr>"
  have run: "?l = None \<longrightarrow> length (ca_items c) < max_cart_lines" "1 \<le> ?q" "?q \<le> max_cart_quantity"
    "sh' = (if ?l = Some ?q then sh1 else put_cart i ?c sh1)"
    using assms unfolding write_line_def Let_def opened
    by (auto simp: res_iff validate_cart_quantity_def not_le not_less split: prod.splits)
  have "evolves sh1 sh'"
  proof (cases "?l = Some ?q")
    case False
    have m: "cart_ok c" if "carts_ok (market sh1)"
      using that opened cart_of_ok cart_ok_empty
      by (auto simp: open_cart_def Let_def put_market_def carts_ok_def split: option.splits)
    show ?thesis
      unfolding run(4) using False evolves_put_cart[of sh1 ?c i] cart_ok_put[OF m run(2,3,1)] by simp
  qed (simp add: run(4))
  with evolves_open_cart(1)[OF opened] show ?thesis by (rule evolves_trans)
qed

lemma evolves_remove_line:
  assumes "remove_line cid v now sh = Inr (view, sh')"
  shows "evolves sh sh'"
proof (cases "cart_of sh cid")
  case (Some x)
  obtain i c where x: "x = (i, c)" by force
  let ?c = "c\<lparr>ca_items := filter (\<lambda>x. fst x \<noteq> v) (ca_items c), ca_version := ca_version c + 1\<rparr>"
  have "cart_ok ?c" if "carts_ok (market sh)"
    using cart_of_ok[OF that Some[unfolded x]] le_trans[OF length_filter_le]
    by (auto simp: cart_ok_def distinct_map_filter)
  then show ?thesis
    using assms Some evolves_put_cart[of sh ?c i] by (auto simp: remove_line_def x Let_def res_iff)
qed (use assms in \<open>simp add: remove_line_def\<close>)

lemma evolves_drop [evolving]: "evolves sh (drop_mutations is sh)"
  by (simp add: drop_mutations_def evolving)

lemma live_mutation_evolves: "live_mutation P now sh = (m, sh1) \<Longrightarrow> evolves sh sh1"
  by (auto simp: live_mutation_def evolving split: option.splits if_splits)

lemma find_replay_evolves: "find_replay cid scope key legacy now sh = (m, sh1) \<Longrightarrow> evolves sh sh1"
  by (auto simp: find_replay_def split: prod.splits option.splits dest!: live_mutation_evolves intro: evolves_trans)

lemma add_mutation_evolves:
  assumes "add_mutation m sh = Inr sh'" shows "evolves sh sh'"
proof -
  have "sh' = put_mutations (cart_mutations (market sh) @ [(next_row sh, m)]) (sh\<lparr>next_row := Suc (next_row sh)\<rparr>)"
    using assms by (simp add: add_mutation_def res_iff)
  then show ?thesis by (simp add: evolves_trans[OF evolves_next evolves_put_mutations])
qed

lemma cart_serializable_Inr [res_iff]: "cart_serializable m = Inr r \<longleftrightarrow> m = Inr r"
proof -
  have "fst (retry_loop is_prisma_serializable_contention 0 (\<lambda>_. map_sum as_failure id m) 1 5) = Inr r \<longleftrightarrow> m = Inr r"
    by (cases m) (simp_all add: retry_loop.simps eval_nat_numeral)
  then show ?thesis
    unfolding cart_serializable_def
    by (cases "fst (retry_loop is_prisma_serializable_contention 0 (\<lambda>_. map_sum as_failure id m) 1 5)") auto
qed

lemma evolves_run_mutation:
  assumes "run_mutation sha now cid scope key payload op sh = Inr (view, sh')"
    and op: "\<And>x y view. op x = Inr (view, y) \<Longrightarrow> evolves x y"
  shows "evolves sh sh'"
proof -
  let ?sh0 = "cleanup_cart_mutations cid now sh"
  obtain m sh1 where found: "find_replay cid scope (sha key) key now ?sh0 = (m, sh1)" by force
  have start: "evolves sh sh1"
    using evolves_drop find_replay_evolves[OF found] unfolding cleanup_cart_mutations_def by (rule evolves_trans)
  show ?thesis
  proof (cases m)
    case None
    then obtain sh2 m' where run: "op sh1 = Inr (view, sh2)" "add_mutation m' sh2 = Inr sh'"
      using assms(1) found by (auto simp: run_mutation_def Let_def res_iff)
    show ?thesis
      by (rule evolves_trans[OF start evolves_trans[OF op[OF run(1)] add_mutation_evolves[OF run(2)]]])
  next
    case (Some a)
    then show ?thesis using assms(1) found start by (auto simp: run_mutation_def Let_def res_iff)
  qed
qed

lemma evolves_cart_lines:
  "add_to_cart sha now user v q key sh = Inr (view, sh') \<Longrightarrow> evolves sh sh'"
  "set_in_cart sha now user v q key sh = Inr (view, sh') \<Longrightarrow> evolves sh sh'"
  "remove_from_cart sha now user v key sh = Inr (view, sh') \<Longrightarrow> evolves sh sh'"
  by (auto simp: add_to_cart_def set_in_cart_def remove_from_cart_def res_iff
      elim!: evolves_run_mutation dest: evolves_write_line evolves_remove_line)

lemma cart_ok_coupon: "cart_ok c \<Longrightarrow> cart_ok (c\<lparr>ca_coupon := x, ca_version := n\<rparr>)"
  by (simp add: cart_ok_def)

lemma evolves_coupon:
  "cart_of sh cid = Some (i, c) \<Longrightarrow> evolves sh (audit e (put_cart i (c\<lparr>ca_coupon := x, ca_version := n\<rparr>) sh))"
  by (rule evolves_trans[OF evolves_put_cart evolves_audit]) (blast intro: cart_ok_coupon cart_of_ok)

lemma evolves_coupons:
  "apply_coupon norm limited now user raw request sh = Inr (u, sh') \<Longrightarrow> evolves sh sh'"
  "remove_coupon user request sh = Inr (u, sh') \<Longrightarrow> evolves sh sh'"
proof -
  show "apply_coupon norm limited now user raw request sh = Inr (u, sh') \<Longrightarrow> evolves sh sh'"
    by (auto simp: apply_coupon_def res_iff intro: evolves_coupon split: option.splits)
  assume "remove_coupon user request sh = Inr (u, sh')"
  then obtain cid where run: "(case cart_of sh cid of None \<Rightarrow> Inr ((), sh)
     | Some (i, c) \<Rightarrow> if ca_coupon c = None then Inr ((), sh)
         else Inr ((), audit (coupon_audit ''cart.coupon.removed'' i [] user request)
           (put_cart i (c\<lparr>ca_coupon := None, ca_version := ca_version c + 1\<rparr>) sh))) = (Inr (u, sh') :: (unit \<times> shop_db) res)"
    unfolding remove_coupon_def andthen_Inr by blast
  show "evolves sh sh'"
  proof (cases "cart_of sh cid")
    case (Some x)
    obtain i c where x: "x = (i, c)" by force
    show ?thesis using run evolves_coupon[OF Some[unfolded x]] Some by (auto simp: x split: if_splits)
  qed (use run in simp)
qed

end
