(* ===== verification/Order_Effects.thy ===== *)
theory Order_Effects
  imports Shop_Effects Order_Commands
begin

text \<open>
  Every command on orders, payments, refunds and fulfillments evolves the shop: its writes are steps of
  the books, of the stock ledger and of the promotions.
\<close>

section \<open>The state machines\<close>

lemma order_step_Inr:
  assumes "order_step i s t info sh = Inr sh'"
  obtains os lg where "move_order i s t info (bk_orders (books_of sh), bk_order_log (books_of sh)) = Inr (os, lg)"
    "sh' = sh\<lparr>orders := os, order_log := lg\<rparr>" "books_of sh' = books_of sh\<lparr>bk_orders := os, bk_order_log := lg\<rparr>"
  using assms by (auto simp: order_step_def andthen_Inr books_of_def)

lemma payment_step_Inr:
  assumes "payment_step i s t info sh = Inr sh'"
  obtains ps lg where "move_payment i s t info (bk_payments (books_of sh), bk_payment_log (books_of sh)) = Inr (ps, lg)"
    "sh' = sh\<lparr>payments := ps, payment_log := lg\<rparr>" "books_of sh' = books_of sh\<lparr>bk_payments := ps, bk_payment_log := lg\<rparr>"
  using assms by (auto simp: payment_step_def andthen_Inr books_of_def)

lemma fulfillment_step_Inr:
  assumes "fulfillment_step i s t info sh = Inr sh'"
  obtains fs lg where
    "move_fulfillment i s t info (bk_fulfillments (books_of sh), bk_fulfillment_log (books_of sh)) = Inr (fs, lg)"
    "sh' = sh\<lparr>fulfillments := fs, fulfillment_log := lg\<rparr>"
    "books_of sh' = books_of sh\<lparr>bk_fulfillments := fs, bk_fulfillment_log := lg\<rparr>"
  using assms by (auto simp: fulfillment_step_def andthen_Inr books_of_def)

lemma evolves_submitted: "order_step i OS_DRAFT OS_PENDING_PAYMENT info sh = Inr sh' \<Longrightarrow> evolves sh sh'"
  by (erule order_step_Inr, rule evolves_step) (simp_all del: books_of_fields add: order_submitted)

lemma evolves_cancelled: "order_step i OS_PENDING_PAYMENT OS_CANCELLED info sh = Inr sh' \<Longrightarrow> evolves sh sh'"
  by (erule order_step_Inr, rule evolves_step) (simp_all del: books_of_fields add: order_cancelled)

lemma evolves_order_paid:
  assumes "order_step i OS_PENDING_PAYMENT OS_PAID info sh = Inr sh'" "map_of (orders sh) i = Some o'"
    "i \<in> fst ` set (door_orders (doors sh)) \<or> paid_in_full (books_of sh) i o'"
  shows "evolves sh sh'"
proof (rule order_step_Inr[OF assms(1)])
  fix os lg
  assume run: "move_order i OS_PENDING_PAYMENT OS_PAID info (bk_orders (books_of sh), bk_order_log (books_of sh)) = Inr (os, lg)"
    "sh' = sh\<lparr>orders := os, order_log := lg\<rparr>" "books_of sh' = books_of sh\<lparr>bk_orders := os, bk_order_log := lg\<rparr>"
  show ?thesis
  proof (cases "i \<in> fst ` set (door_orders (doors sh))")
    case True
    then have "book_step (books_of sh) (books_of sh')" unfolding run(3) by (intro door_order_paid[OF run(1)]) simp
    then show ?thesis by (intro evolves_step) (simp_all add: run(2))
  next
    case False
    then have "book_step (books_of sh) (books_of sh')"
      unfolding run(3) by (intro order_paid[OF run(1), of o']) (use assms(2,3) in simp_all)
    then show ?thesis by (intro evolves_step) (simp_all add: run(2))
  qed
qed

lemma evolves_payment_paid: "payment_step i PAY_PENDING PAY_PAID info sh = Inr sh' \<Longrightarrow> evolves sh sh'"
  by (erule payment_step_Inr, rule evolves_step) (simp_all del: books_of_fields add: payment_verified)

lemma evolves_payment_failed: "payment_step i PAY_PENDING PAY_FAILED info sh = Inr sh' \<Longrightarrow> evolves sh sh'"
  by (erule payment_step_Inr, rule evolves_step) (simp_all del: books_of_fields add: payment_failed)

lemma evolves_worked:
  "fulfillment_step i s t info sh = Inr sh' \<Longrightarrow>
   (s, t) \<in> {(FS_PENDING, FS_PROCESSING), (FS_PROCESSING, FS_READY_TO_SHIP), (FS_SHIPPED, FS_DELIVERED)} \<Longrightarrow> evolves sh sh'"
  by (erule fulfillment_step_Inr, rule evolves_step) (simp_all del: books_of_fields add: fulfillment_worked)

section \<open>Cancelling and expiring\<close>

lemma evolves_release_for_order: "evolves sh (on_promo (\<lambda>p. snd (release_for_order oid reason now p)) sh)"
  by (rule evolves_on_promo) (rule release_for_order_inv)

text \<open>Closing an order, whoever closes it: the state, the stock, the promotions, the event, the audit.\<close>

lemma evolves_close:
  assumes "order_step oid OS_PENDING_PAYMENT OS_CANCELLED info sh = Inr sh1"
    and "on_stock f sh1 = Inr (released, sh2)" "\<And>n db. ledger_ok (stock sh1) \<Longrightarrow> f (stock sh1) = Inr (n, db) \<Longrightarrow> ledger_ok db"
    and "add_outbox e (on_promo (\<lambda>p. snd (release_for_order oid reason now p)) sh2) = Inr sh3"
  shows "evolves sh (audit a sh3)"
  by (rule evolves_trans[OF evolves_cancelled[OF assms(1)] evolves_trans[OF evolves_on_stock[OF assms(2)]
        evolves_trans[OF evolves_release_for_order evolves_trans[OF evolves_add_outbox[OF assms(4)] evolves_audit]]]])
    (rule assms(3))

lemma evolves_close_order:
  assumes "close_order c order now sh = Inr (a, sh')" shows "evolves sh sh'"
proof -
  let ?ctx = "\<lparr>ctx_actor = Some (cc_actor c), ctx_request = Some (cc_request c)\<rparr>"
  obtain info sh1 released sh2 ev sh3 ae where run:
    "order_step (cc_order c) OS_PENDING_PAYMENT OS_CANCELLED info sh = Inr sh1"
    "on_stock (release_reservations_for_order (cc_order c) ?ctx) sh1 = Inr (released, sh2)"
    "add_outbox ev (on_promo (\<lambda>p. snd (release_for_order (cc_order c) (cc_reason c) now p)) sh2) = Inr sh3"
    "sh' = audit ae sh3"
    using assms unfolding close_order_def Let_def andthen_Inr split_paired_Ex prod.case sum.inject prod.inject
    by (elim exE conjE) blast
  show ?thesis unfolding run(4) by (rule evolves_close[OF run(1,2) order_commands_ok(1) run(3)])
qed

lemma evolves_finish_record: "evolves sh (finish_record oid scope key a sh)"
  unfolding finish_record_def by (rule evolves_records)

lemma evolves_cancel:
  assumes "cancel_order sha now c sh = Inr (a, sh')" shows "evolves sh sh'"
proof -
  let ?sh0 = "purge_records (cc_order c) (cc_scope c) (sha (cc_key c)) now sh"
  have start: "evolves sh ?sh0" unfolding purge_records_def by (rule evolves_records)
  have run: "cancel_body sha now c sh = Inr (a, sh')" using assms by (simp add: cancel_order_def order_serializable_def res_iff)
  have "evolves ?sh0 sh'"
  proof (cases "find_record (cc_order c) (cc_scope c) (sha (cc_key c)) ?sh0")
    case None
    then obtain r sh1 order b sh2 where r: "add_record r ?sh0 = Inr sh1" "close_order c order now sh1 = Inr (b, sh2)"
      "sh' = finish_record (cc_order c) (cc_scope c) (sha (cc_key c)) b sh2"
      using run by (auto simp: cancel_body_def cancel_fresh_def Let_def res_iff)
    show ?thesis
      unfolding r(3) by (rule evolves_trans[OF evolves_add_record[OF r(1)]
        evolves_trans[OF evolves_close_order[OF r(2)] evolves_finish_record]])
  qed (use run in \<open>auto simp: cancel_body_def Let_def res_iff\<close>)
  with start show ?thesis by (rule evolves_trans)
qed

lemma evolves_cancels:
  "cancel_as_customer sha now user oid key request sh = Inr (a, sh') \<Longrightarrow> evolves sh sh'"
  "cancel_as_staff sha now user oid key request sh = Inr (a, sh') \<Longrightarrow> evolves sh sh'"
  unfolding cancel_as_customer_def cancel_as_staff_def by (auto simp: andthen_Inr need_Inr intro: evolves_cancel)

lemma release_for_expiry_ok:
  "ledger_ok db \<Longrightarrow> release_for_expiry who oid request db = Inr (n, db') \<Longrightarrow> ledger_ok db'"
  by (auto simp: release_for_expiry_def dest: order_commands_ok split: expiry_caller.splits)

lemma evolves_expire_pending:
  assumes "expire_pending who now oid order sh = Inr sh'" shows "evolves sh sh'"
proof -
  let ?r = "request_id_for_order (caller_request who) oid"
  obtain info sh1 released sh2 ev sh3 ae where run:
    "order_step oid OS_PENDING_PAYMENT OS_CANCELLED info sh = Inr sh1"
    "on_stock (release_for_expiry who oid ?r) sh1 = Inr (released, sh2)"
    "add_outbox ev (on_promo (\<lambda>p. snd (release_for_order oid ''RESERVATION_EXPIRED'' now p)) sh2) = Inr sh3"
    "sh' = audit ae sh3"
    using assms unfolding expire_pending_def Let_def andthen_Inr split_paired_Ex prod.case sum.inject prod.inject
    by (elim exE conjE) blast
  show ?thesis unfolding run(4) by (rule evolves_close[OF run(1,2) release_for_expiry_ok run(3)])
qed

lemma evolves_expire_order: "expire_order who now oid sh = Inr (done, sh') \<Longrightarrow> evolves sh sh'"
  by (auto simp: expire_order_def order_serializable_def expire_order_body_def res_iff
      split: option.splits if_splits intro: evolves_expire_pending)

section \<open>Quotes and checkout\<close>

lemma evolves_quote_methods:
  "quote_methods sha norm cid i c ls a subtotal now ms sh = (qs, sh') \<Longrightarrow> evolves sh sh'"
proof (induction ms arbitrary: sh qs)
  case (Cons m ms)
  let ?q = "new_quote sha cid i c (fst m) (snd m) a subtotal
    (er_total (po_result (cart_pricing norm sh cid c ls (sm_amount (snd m)) now))) now"
  let ?sh1 = "put_quotes (shipping_quotes (market sh) @ [(next_row sh, ?q)]) (sh\<lparr>next_row := Suc (next_row sh)\<rparr>)"
  obtain qs' where "quote_methods sha norm cid i c ls a subtotal now ms ?sh1 = (qs', sh')"
    using Cons.prems by (auto simp: Let_def split: prod.splits)
  note rest = this
  show ?case
    by (rule evolves_trans[OF evolves_trans[OF evolves_next evolves_put_quotes] Cons.IH[OF rest]]) simp
qed simp

lemma evolves_preview:
  assumes "preview_for_user sha norm now user normalized sh = Inr (view, sh')" shows "evolves sh sh'"
proof -
  obtain keep cid i c ls a subtotal ms where
    q: "snd (quote_methods sha norm cid i c ls a subtotal now ms (put_quotes keep sh)) = sh'"
    using assms unfolding preview_for_user_def Let_def need_Inr throw_if_Inr andthen_Inr split_paired_Ex prod.case
      split_def sum.inject prod.inject
    by (elim exE conjE) blast
  show ?thesis
    unfolding q[symmetric] by (rule evolves_trans[OF evolves_put_quotes evolves_quote_methods[OF prod.collapse[symmetric]]])
qed

lemma order_lines_items:
  "map_res (order_line_of sh) items = Inr ls \<Longrightarrow> map (\<lambda>l. (fst l, fst (snd l))) ls = items"
  by (induction items arbitrary: ls) (auto simp: order_line_of_def res_iff)

lemma evolves_add_order:
  assumes "add_order o' sh = Inr sh'" "or_status o' = OS_DRAFT" shows "evolves sh sh'"
proof -
  have sh': "sh' = sh\<lparr>orders := orders sh @ [(next_row sh, o')], next_row := next_row sh + 1 + length (or_items o')\<rparr>"
    using assms(1) by (simp add: add_order_def res_iff)
  have "book_step (books_of sh) (books_of sh\<lparr>bk_orders := bk_orders (books_of sh) @ [(bk_next (books_of sh), o')],
      bk_next := next_row sh + 1 + length (or_items o')\<rparr>)"
    by (rule order_placed) (simp_all add: assms(2))
  then show ?thesis by (intro evolves_step) (simp_all add: sh' books_of_def)
qed

lemma evolves_consume_quote: "consume_quote qi oid now sh = Inr sh' \<Longrightarrow> evolves sh sh'"
  by (auto simp: consume_quote_def res_iff intro: evolving split: option.splits)

lemma evolves_empty_cart: "evolves sh (empty_cart i c sh)"
  unfolding empty_cart_def by (rule evolves_put_cart) (simp add: cart_ok_def)

lemma evolves_place_order:
  assumes run: "place_order sha now inp cid i c ls offer oid o' sh = Inr (holds, sh')"
    and o': "or_status o' = OS_DRAFT" "shop_ok sh \<Longrightarrow> \<forall>l \<in> set ls. 0 \<le> fst (snd l)"
  shows "evolves sh sh'"
proof (rule evolves_under)
  assume ok: "shop_ok sh"
  let ?h = "\<lparr>hd_order = oid, hd_customer = cid, hd_key = sha (ci_key inp), hd_expires = or_expires o',
    hd_actor = ci_user inp, hd_request = ci_request inp\<rparr>"
  obtain sh1 p info sh2 sh3 sh4 ev sh5 where r:
    "add_order o' sh = Inr sh1" "reserve_promotions oid cid (er_applied (po_result offer)) (promo sh1) = Inr p"
    "order_step oid OS_DRAFT OS_PENDING_PAYMENT info (sh1\<lparr>promo := p\<rparr>) = Inr sh2"
    "on_stock (hold_lines sha ?h ls) sh2 = Inr (holds, sh3)" "consume_quote (ci_quote inp) oid now sh3 = Inr sh4"
    "add_outbox ev sh4 = Inr sh5" "sh' = empty_cart i c sh5"
    using run unfolding place_order_def andthen_Inr split_paired_Ex prod.case sum.inject prod.inject
    by (elim exE conjE) blast
  show "evolves sh sh'"
    unfolding r(7)
    by (rule evolves_trans[OF evolves_add_order[OF r(1) o'(1)] evolves_trans[OF evolves_promo
          evolves_trans[OF evolves_submitted[OF r(3)] evolves_trans[OF evolves_on_stock[OF r(4)]
          evolves_trans[OF evolves_consume_quote[OF r(5)] evolves_trans[OF evolves_add_outbox[OF r(6)] evolves_empty_cart]]]]]])
      (use reserve_promotions_inv[OF _ r(2)] hold_lines_spec(1) o'(2)[OF ok] in auto)
qed

lemma cart_items_ok: "cart_ok c \<Longrightarrow> \<forall>x \<in> set (cart_items c). 1 \<le> snd x"
  by (simp add: cart_items_def cart_ok_def)

lemma order_lines_positive:
  assumes "cart_ok c" "map_res (order_line_of sh) (cart_items c) = Inr ls"
  shows "\<forall>l \<in> set ls. 1 \<le> fst (snd l)"
proof
  fix l assume "l \<in> set ls"
  then have "(fst l, fst (snd l)) \<in> set (map (\<lambda>l. (fst l, fst (snd l))) ls)" by simp
  then have "(fst l, fst (snd l)) \<in> set (cart_items c)" unfolding order_lines_items[OF assms(2)] .
  then show "1 \<le> fst (snd l)" using cart_items_ok[OF assms(1)] by auto
qed

lemma evolves_finish_checkout: "evolves sh (finish_checkout cid key a sh)"
  unfolding finish_checkout_def by (rule evolves_put_checkouts)

lemma checkout_fresh_Inr:
  assumes "checkout_fresh sha norm now inp cid a sh = Inr (answer, sh')"
  obtains i c q ls pls offer o' holds sh1 where
    "cart_of sh cid = Some (i, c)" "ca_items c \<noteq> []" "all_sellable sh c"
    "require_valid_quote sha sh (ci_quote inp) cid i c a now = Inr q"
    "map_res (order_line_of sh) (cart_items c) = Inr ls"
    "lines_total ls = sq_subtotal q" "sq_price_policy q = price_policy"
    "pricing_lines sh c = Inr pls" "offer = cart_pricing norm sh cid c pls (sq_amount q) now"
    "er_total (po_result offer) = sq_discount q"
    "o' = draft_order inp cid a ls q (er_total (po_result offer)) now (next_row sh + 1)"
    "place_order sha now inp cid i c ls offer (next_row sh) o' sh = Inr (holds, sh1)"
    "answer = checkout_answer_of (next_row sh) o' ls offer a (ci_quote inp) q now holds"
    "sh' = audit (checkout_audit inp (next_row sh) o' q (length ls) (length holds))
       (finish_checkout cid (sha (ci_key inp)) answer sh1)"
  using assms unfolding checkout_fresh_def Let_def need_Inr throw_if_Inr andthen_Inr split_paired_Ex prod.case sum.inject prod.inject
    not_not
  by (elim exE conjE) metis

lemma evolves_checkout_fresh:
  assumes "checkout_fresh sha norm now inp cid a sh = Inr (answer, sh')" shows "evolves sh sh'"
proof (rule checkout_fresh_Inr[OF assms])
  fix i c q ls offer o' holds sh1 m
  assume c: "cart_of sh cid = Some (i, c)" and ls: "map_res (order_line_of sh) (cart_items c) = Inr ls"
    and o': "o' = draft_order inp cid a ls q (er_total (po_result offer)) now (next_row sh + 1)"
    and run: "place_order sha now inp cid i c ls offer (next_row sh) o' sh = Inr (holds, sh1)"
    and sh': "sh' = audit (checkout_audit inp (next_row sh) o' q (length ls) (length holds))
       (finish_checkout cid (sha (ci_key inp)) answer sh1)"
  have "0 \<le> fst (snd l)" if "shop_ok sh" "l \<in> set ls" for l
    using order_lines_positive[OF cart_of_ok[OF _ c] ls] that by (force simp: shop_ok_def)
  then have "evolves sh sh1" by (intro evolves_place_order[OF run]) (simp_all add: o' draft_order_def)
  then show ?thesis unfolding sh' by (rule evolves_trans[OF _ evolves_trans[OF evolves_finish_checkout evolves_audit]])
qed

lemma evolves_checkout:
  assumes "create_for_user sha norm now inp sh = Inr (answer, sh')" shows "evolves sh sh'"
proof -
  obtain a cid where run: "checkout_body sha norm now inp cid a sh = Inr (answer, sh')"
    using assms by (auto simp: create_for_user_def res_iff)
  let ?sh0 = "purge_checkouts cid (sha (ci_key inp)) now sh"
  have start: "evolves sh ?sh0" unfolding purge_checkouts_def by (rule evolves_put_checkouts)
  have "evolves ?sh0 sh'"
  proof (cases "find_checkout cid (sha (ci_key inp)) ?sh0")
    case None
    then obtain rs where "checkout_fresh sha norm now inp cid a (put_checkouts rs ?sh0) = Inr (answer, sh')"
      using run by (auto simp: checkout_body_def Let_def)
    then show ?thesis by (rule evolves_trans[OF evolves_put_checkouts evolves_checkout_fresh])
  qed (use run in \<open>auto simp: checkout_body_def Let_def res_iff\<close>)
  with start show ?thesis by (rule evolves_trans)
qed

end
