(* ===== verification/Payments.thy ===== *)
theory Payments
  imports Order_Commands
begin

text \<open>
  Payments: opening an attempt with the gateway (\<open>payments/payment-initiation.service.ts\<close>), settling it
  from a callback (\<open>payments/payment-verification.service.ts\<close>, and for custom doors
  \<open>custom-door-orders/door-payment-settlement.ts\<close>). The gateway is the third-party service behind
  \<open>PaymentProvider\<close>: its answers are arguments, whatever they are.
\<close>

section \<open>The gateway\<close>

record gateway =
  gw_provider :: string
  gw_mode :: string

datatype authorize_result =
    Redirect string | Unknown_result | Rejected | Unavailable_gateway | Disabled_gateway | Transport_error

datatype verify_result =
    Verified string | Verify_failed | Verify_unavailable | Verify_disabled | Verify_unknown

definition payment_state_conflict :: api_error where
  "payment_state_conflict = Conflict ''PAYMENT_STATE_CONFLICT''"

definition result_unconfirmed :: api_error where
  "result_unconfirmed = Unavailable ''PAYMENT_RESULT_UNCONFIRMED''"

definition plain_serializable :: "'a res \<Rightarrow> 'a res" where
  "plain_serializable m = serializable (\<lambda>_. False) m"

section \<open>Door quotations\<close>

text \<open>\<open>doorPaid\<close>: what was paid and not refunded.\<close>

definition door_paid :: "payment list \<Rightarrow> int" where
  "door_paid ps = (\<Sum>p\<leftarrow>ps. if settled (pay_status p) then pay_amount p - pay_refunded p else 0)"

definition quotations_of :: "shop_db \<Rightarrow> uid \<Rightarrow> (uid \<times> door_quotation) list" where
  "quotations_of sh oid = filter (\<lambda>(_, q). qt_order q = oid) (door_quotations (doors sh))"

definition newest_quotation :: "shop_db \<Rightarrow> uid \<Rightarrow> (uid \<times> door_quotation) option" where
  "newest_quotation sh oid =
     (case rev (sort_key (\<lambda>(_, q). qt_version q) (quotations_of sh oid)) of [] \<Rightarrow> None | x # _ \<Rightarrow> Some x)"

definition current_quotation :: "shop_db \<Rightarrow> uid \<Rightarrow> door_order \<Rightarrow> (uid \<times> door_quotation) option" where
  "current_quotation sh oid d =
     List.find (\<lambda>(_, q). qt_version q = do_quote_version d) (quotations_of sh oid)"

definition payable_door :: "door_order \<Rightarrow> door_quotation \<Rightarrow> bool" where
  "payable_door d q \<longleftrightarrow> qt_approved q \<and> qt_version q = do_quote_version d \<and> qt_total q \<noteq> None
     \<and> do_accepted d = Some (qt_version q)
     \<and> do_status d \<notin> {DS_DRAFT, DS_PENDING_QUOTE_APPROVAL, DS_CANCELLED, DS_COMPLETED}"

section \<open>Opening an attempt\<close>

record initiation =
  in_user :: string
  in_order :: uid
  in_key :: string
  in_request :: string

datatype attempt =
    Replay_attempt uid string int string
  | Authorize_attempt uid string int

definition initiation_fingerprint :: "(string \<Rightarrow> string) \<Rightarrow> gateway \<Rightarrow> uid \<Rightarrow> string" where
  "initiation_fingerprint sha gw oid = sha (json_object
     [(''scope'', JStr ''payment.initiation''), (''orderId'', JId oid), (''provider'', JStr (gw_provider gw))])"

definition attempt_for_existing ::
  "uid \<Rightarrow> payment \<Rightarrow> uid \<Rightarrow> string \<Rightarrow> bool \<Rightarrow> attempt res" where
  "attempt_for_existing i p oid fingerprint compare =
     throw_if (compare \<and> pay_fingerprint p \<noteq> fingerprint) (Conflict ''IDEMPOTENCY_CONFLICT'')
     (throw_if (\<not> compare \<and> pay_status p = PAY_FAILED) result_unconfirmed
     (throw_if (pay_status p \<noteq> PAY_PENDING) payment_state_conflict
     (throw_if (pay_order p \<noteq> oid) (Conflict ''IDEMPOTENCY_CONFLICT'')
     (need (pay_authority p) result_unconfirmed (\<lambda>a.
      Inr (Replay_attempt i a (pay_amount p) (pay_environment p)))))))"

text \<open>A failed attempt whose failure proves nothing about the gateway (written by earlier releases).\<close>

definition ambiguous_failure :: "shop_db \<Rightarrow> uid \<Rightarrow> bool" where
  "ambiguous_failure sh i \<longleftrightarrow> (\<exists>r \<in> set (payment_log sh). tn_parent r = i
     \<and> (tn_reason r = Some ''gateway_unconfirmed'' \<or> tn_reason r = Some ''gateway_unavailable''))"

definition active_payment :: "shop_db \<Rightarrow> uid \<Rightarrow> (uid \<times> payment) option" where
  "active_payment sh oid = List.find (\<lambda>(i, p). pay_status p = PAY_PENDING
     \<or> (pay_status p = PAY_FAILED \<and> ambiguous_failure sh i)) (payments_of sh oid)"

definition payment_by_key :: "shop_db \<Rightarrow> string \<Rightarrow> (uid \<times> payment) option" where
  "payment_by_key sh key = List.find (\<lambda>(_, p). pay_key p = key) (payments sh)"

text \<open>The amount to ask for, with the quotation it pays when the order is a custom door.\<close>

definition amount_due :: "shop_db \<Rightarrow> int \<Rightarrow> uid \<Rightarrow> order_row \<Rightarrow> bool \<Rightarrow> (int \<times> uid option) res" where
  "amount_due sh now oid order active_customer =
     (case map_of (door_orders (doors sh)) oid of
        None \<Rightarrow>
          throw_if (or_status order \<noteq> OS_PENDING_PAYMENT \<or> or_expires order \<le> now) order_state_conflict
          (Inr (or_total order, None))
      | Some d \<Rightarrow>
          throw_if (\<not> active_customer) (Conflict ''DOOR_STATE_CONFLICT'')
          (need (newest_quotation sh oid) (Conflict ''DOOR_STATE_CONFLICT'') (\<lambda>(qi, q).
           throw_if (\<not> payable_door d q) (Conflict ''DOOR_STATE_CONFLICT'')
           (let amount = the (qt_total q) - door_paid (map snd (payments_of sh oid)) in
            throw_if (amount \<le> 0) payment_state_conflict (Inr (amount, Some qi))))))"

definition new_payment :: "gateway \<Rightarrow> initiation \<Rightarrow> string \<Rightarrow> string \<Rightarrow> int \<Rightarrow> payment" where
  "new_payment gw inp key fingerprint amount =
     \<lparr>pay_order = in_order inp, pay_provider = gw_provider gw, pay_amount = amount, pay_status = PAY_PENDING,
      pay_authority = None, pay_reference = None, pay_refunded = 0, pay_key = key,
      pay_fingerprint = fingerprint, pay_correlation = Some (in_request inp), pay_environment = gw_mode gw\<rparr>"

definition open_payment :: "payment \<Rightarrow> uid option \<Rightarrow> shop_db \<Rightarrow> uid \<times> shop_db" where
  "open_payment p quote sh =
     (next_row sh, sh\<lparr>payments := payments sh @ [(next_row sh, p)], next_row := Suc (next_row sh),
        doors := (case quote of None \<Rightarrow> doors sh
          | Some q \<Rightarrow> (doors sh)\<lparr>door_allocations := door_allocations (doors sh) @ [(next_row sh, q)]\<rparr>)\<rparr>)"

definition register_body ::
  "(string \<Rightarrow> string) \<Rightarrow> gateway \<Rightarrow> int \<Rightarrow> initiation \<Rightarrow> shop_db \<Rightarrow> (attempt \<times> shop_db) res" where
  "register_body sha gw now inp sh =
     (let oid = in_order inp; key = sha (in_key inp); fp = initiation_fingerprint sha gw oid in
     need (customer_of_user sh (in_user inp)) (Conflict ''CONFLICT'') (\<lambda>(cid, c).
     need (map_of (orders sh) oid) (NotFound ''ORDER_NOT_FOUND'') (\<lambda>order.
     throw_if (or_customer order \<noteq> cid) (NotFound ''ORDER_NOT_FOUND'')
     (andthen (amount_due sh now oid order (cu_active c)) (\<lambda>(amount, quote).
     case payment_by_key sh key of
       Some (i, p) \<Rightarrow> andthen (attempt_for_existing i p oid fp True) (\<lambda>a. Inr (a, sh))
     | None \<Rightarrow>
         (case active_payment sh oid of
            Some (i, p) \<Rightarrow> andthen (attempt_for_existing i p oid fp False) (\<lambda>a. Inr (a, sh))
          | None \<Rightarrow>
              let (i, sh') = open_payment (new_payment gw inp key fp amount) quote sh
              in Inr (Authorize_attempt i (or_number order) amount, sh')))))))"

definition register_payment ::
  "(string \<Rightarrow> string) \<Rightarrow> gateway \<Rightarrow> int \<Rightarrow> initiation \<Rightarrow> shop_db \<Rightarrow> (attempt \<times> shop_db) res" where
  "register_payment sha gw now inp sh = plain_serializable (register_body sha gw now inp sh)"

text \<open>The page the customer is sent to.\<close>

record payment_view =
  pv_payment :: uid
  pv_provider :: string
  pv_amount :: int
  pv_authority :: string
  pv_redirect :: string

definition redirect_base_url :: "string \<Rightarrow> string" where
  "redirect_base_url environment =
     (if environment = ''live'' then ''https://payment.zarinpal.com/pg/StartPay/''
      else ''https://sandbox.zarinpal.com/pg/StartPay/'')"

definition as_outcome :: "gateway \<Rightarrow> uid \<Rightarrow> string \<Rightarrow> int \<Rightarrow> string \<Rightarrow> payment_view" where
  "as_outcome gw i authority amount environment =
     \<lparr>pv_payment = i, pv_provider = gw_provider gw, pv_amount = amount, pv_authority = authority,
      pv_redirect = redirect_base_url environment @ authority\<rparr>"

text \<open>\<open>persistAuthorization\<close>: the authority is kept even when the order closed meanwhile.\<close>

definition still_payable :: "shop_db \<Rightarrow> int \<Rightarrow> uid \<Rightarrow> bool" where
  "still_payable sh now oid \<longleftrightarrow>
     (case map_of (door_orders (doors sh)) oid of
        Some d \<Rightarrow> do_status d \<noteq> DS_CANCELLED \<and> do_status d \<noteq> DS_COMPLETED
      | None \<Rightarrow> (case map_of (orders sh) oid of
          None \<Rightarrow> False | Some o' \<Rightarrow> or_status o' = OS_PENDING_PAYMENT \<and> or_expires o' > now))"

definition persist_authorization ::
  "gateway \<Rightarrow> int \<Rightarrow> uid \<Rightarrow> uid \<Rightarrow> int \<Rightarrow> string \<Rightarrow> shop_db \<Rightarrow> payment_view option \<times> shop_db" where
  "persist_authorization gw now oid i amount authority sh =
     (case map_of (payments sh) i of
        None \<Rightarrow> (None, sh)
      | Some p \<Rightarrow>
          if pay_status p = PAY_PENDING \<and> pay_authority p = None
          then (if still_payable sh now oid then Some (as_outcome gw i authority amount (gw_mode gw)) else None,
                put_payment i (p\<lparr>pay_authority := Some authority\<rparr>) sh)
          else (if still_payable sh now oid \<and> pay_status p = PAY_PENDING
                then Some (as_outcome gw i (the (pay_authority p)) amount (pay_environment p)) else None, sh))"

definition mark_failed :: "uid \<Rightarrow> string \<Rightarrow> string \<Rightarrow> shop_db \<Rightarrow> shop_db res" where
  "mark_failed i request reason sh =
     plain_serializable (case map_of (payments sh) i of
       None \<Rightarrow> Inr sh
     | Some p \<Rightarrow>
         if pay_status p \<noteq> PAY_PENDING then Inr sh
         else payment_step i PAY_PENDING PAY_FAILED (None, Some request, Some reason) sh)"

definition after_failed :: "string \<Rightarrow> api_error \<Rightarrow> uid \<Rightarrow> string \<Rightarrow> shop_db \<Rightarrow> payment_view res \<times> shop_db" where
  "after_failed reason e i request sh =
     (case mark_failed i request reason sh of Inl e' \<Rightarrow> (Inl e', sh) | Inr sh' \<Rightarrow> (Inl e, sh'))"

definition gateway_answered ::
  "gateway \<Rightarrow> int \<Rightarrow> initiation \<Rightarrow> uid \<Rightarrow> int \<Rightarrow> authorize_result \<Rightarrow> shop_db \<Rightarrow> payment_view res \<times> shop_db"
where
  "gateway_answered gw now inp i amount result sh =
     (case result of
        Transport_error \<Rightarrow> (Inl result_unconfirmed, sh)
      | Redirect authority \<Rightarrow>
          (let (v, sh') = persist_authorization gw now (in_order inp) i amount authority sh
           in (case v of None \<Rightarrow> Inl order_state_conflict | Some view \<Rightarrow> Inr view, sh'))
      | Unknown_result \<Rightarrow> (Inl result_unconfirmed, sh)
      | Rejected \<Rightarrow> after_failed ''gateway_rejected'' (Unprocessable ''UNPROCESSABLE'') i (in_request inp) sh
      | Disabled_gateway \<Rightarrow>
          after_failed ''gateway_disabled'' (Unavailable ''PAYMENT_PROVIDER_DISABLED'') i (in_request inp) sh
      | Unavailable_gateway \<Rightarrow>
          after_failed ''gateway_authorization_throttled'' (Unavailable ''UPSTREAM_UNAVAILABLE'') i
            (in_request inp) sh)"

text \<open>\<open>initiate\<close>: two transactions around the call of the gateway; \<open>later\<close> is the clock of the second.\<close>

definition initiate ::
  "(string \<Rightarrow> string) \<Rightarrow> gateway \<Rightarrow> int \<Rightarrow> int \<Rightarrow> initiation \<Rightarrow> authorize_result \<Rightarrow> shop_db
     \<Rightarrow> payment_view res \<times> shop_db" where
  "initiate sha gw now later inp result sh =
     (case register_payment sha gw now inp sh of
        Inl e \<Rightarrow> (Inl e, sh)
      | Inr (Replay_attempt i a amount env, sh') \<Rightarrow> (Inr (as_outcome gw i a amount env), sh')
      | Inr (Authorize_attempt i _ amount, sh') \<Rightarrow> gateway_answered gw later inp i amount result sh')"

section \<open>Settling a callback\<close>

datatype verification_kind =
    VK_VERIFIED | VK_REPLAY | VK_AFTER_CANCELLED | VK_NOT_PAID | VK_UNCONFIRMED

record verification =
  vo_payment :: uid
  vo_status :: payment_status
  vo_amount :: int
  vo_authority :: string
  vo_reference :: "string option"
  vo_kind :: verification_kind
  vo_order :: uid
  vo_order_status :: order_status
  vo_consumed :: nat
  vo_fulfillment :: "uid option"

definition order_status_of :: "order_status \<Rightarrow> order_status" where
  "order_status_of s = (case s of OS_PAID \<Rightarrow> OS_PAID | OS_CANCELLED \<Rightarrow> OS_CANCELLED | _ \<Rightarrow> OS_PENDING_PAYMENT)"

definition text_of :: "string option \<Rightarrow> string" where
  "text_of s = (case s of None \<Rightarrow> [] | Some t \<Rightarrow> t)"

definition text_or_null :: "string option \<Rightarrow> jval" where
  "text_or_null s = (case s of None \<Rightarrow> JNull | Some t \<Rightarrow> JStr t)"

definition outcome ::
  "uid \<Rightarrow> payment \<Rightarrow> payment_status \<Rightarrow> string option \<Rightarrow> verification_kind \<Rightarrow> order_status \<Rightarrow> nat \<Rightarrow> uid option
     \<Rightarrow> verification" where
  "outcome i p status reference kind order_state consumed f =
     \<lparr>vo_payment = i, vo_status = status, vo_amount = pay_amount p, vo_authority = text_of (pay_authority p),
      vo_reference = reference, vo_kind = kind, vo_order = pay_order p,
      vo_order_status = order_status_of order_state, vo_consumed = consumed, vo_fulfillment = f\<rparr>"

definition replay_outcome :: "uid \<Rightarrow> payment \<Rightarrow> order_row \<Rightarrow> verification" where
  "replay_outcome i p order =
     outcome i p (if pay_status p = PAY_PAID then PAY_PAID
         else if pay_status p = PAY_PENDING then PAY_PENDING else PAY_FAILED)
       (pay_reference p) VK_REPLAY (or_status order) 0 None"

text \<open>A payment comes with its order (\<open>include: { order }\<close>, a foreign key).\<close>

definition with_order :: "shop_db \<Rightarrow> uid \<Rightarrow> (payment \<Rightarrow> order_row \<Rightarrow> 'a res) \<Rightarrow> 'a res" where
  "with_order sh i k =
     need (map_of (payments sh) i) (NotFound ''NOT_FOUND'') (\<lambda>p.
     need (map_of (orders sh) (pay_order p)) (Crash ''TypeError'') (k p))"

definition payment_info :: "string \<Rightarrow> string \<Rightarrow> change_info" where
  "payment_info request reason = (None, Some request, Some reason)"

definition set_reference :: "uid \<Rightarrow> string \<Rightarrow> shop_db \<Rightarrow> shop_db" where
  "set_reference i reference sh =
     (case map_of (payments sh) i of None \<Rightarrow> sh
      | Some p \<Rightarrow> put_payment i (p\<lparr>pay_reference := Some reference\<rparr>) sh)"

text \<open>The payment side of every settlement.\<close>

definition mark_paid :: "uid \<Rightarrow> string \<Rightarrow> string \<Rightarrow> shop_db \<Rightarrow> shop_db res" where
  "mark_paid i reference request sh =
     andthen (payment_step i PAY_PENDING PAY_PAID (payment_info request ''GATEWAY_VERIFIED'') sh) (\<lambda>sh1.
     Inr (set_reference i reference sh1))"

definition payment_event :: "string \<Rightarrow> string \<Rightarrow> uid \<Rightarrow> (string \<times> jval) list \<Rightarrow> outbox_event" where
  "payment_event topic key_name i payload =
     \<lparr>ob_topic = topic, ob_aggregate = ''payment'', ob_aggregate_id = i, ob_key = Dedup key_name i [],
      ob_payload = payload\<rparr>"

definition payment_facts :: "uid \<Rightarrow> payment \<Rightarrow> (string \<times> jval) list" where
  "payment_facts i p =
     [(''paymentId'', JId i), (''orderId'', JId (pay_order p)), (''provider'', JStr (pay_provider p)),
      (''authority'', text_or_null (pay_authority p)), (''amount'', JStr (show_int (pay_amount p))),
      (''currency'', JStr ''IRR'')]"

definition payment_audit ::
  "string \<Rightarrow> uid \<Rightarrow> (string \<times> jval) list \<Rightarrow> (string \<times> jval) list \<Rightarrow> (string \<times> jval) list \<Rightarrow> string
     \<Rightarrow> audit_event" where
  "payment_audit action i was after meta request =
     \<lparr>ae_action = action, ae_entity = ''payment'', ae_entity_id = i, ae_before = was, ae_after = after,
      ae_metadata = meta, ae_actor = None, ae_request = Some request\<rparr>"

subsection \<open>After a cancellation\<close>

text \<open>Money that arrived for a closed order is recorded, and nothing else moves.\<close>

definition settle_after_cancellation ::
  "uid \<Rightarrow> payment \<Rightarrow> string \<Rightarrow> string \<Rightarrow> shop_db \<Rightarrow> (verification \<times> shop_db) res" where
  "settle_after_cancellation i p reference request sh =
     andthen (mark_paid i reference request sh) (\<lambda>sh1.
     andthen (add_outbox (payment_event ''PAYMENT_VERIFIED_AFTER_CANCELLED'' ''payment-verified-after-cancelled'' i
       (payment_facts i p @ [(''referenceId'', JStr reference), (''orderStatus'', JStr ''CANCELLED'')])) sh1) (\<lambda>sh2.
     Inr (outcome i p PAY_PAID (Some reference) VK_AFTER_CANCELLED OS_CANCELLED 0 None,
       audit (payment_audit ''payment.paid.after-order-cancelled'' i
         [(''status'', JStr ''PENDING'')] [(''status'', JStr ''PAID''), (''referenceId'', JStr reference)]
         [(''provider'', JStr (pay_provider p)), (''transitionId'', JNum (int (length (payment_log sh))))]
         request) sh2)))"

subsection \<open>Custom doors\<close>

definition put_door_order :: "uid \<Rightarrow> door_order \<Rightarrow> shop_db \<Rightarrow> shop_db" where
  "put_door_order i d sh =
     sh\<lparr>doors := (doors sh)\<lparr>door_orders := AList.update i d (door_orders (doors sh))\<rparr>\<rparr>"

definition add_door_record :: "door_record \<Rightarrow> shop_db \<Rightarrow> shop_db" where
  "add_door_record r sh = sh\<lparr>doors := (doors sh)\<lparr>door_records := door_records (doors sh) @ [r]\<rparr>\<rparr>"

definition paid_with :: "shop_db \<Rightarrow> uid \<Rightarrow> uid \<Rightarrow> int" where
  "paid_with sh oid i = door_paid (map (\<lambda>(j, p). if j = i then p\<lparr>pay_status := PAY_PAID\<rparr> else p) (payments_of sh oid))"

definition settle_door_payment_in ::
  "uid \<Rightarrow> payment \<Rightarrow> string \<Rightarrow> string \<Rightarrow> shop_db \<Rightarrow> ((bool \<times> order_status) \<times> shop_db) res" where
  "settle_door_payment_in i p reference request sh =
     (let oid = pay_order p in
     need (map_of (door_orders (doors sh)) oid) (DbError ''P2025'') (\<lambda>row.
     need (map_of (orders sh) oid) (DbError ''P2025'') (\<lambda>order.
     need (map_of (door_allocations (doors sh)) i) (Conflict ''no valid approved quotation allocation'') (\<lambda>qi.
     need (map_of (door_quotations (doors sh)) qi) (Conflict ''no valid approved quotation allocation'') (\<lambda>allocated.
     throw_if (qt_order allocated \<noteq> oid \<or> \<not> qt_approved allocated) (Conflict ''no valid approved quotation allocation'')
     (need (current_quotation sh oid row) (Conflict ''A final quotation is missing.'') (\<lambda>(ci, quote).
      throw_if (\<not> qt_approved quote \<or> qt_total quote = None) (Conflict ''A final quotation is missing.'')
      (andthen (mark_paid i reference request sh) (\<lambda>sh1.
      let paid = paid_with sh oid i; owed = the (qt_total quote);
          cancelled = (do_status row = DS_CANCELLED \<or> or_status order = OS_CANCELLED);
          review = (cancelled \<or> paid > owed \<or> qi \<noteq> ci);
          closes = (\<not> review \<and> paid \<ge> owed \<and> or_status order = OS_PENDING_PAYMENT);
          funds = (\<not> review \<and> paid \<ge> owed \<and> do_status row = DS_AWAITING_DEPOSIT
            \<and> do_accepted row = Some (qt_version quote)) in
      andthen (if closes then order_step oid OS_PENDING_PAYMENT OS_PAID
          (payment_info request ''DOOR_SETTLED'') sh1 else Inr sh1) (\<lambda>sh2.
      let sh3 = (if funds then put_door_order oid
            (row\<lparr>do_status := DS_DEPOSIT_PAID, do_version := do_version row + 1\<rparr>) sh2 else sh2);
          sh4 = add_door_record \<lparr>dr_order = oid, dr_action = ''PAYMENT_VERIFIED'',
            dr_message = (if review then ''verified; needs financial review'' else ''verified by the gateway''),
            dr_payload = [(''paymentId'', JId i), (''quoteId'', JId qi), (''amount'', JStr (show_int (pay_amount p)))],
            dr_actor = None\<rparr> sh3 in
      andthen (add_outbox (payment_event
          (if review then ''PAYMENT_VERIFIED_AFTER_CANCELLED'' else ''DOOR_PAYMENT_VERIFIED'') ''payment-verified'' i
          [(''paymentId'', JId i), (''orderId'', JId oid), (''amount'', JStr (show_int (pay_amount p))),
           (''currency'', JStr ''IRR''), (''quoteId'', JId qi)]) sh4) (\<lambda>sh5.
      Inr ((cancelled, if closes then OS_PAID else or_status order),
        audit (payment_audit ''custom-door.payment.verified'' i [] []
          [(''orderId'', JId oid), (''quoteId'', JId qi), (''amount'', JStr (show_int (pay_amount p))),
           (''needsReview'', JBool review)] request) sh5))))))))))))"

subsection \<open>An ordinary order\<close>

definition pay_for_order :: "uid \<Rightarrow> order_row \<Rightarrow> string \<Rightarrow> shop_db \<Rightarrow> (nat option \<times> shop_db) res" where
  "pay_for_order oid order request sh =
     (if or_status order = OS_PENDING_PAYMENT
      then andthen (order_step oid OS_PENDING_PAYMENT OS_PAID (payment_info request ''PAYMENT_VERIFIED'') sh)
        (\<lambda>sh'. Inr (Some (length (order_log sh)), sh'))
      else throw_if (or_status order \<noteq> OS_PAID) order_state_conflict (Inr (None, sh)))"

text \<open>\<open>fulfillment.upsert\<close> and the opening row of its history (\<open>skipDuplicates\<close>).\<close>

definition open_fulfillment :: "uid \<Rightarrow> string \<Rightarrow> shop_db \<Rightarrow> uid \<times> shop_db" where
  "open_fulfillment oid request sh =
     (let (i, sh1) = (case fulfillment_of sh oid of
            Some (i, f) \<Rightarrow> (i, sh)
          | None \<Rightarrow> (next_row sh, sh\<lparr>fulfillments := fulfillments sh @
               [(next_row sh, \<lparr>fu_order = oid, fu_status = FS_PENDING\<rparr>)], next_row := Suc (next_row sh)\<rparr>))
      in (i, if request_taken i (Some request) (fulfillment_log sh1) then sh1
             else sh1\<lparr>fulfillment_log := fulfillment_log sh1 @
               [\<lparr>tn_parent = i, tn_from = None, tn_to = FS_PENDING, tn_actor = None,
                 tn_request = Some request, tn_reason = Some ''PAYMENT_VERIFIED''\<rparr>]\<rparr>))"

definition order_paid_audit :: "uid \<Rightarrow> uid \<Rightarrow> nat \<Rightarrow> nat \<Rightarrow> string \<Rightarrow> audit_event" where
  "order_paid_audit oid i consumed transition request =
     \<lparr>ae_action = ''order.paid'', ae_entity = ''order'', ae_entity_id = oid,
      ae_before = [(''status'', JStr ''PENDING_PAYMENT'')],
      ae_after = [(''status'', JStr ''PAID''), (''consumedReservations'', JNum (int consumed))],
      ae_metadata = [(''paymentId'', JId i), (''transitionId'', JNum (int transition))],
      ae_actor = None, ae_request = Some request\<rparr>"

definition settle_order ::
  "uid \<Rightarrow> payment \<Rightarrow> order_row \<Rightarrow> string \<Rightarrow> string \<Rightarrow> int \<Rightarrow> shop_db \<Rightarrow> (verification \<times> shop_db) res" where
  "settle_order i p order reference request now sh =
     (let oid = pay_order p in
     andthen (mark_paid i reference request sh) (\<lambda>sh1.
     andthen (pay_for_order oid order request sh1) (\<lambda>(transition, sh2).
     andthen (on_stock (consume_reservations_for_order oid \<lparr>ctx_actor = None, ctx_request = Some request\<rparr>)
         (on_promo (confirm_for_order oid now) sh2)) (\<lambda>(consumed, sh3).
     let (f, sh4) = open_fulfillment oid request sh3 in
     andthen (add_outbox (payment_event ''PAYMENT_VERIFIED'' ''payment-verified'' i
         (payment_facts i p @ [(''referenceId'', JStr reference), (''consumedReservations'', JNum (int consumed)),
           (''fulfillmentId'', JId f), (''orderStatus'', JStr ''PAID'')])) sh4) (\<lambda>sh5.
     let sh6 = audit (payment_audit ''payment.paid'' i [(''status'', JStr ''PENDING'')]
           [(''status'', JStr ''PAID''), (''referenceId'', JStr reference),
            (''consumedReservations'', JNum (int consumed)), (''fulfillmentId'', JId f)]
           [(''provider'', JStr (pay_provider p)), (''gatewayEnvironment'', JStr (pay_environment p))] request) sh5 in
     Inr (outcome i p PAY_PAID (Some reference) VK_VERIFIED OS_PAID consumed (Some f),
       case transition of None \<Rightarrow> sh6
       | Some t \<Rightarrow> audit (order_paid_audit oid i consumed t request) sh6))))))"

text \<open>\<open>applyVerified\<close>: the payment and its order are read again inside the transaction.\<close>

definition apply_verified_body ::
  "uid \<Rightarrow> string \<Rightarrow> string \<Rightarrow> int \<Rightarrow> shop_db \<Rightarrow> (verification \<times> shop_db) res" where
  "apply_verified_body i reference request now sh =
     with_order sh i (\<lambda>p order.
     if pay_status p = PAY_PAID then Inr (replay_outcome i p order, sh)
     else throw_if (pay_status p \<noteq> PAY_PENDING) payment_state_conflict
     (if is_door_order sh (pay_order p)
      then andthen (settle_door_payment_in i p reference request sh) (\<lambda>((cancelled, order_state), sh').
        Inr (outcome i p PAY_PAID (Some reference)
          (if cancelled then VK_AFTER_CANCELLED else VK_VERIFIED) order_state 0 None, sh'))
      else throw_if (pay_amount p \<noteq> or_total order) payment_state_conflict
      (if or_status order = OS_CANCELLED then settle_after_cancellation i p reference request sh
       else settle_order i p order reference request now sh)))"

definition mark_not_paid_body :: "uid \<Rightarrow> string \<Rightarrow> shop_db \<Rightarrow> (verification \<times> shop_db) res" where
  "mark_not_paid_body i request sh =
     with_order sh i (\<lambda>p order.
     if pay_status p \<noteq> PAY_PENDING then Inr (replay_outcome i p order, sh)
     else
     andthen (payment_step i PAY_PENDING PAY_FAILED (payment_info request ''gateway_not_paid'') sh) (\<lambda>sh1.
     andthen (add_outbox (payment_event ''PAYMENT_VERIFICATION_FAILED'' ''payment-verification-failed'' i
       [(''paymentId'', JId i), (''orderId'', JId (pay_order p)), (''provider'', JStr (pay_provider p)),
        (''reason'', JStr ''gateway_not_paid''), (''paymentStatus'', JStr ''FAILED'')]) sh1) (\<lambda>sh2.
     Inr (outcome i p PAY_FAILED None VK_NOT_PAID (or_status order) 0 None,
       audit (payment_audit ''payment.failed'' i [(''status'', JStr ''PENDING'')] [(''status'', JStr ''FAILED'')]
         [(''provider'', JStr (pay_provider p)), (''reason'', JStr ''gateway_not_paid'')] request) sh2))))"

definition record_unconfirmed_body :: "uid \<Rightarrow> string \<Rightarrow> shop_db \<Rightarrow> (verification \<times> shop_db) res" where
  "record_unconfirmed_body i request sh =
     with_order sh i (\<lambda>p order.
     if pay_status p \<noteq> PAY_PENDING then Inr (replay_outcome i p order, sh)
     else let unconfirmed = outcome i p PAY_PENDING None VK_UNCONFIRMED (or_status order) 0 None in
     if Dedup ''payment-verification-unconfirmed'' i [] \<in> ob_key ` set (outbox sh) then Inr (unconfirmed, sh)
     else
     andthen (add_outbox (payment_event ''PAYMENT_VERIFICATION_UNCONFIRMED'' ''payment-verification-unconfirmed'' i
       (payment_facts i p @ [(''gatewayEnvironment'', JStr (pay_environment p))])) sh) (\<lambda>sh1.
     Inr (unconfirmed, audit (payment_audit ''payment.verification.unconfirmed'' i [] []
       [(''provider'', JStr (pay_provider p)), (''reason'', JStr ''gateway_verify_unconfirmed''),
        (''authority'', text_or_null (pay_authority p))] request) sh1)))"

definition assert_payment_belongs :: "gateway \<Rightarrow> payment \<Rightarrow> unit res" where
  "assert_payment_belongs gw p =
     throw_if (pay_provider p \<noteq> gw_provider gw) (BadRequest ''INVALID_REQUEST'')
     (throw_if (gw_mode gw \<noteq> ''disabled'' \<and> pay_environment p \<noteq> gw_mode gw) (BadRequest ''INVALID_REQUEST'')
     (Inr ()))"

text \<open>\<open>verify\<close> up to the call of the gateway: an answer at once, or the payment to ask about.\<close>

datatype verify_plan = Answer_now verification shop_db | Ask_gateway uid

definition payment_by_authority :: "shop_db \<Rightarrow> string \<Rightarrow> (uid \<times> payment) option" where
  "payment_by_authority sh authority = List.find (\<lambda>(_, p). pay_authority p = Some authority) (payments sh)"

definition verify_start ::
  "gateway \<Rightarrow> string \<Rightarrow> string option \<Rightarrow> string \<Rightarrow> shop_db \<Rightarrow> verify_plan res" where
  "verify_start gw raw_authority status request sh =
     (let authority = trim raw_authority in
     throw_if (length authority = 0 \<or> length authority > 128) (BadRequest ''INVALID_REQUEST'')
     (throw_if (status \<noteq> None \<and> status \<noteq> Some ''OK'' \<and> status \<noteq> Some ''NOK'') (BadRequest ''INVALID_REQUEST'')
     (need (payment_by_authority sh authority) (NotFound ''NOT_FOUND'') (\<lambda>(i, p).
      need (map_of (orders sh) (pay_order p)) (Crash ''TypeError'') (\<lambda>order.
      andthen (assert_payment_belongs gw p) (\<lambda>_.
      if pay_status p \<noteq> PAY_PENDING then Inr (Answer_now (replay_outcome i p order) sh)
      else if status = Some ''NOK''
      then andthen (plain_serializable (record_unconfirmed_body i request sh)) (\<lambda>(v, sh'). Inr (Answer_now v sh'))
      else Inr (Ask_gateway i)))))))"

text \<open>What follows the answer of the gateway, on the database as it is by then.\<close>

definition verify_finish ::
  "uid \<Rightarrow> verify_result \<Rightarrow> string \<Rightarrow> int \<Rightarrow> shop_db \<Rightarrow> (verification \<times> shop_db) res" where
  "verify_finish i result request now sh =
     (case result of
        Verified reference \<Rightarrow> plain_serializable (apply_verified_body i reference request now sh)
      | Verify_failed \<Rightarrow> plain_serializable (mark_not_paid_body i request sh)
      | Verify_unavailable \<Rightarrow> Inl (Unavailable ''UPSTREAM_UNAVAILABLE'')
      | Verify_disabled \<Rightarrow> Inl (Unavailable ''PAYMENT_PROVIDER_DISABLED'')
      | Verify_unknown \<Rightarrow> plain_serializable (record_unconfirmed_body i request sh))"

definition verify ::
  "gateway \<Rightarrow> string \<Rightarrow> string option \<Rightarrow> string \<Rightarrow> verify_result \<Rightarrow> int \<Rightarrow> shop_db \<Rightarrow> (verification \<times> shop_db) res"
where
  "verify gw authority status request result now sh =
     andthen (verify_start gw authority status request sh) (\<lambda>plan.
     case plan of
       Answer_now v sh' \<Rightarrow> Inr (v, sh')
     | Ask_gateway i \<Rightarrow> verify_finish i result request now sh)"

end
