(* ===== verification/Refunds.thy ===== *)
theory Refunds
  imports Payments
begin

text \<open>
  Refunds that staff made in the gateway's panel and record here
  (\<open>payments/admin-payment-refund.service.ts\<close>; \<open>remainingRefundable\<close> is in
  \<open>payments/admin-payment-read.service.ts\<close>).
\<close>

record refund_request =
  fr_payment :: uid
  fr_amount :: string
  fr_reference :: string
  fr_reason :: string
  fr_note :: "string option"
  fr_actor :: string
  fr_request :: string
  fr_key :: string

record refund_answer =
  fa_refund :: uid
  fa_payment :: uid
  fa_order :: uid
  fa_amount :: int
  fa_reference :: string
  fa_reason :: string
  fa_note :: "string option"
  fa_status :: payment_status
  fa_refunded_total :: int
  fa_remaining :: int
  fa_created :: int

section \<open>Checks of the request\<close>

definition parse_amount :: "string \<Rightarrow> int res" where
  "parse_amount raw =
     throw_if (raw = [] \<or> \<not> list_all is_digit raw) (Unprocessable ''INVALID_REQUEST'')
     (throw_if (digits_value raw \<le> 0) (Unprocessable ''INVALID_REQUEST'') (Inr (digits_value raw)))"

definition has_control_character :: "string \<Rightarrow> bool" where
  "has_control_character s =
     list_ex (\<lambda>c. let n = of_char c :: nat in n < 32 \<or> n = 127) s"

definition is_bounded_text :: "string \<Rightarrow> nat \<Rightarrow> bool" where
  "is_bounded_text s limit \<longleftrightarrow> 0 < length s \<and> length s \<le> limit \<and> \<not> has_control_character s"

definition assert_evidence :: "refund_request \<Rightarrow> unit res" where
  "assert_evidence r =
     throw_if (\<not> is_bounded_text (trim (fr_reference r)) 128 \<or> fr_reference r \<noteq> trim (fr_reference r)
         \<or> \<not> is_bounded_text (trim (fr_reason r)) 255 \<or> fr_reason r \<noteq> trim (fr_reason r)
         \<or> (case fr_note r of None \<Rightarrow> False | Some n \<Rightarrow> length n > 500 \<or> has_control_character n))
       (Unprocessable ''INVALID_REQUEST'') (Inr ())"

definition remaining_refundable :: "payment \<Rightarrow> int" where
  "remaining_refundable p =
     (if pay_status p \<noteq> PAY_PAID \<and> pay_status p \<noteq> PAY_PARTIALLY_REFUNDED then 0
      else max 0 (pay_amount p - pay_refunded p))"

section \<open>Idempotency\<close>

definition refund_fingerprint ::
  "(string \<Rightarrow> string) \<Rightarrow> int \<Rightarrow> string \<Rightarrow> string \<Rightarrow> string option \<Rightarrow> string" where
  "refund_fingerprint sha amount reference reason note = sha (json_object
     [(''scope'', JStr ''payment.refund''), (''amount'', JStr (show_int amount)),
      (''gatewayReferenceId'', JStr reference), (''reason'', JStr reason), (''note'', text_or_null note)])"

definition refund_key :: "(string \<Rightarrow> string) \<Rightarrow> refund_request \<Rightarrow> string" where
  "refund_key sha r = sha (''payment.refund:'' @ show_nat (fr_payment r) @ '':'' @ fr_key r)"

definition refund_by_key :: "shop_db \<Rightarrow> string \<Rightarrow> (uid \<times> refund) option" where
  "refund_by_key sh key = List.find (\<lambda>(_, f). rf_key f = key) (refunds sh)"

text \<open>\<open>replay\<close>: the answer is built from the stored refund and the payment as it is now.\<close>

definition refund_view :: "uid \<Rightarrow> refund \<Rightarrow> payment \<Rightarrow> refund_answer" where
  "refund_view i f p =
     \<lparr>fa_refund = i, fa_payment = rf_payment f, fa_order = pay_order p, fa_amount = rf_amount f,
      fa_reference = rf_reference f, fa_reason = rf_reason f, fa_note = rf_note f,
      fa_status = (if pay_status p = PAY_REFUNDED then PAY_REFUNDED else PAY_PARTIALLY_REFUNDED),
      fa_refunded_total = pay_refunded p, fa_remaining = pay_amount p - pay_refunded p,
      fa_created = rf_created f\<rparr>"

definition replay_refund ::
  "(string \<Rightarrow> string) \<Rightarrow> uid \<Rightarrow> refund \<Rightarrow> payment \<Rightarrow> string \<Rightarrow> refund_answer res" where
  "replay_refund sha i f p fingerprint =
     throw_if (refund_fingerprint sha (rf_amount f) (rf_reference f) (rf_reason f) (rf_note f) \<noteq> fingerprint)
       (Conflict ''IDEMPOTENCY_CONFLICT'') (Inr (refund_view i f p))"

section \<open>The transaction\<close>

text \<open>\<open>refund.create\<close>: the panel's reference and the key are unique.\<close>

definition add_refund :: "refund \<Rightarrow> shop_db \<Rightarrow> (uid \<times> shop_db) res" where
  "add_refund f sh =
     throw_if (\<exists>x \<in> set (refunds sh). rf_key (snd x) = rf_key f \<or> rf_reference (snd x) = rf_reference f)
       (DbError ''P2002'')
     (Inr (next_row sh, sh\<lparr>refunds := refunds sh @ [(next_row sh, f)], next_row := Suc (next_row sh)\<rparr>))"

definition next_refund_status :: "payment \<Rightarrow> int \<Rightarrow> payment_status" where
  "next_refund_status p refunded = (if refunded = pay_amount p then PAY_REFUNDED else PAY_PARTIALLY_REFUNDED)"

definition new_refund :: "(string \<Rightarrow> string) \<Rightarrow> refund_request \<Rightarrow> int \<Rightarrow> int \<Rightarrow> refund" where
  "new_refund sha r amount now =
     \<lparr>rf_payment = fr_payment r, rf_amount = amount, rf_reference = fr_reference r, rf_reason = fr_reason r,
      rf_note = fr_note r, rf_key = refund_key sha r,
      rf_fingerprint = refund_fingerprint sha amount (fr_reference r) (fr_reason r) (fr_note r),
      rf_actor = fr_actor r, rf_request = fr_request r, rf_created = now\<rparr>"

definition refund_audit :: "refund_request \<Rightarrow> payment \<Rightarrow> int \<Rightarrow> uid \<Rightarrow> (payment_status \<Rightarrow> string) \<Rightarrow> audit_event" where
  "refund_audit r p refunded i name =
     \<lparr>ae_action = ''payment.refund.recorded'', ae_entity = ''payment'', ae_entity_id = fr_payment r,
      ae_before = [(''status'', JStr (name (pay_status p))), (''refundedTotal'', JStr (show_int (pay_refunded p)))],
      ae_after = [(''status'', JStr (name (next_refund_status p refunded))),
        (''refundedTotal'', JStr (show_int refunded)), (''refundId'', JId i)],
      ae_metadata = [], ae_actor = Some (fr_actor r), ae_request = Some (fr_request r)\<rparr>"

fun payment_status_name :: "payment_status \<Rightarrow> string" where
  "payment_status_name PAY_PENDING = ''PENDING''"
| "payment_status_name PAY_PAID = ''PAID''"
| "payment_status_name PAY_FAILED = ''FAILED''"
| "payment_status_name PAY_CANCELLED = ''CANCELLED''"
| "payment_status_name PAY_REFUNDED = ''REFUNDED''"
| "payment_status_name PAY_PARTIALLY_REFUNDED = ''PARTIALLY_REFUNDED''"

definition refund_event :: "refund_request \<Rightarrow> payment \<Rightarrow> int \<Rightarrow> int \<Rightarrow> uid \<Rightarrow> outbox_event" where
  "refund_event r p amount refunded i =
     \<lparr>ob_topic = ''PAYMENT_REFUNDED'', ob_aggregate = ''payment'', ob_aggregate_id = fr_payment r,
      ob_key = Dedup ''payment-refunded'' i [],
      ob_payload = [(''refundId'', JId i), (''paymentId'', JId (fr_payment r)), (''orderId'', JId (pay_order p)),
        (''amount'', JStr (show_int amount)), (''currency'', JStr ''IRR''),
        (''refundedTotal'', JStr (show_int refunded)),
        (''paymentStatus'', JStr (payment_status_name (next_refund_status p refunded))),
        (''gatewayReferenceId'', JStr (fr_reference r))]\<rparr>"

definition move_refund :: "refund_request \<Rightarrow> payment \<Rightarrow> int \<Rightarrow> int \<Rightarrow> shop_db \<Rightarrow> shop_db res" where
  "move_refund r p refunded now sh =
     (let i = fr_payment r;
          sh1 = put_payment i (p\<lparr>pay_refunded := refunded\<rparr>) sh;
          sh2 = on_promo (apply_refund (pay_order p) (pay_amount p) refunded now) sh1;
          next_status = next_refund_status p refunded in
      if next_status \<noteq> pay_status p
      then payment_step i (pay_status p) next_status
        (Some (fr_actor r), Some (fr_request r), Some ''REFUND_RECORDED'') sh2
      else Inr sh2)"

definition record_refund_body ::
  "(string \<Rightarrow> string) \<Rightarrow> int \<Rightarrow> refund_request \<Rightarrow> int \<Rightarrow> shop_db \<Rightarrow> (refund_answer \<times> shop_db) res" where
  "record_refund_body sha now r amount sh =
     (case refund_by_key sh (refund_key sha r) of
        Some (i, f) \<Rightarrow>
          throw_if (rf_payment f \<noteq> fr_payment r) (Conflict ''IDEMPOTENCY_CONFLICT'')
          (need (map_of (payments sh) (rf_payment f)) (Crash ''TypeError'') (\<lambda>p.
           andthen (replay_refund sha i f p
             (refund_fingerprint sha amount (fr_reference r) (fr_reason r) (fr_note r))) (\<lambda>a. Inr (a, sh))))
      | None \<Rightarrow>
          need (map_of (payments sh) (fr_payment r)) (NotFound ''NOT_FOUND'') (\<lambda>p.
          throw_if (remaining_refundable p = 0) payment_state_conflict
          (throw_if (amount > remaining_refundable p) (Unprocessable ''REFUND_AMOUNT_EXCEEDS_REMAINING'')
          (let refunded = pay_refunded p + amount in
          andthen (add_refund (new_refund sha r amount now) sh) (\<lambda>(i, sh1).
          andthen (move_refund r p refunded now sh1) (\<lambda>sh2.
          andthen (add_outbox (refund_event r p amount refunded i)
            (audit (refund_audit r p refunded i payment_status_name) sh2)) (\<lambda>sh3.
          Inr (\<lparr>fa_refund = i, fa_payment = fr_payment r, fa_order = pay_order p, fa_amount = amount,
             fa_reference = fr_reference r, fa_reason = fr_reason r, fa_note = fr_note r,
             fa_status = next_refund_status p refunded, fa_refunded_total = refunded,
             fa_remaining = pay_amount p - refunded, fa_created = now\<rparr>, sh3))))))))"

definition record_refund ::
  "(string \<Rightarrow> string) \<Rightarrow> int \<Rightarrow> refund_request \<Rightarrow> shop_db \<Rightarrow> (refund_answer \<times> shop_db) res" where
  "record_refund sha now r sh =
     andthen (parse_amount (fr_amount r)) (\<lambda>amount.
     andthen (assert_evidence r) (\<lambda>_.
     plain_serializable (record_refund_body sha now r amount sh)))"

end
