(* ===== verification/Fulfillment.thy ===== *)
theory Fulfillment
  imports Order_Commands
begin

text \<open>
  The work on a paid order: start, pick, ready, dispatch, deliver
  (\<open>orders/fulfillment-command.service.ts\<close>, \<open>orders/fulfillment-pick.service.ts\<close>,
  \<open>orders/shipment-dispatch.service.ts\<close>, \<open>orders/shipment-delivery.service.ts\<close>).
\<close>

record staff_context =
  st_actor :: string
  st_request :: string
  st_key :: string

definition fulfillment_conflict :: api_error where
  "fulfillment_conflict = Conflict ''FULFILLMENT_STATE_CONFLICT''"

definition shipment_conflict :: api_error where
  "shipment_conflict = Conflict ''SHIPMENT_STATE_CONFLICT''"

text \<open>Every reservation the order ever made has been sold, and there is one.\<close>

definition stock_consumed :: "shop_db \<Rightarrow> uid \<Rightarrow> bool" where
  "stock_consumed sh oid \<longleftrightarrow>
     (let rows = filter (\<lambda>(_, r). rs_order r = Some oid) (reservations (stock sh)) in
      rows \<noteq> [] \<and> length (filter (\<lambda>(_, r). rs_status r = RS_CONSUMED) rows) = length rows)"

definition pick_of :: "shop_db \<Rightarrow> uid \<Rightarrow> pick option" where
  "pick_of sh item = map_option snd (List.find (\<lambda>(_, p). pk_item p = item) (picks sh))"

definition shipment_of :: "shop_db \<Rightarrow> uid \<Rightarrow> (uid \<times> shipment) option" where
  "shipment_of sh oid = List.find (\<lambda>(_, s). sh_order s = oid) (shipments sh)"

definition staff_info :: "staff_context \<Rightarrow> string \<Rightarrow> change_info" where
  "staff_info ctx reason = (Some (st_actor ctx), Some (st_request ctx), Some reason)"

definition staff_record ::
  "uid \<Rightarrow> string \<Rightarrow> string \<Rightarrow> string \<Rightarrow> answer \<Rightarrow> int \<Rightarrow> command_record" where
  "staff_record oid scope key fingerprint a now =
     \<lparr>ir_order = oid, ir_scope = scope, ir_key = key, ir_fingerprint = fingerprint, ir_answer = Some a,
      ir_expires = now + record_ttl\<rparr>"

text \<open>The frame of a staff command on an order: the order exists; the key answers a repeated request;
  otherwise \<open>k\<close> does the work and its answer is stored under the key.\<close>

definition staff_command ::
  "(string \<Rightarrow> string) \<Rightarrow> int \<Rightarrow> uid \<Rightarrow> string \<Rightarrow> string \<Rightarrow> (string \<times> jval) list \<Rightarrow> api_error
     \<Rightarrow> (order_row \<Rightarrow> (answer \<times> shop_db) res) \<Rightarrow> shop_db \<Rightarrow> (answer \<times> shop_db) res" where
  "staff_command sha now oid scope key request busy k sh =
     need (map_of (orders sh) oid) (NotFound ''ORDER_NOT_FOUND'') (\<lambda>order.
     case find_record oid scope (sha key) sh of
       Some r \<Rightarrow> andthen (replayed r (sha (json_object request)) busy) (\<lambda>a. Inr (a, sh))
     | None \<Rightarrow>
         andthen (k order) (\<lambda>(a, sh1).
         andthen (add_record (staff_record oid scope (sha key) (sha (json_object request)) a now) sh1) (\<lambda>sh2.
         Inr (a, sh2))))"

section \<open>Start and ready\<close>

datatype fulfillment_command = FC_start | FC_ready

definition command_name :: "fulfillment_command \<Rightarrow> string" where
  "command_name c = (case c of FC_start \<Rightarrow> ''start'' | FC_ready \<Rightarrow> ''ready'')"

definition command_reason :: "fulfillment_command \<Rightarrow> string" where
  "command_reason c = (case c of FC_start \<Rightarrow> ''STAFF_START'' | FC_ready \<Rightarrow> ''STAFF_READY'')"

definition command_from :: "fulfillment_command \<Rightarrow> fulfillment_status" where
  "command_from c = (case c of FC_start \<Rightarrow> FS_PENDING | FC_ready \<Rightarrow> FS_PROCESSING)"

definition command_to :: "fulfillment_command \<Rightarrow> fulfillment_status" where
  "command_to c = (case c of FC_start \<Rightarrow> FS_PROCESSING | FC_ready \<Rightarrow> FS_READY_TO_SHIP)"

fun fulfillment_status_name :: "fulfillment_status \<Rightarrow> string" where
  "fulfillment_status_name FS_PENDING = ''PENDING''"
| "fulfillment_status_name FS_PROCESSING = ''PROCESSING''"
| "fulfillment_status_name FS_READY_TO_SHIP = ''READY_TO_SHIP''"
| "fulfillment_status_name FS_SHIPPED = ''SHIPPED''"
| "fulfillment_status_name FS_DELIVERED = ''DELIVERED''"
| "fulfillment_status_name FS_CANCELLED = ''CANCELLED''"
| "fulfillment_status_name FS_RETURNED = ''RETURNED''"

definition staff_audit ::
  "string \<Rightarrow> string \<Rightarrow> uid \<Rightarrow> (string \<times> jval) list \<Rightarrow> (string \<times> jval) list \<Rightarrow> (string \<times> jval) list
     \<Rightarrow> staff_context \<Rightarrow> audit_event" where
  "staff_audit action entity i was after meta ctx =
     \<lparr>ae_action = action, ae_entity = entity, ae_entity_id = i, ae_before = was, ae_after = after,
      ae_metadata = meta, ae_actor = Some (st_actor ctx), ae_request = Some (st_request ctx)\<rparr>"

definition all_picked :: "shop_db \<Rightarrow> uid \<Rightarrow> order_row \<Rightarrow> bool" where
  "all_picked sh f order \<longleftrightarrow> or_items order \<noteq> []
     \<and> length (filter (\<lambda>(_, p). pk_fulfillment p = f) (picks sh)) = length (or_items order)"

definition work_fulfillment ::
  "int \<Rightarrow> uid \<Rightarrow> fulfillment_command \<Rightarrow> staff_context \<Rightarrow> shop_db \<Rightarrow> order_row \<Rightarrow> (answer \<times> shop_db) res" where
  "work_fulfillment now oid c ctx sh order =
     need (fulfillment_of sh oid) fulfillment_conflict (\<lambda>(f, row).
     throw_if (\<not> has_financial_proof sh oid order \<or> fu_status row \<noteq> command_from c) fulfillment_conflict
     (throw_if (c = FC_start \<and> \<not> stock_consumed sh oid) fulfillment_conflict
     (throw_if (c = FC_ready \<and> \<not> all_picked sh f order) fulfillment_conflict
     (andthen (fulfillment_step f (command_from c) (command_to c) (staff_info ctx (command_reason c)) sh) (\<lambda>sh1.
      Inr (Fulfillment_answer f oid (command_to c) now,
        audit (staff_audit (''fulfillment.'' @ command_name c) ''fulfillment'' f
          [(''status'', JStr (fulfillment_status_name (command_from c)))]
          [(''status'', JStr (fulfillment_status_name (command_to c)))]
          [(''orderId'', JId oid), (''transitionId'', JNum (int (length (fulfillment_log sh))))] ctx) sh1))))))"

definition execute_fulfillment ::
  "(string \<Rightarrow> string) \<Rightarrow> int \<Rightarrow> uid \<Rightarrow> fulfillment_command \<Rightarrow> staff_context \<Rightarrow> shop_db
     \<Rightarrow> (answer \<times> shop_db) res" where
  "execute_fulfillment sha now oid c ctx sh =
     andthen (assert_caller (st_actor ctx) (st_request ctx)) (\<lambda>_.
     serializable (\<lambda>_. False) (staff_command sha now oid (''fulfillment.'' @ command_name c @ '':staff'')
       (st_key ctx) [(''actorId'', JStr (st_actor ctx)), (''command'', JStr (command_name c))]
       (Conflict ''CONFLICT'') (work_fulfillment now oid c ctx sh) sh))"

section \<open>Picking\<close>

text \<open>\<open>fulfillmentPick.create\<close>: one pick per order line, one per request of a fulfillment.\<close>

definition add_pick :: "pick \<Rightarrow> shop_db \<Rightarrow> (uid \<times> shop_db) res" where
  "add_pick p sh =
     throw_if (\<exists>x \<in> set (picks sh). pk_item (snd x) = pk_item p
         \<or> (pk_fulfillment (snd x) = pk_fulfillment p \<and> pk_request (snd x) = pk_request p)) (DbError ''P2002'')
     (Inr (next_row sh, sh\<lparr>picks := picks sh @ [(next_row sh, p)], next_row := Suc (next_row sh)\<rparr>))"

definition work_pick ::
  "int \<Rightarrow> uid \<Rightarrow> uid \<Rightarrow> int \<Rightarrow> staff_context \<Rightarrow> shop_db \<Rightarrow> order_row \<Rightarrow> (answer \<times> shop_db) res" where
  "work_pick now oid item quantity ctx sh order =
     need (map_of (or_items order) item) (NotFound ''ORDER_ITEM_NOT_FOUND'') (\<lambda>line.
     need (fulfillment_of sh oid) fulfillment_conflict (\<lambda>(f, row).
     throw_if (\<not> has_financial_proof sh oid order \<or> fu_status row \<noteq> FS_PROCESSING) fulfillment_conflict
     (throw_if (quantity \<noteq> oi_quantity line) fulfillment_conflict
     (throw_if (\<not> stock_consumed sh oid) fulfillment_conflict
     (throw_if (pick_of sh item \<noteq> None) fulfillment_conflict
     (andthen (add_pick \<lparr>pk_fulfillment = f, pk_item = item, pk_quantity = quantity, pk_actor = st_actor ctx,
         pk_request = st_request ctx, pk_created = now\<rparr> sh) (\<lambda>(i, sh1).
      Inr (Pick_answer i item quantity (st_actor ctx) (st_request ctx) now,
        audit (staff_audit ''fulfillment.item.picked'' ''fulfillment'' f []
          [(''orderItemId'', JId item), (''quantity'', JNum quantity)]
          [(''orderId'', JId oid), (''pickId'', JId i)] ctx) sh1))))))))"

definition record_pick ::
  "(string \<Rightarrow> string) \<Rightarrow> int \<Rightarrow> uid \<Rightarrow> uid \<Rightarrow> int \<Rightarrow> staff_context \<Rightarrow> shop_db \<Rightarrow> (answer \<times> shop_db) res" where
  "record_pick sha now oid item quantity ctx sh =
     serializable (\<lambda>_. False) (staff_command sha now oid ''fulfillment.pick:staff'' (st_key ctx)
       [(''actorId'', JStr (st_actor ctx)), (''itemId'', JId item), (''quantity'', JNum quantity)]
       (Conflict ''CONFLICT'') (work_pick now oid item quantity ctx sh) sh)"

section \<open>Dispatch\<close>

definition exact_picks :: "shop_db \<Rightarrow> order_row \<Rightarrow> bool" where
  "exact_picks sh order \<longleftrightarrow> or_items order \<noteq> []
     \<and> list_all (\<lambda>(i, line). map_option pk_quantity (pick_of sh i) = Some (oi_quantity line)) (or_items order)"

definition add_shipment :: "shipment \<Rightarrow> shop_db \<Rightarrow> (uid \<times> shop_db) res" where
  "add_shipment s sh =
     throw_if (\<exists>x \<in> set (shipments sh). sh_order (snd x) = sh_order s
         \<or> sh_fulfillment (snd x) = sh_fulfillment s \<or> set (map fst (sh_lines (snd x))) \<inter> set (map fst (sh_lines s)) \<noteq> {})
       (DbError ''P2002'')
     (Inr (next_row sh, sh\<lparr>shipments := shipments sh @ [(next_row sh, s)], next_row := Suc (next_row sh)\<rparr>))"

definition dispatched ::
  "int \<Rightarrow> uid \<Rightarrow> uid \<Rightarrow> string \<Rightarrow> string \<Rightarrow> staff_context \<Rightarrow> order_row \<Rightarrow> shipment" where
  "dispatched now oid f carrier tracking ctx order =
     \<lparr>sh_order = oid, sh_fulfillment = f, sh_carrier = carrier, sh_tracking = tracking,
      sh_address = or_address order, sh_lines = map (\<lambda>(i, line). (i, oi_quantity line)) (or_items order),
      sh_actor = st_actor ctx, sh_request = st_request ctx, sh_dispatched = now\<rparr>"

definition shipment_event :: "string \<Rightarrow> uid \<Rightarrow> uid \<Rightarrow> string \<Rightarrow> (string \<times> jval) list \<Rightarrow> outbox_event" where
  "shipment_event topic oid s suffix_name extra =
     \<lparr>ob_topic = topic, ob_aggregate = ''order'', ob_aggregate_id = oid,
      ob_key = Dedup ''shipment'' s suffix_name, ob_payload = (''shipmentId'', JId s) # extra\<rparr>"

definition work_dispatch ::
  "int \<Rightarrow> uid \<Rightarrow> string \<Rightarrow> string \<Rightarrow> staff_context \<Rightarrow> shop_db \<Rightarrow> order_row \<Rightarrow> (answer \<times> shop_db) res" where
  "work_dispatch now oid carrier tracking ctx sh order =
     need (fulfillment_of sh oid) shipment_conflict (\<lambda>(f, row).
     throw_if (\<not> has_financial_proof sh oid order \<or> fu_status row \<noteq> FS_READY_TO_SHIP
         \<or> shipment_of sh oid \<noteq> None) shipment_conflict
     (throw_if (\<not> exact_picks sh order) shipment_conflict
     (throw_if (or_address order = None) shipment_conflict
     (throw_if (\<not> stock_consumed sh oid) shipment_conflict
     (andthen (add_shipment (dispatched now oid f carrier tracking ctx order) sh) (\<lambda>(s, sh1).
      andthen (fulfillment_step f FS_READY_TO_SHIP FS_SHIPPED (staff_info ctx ''STAFF_MANUAL_DISPATCH'') sh1) (\<lambda>sh2.
      andthen (add_outbox (shipment_event ''SHIPMENT_DISPATCHED'' oid s ''dispatched'' [])
        (audit (staff_audit ''shipment.dispatch'' ''shipment'' s []
          [(''carrier'', JStr carrier), (''trackingCode'', JStr tracking), (''status'', JStr ''SHIPPED'')]
          [(''orderId'', JId oid), (''transitionId'', JNum (int (length (fulfillment_log sh)))),
           (''lineCount'', JNum (int (length (or_items order))))] ctx) sh2)) (\<lambda>sh3.
      Inr (Dispatch_answer s carrier tracking now, sh3)))))))))"

definition dispatch_shipment ::
  "(string \<Rightarrow> string) \<Rightarrow> int \<Rightarrow> uid \<Rightarrow> string \<Rightarrow> string \<Rightarrow> staff_context \<Rightarrow> shop_db \<Rightarrow> (answer \<times> shop_db) res" where
  "dispatch_shipment sha now oid raw_carrier raw_tracking ctx sh =
     (let carrier = trim raw_carrier; tracking = trim raw_tracking in
      serializable (\<lambda>_. False) (staff_command sha now oid ''shipment.dispatch:staff'' (st_key ctx)
        [(''actorId'', JStr (st_actor ctx)), (''carrier'', JStr carrier), (''trackingCode'', JStr tracking)]
        shipment_conflict (work_dispatch now oid carrier tracking ctx sh) sh))"

section \<open>Delivery\<close>

definition work_delivery ::
  "int \<Rightarrow> uid \<Rightarrow> string \<Rightarrow> staff_context \<Rightarrow> shop_db \<Rightarrow> order_row \<Rightarrow> (answer \<times> shop_db) res" where
  "work_delivery now oid proof_reference ctx sh order =
     need (shipment_of sh oid) shipment_conflict (\<lambda>(s, _).
     need (fulfillment_of sh oid) shipment_conflict (\<lambda>(f, row).
     throw_if (fu_status row \<noteq> FS_SHIPPED) shipment_conflict
     (andthen (fulfillment_step f FS_SHIPPED FS_DELIVERED
         (staff_info ctx (''STAFF_DELIVERY_PROOF:'' @ proof_reference)) sh) (\<lambda>sh1.
      andthen (add_outbox (shipment_event ''SHIPMENT_DELIVERED'' oid s ''delivered''
          [(''transitionId'', JNum (int (length (fulfillment_log sh))))])
        (audit (staff_audit ''shipment.delivery.confirm'' ''shipment'' s
          [(''status'', JStr ''SHIPPED'')]
          [(''status'', JStr ''DELIVERED''), (''proofReference'', JStr proof_reference)]
          [(''orderId'', JId oid), (''transitionId'', JNum (int (length (fulfillment_log sh))))] ctx) sh1)) (\<lambda>sh2.
      Inr (Delivery_answer s oid proof_reference now, sh2))))))"

definition confirm_delivery ::
  "(string \<Rightarrow> string) \<Rightarrow> int \<Rightarrow> uid \<Rightarrow> string \<Rightarrow> staff_context \<Rightarrow> shop_db \<Rightarrow> (answer \<times> shop_db) res" where
  "confirm_delivery sha now oid proof_reference ctx sh =
     serializable (\<lambda>_. False) (staff_command sha now oid ''shipment.delivery:staff'' (st_key ctx)
       [(''actorId'', JStr (st_actor ctx)), (''proofReference'', JStr proof_reference)]
       shipment_conflict (work_delivery now oid proof_reference ctx sh) sh)"

text \<open>The read side recognises the proof by the same marker (\<open>staffDeliveryProofReference\<close>).\<close>

definition staff_delivery_proof_reference :: "string option \<Rightarrow> string option" where
  "staff_delivery_proof_reference reason =
     (case reason of None \<Rightarrow> None
      | Some r \<Rightarrow>
          if take 21 r = ''STAFF_DELIVERY_PROOF:''
          then (let reference = trim (drop 21 r) in if reference = [] then None else Some reference)
          else None)"

end
