(* ===== verification/Payment_Effects.thy ===== *)
theory Payment_Effects
  imports Order_Effects Payments Refunds Fulfillment
begin

text \<open>
  The commands on payments, refunds and fulfillments evolve the shop. An order becomes paid only here, by a
  verified payment of its whole total; a shipment leaves only for a paid order whose lines were picked.
\<close>

section \<open>Opening a payment\<close>

lemma evolves_open_payment:
  assumes "open_payment p quote sh = (i, sh')" "pay_status p = PAY_PENDING" "pay_refunded p = 0"
    "map_of (orders sh) (pay_order p) \<noteq> None"
  shows "evolves sh sh'"
proof -
  have sh': "sh' = sh\<lparr>payments := payments sh @ [(next_row sh, p)], next_row := Suc (next_row sh),
      doors := (case quote of None \<Rightarrow> doors sh
        | Some q \<Rightarrow> (doors sh)\<lparr>door_allocations := door_allocations (doors sh) @ [(next_row sh, q)]\<rparr>)\<rparr>"
    using assms(1) unfolding open_payment_def prod.inject by (elim conjE) (erule sym)
  have "book_step (books_of sh) (books_of sh\<lparr>bk_payments := bk_payments (books_of sh) @ [(bk_next (books_of sh), p)],
      bk_next := Suc (bk_next (books_of sh))\<rparr>)"
    by (rule payment_opened) (use assms(2-4) in simp_all)
  then show ?thesis by (intro evolves_step) (simp_all add: sh' books_of_def split: option.split)
qed

lemma evolves_register:
  assumes "register_payment sha gw now inp sh = Inr (a, sh')" shows "evolves sh sh'"
proof -
  let ?key = "sha (in_key inp)"
  obtain order amount quote where o': "map_of (orders sh) (in_order inp) = Some order"
    and run: "(case payment_by_key sh ?key of
       Some (i, p) \<Rightarrow> andthen (attempt_for_existing i p (in_order inp) (initiation_fingerprint sha gw (in_order inp)) True)
         (\<lambda>a. Inr (a, sh))
     | None \<Rightarrow>
         (case active_payment sh (in_order inp) of
            Some (i, p) \<Rightarrow> andthen (attempt_for_existing i p (in_order inp) (initiation_fingerprint sha gw (in_order inp)) False)
              (\<lambda>a. Inr (a, sh))
          | None \<Rightarrow>
              let (i, sh') = open_payment (new_payment gw inp ?key (initiation_fingerprint sha gw (in_order inp)) amount) quote sh
              in Inr (Authorize_attempt i (or_number order) amount, sh'))) = (Inr (a, sh') :: (attempt \<times> shop_db) res)"
    using assms unfolding register_payment_def plain_serializable_def serializable_Inr register_body_def Let_def
      need_Inr throw_if_Inr andthen_Inr split_paired_Ex prod.case
    by (elim exE conjE) blast
  show ?thesis
  proof (cases "payment_by_key sh ?key")
    case None
    show ?thesis
    proof (cases "active_payment sh (in_order inp)")
      case none: None
      then show ?thesis
        using run None o' by (auto simp: new_payment_def split: prod.splits intro!: evolves_open_payment)
    qed (use run None in \<open>auto simp: res_iff\<close>)
  qed (use run in \<open>auto simp: res_iff\<close>)
qed

lemma evolves_noted:
  assumes "map_of (payments sh) i = Some p"
  shows "evolves sh (put_payment i (p\<lparr>pay_authority := a, pay_reference := r\<rparr>) sh)"
proof -
  have "book_step (books_of sh) (books_of sh\<lparr>bk_payments := AList.update i (p\<lparr>pay_authority := a, pay_reference := r\<rparr>)
      (bk_payments (books_of sh))\<rparr>)"
    by (rule payment_noted) (simp add: assms)
  then show ?thesis by (intro evolves_step) (simp_all add: put_payment_def books_of_def)
qed

lemma evolves_noted_one:
  assumes "map_of (payments sh) i = Some p"
  shows "evolves sh (put_payment i (p\<lparr>pay_authority := a\<rparr>) sh)" "evolves sh (put_payment i (p\<lparr>pay_reference := r\<rparr>) sh)"
proof -
  have "p\<lparr>pay_authority := a, pay_reference := pay_reference p\<rparr> = p\<lparr>pay_authority := a\<rparr>"
    "p\<lparr>pay_authority := pay_authority p, pay_reference := r\<rparr> = p\<lparr>pay_reference := r\<rparr>" by simp_all
  then show "evolves sh (put_payment i (p\<lparr>pay_authority := a\<rparr>) sh)" "evolves sh (put_payment i (p\<lparr>pay_reference := r\<rparr>) sh)"
    using evolves_noted[OF assms, where a = a and r = "pay_reference p"]
      evolves_noted[OF assms, where a = "pay_authority p" and r = r] by simp_all
qed

lemma evolves_authorized: "persist_authorization gw now oid i amount authority sh = (v, sh') \<Longrightarrow> evolves sh sh'"
  by (auto simp: persist_authorization_def evolves_noted_one split: option.splits if_splits)

lemma evolves_mark_failed: "mark_failed i request reason sh = Inr sh' \<Longrightarrow> evolves sh sh'"
  by (auto simp: mark_failed_def plain_serializable_def res_iff split: option.splits if_splits
      intro: evolves_payment_failed)

section \<open>Settling\<close>

lemma evolves_mark_paid:
  assumes "mark_paid i reference request sh = Inr sh'"
  shows "evolves sh sh'"
proof -
  obtain sh1 where r: "payment_step i PAY_PENDING PAY_PAID (payment_info request ''GATEWAY_VERIFIED'') sh = Inr sh1"
    "sh' = set_reference i reference sh1" using assms by (auto simp: mark_paid_def andthen_Inr)
  have "evolves sh1 sh'"
    unfolding r(2) set_reference_def by (auto simp: evolves_noted_one split: option.splits)
  with evolves_payment_paid[OF r(1)] show ?thesis by (rule evolves_trans)
qed

lemma mark_paid_effect:
  assumes "mark_paid i reference request sh = Inr sh'" "map_of (payments sh) i = Some p"
  shows "pay_status p = PAY_PENDING"
    "map_of (payments sh') i = Some (p\<lparr>pay_status := PAY_PAID, pay_reference := Some reference\<rparr>)"
    "orders sh' = orders sh" "doors sh' = doors sh" "stock sh' = stock sh" "promo sh' = promo sh"
    "fulfillments sh' = fulfillments sh" "order_log sh' = order_log sh" "outbox sh' = outbox sh"
  using assms
  by (auto simp: mark_paid_def payment_step_def res_iff set_reference_def put_payment_def update_conv split: option.splits)

lemma evolves_after_cancellation:
  assumes "settle_after_cancellation i p reference request sh = Inr (v, sh')" shows "evolves sh sh'"
proof -
  obtain sh1 e sh2 a where r: "mark_paid i reference request sh = Inr sh1" "add_outbox e sh1 = Inr sh2" "sh' = audit a sh2"
    using assms unfolding settle_after_cancellation_def andthen_Inr sum.inject prod.inject by (elim exE conjE) blast
  show ?thesis
    unfolding r(3) by (rule evolves_trans[OF evolves_mark_paid[OF r(1)] evolves_trans[OF evolves_add_outbox[OF r(2)] evolves_audit]])
qed

lemma evolves_doors:
  assumes "map fst (door_orders d) = map fst (door_orders (doors sh))" shows "evolves sh (sh\<lparr>doors := d\<rparr>)"
  by (rule evolvesI) (use assms in \<open>simp_all add: shop_ok_def books_of_def\<close>)

lemma evolves_settle_door:
  assumes "settle_door_payment_in i p reference request sh = Inr (r, sh')" shows "evolves sh sh'"
proof -
  obtain row order sh1 sh2 d rec ev sh5 ae closes funds where r:
    "map_of (door_orders (doors sh)) (pay_order p) = Some row" "map_of (orders sh) (pay_order p) = Some order"
    "mark_paid i reference request sh = Inr sh1"
    "(if closes then order_step (pay_order p) OS_PENDING_PAYMENT OS_PAID (payment_info request ''DOOR_SETTLED'') sh1
      else Inr sh1) = Inr sh2"
    "add_outbox ev (add_door_record rec (if funds then put_door_order (pay_order p) d sh2 else sh2)) = Inr sh5"
    "sh' = audit ae sh5"
    using assms unfolding settle_door_payment_in_def Let_def need_Inr throw_if_Inr andthen_Inr split_paired_Ex prod.case
      sum.inject prod.inject
    by (elim exE conjE) blast
  have pay: "\<exists>q. map_of (payments sh) i = Some q"
    using r(3) by (auto simp: mark_paid_def payment_step_def res_iff)
  then have same: "orders sh1 = orders sh" "doors sh1 = doors sh" using mark_paid_effect[OF r(3)] by auto
  have sh2: "evolves sh1 sh2" "doors sh2 = doors sh"
  proof -
    show "evolves sh1 sh2"
      using r(4) evolves_order_paid[of "pay_order p" _ sh1 sh2 order] r(2) map_of_in_fst[OF r(1)] same by (auto split: if_splits)
    show "doors sh2 = doors sh" using r(4) same by (auto simp: order_step_def res_iff split: if_splits)
  qed
  have put: "evolves sh2 (if funds then put_door_order (pay_order p) d sh2 else sh2)"
    unfolding put_door_order_def using evolves_doors[of "doors sh2\<lparr>door_orders := AList.update (pay_order p) d (door_orders (doors sh2))\<rparr>" sh2]
    by (simp add: sh2(2) map_fst_update_same[OF r(1)])
  have noted: "evolves x (add_door_record rec x)" for x
    unfolding add_door_record_def by (rule evolves_doors) simp
  show ?thesis
    unfolding r(6)
    by (rule evolves_trans[OF evolves_mark_paid[OF r(3)] evolves_trans[OF sh2(1) evolves_trans[OF put
        evolves_trans[OF noted evolves_trans[OF evolves_add_outbox[OF r(5)] evolves_audit]]]]])
qed

lemma fulfillment_ofD:
  "fulfillment_of sh oid = Some (f, row) \<Longrightarrow> (f, row) \<in> set (fulfillments sh) \<and> fu_order row = oid"
  unfolding fulfillment_of_def find_Some_iff by (metis (mono_tags, lifting) case_prod_conv nth_mem)

lemma evolves_open_fulfillment:
  assumes "open_fulfillment oid request sh = (f, sh')" "map_of (orders sh) oid = Some o'" "or_status o' = OS_PAID"
  shows "evolves sh sh'"
proof -
  let ?row = "\<lparr>fu_order = oid, fu_status = FS_PENDING\<rparr>"
  define sh1 where "sh1 = (case fulfillment_of sh oid of Some x \<Rightarrow> sh
     | None \<Rightarrow> sh\<lparr>fulfillments := fulfillments sh @ [(next_row sh, ?row)], next_row := Suc (next_row sh)\<rparr>)"
  have f: "f \<in> fst ` set (fulfillments sh1)"
  proof (cases "fulfillment_of sh oid")
    case None
    then show ?thesis using assms(1) by (auto simp: open_fulfillment_def sh1_def Let_def)
  next
    case (Some x)
    then have "f = fst x" "x \<in> set (fulfillments sh)"
      using assms(1) fulfillment_ofD[of sh oid "fst x" "snd x"] by (auto simp: open_fulfillment_def Let_def split: prod.splits)
    then show ?thesis by (simp add: sh1_def Some)
  qed
  have log: "sh' = sh1 \<or> (\<exists>r. tn_from r = None \<and> tn_parent r = f \<and> sh' = sh1\<lparr>fulfillment_log := fulfillment_log sh1 @ [r]\<rparr>)"
  proof (cases "request_taken f (Some request) (fulfillment_log sh1)")
    case True
    then show ?thesis
      using assms(1) by (cases "fulfillment_of sh oid") (auto simp: open_fulfillment_def sh1_def Let_def)
  next
    case False
    let ?r = "\<lparr>tn_parent = f, tn_from = None, tn_to = FS_PENDING, tn_actor = None, tn_request = Some request,
      tn_reason = Some ''PAYMENT_VERIFIED''\<rparr>"
    have "sh' = sh1\<lparr>fulfillment_log := fulfillment_log sh1 @ [?r]\<rparr>"
      using assms(1) False by (cases "fulfillment_of sh oid") (auto simp: open_fulfillment_def sh1_def Let_def)
    then show ?thesis by (intro disjI2 exI[of _ ?r]) simp
  qed
  have "evolves sh sh1"
  proof (cases "fulfillment_of sh oid")
    case None
    then have "\<forall>x \<in> set (bk_fulfillments (books_of sh)). fu_order (snd x) \<noteq> oid"
      by (force simp: fulfillment_of_def find_None_iff)
    then have "book_step (books_of sh) (books_of sh\<lparr>bk_fulfillments := bk_fulfillments (books_of sh) @
        [(bk_next (books_of sh), ?row)], bk_next := Suc (bk_next (books_of sh))\<rparr>)"
      by (intro fulfillment_opened[of _ _ o']) (use assms(2,3) in simp_all)
    then show ?thesis by (intro evolves_step) (simp_all add: sh1_def None books_of_def)
  qed (simp add: sh1_def)
  moreover have "evolves sh1 sh'"
    using log
  proof (elim disjE exE conjE)
    fix r assume r: "tn_from r = None" "tn_parent r = f" "sh' = sh1\<lparr>fulfillment_log := fulfillment_log sh1 @ [r]\<rparr>"
    have "book_step (books_of sh1) (books_of sh1\<lparr>bk_fulfillment_log := bk_fulfillment_log (books_of sh1) @ [r]\<rparr>)"
      by (rule fulfillment_noted) (use r f in simp_all)
    then show "evolves sh1 sh'" by (intro evolves_step) (simp_all add: r(3) books_of_def)
  qed simp
  ultimately show ?thesis by (rule evolves_trans)
qed

lemma evolves_pay_for_order:
  assumes "pay_for_order oid order request sh = Inr (t, sh')" "map_of (orders sh) oid = Some order"
    "oid \<in> fst ` set (door_orders (doors sh)) \<or> paid_in_full (books_of sh) oid order"
  shows "evolves sh sh'" "\<exists>o'. map_of (orders sh') oid = Some o' \<and> or_status o' = OS_PAID"
proof -
  show "evolves sh sh'"
    using assms(1) evolves_order_paid[OF _ assms(2,3)]
    by (auto simp: pay_for_order_def payment_info_def andthen_Inr throw_if_Inr split: if_splits)
  show "\<exists>o'. map_of (orders sh') oid = Some o' \<and> or_status o' = OS_PAID"
    using assms(1,2) by (auto simp: pay_for_order_def order_step_def res_iff update_conv split: if_splits)
qed

lemma evolves_settle_order:
  assumes run: "settle_order i p order reference request now sh = Inr (v, sh')"
    and p: "map_of (payments sh) i = Some p" "map_of (orders sh) (pay_order p) = Some order" "pay_amount p = or_total order"
  shows "evolves sh sh'"
proof -
  let ?oid = "pay_order p"
  obtain sh1 t sh2 consumed sh3 ev sh5 a t' where r:
    "mark_paid i reference request sh = Inr sh1" "pay_for_order ?oid order request sh1 = Inr (t, sh2)"
    "on_stock (consume_reservations_for_order ?oid \<lparr>ctx_actor = None, ctx_request = Some request\<rparr>)
       (on_promo (confirm_for_order ?oid now) sh2) = Inr (consumed, sh3)"
    "add_outbox ev (snd (open_fulfillment ?oid request sh3)) = Inr sh5"
    "(case t of None \<Rightarrow> audit a sh5 | Some n \<Rightarrow> audit (t' n) (audit a sh5)) = sh'"
    using run unfolding settle_order_def Let_def andthen_Inr split_paired_Ex prod.case split_def sum.inject prod.inject
      fst_conv snd_conv
    by (elim exE conjE) (rule that, assumption+)
  have paid: "paid_in_full (books_of sh1) ?oid order"
    unfolding paid_in_full_def using mark_paid_effect[OF r(1) p(1)] p(3)
    by (intro exI[of _ i] exI[of _ "p\<lparr>pay_status := PAY_PAID, pay_reference := Some reference\<rparr>"]) (simp add: settled_def)
  have o1: "map_of (orders sh1) ?oid = Some order" using mark_paid_effect[OF r(1) p(1)] p(2) by simp
  note pay = evolves_pay_for_order[OF r(2) o1 disjI2[OF paid]]
  have same: "orders sh3 = orders sh2" using r(3) by (auto simp: on_stock_def on_promo_def res_iff)
  obtain o' where o': "map_of (orders sh3) ?oid = Some o'" "or_status o' = OS_PAID" using pay(2) same by auto
  have rest: "evolves sh5 sh'" using r(5) by (auto split: option.splits intro: evolving evolves_trans)
  show ?thesis
    by (rule evolves_trans[OF evolves_mark_paid[OF r(1)] evolves_trans[OF pay(1) evolves_trans[OF evolves_on_promo
        evolves_trans[OF evolves_on_stock[OF r(3)] evolves_trans[OF evolves_open_fulfillment[OF prod.collapse[symmetric] o']
        evolves_trans[OF evolves_add_outbox[OF r(4)] rest]]]]]])
      (auto intro: confirm_for_order_inv order_commands_ok(3))
qed

lemma evolves_apply_verified:
  assumes "apply_verified_body i reference request now sh = Inr (v, sh')" shows "evolves sh sh'"
proof -
  obtain p order where p: "map_of (payments sh) i = Some p" "map_of (orders sh) (pay_order p) = Some order"
    using assms by (auto simp: apply_verified_body_def with_order_def res_iff)
  show ?thesis
    using assms p
    by (auto simp: apply_verified_body_def with_order_def res_iff split: if_splits
        intro: evolves_settle_door evolves_after_cancellation evolves_settle_order)
qed

lemma evolves_event: "add_outbox e sh = Inr sh' \<Longrightarrow> evolves sh (audit a sh')"
  by (rule evolves_trans[OF evolves_add_outbox evolves_audit])

lemma evolves_failed_event:
  "payment_step i PAY_PENDING PAY_FAILED info sh = Inr sh1 \<Longrightarrow> add_outbox e sh1 = Inr sh' \<Longrightarrow> evolves sh (audit a sh')"
  by (rule evolves_trans[OF evolves_payment_failed evolves_event])

lemma evolves_mark_not_paid: "mark_not_paid_body i request sh = Inr (v, sh') \<Longrightarrow> evolves sh sh'"
  by (auto simp: mark_not_paid_body_def with_order_def need_Inr andthen_Inr split: if_splits intro: evolves_failed_event)

lemma evolves_unconfirmed: "record_unconfirmed_body i request sh = Inr (v, sh') \<Longrightarrow> evolves sh sh'"
  by (auto simp: record_unconfirmed_body_def with_order_def need_Inr andthen_Inr Let_def split: if_splits intro: evolves_event)

lemma evolves_verify_finish: "verify_finish i result request now sh = Inr (v, sh') \<Longrightarrow> evolves sh sh'"
  by (auto simp: verify_finish_def plain_serializable_def res_iff split: verify_result.splits
      intro: evolves_apply_verified evolves_mark_not_paid evolves_unconfirmed)

lemma verify_start_answer:
  assumes "verify_start gw authority status request sh = Inr (Answer_now v sh')"
  shows "sh' = sh \<or> (\<exists>i v. record_unconfirmed_body i request sh = Inr (v, sh'))"
proof -
  obtain i p order where "(if pay_status p \<noteq> PAY_PENDING then Inr (Answer_now (replay_outcome i p order) sh)
      else if status = Some ''NOK''
      then andthen (plain_serializable (record_unconfirmed_body i request sh)) (\<lambda>(v, sh'). Inr (Answer_now v sh'))
      else Inr (Ask_gateway i)) = (Inr (Answer_now v sh') :: verify_plan res)"
    using assms unfolding verify_start_def Let_def throw_if_Inr need_Inr andthen_Inr split_paired_Ex prod.case
    by (elim exE conjE) (rule that)
  then show ?thesis
    unfolding plain_serializable_def by (auto simp: andthen_Inr serializable_Inr split: if_splits)
qed

lemma evolves_verify:
  assumes "verify gw authority status request result now sh = Inr (v, sh')" shows "evolves sh sh'"
proof -
  obtain plan where plan: "verify_start gw authority status request sh = Inr plan"
    and run: "(case plan of Answer_now v sh' \<Rightarrow> Inr (v, sh') | Ask_gateway i \<Rightarrow> verify_finish i result request now sh) = Inr (v, sh')"
    using assms by (auto simp: verify_def andthen_Inr)
  show ?thesis
  proof (cases plan)
    case (Answer_now v' sh1)
    then have "evolves sh sh1"
      using verify_start_answer[OF plan[unfolded Answer_now]] evolves_unconfirmed by auto
    then show ?thesis using run Answer_now by simp
  next
    case (Ask_gateway i)
    then show ?thesis using run evolves_verify_finish by simp
  qed
qed

section \<open>Refunds\<close>

lemma evolves_move_refund:
  assumes p: "map_of (payments sh) i = Some p" and f: "rf_payment f = i" "0 < rf_amount f" "rf_amount f \<le> remaining_refundable p"
    and add: "add_refund f sh = Inr (j, sh1)"
    and run: "move_refund r p (pay_refunded p + rf_amount f) now sh1 = Inr sh2" "fr_payment r = i"
  shows "evolves sh sh2"
proof -
  let ?total = "pay_refunded p + rf_amount f"
  let ?t = "next_refund_status p ?total"
  let ?ps = "AList.update i (p\<lparr>pay_refunded := ?total\<rparr>) (payments sh)"
  let ?mid = "sh\<lparr>refunds := refunds sh @ [(next_row sh, f)], next_row := Suc (next_row sh), payments := ?ps\<rparr>"
  have sh1: "sh1 = sh\<lparr>refunds := refunds sh @ [(next_row sh, f)], next_row := Suc (next_row sh)\<rparr>"
    using add by (auto simp: add_refund_def throw_if_Inr)
  have le: "?total \<le> pay_amount p" "pay_status p = PAY_PAID \<or> pay_status p = PAY_PARTIALLY_REFUNDED"
    using f(2,3) by (auto simp: remaining_refundable_def split: if_splits)
  let ?pr = "apply_refund (pay_order p) (pay_amount p) ?total now (promo sh)"
  have promo: "promo_inv (promo sh) \<Longrightarrow> promo_inv ?pr" by (rule apply_refund_inv)
  show ?thesis
  proof (cases "?t = pay_status p")
    case True
    then have t: "pay_status p = PAY_PARTIALLY_REFUNDED" "?total < pay_amount p"
      using le by (auto simp: next_refund_status_def split: if_splits)
    have sh2: "sh2 = ?mid\<lparr>promo := ?pr\<rparr>"
      using run True by (simp add: move_refund_def Let_def put_payment_def on_promo_def sh1)
    have "book_step (books_of sh) (books_of sh\<lparr>bk_payments := AList.update i (p\<lparr>pay_refunded := ?total\<rparr>) (bk_payments (books_of sh)),
        bk_refunds := bk_refunds (books_of sh) @ [(bk_next (books_of sh), f)], bk_next := Suc (bk_next (books_of sh))\<rparr>)"
      by (rule partly_refunded) (use p f t in simp_all)
    then have "evolves sh ?mid" by (intro evolves_step) (simp_all add: books_of_def)
    moreover have "evolves ?mid sh2" unfolding sh2 by (rule evolves_promo) (simp add: promo)
    ultimately show ?thesis by (rule evolves_trans)
  next
    case False
    obtain info where "payment_step i (pay_status p) ?t info (?mid\<lparr>promo := ?pr\<rparr>) = Inr sh2"
      using run False by (auto simp: move_refund_def Let_def put_payment_def on_promo_def sh1)
    then obtain ps lg where step: "move_payment i (pay_status p) ?t info (?ps, payment_log sh) = Inr (ps, lg)"
      "sh2 = ?mid\<lparr>promo := ?pr, payments := ps, payment_log := lg\<rparr>"
      by (auto simp: payment_step_def andthen_Inr)
    let ?fin = "sh\<lparr>refunds := refunds sh @ [(next_row sh, f)], next_row := Suc (next_row sh), payments := ps, payment_log := lg\<rparr>"
    have "book_step (books_of sh) (books_of sh\<lparr>bk_payments := ps, bk_payment_log := lg,
        bk_refunds := bk_refunds (books_of sh) @ [(bk_next (books_of sh), f)], bk_next := Suc (bk_next (books_of sh))\<rparr>)"
      by (rule refunded[of _ i p f ?t info ps lg]) (use p f le step(1) in \<open>simp_all add: next_refund_status_def\<close>)
    then have "evolves sh ?fin" by (intro evolves_step) (simp_all add: books_of_def)
    moreover have "evolves ?fin sh2"
    proof -
      have "sh2 = ?fin\<lparr>promo := ?pr\<rparr>" by (cases sh) (simp add: step(2))
      then show ?thesis using evolves_promo[of ?fin ?pr] promo by simp
    qed
    ultimately show ?thesis by (rule evolves_trans)
  qed
qed

lemma parse_amount_Inr: "parse_amount raw = Inr n \<Longrightarrow> n = digits_value raw \<and> 0 < n"
  by (auto simp: parse_amount_def throw_if_Inr)

lemma record_refund_Inr:
  assumes "record_refund_body sha now r amount sh = Inr (a, sh')" "refund_by_key sh (refund_key sha r) = None"
  obtains p i sh1 sh2 where
    "map_of (payments sh) (fr_payment r) = Some p" "remaining_refundable p \<noteq> 0" "amount \<le> remaining_refundable p"
    "add_refund (new_refund sha r amount now) sh = Inr (i, sh1)"
    "move_refund r p (pay_refunded p + amount) now sh1 = Inr sh2"
    "add_outbox (refund_event r p amount (pay_refunded p + amount) i)
       (audit (refund_audit r p (pay_refunded p + amount) i payment_status_name) sh2) = Inr sh'"
    "a = \<lparr>fa_refund = i, fa_payment = fr_payment r, fa_order = pay_order p, fa_amount = amount,
       fa_reference = fr_reference r, fa_reason = fr_reason r, fa_note = fr_note r,
       fa_status = next_refund_status p (pay_refunded p + amount), fa_refunded_total = pay_refunded p + amount,
       fa_remaining = pay_amount p - (pay_refunded p + amount), fa_created = now\<rparr>"
  using assms unfolding record_refund_body_def Let_def by (auto simp: need_Inr throw_if_Inr andthen_Inr not_less)

lemma evolves_refund:
  assumes "record_refund sha now r sh = Inr (a, sh')" shows "evolves sh sh'"
proof -
  obtain amount where amount: "0 < amount" and run: "record_refund_body sha now r amount sh = Inr (a, sh')"
    using assms parse_amount_Inr by (auto simp: record_refund_def plain_serializable_def andthen_Inr serializable_Inr)
  show ?thesis
  proof (cases "refund_by_key sh (refund_key sha r)")
    case None
    show ?thesis
    proof (rule record_refund_Inr[OF run None])
      fix p i sh1 sh2
      assume r: "map_of (payments sh) (fr_payment r) = Some p" "amount \<le> remaining_refundable p"
        "add_refund (new_refund sha r amount now) sh = Inr (i, sh1)"
        "move_refund r p (pay_refunded p + amount) now sh1 = Inr sh2"
        "add_outbox (refund_event r p amount (pay_refunded p + amount) i)
           (audit (refund_audit r p (pay_refunded p + amount) i payment_status_name) sh2) = Inr sh'"
      have "evolves sh sh2"
        by (rule evolves_move_refund[OF r(1) _ _ _ r(3)]) (use amount r(2,4) in \<open>simp_all add: new_refund_def\<close>)
      then show ?thesis by (rule evolves_trans[OF _ evolves_trans[OF evolves_audit evolves_add_outbox[OF r(5)]]])
    qed
  next
    case (Some x)
    then show ?thesis using run by (cases x) (auto simp: record_refund_body_def throw_if_Inr need_Inr andthen_Inr)
  qed
qed

section \<open>Fulfillment\<close>

lemma evolves_staff:
  assumes run: "staff_command sha now oid scope key request busy k sh = Inr (a, sh')"
    and work: "\<And>order a sh1. map_of (orders sh) oid = Some order \<Longrightarrow> k order = Inr (a, sh1) \<Longrightarrow> evolves sh sh1"
  shows "evolves sh sh'"
proof -
  obtain order where order: "map_of (orders sh) oid = Some order" using run by (auto simp: staff_command_def need_Inr)
  show ?thesis
  proof (cases "find_record oid scope (sha key) sh")
    case None
    then obtain b sh1 r where "k order = Inr (b, sh1)" "add_record r sh1 = Inr sh'"
      using run order by (auto simp: staff_command_def andthen_Inr)
    then show ?thesis using work[OF order] evolves_add_record evolves_trans by blast
  qed (use run order in \<open>auto simp: staff_command_def andthen_Inr\<close>)
qed

lemma fulfillment_key:
  assumes "shop_ok sh" "fulfillment_of sh oid = Some (f, row)"
  shows "map_of (fulfillments sh) f = Some row" "fu_order row = oid"
  using fulfillment_ofD[OF assms(2)] assms(1) by (auto simp: shop_ok_def books_ok_def keyed_def)

lemma evolves_work_fulfillment:
  assumes "work_fulfillment now oid c ctx sh order = Inr (a, sh')" shows "evolves sh sh'"
proof -
  obtain f info sh1 e where r: "fulfillment_step f (command_from c) (command_to c) info sh = Inr sh1" "sh' = audit e sh1"
    using assms unfolding work_fulfillment_def need_Inr throw_if_Inr andthen_Inr split_paired_Ex prod.case sum.inject prod.inject
    by (elim exE conjE) blast
  have "evolves sh sh1" by (rule evolves_worked[OF r(1)]) (auto simp: command_from_def command_to_def split: fulfillment_command.splits)
  then show ?thesis unfolding r(2) by (rule evolves_trans[OF _ evolves_audit])
qed

lemma evolves_work_pick:
  assumes "work_pick now oid item quantity ctx sh order = Inr (a, sh')" "map_of (orders sh) oid = Some order"
  shows "evolves sh sh'"
proof -
  let ?k = "\<lambda>f. \<lparr>pk_fulfillment = f, pk_item = item, pk_quantity = quantity, pk_actor = st_actor ctx,
    pk_request = st_request ctx, pk_created = now\<rparr>"
  obtain f line i sh1 e where add: "add_pick (?k f) sh = Inr (i, sh1)" and l: "map_of (or_items order) item = Some line"
    "quantity = oi_quantity line" and sh': "sh' = audit e sh1"
    using assms(1) unfolding work_pick_def need_Inr throw_if_Inr andthen_Inr split_paired_Ex prod.case sum.inject prod.inject
      not_not
    by (elim exE conjE) blast
  define k where "k = ?k f"
  have r: "map_of (or_items order) item = Some line" "quantity = oi_quantity line"
    "pk_item k = item" "pk_quantity k = quantity" "add_pick k sh = Inr (i, sh1)" "sh' = audit e sh1"
    using add l sh' by (simp_all add: k_def)
  have sh1: "sh1 = sh\<lparr>picks := picks sh @ [(next_row sh, k)], next_row := Suc (next_row sh)\<rparr>"
    "\<forall>x \<in> set (picks sh). pk_item (snd x) \<noteq> pk_item k"
    using r(5) by (auto simp: add_pick_def throw_if_Inr)
  have "book_step (books_of sh) (books_of sh\<lparr>bk_picks := bk_picks (books_of sh) @ [(bk_next (books_of sh), k)],
      bk_next := Suc (bk_next (books_of sh))\<rparr>)"
    by (rule item_picked[of _ oid order]) (use assms(2) r(1-4) sh1(2) in simp_all)
  then have "evolves sh sh1" by (intro evolves_step) (simp_all add: sh1(1) books_of_def)
  then show ?thesis unfolding r(6) by (rule evolves_trans[OF _ evolves_audit])
qed

lemma exact_picks_picked:
  assumes "exact_picks sh order"
  shows "or_items order \<noteq> []" "\<forall>(item, l) \<in> set (or_items order). quantity_picked (books_of sh) item (oi_quantity l)"
proof -
  show "or_items order \<noteq> []" using assms by (simp add: exact_picks_def)
  have "quantity_picked (books_of sh) item (oi_quantity l)" if "(item, l) \<in> set (or_items order)" for item l
  proof -
    have "map_option pk_quantity (pick_of sh item) = Some (oi_quantity l)"
      using assms that by (auto simp: exact_picks_def list_all_iff)
    then obtain p where p: "pick_of sh item = Some p" "pk_quantity p = oi_quantity l" by auto
    then obtain j where "(j, p) \<in> set (picks sh)" "pk_item p = item"
      unfolding pick_of_def map_option_eq_Some find_Some_iff by (metis (mono_tags, lifting) case_prod_unfold nth_mem prod.collapse)
    then show ?thesis using p(2) by (force simp: quantity_picked_def)
  qed
  then show "\<forall>(item, l) \<in> set (or_items order). quantity_picked (books_of sh) item (oi_quantity l)" by auto
qed

lemma evolves_work_dispatch:
  assumes "work_dispatch now oid carrier tracking ctx sh order = Inr (a, sh')" "map_of (orders sh) oid = Some order"
  shows "evolves sh sh'"
proof (rule evolves_under)
  assume ok: "shop_ok sh"
  obtain f row s sh1 info sh2 e ev where r: "fulfillment_of sh oid = Some (f, row)" "exact_picks sh order"
    "add_shipment (dispatched now oid f carrier tracking ctx order) sh = Inr (s, sh1)"
    "fulfillment_step f FS_READY_TO_SHIP FS_SHIPPED info sh1 = Inr sh2" "add_outbox ev (audit e sh2) = Inr sh'"
    using assms(1) unfolding work_dispatch_def need_Inr throw_if_Inr andthen_Inr split_paired_Ex prod.case sum.inject prod.inject
      not_not
    by (elim exE conjE) blast
  let ?s = "dispatched now oid f carrier tracking ctx order"
  have sh1: "sh1 = sh\<lparr>shipments := shipments sh @ [(next_row sh, ?s)], next_row := Suc (next_row sh)\<rparr>"
    using r(3) by (auto simp: add_shipment_def throw_if_Inr)
  obtain fs lg where step: "move_fulfillment f FS_READY_TO_SHIP FS_SHIPPED info (fulfillments sh, fulfillment_log sh) = Inr (fs, lg)"
    "sh2 = sh1\<lparr>fulfillments := fs, fulfillment_log := lg\<rparr>"
    using r(4) by (auto simp: fulfillment_step_def andthen_Inr sh1)
  have s: "sh_order ?s = oid" "sh_fulfillment ?s = f" "sh_lines ?s = ship_lines order"
    by (simp_all add: dispatched_def ship_lines_def)
  have "book_step (books_of sh) (books_of sh\<lparr>bk_fulfillments := fs, bk_fulfillment_log := lg,
      bk_shipments := bk_shipments (books_of sh) @ [(bk_next (books_of sh), ?s)], bk_next := Suc (bk_next (books_of sh))\<rparr>)"
    by (rule shipped[of _ oid order ?s row info fs lg])
      (use assms(2) s fulfillment_key[OF ok r(1)] exact_picks_picked[OF r(2)] step(1) in simp_all)
  then have "evolves sh sh2" by (intro evolves_step) (simp_all add: step(2) sh1 books_of_def)
  then show "evolves sh sh'" by (rule evolves_trans[OF _ evolves_trans[OF evolves_audit evolves_add_outbox[OF r(5)]]])
qed

lemma evolves_work_delivery:
  assumes "work_delivery now oid proof_reference ctx sh order = Inr (a, sh')" shows "evolves sh sh'"
proof -
  obtain f info sh1 e ev where r: "fulfillment_step f FS_SHIPPED FS_DELIVERED info sh = Inr sh1" "add_outbox ev (audit e sh1) = Inr sh'"
    using assms unfolding work_delivery_def need_Inr throw_if_Inr andthen_Inr split_paired_Ex prod.case sum.inject prod.inject
    by (elim exE conjE) blast
  have "evolves sh sh1" by (rule evolves_worked[OF r(1)]) simp
  then show ?thesis by (rule evolves_trans[OF _ evolves_trans[OF evolves_audit evolves_add_outbox[OF r(2)]]])
qed

lemma evolves_fulfillment_commands:
  "execute_fulfillment sha now oid c ctx sh = Inr (a, sh') \<Longrightarrow> evolves sh sh'"
  "record_pick sha now oid item quantity ctx sh = Inr (a, sh') \<Longrightarrow> evolves sh sh'"
  "dispatch_shipment sha now oid carrier tracking ctx sh = Inr (a, sh') \<Longrightarrow> evolves sh sh'"
  "confirm_delivery sha now oid proof_reference ctx sh = Inr (a, sh') \<Longrightarrow> evolves sh sh'"
  unfolding execute_fulfillment_def record_pick_def dispatch_shipment_def confirm_delivery_def Let_def andthen_Inr serializable_Inr
  by (auto elim!: evolves_staff intro: evolves_work_fulfillment evolves_work_pick evolves_work_dispatch evolves_work_delivery)

end
