(* ===== verification/Shop_Commands.thy ===== *)
theory Shop_Commands
  imports Payment_Effects
begin

text \<open>
  The commands of the shop, one constructor per transaction that a client, the payment gateway, a member
  of staff or a worker starts, and what any run of them keeps. \<open>sha\<close> is SHA-256 in hexadecimal, \<open>norm\<close>
  the normalization of coupon codes, \<open>gw\<close> the configured gateway.
\<close>

section \<open>Commands\<close>

datatype shop_command =
    SC_stock inventory_command
  | SC_add int string uid js_number string
  | SC_set int string uid js_number string
  | SC_remove int string uid string
  | SC_coupon "unit res" int string string string
  | SC_drop_coupon string string
  | SC_preview int string "address res"
  | SC_checkout int checkout_input
  | SC_cancel int string uid string string
  | SC_staff_cancel int string uid string string
  | SC_expire expiry_caller int uid
  | SC_register int initiation
  | SC_authorized int uid uid int string
  | SC_payment_failed uid string string
  | SC_callback string "string option" string verify_result int
  | SC_answered uid verify_result string int
  | SC_refund int refund_request
  | SC_fulfillment int uid fulfillment_command staff_context
  | SC_pick int uid uid int staff_context
  | SC_dispatch int uid string string staff_context
  | SC_deliver int uid string staff_context

definition committed :: "('a \<times> shop_db) res \<Rightarrow> (unit \<times> shop_db) res" where
  "committed m = andthen m (\<lambda>(_, sh). Inr ((), sh))"

lemma committed_Inr [res_iff]: "committed m = Inr (u, sh) \<longleftrightarrow> (\<exists>x. m = Inr (x, sh))"
  by (auto simp: committed_def andthen_Inr)

fun exec_shop :: "(string \<Rightarrow> string) \<Rightarrow> (string \<Rightarrow> string) \<Rightarrow> gateway \<Rightarrow> shop_command \<Rightarrow> shop_db \<Rightarrow> (unit \<times> shop_db) res" where
  "exec_shop sha norm gw (SC_stock c) sh = on_stock (exec_inventory c) sh"
| "exec_shop sha norm gw (SC_add now user v q key) sh = committed (add_to_cart sha now user v q key sh)"
| "exec_shop sha norm gw (SC_set now user v q key) sh = committed (set_in_cart sha now user v q key sh)"
| "exec_shop sha norm gw (SC_remove now user v key) sh = committed (remove_from_cart sha now user v key sh)"
| "exec_shop sha norm gw (SC_coupon lim now user raw rq) sh = apply_coupon norm lim now user raw rq sh"
| "exec_shop sha norm gw (SC_drop_coupon user rq) sh = remove_coupon user rq sh"
| "exec_shop sha norm gw (SC_preview now user a) sh = committed (preview_for_user sha norm now user a sh)"
| "exec_shop sha norm gw (SC_checkout now inp) sh = committed (create_for_user sha norm now inp sh)"
| "exec_shop sha norm gw (SC_cancel now user oid key rq) sh = committed (cancel_as_customer sha now user oid key rq sh)"
| "exec_shop sha norm gw (SC_staff_cancel now user oid key rq) sh = committed (cancel_as_staff sha now user oid key rq sh)"
| "exec_shop sha norm gw (SC_expire who now oid) sh = committed (expire_order who now oid sh)"
| "exec_shop sha norm gw (SC_register now inp) sh = committed (register_payment sha gw now inp sh)"
| "exec_shop sha norm gw (SC_authorized now oid i amount authority) sh =
     Inr ((), snd (persist_authorization gw now oid i amount authority sh))"
| "exec_shop sha norm gw (SC_payment_failed i rq reason) sh =
     andthen (mark_failed i rq reason sh) (\<lambda>sh'. Inr ((), sh'))"
| "exec_shop sha norm gw (SC_callback authority status rq result now) sh =
     committed (verify gw authority status rq result now sh)"
| "exec_shop sha norm gw (SC_answered i result rq now) sh = committed (verify_finish i result rq now sh)"
| "exec_shop sha norm gw (SC_refund now r) sh = committed (record_refund sha now r sh)"
| "exec_shop sha norm gw (SC_fulfillment now oid c ctx) sh = committed (execute_fulfillment sha now oid c ctx sh)"
| "exec_shop sha norm gw (SC_pick now oid item q ctx) sh = committed (record_pick sha now oid item q ctx sh)"
| "exec_shop sha norm gw (SC_dispatch now oid carrier tracking ctx) sh =
     committed (dispatch_shipment sha now oid carrier tracking ctx sh)"
| "exec_shop sha norm gw (SC_deliver now oid proof_ref ctx) sh = committed (confirm_delivery sha now oid proof_ref ctx sh)"

section \<open>Every command evolves the shop\<close>

lemma exec_shop_evolves:
  assumes "exec_shop sha norm gw c sh = Inr (r, sh')" shows "evolves sh sh'"
proof (cases c)
  case (SC_stock ic)
  then show ?thesis using assms evolves_on_stock[of "exec_inventory ic"] exec_inventory_ok by auto
next
  case (SC_authorized now oid i amount authority)
  then show ?thesis using assms evolves_authorized[OF surjective_pairing] by auto
qed (use assms in \<open>auto simp: committed_Inr andthen_Inr dest: evolves_cart_lines evolves_coupons evolves_preview
    evolves_checkout evolves_cancels evolves_expire_order evolves_register evolves_mark_failed evolves_verify
    evolves_verify_finish evolves_refund evolves_fulfillment_commands\<close>)

definition books_moved :: "shop_db \<Rightarrow> shop_db \<Rightarrow> bool" where
  "books_moved sh sh' \<longleftrightarrow> book_steps (books_of sh) (books_of sh')"

interpretation shop: tx_component "exec_shop sha norm gw" shop_ok for sha norm gw
  by unfold_locales (blast intro: evolves_if exec_shop_evolves)

interpretation shop_books: tx_history "exec_shop sha norm gw" shop_ok books_moved for sha norm gw
proof (unfold_locales, goal_cases)
  case (2 x y z)
  then show ?case by (simp add: books_moved_def)
next
  case (3 sh c r sh')
  then show ?case using exec_shop_evolves[OF 3(2)] by (simp add: evolves_def books_moved_def)
qed (simp add: books_moved_def)

section \<open>Services that run several transactions\<close>

text \<open>Opening a payment is a transaction before the call of the gateway and one after it; an expiry batch
  is one transaction per order. They are runs of the commands above.\<close>

lemma run_one: "run_txs exec [c] db = (case exec c db of Inl _ \<Rightarrow> db | Inr (_, db') \<Rightarrow> db')"
  by simp

lemma after_failed_runs:
  "snd (after_failed reason e i request sh) = run_txs (exec_shop sha norm gw) [SC_payment_failed i request reason] sh"
  by (simp add: after_failed_def andthen_def split: sum.splits)

lemma gateway_answered_runs:
  "\<exists>cs. snd (gateway_answered gw now inp i amount result sh) = run_txs (exec_shop sha norm gw) cs sh"
proof (cases result)
  case (Redirect authority)
  have "snd (gateway_answered gw now inp i amount result sh) =
      run_txs (exec_shop sha norm gw) [SC_authorized now (in_order inp) i amount authority] sh"
    by (simp add: gateway_answered_def Redirect split: prod.split)
  then show ?thesis by blast
next
  case Unknown_result
  then show ?thesis by (intro exI[of _ "[]"]) (simp add: gateway_answered_def)
next
  case Transport_error
  then show ?thesis by (intro exI[of _ "[]"]) (simp add: gateway_answered_def)
qed (simp_all only: gateway_answered_def authorize_result.case, (rule exI, rule after_failed_runs)+)

lemma initiate_runs:
  "\<exists>cs. snd (initiate sha gw now later inp result sh) = run_txs (exec_shop sha norm gw) cs sh"
proof (cases "register_payment sha gw now inp sh")
  case (Inl e)
  then show ?thesis by (intro exI[of _ "[]"]) (simp add: initiate_def)
next
  case (Inr x)
  obtain a sh1 where x: "x = (a, sh1)" by force
  have first: "run_txs (exec_shop sha norm gw) [SC_register now inp] sh = sh1"
    using Inr by (simp add: x committed_def)
  show ?thesis
  proof (cases a)
    case (Replay_attempt i b amount env)
    then show ?thesis using Inr first by (intro exI[of _ "[SC_register now inp]"]) (simp add: x initiate_def)
  next
    case (Authorize_attempt i n amount)
    obtain cs where "snd (gateway_answered gw later inp i amount result sh1) = run_txs (exec_shop sha norm gw) cs sh1"
      using gateway_answered_runs by blast
    then show ?thesis
      using Inr first Authorize_attempt run_txs_append[of "exec_shop sha norm gw" "[SC_register now inp]" cs sh]
      by (intro exI[of _ "[SC_register now inp] @ cs"]) (simp add: x initiate_def)
  qed
qed

lemma expire_each_runs:
  "\<exists>cs. snd (expire_each who now oids n sh) = run_txs (exec_shop sha norm gw) cs sh"
proof (induction oids arbitrary: n sh)
  case Nil
  show ?case by (intro exI[of _ "[]"]) simp
next
  case (Cons oid oids)
  show ?case
  proof (cases "expire_order who now oid sh")
    case (Inl e)
    show ?thesis
    proof (cases "e = order_state_conflict")
      case True
      then show ?thesis using Inl Cons.IH by simp
    next
      case False
      then show ?thesis using Inl by (intro exI[of _ "[]"]) simp
    qed
  next
    case (Inr x)
    obtain ok sh1 where x: "x = (ok, sh1)" by force
    obtain cs where cs: "snd (expire_each who now oids (if ok then n + 1 else n) sh1) = run_txs (exec_shop sha norm gw) cs sh1"
      using Cons.IH by blast
    have "run_txs (exec_shop sha norm gw) [SC_expire who now oid] sh = sh1" using Inr by (simp add: x committed_def)
    then show ?thesis
      using Inr cs run_txs_append[of "exec_shop sha norm gw" "[SC_expire who now oid]" cs sh]
      by (intro exI[of _ "[SC_expire who now oid] @ cs"]) (simp add: x)
  qed
qed

lemma expire_batch_runs: "\<exists>cs. snd (expire_batch who now batch sh) = run_txs (exec_shop sha norm gw) cs sh"
  unfolding expire_batch_def by (rule expire_each_runs)

end
