(* ===== verification/Order_Facts.thy ===== *)
theory Order_Facts
  imports Shop_Commands Inventory_Properties
begin

text \<open>
  What the commands on orders and payments do, branch by branch: closing an order, answering a repeated
  request, settling a verified payment, recording a refund.
\<close>

section \<open>Promotions of a closed order\<close>

lemma release_one_row:
  "map_of (redemptions (snd (release_one reason now i db))) j =
     (if j = i then map_option (\<lambda>r. if rd_status r = RD_RESERVED
        then r\<lparr>rd_status := RD_RELEASED, rd_released_at := Some now, rd_reason := Some (take 64 reason)\<rparr> else r)
        (map_of (redemptions db) i) else map_of (redemptions db) j)"
  by (auto simp: release_one_def put_redemption_def update_conv split: option.splits)

definition awaits :: "uid \<Rightarrow> promo_db \<Rightarrow> uid \<Rightarrow> bool" where
  "awaits oid db j \<longleftrightarrow> (\<exists>r. map_of (redemptions db) j = Some r \<and> rd_order r = oid \<and> rd_status r = RD_RESERVED)"

lemma release_one_awaits: "awaits oid (snd (release_one reason now i db)) j \<Longrightarrow> awaits oid db j \<and> j \<noteq> i"
  by (auto simp: awaits_def release_one_row dest: arg_cong[where f = rd_status] split: if_splits)

lemma release_each_awaits: "awaits oid (snd (release_each reason now is db)) j \<Longrightarrow> awaits oid db j \<and> j \<notin> set is"
proof (induction "is" arbitrary: db)
  case (Cons i "is")
  have "awaits oid (snd (release_each reason now is (snd (release_one reason now i db)))) j"
    using Cons.prems by (simp add: Let_def case_prod_beta)
  from Cons.IH[OF this] release_one_awaits[of oid reason now i db j] show ?case by auto
qed simp

lemma reserved_of_awaits: "promo_inv db \<Longrightarrow> j \<in> set (reserved_of oid db) \<longleftrightarrow> awaits oid db j"
  by (auto simp: reserved_of_def awaits_def promo_inv_def redemption_rows_def image_iff)

lemma release_for_order_none:
  assumes "promo_inv db"
  shows "reserved_of oid (snd (release_for_order oid reason now db)) = []"
proof -
  let ?db = "snd (release_for_order oid reason now db)"
  have inv: "promo_inv ?db" by (rule release_for_order_inv[OF assms])
  have "j \<notin> set (reserved_of oid ?db)" for j
  proof
    assume "j \<in> set (reserved_of oid ?db)"
    then have "awaits oid ?db j" by (simp add: reserved_of_awaits[OF inv])
    then have "awaits oid db j \<and> j \<notin> set (reserved_of oid db)"
      unfolding release_for_order_def by (rule release_each_awaits)
    then show False by (simp add: reserved_of_awaits[OF assms])
  qed
  then show ?thesis by (cases "reserved_of oid ?db") auto
qed

section \<open>Steps that succeed\<close>

lemma order_step_ok:
  assumes "map_of (orders sh) i = Some o'" "or_status o' = s" "can_transition s t order_transitions"
    "\<not> request_taken i (fst (snd info)) (order_log sh)"
  obtains lg where "order_step i s t info sh =
    Inr (sh\<lparr>orders := AList.update i (o'\<lparr>or_status := t\<rparr>) (orders sh), order_log := lg\<rparr>)"
  using assms by (auto simp: order_step_def record_transition_def assert_transition_def)

lemma payment_step_ok:
  assumes "map_of (payments sh) i = Some p" "pay_status p = s" "can_transition s t payment_transitions"
    "\<not> request_taken i (fst (snd info)) (payment_log sh)"
  obtains lg where "payment_step i s t info sh =
    Inr (sh\<lparr>payments := AList.update i (p\<lparr>pay_status := t\<rparr>) (payments sh), payment_log := lg\<rparr>)"
  using assms by (auto simp: payment_step_def record_transition_def assert_transition_def)

lemma add_outbox_ok: "ob_key e \<notin> ob_key ` set (outbox sh) \<Longrightarrow> add_outbox e sh = Inr (sh\<lparr>outbox := outbox sh @ [e]\<rparr>)"
  by (simp add: add_outbox_def)

lemma audit_fields [simp]:
  "orders (audit e sh) = orders sh" "payments (audit e sh) = payments sh" "promo (audit e sh) = promo sh"
  "fulfillments (audit e sh) = fulfillments sh" "outbox (audit e sh) = outbox sh" "market (audit e sh) = market sh"
  "command_records (audit e sh) = command_records sh" "refunds (audit e sh) = refunds sh" "doors (audit e sh) = doors sh"
  "reservations (stock (audit e sh)) = reservations (stock sh)" "shelf (stock (audit e sh)) = shelf (stock sh)"
  "active_of_order (stock (audit e sh)) = active_of_order (stock sh)" "customers (audit e sh) = customers sh"
  by (simp_all add: audit_def record_audit_def shelf_def bal_def active_of_order_def fun_eq_iff)

section \<open>Closing an order\<close>

lemma close_order_ok:
  assumes ok: "ledger_ok (stock sh)" and row: "map_of (orders sh) (cc_order c) = Some o'" "or_status o' = OS_PENDING_PAYMENT"
    and caller: "\<not> blank (Some (cc_actor c))" "\<not> blank (Some (cc_request c))"
    and fresh: "\<not> request_taken (cc_order c) (Some (cc_request c)) (order_log sh)"
      "Dedup ''order-cancelled'' (cc_order c) [] \<notin> ob_key ` set (outbox sh)"
  obtains sh' where
    "close_order c o' now sh = Inr (Cancelled_answer (cc_order c) (or_number o') (length (active_of_order (stock sh) (cc_order c))) now, sh')"
    "map_of (orders sh') (cc_order c) = Some (o'\<lparr>or_status := OS_CANCELLED\<rparr>)"
    "active_of_order (stock sh') (cc_order c) = []"
    "\<And>k. shelf (stock sh') k = (onHand (bal (stock sh) k), reserved (bal (stock sh) k) - order_qty (stock sh) (cc_order c) k)"
    "promo sh' = snd (release_for_order (cc_order c) (cc_reason c) now (promo sh))"
    "payments sh' = payments sh" "command_records sh' = command_records sh"
proof -
  let ?oid = "cc_order c"
  let ?info = "(Some (cc_actor c), Some (cc_request c), Some (cc_reason c))"
  let ?ctx = "\<lparr>ctx_actor = Some (cc_actor c), ctx_request = Some (cc_request c)\<rparr>"
  obtain lg where step: "order_step ?oid OS_PENDING_PAYMENT OS_CANCELLED ?info sh =
      Inr (sh\<lparr>orders := AList.update ?oid (o'\<lparr>or_status := OS_CANCELLED\<rparr>) (orders sh), order_log := lg\<rparr>)"
    by (rule order_step_ok[OF row, of OS_CANCELLED ?info]) (use fresh in \<open>simp_all add: can_transition_def\<close>)
  have "assert_tracked ?ctx = Inr ()" using caller by (simp add: assert_tracked_def)
  then obtain db where db: "release_reservations_for_order ?oid ?ctx (stock sh) = Inr (length (active_of_order (stock sh) ?oid), db)"
    "active_of_order db ?oid = []"
    "\<And>k. shelf db k = (onHand (bal (stock sh) k), reserved (bal (stock sh) k) - order_qty (stock sh) ?oid k)"
    using order_release_total[OF ok, of ?ctx ?oid] by blast
  show thesis
    using that step db fresh
    by (simp add: close_order_def on_stock_def on_promo_def add_outbox_def closed_event_def Let_def update_conv)
qed

lemma purge_records_other [simp]:
  "orders (purge_records oid scope key now sh) = orders sh" "stock (purge_records oid scope key now sh) = stock sh"
  "promo (purge_records oid scope key now sh) = promo sh" "outbox (purge_records oid scope key now sh) = outbox sh"
  "order_log (purge_records oid scope key now sh) = order_log sh" "doors (purge_records oid scope key now sh) = doors sh"
  "payments (purge_records oid scope key now sh) = payments sh"
  "customers (purge_records oid scope key now sh) = customers sh"
  by (simp_all add: purge_records_def)

lemma find_record_purge: "find_record oid scope key sh = None \<Longrightarrow> find_record oid scope key (purge_records oid scope key now sh) = None"
  by (auto simp: find_record_def purge_records_def find_None_iff)

lemma cancel_order_ok:
  assumes ok: "ledger_ok (stock sh)" and row: "map_of (orders sh) (cc_order c) = Some o'" "or_status o' = OS_PENDING_PAYMENT"
    and caller: "\<not> blank (Some (cc_actor c))" "\<not> blank (Some (cc_request c))"
    and fresh: "\<not> request_taken (cc_order c) (Some (cc_request c)) (order_log sh)"
      "Dedup ''order-cancelled'' (cc_order c) [] \<notin> ob_key ` set (outbox sh)"
      "find_record (cc_order c) (cc_scope c) (sha (cc_key c)) sh = None"
    and mine: "cc_owner c = None \<or> cc_owner c = Some (or_customer o')" "\<not> is_door_order sh (cc_order c)"
  obtains sh' where
    "cancel_order sha now c sh = Inr (Cancelled_answer (cc_order c) (or_number o') (length (active_of_order (stock sh) (cc_order c))) now, sh')"
    "map_of (orders sh') (cc_order c) = Some (o'\<lparr>or_status := OS_CANCELLED\<rparr>)"
    "active_of_order (stock sh') (cc_order c) = []"
    "\<And>k. shelf (stock sh') k = (onHand (bal (stock sh) k), reserved (bal (stock sh) k) - order_qty (stock sh) (cc_order c) k)"
    "promo sh' = snd (release_for_order (cc_order c) (cc_reason c) now (promo sh))" "payments sh' = payments sh"
proof -
  let ?key = "sha (cc_key c)"
  let ?sh0 = "purge_records (cc_order c) (cc_scope c) ?key now sh"
  let ?r = "\<lparr>ir_order = cc_order c, ir_scope = cc_scope c, ir_key = ?key, ir_fingerprint = cc_fingerprint c,
    ir_answer = None, ir_expires = now + record_ttl\<rparr>"
  let ?sh1 = "?sh0\<lparr>command_records := command_records ?sh0 @ [?r]\<rparr>"
  note none = find_record_purge[OF fresh(3), of now]
  have add: "add_record ?r ?sh0 = Inr ?sh1" using none row(1) by (simp add: add_record_def)
  obtain sh' where c: "close_order c o' now ?sh1 =
      Inr (Cancelled_answer (cc_order c) (or_number o') (length (active_of_order (stock ?sh1) (cc_order c))) now, sh')"
    "map_of (orders sh') (cc_order c) = Some (o'\<lparr>or_status := OS_CANCELLED\<rparr>)" "active_of_order (stock sh') (cc_order c) = []"
    "\<And>k. shelf (stock sh') k = (onHand (bal (stock ?sh1) k), reserved (bal (stock ?sh1) k) - order_qty (stock ?sh1) (cc_order c) k)"
    "promo sh' = snd (release_for_order (cc_order c) (cc_reason c) now (promo ?sh1))" "payments sh' = payments ?sh1"
    by (rule close_order_ok[of ?sh1 c o' now]) (use ok row caller fresh in simp_all)
  have "cancel_body sha now c sh = Inr (Cancelled_answer (cc_order c) (or_number o') (length (active_of_order (stock sh) (cc_order c))) now,
      finish_record (cc_order c) (cc_scope c) ?key
        (Cancelled_answer (cc_order c) (or_number o') (length (active_of_order (stock sh) (cc_order c))) now) sh')"
    using none add row mine c(1) by (auto simp: cancel_body_def cancel_fresh_def Let_def is_door_order_def)
  then show thesis
    using c(2-6) by (intro that[of "finish_record (cc_order c) (cc_scope c) ?key
        (Cancelled_answer (cc_order c) (or_number o') (length (active_of_order (stock sh) (cc_order c))) now) sh'"])
      (simp_all add: cancel_order_def order_serializable_def serializable_Inr finish_record_def)
qed

section \<open>Repeating a cancellation\<close>

lemma close_order_records: "close_order c order now sh = Inr (a, sh') \<Longrightarrow> command_records sh' = command_records sh"
proof -
  assume run: "close_order c order now sh = Inr (a, sh')"
  have s: "command_records sh2 = command_records sh1" if "order_step i s t info sh1 = Inr sh2" for i s t info sh1 sh2
    using that by (auto simp: order_step_def andthen_Inr)
  have f: "command_records sh2 = command_records sh1" if "on_stock f sh1 = Inr (n, sh2)" for f :: "inv_db \<Rightarrow> (nat \<times> inv_db) res" and n sh1 sh2
    using that by (auto simp: on_stock_def andthen_Inr)
  have e: "command_records sh2 = command_records sh1" if "add_outbox ev sh1 = Inr sh2" for ev sh1 sh2
    using that by (auto simp: add_outbox_def throw_if_Inr)
  show ?thesis
    using run unfolding close_order_def Let_def andthen_Inr split_paired_Ex prod.case sum.inject prod.inject
    by (elim exE conjE) (auto dest!: s f e simp: on_promo_def)
qed

lemma cancel_order_replay:
  assumes run: "cancel_order sha now c sh = Inr (a, sh')"
    and fresh: "find_record (cc_order c) (cc_scope c) (sha (cc_key c)) (purge_records (cc_order c) (cc_scope c) (sha (cc_key c)) now sh) = None"
    and later: "later < now + record_ttl"
    and same: "cc_order d = cc_order c" "cc_scope d = cc_scope c" "cc_key d = cc_key c"
  shows "cancel_order sha later d sh' = (if cc_fingerprint d = cc_fingerprint c then Inr (a, sh')
    else Inl (Conflict ''IDEMPOTENCY_CONFLICT''))"
proof -
  let ?key = "sha (cc_key c)"
  let ?sh0 = "purge_records (cc_order c) (cc_scope c) ?key now sh"
  let ?r = "\<lparr>ir_order = cc_order c, ir_scope = cc_scope c, ir_key = ?key, ir_fingerprint = cc_fingerprint c,
    ir_answer = None, ir_expires = now + record_ttl\<rparr>"
  let ?mine = "\<lambda>r. ir_order r = cc_order c \<and> ir_scope r = cc_scope c \<and> ir_key r = ?key"
  obtain order sh1 sh2 where r: "add_record ?r ?sh0 = Inr sh1" "close_order c order now sh1 = Inr (a, sh2)"
    "sh' = finish_record (cc_order c) (cc_scope c) ?key a sh2"
    using run fresh by (auto simp: cancel_order_def order_serializable_def cancel_body_def cancel_fresh_def Let_def res_iff)
  have recs: "command_records sh2 = command_records ?sh0 @ [?r]"
    using close_order_records[OF r(2)] r(1) by (auto simp: add_record_def throw_if_Inr)
  have old: "\<forall>x \<in> set (command_records ?sh0). \<not> ?mine x"
    using fresh by (auto simp: find_record_def find_None_iff)
  have recs': "command_records sh' = command_records ?sh0 @ [?r\<lparr>ir_answer := Some a\<rparr>]"
    using old by (auto simp: r(3) finish_record_def recs intro!: map_idI)
  have "purge_records (cc_order c) (cc_scope c) ?key later sh' = sh'"
  proof -
    have "filter (\<lambda>r. \<not> (?mine r \<and> ir_expires r \<le> later)) (command_records sh') = command_records sh'"
      unfolding recs' filter_id_conv using old later by auto
    then show ?thesis by (simp add: purge_records_def)
  qed
  moreover have "find_record (cc_order c) (cc_scope c) ?key sh' = Some (?r\<lparr>ir_answer := Some a\<rparr>)"
  proof -
    have "List.find ?mine (command_records ?sh0) = None" using fresh by (simp add: find_record_def)
    then show ?thesis unfolding find_record_def recs' by (simp add: find_snoc)
  qed
  ultimately show ?thesis
    using same by (auto simp: cancel_order_def order_serializable_def cancel_body_def Let_def replayed_def
        serializable_cases as_failure_def is_prisma_serializable_contention_def order_command_contention_def)
qed

section \<open>Settling a verified payment\<close>

lemma mark_paid_ok:
  assumes "map_of (payments sh) i = Some p" "pay_status p = PAY_PENDING" "\<not> request_taken i (Some request) (payment_log sh)"
  obtains sh' where "mark_paid i reference request sh = Inr sh'" "order_log sh' = order_log sh"
proof -
  obtain lg where "payment_step i PAY_PENDING PAY_PAID (payment_info request ''GATEWAY_VERIFIED'') sh =
      Inr (sh\<lparr>payments := AList.update i (p\<lparr>pay_status := PAY_PAID\<rparr>) (payments sh), payment_log := lg\<rparr>)"
    by (rule payment_step_ok[OF assms(1,2), of PAY_PAID "payment_info request ''GATEWAY_VERIFIED''"])
      (use assms(3) in \<open>simp_all add: can_transition_def payment_info_def\<close>)
  note step = this
  show thesis
    by (rule that[of "set_reference i reference (sh\<lparr>payments := AList.update i (p\<lparr>pay_status := PAY_PAID\<rparr>) (payments sh),
        payment_log := lg\<rparr>)"]) (simp_all add: mark_paid_def step set_reference_def put_payment_def update_conv)
qed

lemma settle_order_ok:
  assumes ok: "ledger_ok (stock sh)" and p: "map_of (payments sh) i = Some p" "pay_status p = PAY_PENDING"
    and row: "map_of (orders sh) (pay_order p) = Some o'" "or_status o' = OS_PENDING_PAYMENT"
    and request: "\<not> blank (Some request)"
    and fresh: "\<not> request_taken i (Some request) (payment_log sh)" "\<not> request_taken (pay_order p) (Some request) (order_log sh)"
      "Dedup ''payment-verified'' i [] \<notin> ob_key ` set (outbox sh)"
  obtains f sh' where
    "settle_order i p o' reference request now sh = Inr (outcome i p PAY_PAID (Some reference) VK_VERIFIED OS_PAID
       (length (active_of_order (stock sh) (pay_order p))) (Some f), sh')"
    "map_of (payments sh') i = Some (p\<lparr>pay_status := PAY_PAID, pay_reference := Some reference\<rparr>)"
    "map_of (orders sh') (pay_order p) = Some (o'\<lparr>or_status := OS_PAID\<rparr>)"
    "active_of_order (stock sh') (pay_order p) = []"
    "\<And>k. shelf (stock sh') k = (onHand (bal (stock sh) k) - order_qty (stock sh) (pay_order p) k,
       reserved (bal (stock sh) k) - order_qty (stock sh) (pay_order p) k)"
    "promo sh' = confirm_for_order (pay_order p) now (promo sh)"
    "\<exists>x. (f, x) \<in> set (fulfillments sh') \<and> fu_order x = pay_order p"
proof -
  let ?oid = "pay_order p"
  let ?info = "payment_info request ''PAYMENT_VERIFIED''"
  obtain sh1 where paid: "mark_paid i reference request sh = Inr sh1" "order_log sh1 = order_log sh"
    by (rule mark_paid_ok[OF p fresh(1)])
  note eff = mark_paid_effect[OF paid(1) p(1)]
  have row1: "map_of (orders sh1) ?oid = Some o'" "\<not> request_taken ?oid (fst (snd ?info)) (order_log sh1)"
    using row(1) fresh(2) eff paid(2) by (simp_all add: payment_info_def)
  obtain lg where step: "order_step ?oid OS_PENDING_PAYMENT OS_PAID ?info sh1 =
      Inr (sh1\<lparr>orders := AList.update ?oid (o'\<lparr>or_status := OS_PAID\<rparr>) (orders sh1), order_log := lg\<rparr>)"
    by (rule order_step_ok[OF row1(1) row(2), of OS_PAID ?info]) (use row1(2) in \<open>simp_all add: can_transition_def\<close>)
  let ?sh2 = "sh1\<lparr>orders := AList.update ?oid (o'\<lparr>or_status := OS_PAID\<rparr>) (orders sh1), order_log := lg\<rparr>"
  have pay: "pay_for_order ?oid o' request sh1 = Inr (Some (length (order_log sh1)), ?sh2)"
    using row(2) step by (simp add: pay_for_order_def)
  let ?ctx = "\<lparr>ctx_actor = None, ctx_request = Some request\<rparr>"
  obtain db where db: "consume_reservations_for_order ?oid ?ctx (stock sh) = Inr (length (active_of_order (stock sh) ?oid), db)"
    "active_of_order db ?oid = []"
    "\<And>k. shelf db k = (onHand (bal (stock sh) k) - order_qty (stock sh) ?oid k, reserved (bal (stock sh) k) - order_qty (stock sh) ?oid k)"
    using order_sale_total[OF ok, of ?ctx ?oid] request by auto
  let ?sh3 = "(on_promo (confirm_for_order ?oid now) ?sh2)\<lparr>stock := db\<rparr>"
  obtain f sh4 where opened: "open_fulfillment ?oid request ?sh3 = (f, sh4)" by force
  have sh4: "orders sh4 = orders ?sh3" "payments sh4 = payments ?sh3" "stock sh4 = db" "promo sh4 = promo ?sh3"
    "outbox sh4 = outbox ?sh3" "\<exists>x. (f, x) \<in> set (fulfillments sh4) \<and> fu_order x = ?oid"
    using opened fulfillment_ofD[of ?sh3 ?oid f]
    by (auto simp: open_fulfillment_def Let_def on_promo_def split: option.splits)
  show thesis
    using that[of f] paid pay db opened sh4 eff fresh(3)
    by (simp add: settle_order_def Let_def on_stock_def on_promo_def add_outbox_def payment_event_def update_conv)
qed

text \<open>After a verification the payment is paid, whatever else happened, and a second one changes nothing.\<close>

lemma settle_door_paid:
  assumes "settle_door_payment_in i p reference request sh = Inr (r, sh')" "map_of (payments sh) i = Some p"
  shows "map_of (payments sh') i = Some (p\<lparr>pay_status := PAY_PAID, pay_reference := Some reference\<rparr>)"
    "dom (map_of (orders sh')) = dom (map_of (orders sh))"
proof -
  obtain order sh1 sh2 d rec ev sh5 ae closes funds where r:
    "map_of (orders sh) (pay_order p) = Some order" "mark_paid i reference request sh = Inr sh1"
    "(if closes then order_step (pay_order p) OS_PENDING_PAYMENT OS_PAID (payment_info request ''DOOR_SETTLED'') sh1
      else Inr sh1) = Inr sh2"
    "add_outbox ev (add_door_record rec (if funds then put_door_order (pay_order p) d sh2 else sh2)) = Inr sh5"
    "sh' = audit ae sh5"
    using assms(1) unfolding settle_door_payment_in_def Let_def need_Inr throw_if_Inr andthen_Inr split_paired_Ex prod.case
      sum.inject prod.inject
    by (elim exE conjE) blast
  note eff = mark_paid_effect[OF r(2) assms(2)]
  have two: "payments sh2 = payments sh1" "dom (map_of (orders sh2)) = dom (map_of (orders sh1))"
    using r(3) by (auto simp: order_step_def res_iff update_conv split: if_splits)
  have five: "payments sh5 = payments sh2" "orders sh5 = orders sh2"
    using r(4) by (auto simp: add_outbox_def throw_if_Inr add_door_record_def put_door_order_def)
  show "map_of (payments sh') i = Some (p\<lparr>pay_status := PAY_PAID, pay_reference := Some reference\<rparr>)"
    "dom (map_of (orders sh')) = dom (map_of (orders sh))"
    using eff two five by (simp_all add: r(5))
qed

lemma open_fulfillment_frame:
  "payments (snd (open_fulfillment oid request sh)) = payments sh" "orders (snd (open_fulfillment oid request sh)) = orders sh"
  by (auto simp: open_fulfillment_def Let_def split: option.splits)

lemma settle_order_paid:
  assumes "settle_order i p order reference request now sh = Inr (v, sh')" "map_of (payments sh) i = Some p"
  shows "map_of (payments sh') i = Some (p\<lparr>pay_status := PAY_PAID, pay_reference := Some reference\<rparr>)"
    "dom (map_of (orders sh')) = dom (map_of (orders sh))"
proof -
  let ?oid = "pay_order p"
  let ?f = "consume_reservations_for_order ?oid \<lparr>ctx_actor = None, ctx_request = Some request\<rparr>"
  obtain sh1 t sh2 consumed sh3 ev sh5 a t' where r:
    "mark_paid i reference request sh = Inr sh1" "pay_for_order ?oid order request sh1 = Inr (t, sh2)"
    "on_stock ?f (on_promo (confirm_for_order ?oid now) sh2) = Inr (consumed, sh3)"
    "add_outbox ev (snd (open_fulfillment ?oid request sh3)) = Inr sh5"
    "(case t of None \<Rightarrow> audit a sh5 | Some n \<Rightarrow> audit (t' n) (audit a sh5)) = sh'"
    using assms(1) unfolding settle_order_def Let_def andthen_Inr split_paired_Ex prod.case split_def sum.inject prod.inject
      fst_conv snd_conv
    by (elim exE conjE) (rule that, assumption+)
  note eff = mark_paid_effect[OF r(1) assms(2)]
  have two: "payments sh2 = payments sh1" "dom (map_of (orders sh2)) = dom (map_of (orders sh1))"
    using r(2) by (auto simp: pay_for_order_def order_step_def res_iff update_conv split: if_splits)
  have three: "payments sh3 = payments sh2" "orders sh3 = orders sh2"
    using r(3) by (auto simp: on_stock_def on_promo_def andthen_Inr)
  have five: "payments sh5 = payments sh3" "orders sh5 = orders sh3"
    using r(4) by (auto simp: add_outbox_def throw_if_Inr open_fulfillment_frame)
  have end': "payments sh' = payments sh5" "orders sh' = orders sh5" using r(5) by (auto split: option.splits)
  show "map_of (payments sh') i = Some (p\<lparr>pay_status := PAY_PAID, pay_reference := Some reference\<rparr>)"
    "dom (map_of (orders sh')) = dom (map_of (orders sh))"
    using eff two three five end' by simp_all
qed

lemma after_cancellation_paid:
  assumes "settle_after_cancellation i p reference request sh = Inr (v, sh')" "map_of (payments sh) i = Some p"
  shows "map_of (payments sh') i = Some (p\<lparr>pay_status := PAY_PAID, pay_reference := Some reference\<rparr>)"
    "orders sh' = orders sh"
proof -
  obtain sh1 e sh2 a where r: "mark_paid i reference request sh = Inr sh1" "add_outbox e sh1 = Inr sh2" "sh' = audit a sh2"
    using assms unfolding settle_after_cancellation_def andthen_Inr sum.inject prod.inject by (elim exE conjE) blast
  show "map_of (payments sh') i = Some (p\<lparr>pay_status := PAY_PAID, pay_reference := Some reference\<rparr>)" "orders sh' = orders sh"
    using mark_paid_effect[OF r(1) assms(2)] r(2,3) by (auto simp: add_outbox_def throw_if_Inr)
qed

lemma apply_verified_paid:
  assumes run: "apply_verified_body i reference request now sh = Inr (v, sh')"
  shows "\<exists>p o'. map_of (payments sh') i = Some p \<and> pay_status p = PAY_PAID \<and> map_of (orders sh') (pay_order p) = Some o'"
proof -
  obtain p order where p: "map_of (payments sh) i = Some p" "map_of (orders sh) (pay_order p) = Some order"
    using run by (auto simp: apply_verified_body_def with_order_def need_Inr)
  have d: "map_of (orders x) (pay_order p) \<noteq> None" if "dom (map_of (orders x)) = dom (map_of (orders sh))" for x
    using that p(2) by (auto simp: dom_def set_eq_iff)
  consider "pay_status p = PAY_PAID" "sh' = sh"
    | r where "settle_door_payment_in i p reference request sh = Inr (r, sh')"
    | "settle_after_cancellation i p reference request sh = Inr (v, sh')"
    | "settle_order i p order reference request now sh = Inr (v, sh')"
    using run p by (auto simp: apply_verified_body_def with_order_def andthen_Inr throw_if_Inr split: if_splits)
  then show ?thesis
  proof cases
    case 1
    then show ?thesis using p by auto
  next
    case 2
    then show ?thesis using settle_door_paid[OF 2 p(1)] d[of sh'] by fastforce
  next
    case 3
    then show ?thesis using after_cancellation_paid[OF 3 p(1)] p(2) by auto
  next
    case 4
    then show ?thesis using settle_order_paid[OF 4 p(1)] d[of sh'] by fastforce
  qed
qed

end
