(* ===== verification/Checkout_Facts.thy ===== *)
theory Checkout_Facts
  imports Order_Facts
begin

text \<open>What a checkout and a refund leave behind, and how they answer a repeated request.\<close>

section \<open>Placing an order\<close>

lemma place_order_frame:
  assumes "place_order sha now inp cid i c ls offer oid o' sh = Inr (holds, sh')"
  shows "orders sh' = AList.update oid (o'\<lparr>or_status := OS_PENDING_PAYMENT\<rparr>) (orders sh @ [(next_row sh, o')])
      \<or> map_of (orders sh @ [(next_row sh, o')]) oid \<noteq> Some o'"
    "\<exists>db. hold_lines sha \<lparr>hd_order = oid, hd_customer = cid, hd_key = sha (ci_key inp), hd_expires = or_expires o',
        hd_actor = ci_user inp, hd_request = ci_request inp\<rparr> ls (stock sh) = Inr (holds, db) \<and> stock sh' = db"
    "checkout_records (market sh') = checkout_records (market sh)"
    "carts (market sh') = AList.update i (c\<lparr>ca_items := [], ca_coupon := None, ca_version := ca_version c + 1\<rparr>) (carts (market sh))"
    "customers sh' = customers sh"
proof -
  let ?h = "\<lparr>hd_order = oid, hd_customer = cid, hd_key = sha (ci_key inp), hd_expires = or_expires o',
    hd_actor = ci_user inp, hd_request = ci_request inp\<rparr>"
  obtain sh1 p info sh2 sh3 sh4 ev sh5 where r:
    "add_order o' sh = Inr sh1" "reserve_promotions oid cid (er_applied (po_result offer)) (promo sh1) = Inr p"
    "order_step oid OS_DRAFT OS_PENDING_PAYMENT info (sh1\<lparr>promo := p\<rparr>) = Inr sh2"
    "on_stock (hold_lines sha ?h ls) sh2 = Inr (holds, sh3)" "consume_quote (ci_quote inp) oid now sh3 = Inr sh4"
    "add_outbox ev sh4 = Inr sh5" "sh' = empty_cart i c sh5"
    using assms unfolding place_order_def andthen_Inr split_paired_Ex prod.case sum.inject prod.inject
    by (elim exE conjE) blast
  have a1: "orders sh1 = orders sh @ [(next_row sh, o')]" "stock sh1 = stock sh" "market sh1 = market sh" "customers sh1 = customers sh"
    using r(1) by (auto simp: add_order_def throw_if_Inr)
  have a2: "stock sh2 = stock sh1" "market sh2 = market sh1" "customers sh2 = customers sh1"
    "\<exists>row. map_of (orders sh1) oid = Some row \<and> orders sh2 = AList.update oid (row\<lparr>or_status := OS_PENDING_PAYMENT\<rparr>) (orders sh1)"
    using r(3) by (auto simp: order_step_def res_iff)
  have a3: "hold_lines sha ?h ls (stock sh2) = Inr (holds, stock sh3)" "market sh3 = market sh2" "orders sh3 = orders sh2"
    "customers sh3 = customers sh2" using r(4) by (auto simp: on_stock_def andthen_Inr)
  have a4: "stock sh4 = stock sh3" "orders sh4 = orders sh3" "customers sh4 = customers sh3"
    "carts (market sh4) = carts (market sh3)" "checkout_records (market sh4) = checkout_records (market sh3)"
    using r(5) by (auto simp: consume_quote_def throw_if_Inr put_quotes_def put_market_def split: option.splits)
  have a5: "stock sh5 = stock sh4" "orders sh5 = orders sh4" "customers sh5 = customers sh4" "market sh5 = market sh4"
    using r(6) by (auto simp: add_outbox_def throw_if_Inr)
  have a6: "stock sh' = stock sh5" "orders sh' = orders sh5" "customers sh' = customers sh5"
    "checkout_records (market sh') = checkout_records (market sh5)"
    "carts (market sh') = AList.update i (c\<lparr>ca_items := [], ca_coupon := None, ca_version := ca_version c + 1\<rparr>) (carts (market sh5))"
    by (simp_all add: r(7) empty_cart_def put_cart_def put_market_def)
  note same = a1 a2(1-3) a3 a4 a5 a6
  show "orders sh' = AList.update oid (o'\<lparr>or_status := OS_PENDING_PAYMENT\<rparr>) (orders sh @ [(next_row sh, o')])
      \<or> map_of (orders sh @ [(next_row sh, o')]) oid \<noteq> Some o'"
    using a2(4) by (auto simp: same)
  show "\<exists>db. hold_lines sha ?h ls (stock sh) = Inr (holds, db) \<and> stock sh' = db" using a3(1) by (simp add: same)
  show "checkout_records (market sh') = checkout_records (market sh)" "customers sh' = customers sh"
    "carts (market sh') = AList.update i (c\<lparr>ca_items := [], ca_coupon := None, ca_version := ca_version c + 1\<rparr>) (carts (market sh))"
    by (simp_all add: same)
qed

lemma put_checkouts_other [simp]:
  "orders (put_checkouts rs sh) = orders sh" "stock (put_checkouts rs sh) = stock sh" "promo (put_checkouts rs sh) = promo sh"
  "next_row (put_checkouts rs sh) = next_row sh" "carts (market (put_checkouts rs sh)) = carts (market sh)"
  "goods_table (market (put_checkouts rs sh)) = goods_table (market sh)"
  "shipping_quotes (market (put_checkouts rs sh)) = shipping_quotes (market sh)"
  "customers (put_checkouts rs sh) = customers sh" "checkout_records (market (put_checkouts rs sh)) = rs"
  "cart_of (put_checkouts rs sh) = cart_of sh" "books_of (put_checkouts rs sh) = books_of sh"
  "order_line_of (put_checkouts rs sh) = order_line_of sh" "customer_of_user (put_checkouts rs sh) = customer_of_user sh"
  by (auto simp: put_checkouts_def put_market_def cart_of_def order_line_of_def fun_eq_iff customer_of_user_def)

lemma purge_checkouts_is: "\<exists>rs. purge_checkouts cid key now sh = put_checkouts rs sh"
  by (auto simp: purge_checkouts_def)

lemma put_checkouts_twice [simp]: "put_checkouts rs (put_checkouts rs' sh) = put_checkouts rs sh"
  by (simp add: put_checkouts_def put_market_def)

definition fresh_checkout :: "(string \<Rightarrow> string) \<Rightarrow> int \<Rightarrow> checkout_input \<Rightarrow> uid \<Rightarrow> shop_db \<Rightarrow> bool" where
  "fresh_checkout sha now inp cid sh \<longleftrightarrow> find_checkout cid (sha (ci_key inp)) (purge_checkouts cid (sha (ci_key inp)) now sh) = None"

definition new_checkout :: "(string \<Rightarrow> string) \<Rightarrow> int \<Rightarrow> checkout_input \<Rightarrow> uid \<Rightarrow> address \<Rightarrow> checkout_record" where
  "new_checkout sha now inp cid a = \<lparr>kr_customer = cid, kr_key = sha (ci_key inp),
     kr_fingerprint = checkout_fingerprint sha a (ci_quote inp), kr_order = None, kr_answer = None, kr_expires = now + checkout_ttl\<rparr>"

lemma create_fresh:
  assumes run: "create_for_user sha norm now inp sh = Inr (answer, sh')"
    and cid: "customer_of_user sh (ci_user inp) = Some (cid, cu)" and fresh: "fresh_checkout sha now inp cid sh"
  obtains a where "ci_address inp = Inr a"
    "checkout_fresh sha norm now inp cid a (put_checkouts (checkout_records (market (purge_checkouts cid (sha (ci_key inp)) now sh))
       @ [new_checkout sha now inp cid a]) sh) = Inr (answer, sh')"
proof -
  obtain rs where rs: "purge_checkouts cid (sha (ci_key inp)) now sh = put_checkouts rs sh" using purge_checkouts_is by blast
  show thesis
    using run cid fresh that
    by (auto simp: create_for_user_def andthen_Inr need_Inr serializable_Inr checkout_body_def fresh_checkout_def new_checkout_def
        Let_def rs)
qed

lemma next_row_fresh: "shop_ok sh \<Longrightarrow> map_of (orders sh) (next_row sh) = None"
  unfolding shop_ok_def books_ok_def fresh_ids_def ids_of_def by (rule map_of_fresh) auto

lemma number_items_lines: "map (\<lambda>(_, l). (oi_variant l, oi_quantity l, oi_unit_price l)) (number_items n ls) = ls"
proof -
  have "map (\<lambda>(_, l). (oi_variant l, oi_quantity l, oi_unit_price l)) (number_items n ls) = map snd (zip [0..<length ls] ls)"
    unfolding number_items_def map_map by (rule map_cong) auto
  then show ?thesis by simp
qed

lemma number_items_total: "(\<Sum>x\<leftarrow>number_items n ls. oi_unit_price (snd x) * oi_quantity (snd x)) = lines_total ls"
proof -
  have "(\<Sum>x\<leftarrow>number_items n ls. oi_unit_price (snd x) * oi_quantity (snd x)) =
      (\<Sum>l\<leftarrow>map (\<lambda>(_, l). (oi_variant l, oi_quantity l, oi_unit_price l)) (number_items n ls). snd (snd l) * fst (snd l))"
    by (simp add: comp_def case_prod_beta)
  then show ?thesis by (simp add: number_items_lines lines_total_def)
qed

lemma asked_lines:
  assumes "map_res (order_line_of sh) items = Inr ls"
  shows "asked v ls = (\<Sum>x\<leftarrow>items. if fst x = v then snd x else 0)" "(\<Sum>l\<leftarrow>ls. fst (snd l)) = (\<Sum>x\<leftarrow>items. snd x)"
  unfolding order_lines_items[OF assms, symmetric] by (simp_all add: asked_def comp_def cong: if_cong)

lemma checkout_effect:
  assumes ok: "shop_ok sh" and run: "create_for_user sha norm now inp sh = Inr (answer, sh')"
    and cid: "customer_of_user sh (ci_user inp) = Some (cid, cu)" and fresh: "fresh_checkout sha now inp cid sh"
  obtains i c q ls row a where "cart_of sh cid = Some (i, c)" "map_res (order_line_of sh) (cart_items c) = Inr ls"
    "ck_order answer = next_row sh" "map_of (orders sh') (next_row sh) = Some row"
    "row = (draft_order inp cid a ls q (ck_discount answer) now (next_row sh + 1))\<lparr>or_status := OS_PENDING_PAYMENT\<rparr>"
    "ck_total answer = or_total row" "ck_discount answer = sq_discount q" "ck_shipping answer = sq_amount q"
    "map_of (shipping_quotes (market sh)) (ci_quote inp) = Some q" "lines_total ls = sq_subtotal q"
    "\<And>v. variant_held (stock sh') (next_row sh) v = variant_held (stock sh) (next_row sh) v + asked v ls"
    "(\<Sum>r\<leftarrow>ck_reservations answer. snd (snd r)) = (\<Sum>l\<leftarrow>ls. fst (snd l))"
    "map_of (carts (market sh')) i = Some (c\<lparr>ca_items := [], ca_coupon := None, ca_version := ca_version c + 1\<rparr>)"
    "checkout_records (market sh') = map (\<lambda>r. if kr_customer r = cid \<and> kr_key r = sha (ci_key inp)
       then r\<lparr>kr_order := Some (ck_order answer), kr_answer := Some answer\<rparr> else r)
       (checkout_records (market (purge_checkouts cid (sha (ci_key inp)) now sh)) @ [new_checkout sha now inp cid a])"
    "ci_address inp = Inr a" "customers sh' = customers sh"
proof -
  obtain a where a: "ci_address inp = Inr a" and body:
    "checkout_fresh sha norm now inp cid a (put_checkouts (checkout_records (market (purge_checkouts cid (sha (ci_key inp)) now sh))
       @ [new_checkout sha now inp cid a]) sh) = Inr (answer, sh')" (is "checkout_fresh _ _ _ _ _ _ ?sh0 = _")
    by (rule create_fresh[OF run cid fresh])
  show thesis
  proof (rule checkout_fresh_Inr[OF body])
    fix i c q ls pls offer o' holds sh1
    assume c: "cart_of ?sh0 cid = Some (i, c)" and ls: "map_res (order_line_of ?sh0) (cart_items c) = Inr ls"
      and q: "require_valid_quote sha ?sh0 (ci_quote inp) cid i c a now = Inr q" "er_total (po_result offer) = sq_discount q"
        "lines_total ls = sq_subtotal q"
      and o': "o' = draft_order inp cid a ls q (er_total (po_result offer)) now (next_row ?sh0 + 1)"
      and place: "place_order sha now inp cid i c ls offer (next_row ?sh0) o' ?sh0 = Inr (holds, sh1)"
      and answer: "answer = checkout_answer_of (next_row ?sh0) o' ls offer a (ci_quote inp) q now holds"
      and sh': "sh' = audit (checkout_audit inp (next_row ?sh0) o' q (length ls) (length holds))
         (finish_checkout cid (sha (ci_key inp)) answer sh1)"
    let ?row = "o'\<lparr>or_status := OS_PENDING_PAYMENT\<rparr>"
    note frame = place_order_frame[OF place]
    have "map_of (orders sh @ [(next_row sh, o')]) (next_row sh) = Some o'"
      by (simp add: map_add_def next_row_fresh[OF ok])
    then have orders: "orders sh' = AList.update (next_row sh) ?row (orders sh @ [(next_row sh, o')])"
      using frame(1) by (auto simp: sh' finish_checkout_def)
    have pos: "\<forall>l \<in> set ls. 0 \<le> fst (snd l)"
      using order_lines_positive[OF _ ls] cart_of_ok[of sh cid i c] c ok by (force simp: shop_ok_def)
    have stock: "variant_held (stock sh') (next_row sh) v = variant_held (stock sh) (next_row sh) v + asked v ls" for v
      using frame(2) hold_lines_spec(2)[OF _ pos, of sha _ "stock sh" holds _ "next_row sh" v]
      by (auto simp: sh' finish_checkout_def variant_held_def)
    have holds: "(\<Sum>r\<leftarrow>ck_reservations answer. snd (snd r)) = (\<Sum>l\<leftarrow>ls. fst (snd l))"
      using frame(2) hold_lines_spec(3)[OF _ pos] by (auto simp: answer checkout_answer_of_def)
    have quote: "map_of (shipping_quotes (market sh)) (ci_quote inp) = Some q"
      using q(1) by (auto simp: require_valid_quote_def need_Inr throw_if_Inr)
    show thesis
      by (rule that[of i c ls "?row" a q])
        (use c ls a orders stock holds quote frame(3-5) q(2,3) o' in \<open>simp_all add: answer checkout_answer_of_def draft_order_def
           sh' finish_checkout_def update_conv\<close>)
  qed
qed

section \<open>Repeating a checkout\<close>

lemma find_checkout_rows:
  "find_checkout cid key sh = List.find (\<lambda>r. kr_customer r = cid \<and> kr_key r = key) (checkout_records (market sh))"
  by (simp add: find_checkout_def)

lemma checkout_again:
  assumes ok: "shop_ok sh" and run: "create_for_user sha norm now inp sh = Inr (answer, sh')"
    and cid: "customer_of_user sh (ci_user inp) = Some (cid, cu)" and fresh: "fresh_checkout sha now inp cid sh"
    and later: "later < now + checkout_ttl" and same: "ci_user again = ci_user inp" "ci_key again = ci_key inp"
    and address: "ci_address inp = Inr a" "ci_address again = Inr b"
  shows "create_for_user sha norm later again sh' =
    (if checkout_fingerprint sha b (ci_quote again) = checkout_fingerprint sha a (ci_quote inp) then Inr (answer, sh')
     else Inl (Conflict ''IDEMPOTENCY_CONFLICT''))"
proof (rule checkout_effect[OF ok run cid fresh])
  let ?key = "sha (ci_key inp)"
  let ?mine = "\<lambda>r. kr_customer r = cid \<and> kr_key r = ?key"
  let ?old = "checkout_records (market (purge_checkouts cid ?key now sh))"
  fix a'
  assume recs: "checkout_records (market sh') = map (\<lambda>r. if ?mine r
       then r\<lparr>kr_order := Some (ck_order answer), kr_answer := Some answer\<rparr> else r) (?old @ [new_checkout sha now inp cid a'])"
    and "ci_address inp = Inr a'" and cust: "customers sh' = customers sh"
  then have a': "a' = a" using address(1) by simp
  let ?r = "(new_checkout sha now inp cid a)\<lparr>kr_order := Some (ck_order answer), kr_answer := Some answer\<rparr>"
  have none: "List.find ?mine ?old = None"
    using fresh by (simp add: fresh_checkout_def find_checkout_rows)
  have recs': "checkout_records (market sh') = ?old @ [?r]"
    using none unfolding recs a' by (auto simp: new_checkout_def find_None_iff intro!: map_idI)
  have "filter (\<lambda>r. \<not> (?mine r \<and> kr_expires r \<le> later)) (checkout_records (market sh')) = checkout_records (market sh')"
    unfolding recs' filter_id_conv using none later by (auto simp: find_None_iff new_checkout_def)
  then have purge: "purge_checkouts cid ?key later sh' = sh'"
    by (simp add: purge_checkouts_def put_checkouts_def put_market_def)
  have found: "find_checkout cid ?key sh' = Some ?r"
    unfolding find_checkout_rows recs' by (simp add: find_snoc none) (simp add: new_checkout_def)
  have "customer_of_user sh' (ci_user again) = Some (cid, cu)" using cid by (simp add: customer_of_user_def cust same(1))
  then show ?thesis
    using purge found address(2)
    by (auto simp: create_for_user_def checkout_body_def same Let_def new_checkout_def
        serializable_cases as_failure_def is_prisma_serializable_contention_def checkout_contention_def)
qed

section \<open>Refunds\<close>

lemma move_refund_effect:
  assumes "move_refund r p newsum now sh = Inr sh'" "map_of (payments sh) (fr_payment r) = Some p"
  shows "map_of (payments sh') (fr_payment r) = Some (p\<lparr>pay_refunded := newsum, pay_status := next_refund_status p newsum\<rparr>)"
    "j \<noteq> fr_payment r \<Longrightarrow> map_of (payments sh') j = map_of (payments sh) j"
    "refunds sh' = refunds sh" "orders sh' = orders sh" "stock sh' = stock sh"
    "promo sh' = apply_refund (pay_order p) (pay_amount p) newsum now (promo sh)"
  using assms by (auto simp: move_refund_def Let_def payment_step_def res_iff put_payment_def on_promo_def update_conv
      split: if_splits)

lemma refund_effect:
  assumes run: "record_refund sha now r sh = Inr (a, sh')" and fresh: "refund_by_key sh (refund_key sha r) = None"
  obtains p i where "map_of (payments sh) (fr_payment r) = Some p"
    "0 < digits_value (fr_amount r)" "digits_value (fr_amount r) \<le> remaining_refundable p"
    "map_of (payments sh') (fr_payment r) = Some (p\<lparr>pay_refunded := pay_refunded p + digits_value (fr_amount r),
       pay_status := next_refund_status p (pay_refunded p + digits_value (fr_amount r))\<rparr>)"
    "\<And>j. j \<noteq> fr_payment r \<Longrightarrow> map_of (payments sh') j = map_of (payments sh) j"
    "refunds sh' = refunds sh @ [(i, new_refund sha r (digits_value (fr_amount r)) now)]"
    "orders sh' = orders sh" "shelf (stock sh') = shelf (stock sh)"
    "a = \<lparr>fa_refund = i, fa_payment = fr_payment r, fa_order = pay_order p, fa_amount = digits_value (fr_amount r),
       fa_reference = fr_reference r, fa_reason = fr_reason r, fa_note = fr_note r,
       fa_status = next_refund_status p (pay_refunded p + digits_value (fr_amount r)),
       fa_refunded_total = pay_refunded p + digits_value (fr_amount r),
       fa_remaining = pay_amount p - (pay_refunded p + digits_value (fr_amount r)), fa_created = now\<rparr>"
proof -
  let ?n = "digits_value (fr_amount r)"
  have n: "0 < ?n" and body: "record_refund_body sha now r ?n sh = Inr (a, sh')"
    using run parse_amount_Inr by (auto simp: record_refund_def plain_serializable_def andthen_Inr serializable_Inr)
  show thesis
  proof (rule record_refund_Inr[OF body fresh])
    fix p i sh1 sh2
    assume r: "map_of (payments sh) (fr_payment r) = Some p" "?n \<le> remaining_refundable p"
      "add_refund (new_refund sha r ?n now) sh = Inr (i, sh1)" "move_refund r p (pay_refunded p + ?n) now sh1 = Inr sh2"
      "add_outbox (refund_event r p ?n (pay_refunded p + ?n) i)
         (audit (refund_audit r p (pay_refunded p + ?n) i payment_status_name) sh2) = Inr sh'"
      and a: "a = \<lparr>fa_refund = i, fa_payment = fr_payment r, fa_order = pay_order p, fa_amount = ?n,
        fa_reference = fr_reference r, fa_reason = fr_reason r, fa_note = fr_note r,
        fa_status = next_refund_status p (pay_refunded p + ?n), fa_refunded_total = pay_refunded p + ?n,
        fa_remaining = pay_amount p - (pay_refunded p + ?n), fa_created = now\<rparr>"
    have one: "payments sh1 = payments sh" "orders sh1 = orders sh" "stock sh1 = stock sh"
      "refunds sh1 = refunds sh @ [(i, new_refund sha r ?n now)]"
      using r(3) by (auto simp: add_refund_def throw_if_Inr)
    have "map_of (payments sh1) (fr_payment r) = Some p" using r(1) one(1) by simp
    note two = move_refund_effect[OF r(4) this]
    have three: "payments sh' = payments sh2" "orders sh' = orders sh2" "refunds sh' = refunds sh2"
      "shelf (stock sh') = shelf (stock sh2)"
      using r(5) by (auto simp: add_outbox_def throw_if_Inr)
    show thesis by (rule that[of p i]) (use n r(1,2) one two three a in auto)
  qed
qed

lemma refund_fingerprint_inj:
  assumes "inj sha"
  shows "refund_fingerprint sha n ref reason note = refund_fingerprint sha n' ref' reason' note' \<longleftrightarrow>
    n = n' \<and> ref = ref' \<and> reason = reason' \<and> note = note'"
proof
  assume "refund_fingerprint sha n ref reason note = refund_fingerprint sha n' ref' reason' note'"
  then have "json_object [(''scope'', JStr ''payment.refund''), (''amount'', JStr (show_int n)),
      (''gatewayReferenceId'', JStr ref), (''reason'', JStr reason), (''note'', text_or_null note)] =
    json_object [(''scope'', JStr ''payment.refund''), (''amount'', JStr (show_int n')),
      (''gatewayReferenceId'', JStr ref'), (''reason'', JStr reason'), (''note'', text_or_null note')]"
    unfolding refund_fingerprint_def by (rule injD[OF assms])
  from json_object_inj[OF this] show "n = n' \<and> ref = ref' \<and> reason = reason' \<and> note = note'"
    using show_int_inj by (auto simp: text_or_null_def split: option.splits)
qed simp

lemma refund_again:
  assumes inj: "inj sha" and run: "record_refund sha now r sh = Inr (a, sh')"
    and fresh: "refund_by_key sh (refund_key sha r) = None"
    and same: "fr_payment again = fr_payment r" "fr_key again = fr_key r"
    and valid: "parse_amount (fr_amount again) = Inr m" "assert_evidence again = Inr u"
  shows "record_refund sha later again sh' =
    (if m = digits_value (fr_amount r) \<and> fr_reference again = fr_reference r \<and> fr_reason again = fr_reason r
        \<and> fr_note again = fr_note r
     then Inr (a, sh') else Inl (Conflict ''IDEMPOTENCY_CONFLICT''))"
proof (rule refund_effect[OF run fresh])
  fix p i
  let ?n = "digits_value (fr_amount r)"
  assume e: "map_of (payments sh') (fr_payment r) = Some (p\<lparr>pay_refunded := pay_refunded p + ?n,
       pay_status := next_refund_status p (pay_refunded p + ?n)\<rparr>)"
    "refunds sh' = refunds sh @ [(i, new_refund sha r ?n now)]"
    "a = \<lparr>fa_refund = i, fa_payment = fr_payment r, fa_order = pay_order p, fa_amount = ?n,
       fa_reference = fr_reference r, fa_reason = fr_reason r, fa_note = fr_note r,
       fa_status = next_refund_status p (pay_refunded p + ?n), fa_refunded_total = pay_refunded p + ?n,
       fa_remaining = pay_amount p - (pay_refunded p + ?n), fa_created = now\<rparr>"
  have key: "refund_key sha again = refund_key sha r" by (simp add: refund_key_def same)
  have found: "refund_by_key sh' (refund_key sha again) = Some (i, new_refund sha r ?n now)"
    using fresh unfolding refund_by_key_def e(2) key by (simp add: find_snoc new_refund_def)
  have "record_refund_body sha later again m sh' = (if refund_fingerprint sha ?n (fr_reference r) (fr_reason r) (fr_note r)
      = refund_fingerprint sha m (fr_reference again) (fr_reason again) (fr_note again)
     then Inr (a, sh') else Inl (Conflict ''IDEMPOTENCY_CONFLICT''))"
    using e(1) by (auto simp: record_refund_body_def found new_refund_def same replay_refund_def refund_view_def e(3)
        next_refund_status_def)
  then show ?thesis
    using valid by (auto simp: record_refund_def plain_serializable_def refund_fingerprint_inj[OF inj] serializable_cases
        as_failure_def is_prisma_serializable_contention_def)
qed

end
