(* ===== verification/Shop_Demo.thy ===== *)
theory Shop_Demo
  imports Shop_Commands Inventory_Properties
begin

text \<open>
  A small shop for the examples: one customer, one variant with ten pieces on one shelf, one shipping
  method, an automatic promotion; and the run that puts two pieces in the cart, checks out, pays and
  ships. The digest is the identity: it tells different texts apart.
\<close>

definition sha0 :: "string \<Rightarrow> string" where
  "sha0 s = s"

definition demo_gateway :: gateway where
  "demo_gateway = \<lparr>gw_provider = ''zarinpal'', gw_mode = ''sandbox''\<rparr>"

definition demo_market :: market_db where
  "demo_market = empty_market\<lparr>
     goods_table := [(50, \<lparr>gd_product = 5, gd_category = None, gd_brand = None, gd_sku = ''SKU'',
       gd_product_title = ''Hinge'', gd_variant_title = None, gd_price = 1000\<rparr>)],
     shipping_methods := [(7, \<lparr>sm_code = ''POST'', sm_title = ''Post'', sm_amount = 300, sm_policy = ''v1'', sm_active = True\<rparr>)]\<rparr>"

definition demo_shop :: shop_db where
  "demo_shop = empty_shop\<lparr>customers := [(3, \<lparr>cu_user = ''u1'', cu_active = True\<rparr>)], stock := stocked_db,
     promo := empty_promo, market := demo_market\<rparr>"

definition demo_address :: address where
  "demo_address = \<lparr>ad_province = ''23'', ad_city = ''C'', ad_street = ''S'', ad_postal_code = ''1'',
     ad_recipient = ''R'', ad_mobile = ''09''\<rparr>"

definition demo_input :: checkout_input where
  "demo_input = \<lparr>ci_user = ''u1'', ci_address = Inr demo_address, ci_quote = 2, ci_key = ''k'', ci_request = ''rq'',
     ci_number = ''N1''\<rparr>"

definition demo_initiation :: initiation where
  "demo_initiation = \<lparr>in_user = ''u1'', in_order = 3, in_key = ''pay'', in_request = ''rp''\<rparr>"

definition demo_staff :: "string \<Rightarrow> staff_context" where
  "demo_staff key = \<lparr>st_actor = ''s'', st_request = key, st_key = key\<rparr>"

abbreviation demo_run :: "shop_command list \<Rightarrow> shop_db \<Rightarrow> shop_db" where
  "demo_run \<equiv> run_txs (exec_shop sha0 sha0 demo_gateway)"

text \<open>The commands of the story, and the shop after each part of it.\<close>

definition quoting :: "shop_command list" where
  "quoting = [SC_add 0 ''u1'' 50 (JsInt 2) ''a'', SC_preview 10 ''u1'' (Inr demo_address)]"

definition paying_quoted :: "shop_command list" where
  "paying_quoted = [SC_checkout 20 demo_input, SC_register 30 demo_initiation, SC_authorized 31 3 5 2300 ''AUTH'',
     SC_callback ''AUTH'' (Some ''OK'') ''cb'' (Verified ''REF'') 40]"

definition paying :: "shop_command list" where
  "paying = quoting @ paying_quoted"

definition shipping_paid :: "shop_command list" where
  "shipping_paid = [SC_fulfillment 50 3 FC_start (demo_staff ''1''), SC_pick 51 3 4 2 (demo_staff ''2''),
     SC_fulfillment 52 3 FC_ready (demo_staff ''3''), SC_dispatch 53 3 ''Post'' ''T1'' (demo_staff ''4'')]"

definition shipping :: "shop_command list" where
  "shipping = paying @ shipping_paid"

definition quoted_shop :: shop_db where
  "quoted_shop = demo_run quoting demo_shop"

definition paid_shop :: shop_db where
  "paid_shop = demo_run paying demo_shop"

definition shipped_shop :: shop_db where
  "shipped_shop = demo_run shipping demo_shop"

end
