(* ===== verification/Demo_Facts.thy ===== *)
theory Demo_Facts
  imports Checkout_Facts Shop_Demo
begin

text \<open>
  What the story of \<open>Shop_Demo\<close> evaluates to, computed once for the witnesses: the shop with a quoted cart,
  the shop with a paid order, the shop with a shipped order.
\<close>

definition demo_refund :: refund_request where
  "demo_refund = \<lparr>fr_payment = 5, fr_amount = ''300'', fr_reference = ''P1'', fr_reason = ''late'', fr_note = None,
     fr_actor = ''s'', fr_request = ''rf'', fr_key = ''rk''\<rparr>"

definition quoted_summary :: "shop_db \<Rightarrow> bool \<times> (uid \<times> customer) option \<times> bool \<times> bool" where
  "quoted_summary sh = (carts (market sh) \<noteq> [], customer_of_user sh (ci_user demo_input),
     fresh_checkout sha0 20 demo_input 3 sh, returns (create_for_user sha0 sha0 20 demo_input sh))"

definition paid_summary :: "shop_db \<Rightarrow> (order_status \<times> int) option \<times> bool \<times> payment_status option" where
  "paid_summary sh = (map_option (\<lambda>o'. (or_status o', or_total o')) (map_of (orders sh) 3), is_door_order sh 3,
     map_option pay_status (map_of (payments (demo_run [SC_refund 60 demo_refund] sh)) 5))"

definition shipped_summary :: "shop_db \<Rightarrow> uid list \<times> bool \<times> bool" where
  "shipped_summary sh = (map (\<lambda>(i, x). sh_order x) (shipments sh),
     find_record 3 ''shipment.delivery:staff'' (sha0 (st_key (demo_staff ''5''))) sh = None,
     returns (confirm_delivery sha0 70 3 ''signed'' (demo_staff ''5'') sh))"

definition story_summary ::
  "shop_db \<Rightarrow> (bool \<times> (uid \<times> customer) option \<times> bool \<times> bool)
    \<times> ((order_status \<times> int) option \<times> bool \<times> payment_status option) \<times> (uid list \<times> bool \<times> bool)" where
  "story_summary sh =
     (let q = demo_run quoting sh; p = demo_run paying_quoted q; s = demo_run shipping_paid p in
      (quoted_summary q, paid_summary p, shipped_summary s))"

lemma story_evaluated:
  "story_summary demo_shop = ((True, Some (3, \<lparr>cu_user = ''u1'', cu_active = True\<rparr>), True, True),
     (Some (OS_PAID, 2300), False, Some PAY_PARTIALLY_REFUNDED), ([3], True, True))"
  by code_simp

lemma story_shops:
  "quoted_shop = demo_run quoting demo_shop" "paid_shop = demo_run paying_quoted quoted_shop"
  "shipped_shop = demo_run shipping_paid paid_shop"
  by (simp_all only: quoted_shop_def paid_shop_def shipped_shop_def paying_def shipping_def run_txs_append
      paying_quoted_def shipping_paid_def append_assoc)

lemma story_parts:
  "quoted_summary quoted_shop = (True, Some (3, \<lparr>cu_user = ''u1'', cu_active = True\<rparr>), True, True)"
  "paid_summary paid_shop = (Some (OS_PAID, 2300), False, Some PAY_PARTIALLY_REFUNDED)"
  "shipped_summary shipped_shop = ([3], True, True)"
  using story_evaluated unfolding story_summary_def Let_def story_shops by simp_all

lemma quoted_facts:
  "carts (market quoted_shop) \<noteq> []" "customer_of_user quoted_shop (ci_user demo_input) = Some (3, \<lparr>cu_user = ''u1'', cu_active = True\<rparr>)"
  "fresh_checkout sha0 20 demo_input 3 quoted_shop" "returns (create_for_user sha0 sha0 20 demo_input quoted_shop)"
  using story_parts(1) unfolding quoted_summary_def by simp_all

lemma paid_facts:
  "map_option (\<lambda>o'. (or_status o', or_total o')) (map_of (orders paid_shop) 3) = Some (OS_PAID, 2300)"
  "\<not> is_door_order paid_shop 3"
  "map_option pay_status (map_of (payments (demo_run (paying @ [SC_refund 60 demo_refund]) demo_shop)) 5)
    = Some PAY_PARTIALLY_REFUNDED"
  using story_parts(2) unfolding paid_summary_def run_txs_append paid_shop_def[symmetric] by simp_all

lemma shipped_facts:
  "map (\<lambda>(i, x). sh_order x) (shipments shipped_shop) = [3]"
  "find_record 3 ''shipment.delivery:staff'' (sha0 (st_key (demo_staff ''5''))) shipped_shop = None"
  "returns (confirm_delivery sha0 70 3 ''signed'' (demo_staff ''5'') shipped_shop)"
  using story_parts(3) unfolding shipped_summary_def by simp_all

end
