(* ===== verification/Order_Properties.thy ===== *)
theory Order_Properties
  imports Demo_Facts
begin

text \<open>
  The properties of the shop: what every run of its commands keeps, and what cancelling, expiring, paying,
  refunding, checking out and delivering do. The witnesses run the commands on the shop of \<open>Shop_Demo\<close>,
  or on that shop with an order of four pieces in the middle of its life.
\<close>

section \<open>The example orders\<close>

text \<open>Order 7 of four pieces, reserved on the shelf and waiting for its payment, with payment 9 open.\<close>

definition waiting_row :: order_row where
  "waiting_row = \<lparr>or_number = ''N7'', or_customer = 3, or_status = OS_PENDING_PAYMENT, or_subtotal = 4000, or_discount = 0,
     or_shipping = 300, or_total = 4300, or_expires = 1000, or_address = Some ''A'',
     or_items = [(8, \<lparr>oi_variant = 50, oi_quantity = 4, oi_unit_price = 1000\<rparr>)]\<rparr>"

definition open_payment_row :: payment where
  "open_payment_row = \<lparr>pay_order = 7, pay_provider = ''zarinpal'', pay_amount = 4300, pay_status = PAY_PENDING,
     pay_authority = Some ''AUTH'', pay_reference = None, pay_refunded = 0, pay_key = ''k'', pay_fingerprint = ''f'',
     pay_correlation = None, pay_environment = ''sandbox''\<rparr>"

definition waiting_shop :: shop_db where
  "waiting_shop = demo_shop\<lparr>stock := demo_db, orders := [(7, waiting_row)], payments := [(9, open_payment_row)], next_row := 10\<rparr>"

definition settled_shop :: shop_db where
  "settled_shop = waiting_shop\<lparr>orders := [(7, waiting_row\<lparr>or_status := OS_PAID\<rparr>)],
     payments := [(9, open_payment_row\<lparr>pay_status := PAY_PAID, pay_reference := Some ''REF''\<rparr>)]\<rparr>"

lemma carts_ok_empty: "carts m = [] \<Longrightarrow> carts_ok m"
  by (simp add: carts_ok_def)

lemma demo_shop_ok: "shop_ok demo_shop"
proof -
  have "promo_inv (promo demo_shop)" by (rule promo_inv_fresh) (simp_all add: demo_shop_def empty_promo_def)
  moreover have "books_ok (books_of demo_shop)" unfolding demo_shop_def by (rule books_ok_empty)
  moreover have "carts_ok (market demo_shop)" by (rule carts_ok_empty) (simp add: demo_shop_def demo_market_def empty_market_def)
  ultimately show ?thesis by (simp add: shop_ok_def demo_shop_def stocked_ok)
qed

section \<open>What every run keeps\<close>

text \<open>C21: The shop refines its books: every committed command, whatever it is and whatever it was given,
  changes orders, payments, refunds, fulfillments, picks and shipments by a sequence of the steps that
  the specification allows, and by nothing else.\<close>

theorem shop_refines_its_books:
  assumes "shop_ok sh" and "exec_shop sha norm gw c sh = Inr (r, sh')"
  shows "book_steps (books_of sh) (books_of sh')"
  using exec_shop_evolves[OF assms(2)] assms(1) by (simp add: evolves_def)

theorem shop_refines_its_books_witness:
  "\<exists>sh'. exec_shop sha0 sha0 demo_gateway (SC_add 0 ''u1'' 50 (JsInt 2) ''a'') demo_shop = Inr ((), sh')
     \<and> book_steps (books_of demo_shop) (books_of sh')"
proof -
  let ?run = "exec_shop sha0 sha0 demo_gateway (SC_add 0 ''u1'' 50 (JsInt 2) ''a'') demo_shop"
  have "returns (add_to_cart sha0 0 ''u1'' 50 (JsInt 2) ''a'' demo_shop)" by code_simp
  then obtain sh' where "?run = Inr ((), sh')" by (auto simp: returns_def committed_def split: sum.splits)
  then show ?thesis using shop_refines_its_books[OF demo_shop_ok] by blast
qed

text \<open>C22: The invariant of the shop survives every run: the stock ledger reconciles, no promotion is used
  beyond its limits, every cart holds at most a hundred different variants in quantities from one to
  ninety-nine, and the books keep their invariant.\<close>

theorem shop_stays_consistent:
  assumes "shop_ok sh"
  shows "let sh' = run_txs (exec_shop sha norm gw) cs sh in
    ledger_ok (stock sh') \<and> promo_inv (promo sh') \<and> books_ok (books_of sh')
    \<and> list_all (\<lambda>(_, c). distinct (map fst (ca_items c)) \<and> length (ca_items c) \<le> 100
        \<and> list_all (\<lambda>(_, q). 1 \<le> q \<and> q \<le> 99) (ca_items c)) (carts (market sh'))"
  using shop.run_inv[OF assms, of sha norm gw cs]
  by (simp add: Let_def shop_ok_def carts_ok_def cart_ok_def list_all_iff case_prod_beta max_cart_lines_def max_cart_quantity_def)

theorem shop_stays_consistent_witness:
  "list_all (\<lambda>(_, c). length (ca_items c) \<le> 100) (carts (market quoted_shop)) \<and> carts (market quoted_shop) \<noteq> []"
proof -
  have "carts (market quoted_shop) \<noteq> []" by (rule quoted_facts)
  then show ?thesis
    using shop_stays_consistent[OF demo_shop_ok, of sha0 sha0 demo_gateway quoting]
    by (auto simp: Let_def quoted_shop_def list_all_iff)
qed

text \<open>C23: Refunds are accounted for: after every run, what a payment says was refunded is the sum of its
  refund records, it never exceeds the payment once anything was refunded, and the status tells
  which: partly refunded strictly between nothing and the amount, refunded at the amount.\<close>

theorem refunds_are_accounted:
  assumes "shop_ok sh" and "map_of (payments (run_txs (exec_shop sha norm gw) cs sh)) i = Some p"
  shows "pay_refunded p = asum (\<lambda>_ f. if rf_payment f = i then rf_amount f else 0)
      (refunds (run_txs (exec_shop sha norm gw) cs sh))
    \<and> 0 \<le> pay_refunded p \<and> (pay_refunded p \<noteq> 0 \<longrightarrow> pay_refunded p \<le> pay_amount p)
    \<and> (pay_status p = PAY_REFUNDED \<longrightarrow> pay_refunded p = pay_amount p)
    \<and> (pay_status p = PAY_PARTIALLY_REFUNDED \<longrightarrow> 0 < pay_refunded p \<and> pay_refunded p < pay_amount p)"
proof -
  have "accounts_ok (books_of (run_txs (exec_shop sha norm gw) cs sh))"
    using shop.run_inv[OF assms(1), of sha norm gw cs] by (simp add: shop_ok_def books_ok_def)
  from this[unfolded accounts_ok_def, THEN conjunct1, rule_format, of i p] assms(2)
  have m: "money_ok p" "pay_refunded p = refunded_of (books_of (run_txs (exec_shop sha norm gw) cs sh)) i" by simp_all
  show ?thesis
    unfolding m(2)[unfolded refunded_of_def books_of_fields, symmetric]
    using m(1) by (cases "pay_status p") (simp_all add: money_ok_def)
qed

theorem refunds_are_accounted_witness:
  "\<exists>p. map_of (payments (demo_run (paying @ [SC_refund 60 demo_refund]) demo_shop)) 5 = Some p
     \<and> pay_status p = PAY_PARTIALLY_REFUNDED \<and> pay_refunded p < pay_amount p"
proof -
  note paid_facts(3)
  then show ?thesis using refunds_are_accounted[OF demo_shop_ok] by blast
qed

text \<open>C24: An ordinary order is paid only by money: after every run, a paid order that is no custom door
  has a payment of exactly its total, for this order, that the gateway verified.\<close>

theorem paid_orders_are_paid_for:
  assumes "shop_ok sh" and "map_of (orders (run_txs (exec_shop sha norm gw) cs sh)) i = Some o'"
    and "or_status o' = OS_PAID" and "\<not> is_door_order (run_txs (exec_shop sha norm gw) cs sh) i"
  shows "\<exists>j p. map_of (payments (run_txs (exec_shop sha norm gw) cs sh)) j = Some p \<and> pay_order p = i
    \<and> pay_amount p = or_total o' \<and> pay_status p \<in> {PAY_PAID, PAY_PARTIALLY_REFUNDED, PAY_REFUNDED}"
proof -
  let ?sh = "run_txs (exec_shop sha norm gw) cs sh"
  have "paid_ok (books_of ?sh)" using shop.run_inv[OF assms(1), of sha norm gw cs] by (simp add: shop_ok_def books_ok_def)
  moreover have "i \<notin> fst ` set (door_orders (doors ?sh))"
    using assms(4) by (simp add: is_door_order_def map_of_eq_None_iff)
  ultimately have "paid_in_full (books_of ?sh) i o'" using assms(2,3) by (simp add: paid_ok_def)
  then show ?thesis unfolding paid_in_full_def settled_def by auto
qed

theorem paid_orders_are_paid_for_witness:
  "\<exists>j p. map_of (payments paid_shop) j = Some p \<and> pay_order p = 3 \<and> pay_amount p = 2300"
proof -
  note paid_facts(1,2)
  then obtain o' where "map_of (orders paid_shop) 3 = Some o'" "or_status o' = OS_PAID" "or_total o' = 2300"
    "\<not> is_door_order paid_shop 3" by auto
  then show ?thesis using paid_orders_are_paid_for[OF demo_shop_ok] unfolding paid_shop_def by metis
qed






section \<open>Cancelling and expiring\<close>

text \<open>C27: Cancelling an order that waits for its payment gives everything back: the order is cancelled, it
  holds no stock any more, every shelf gets back exactly what the order held there, no promotion is
  reserved for it, and the answer counts the reservations that were released.\<close>

theorem cancel_gives_everything_back:
  assumes "ledger_ok (stock sh)" and "promo_inv (promo sh)"
    and "map_of (orders sh) oid = Some o'" and "or_status o' = OS_PENDING_PAYMENT" and "\<not> is_door_order sh oid"
    and "\<not> blank (Some user)" and "\<not> blank (Some request)"
    and "find_record oid ''order.cancel:staff'' (sha key) sh = None"
    and "\<not> request_taken oid (Some request) (order_log sh)"
    and "Dedup ''order-cancelled'' oid [] \<notin> ob_key ` set (outbox sh)"
  shows "\<exists>sh'. cancel_as_staff sha now user oid key request sh =
      Inr (Cancelled_answer oid (or_number o') (length (active_of_order (stock sh) oid)) now, sh')
    \<and> map_of (orders sh') oid = Some (o'\<lparr>or_status := OS_CANCELLED\<rparr>)
    \<and> active_of_order (stock sh') oid = [] \<and> reserved_of oid (promo sh') = []
    \<and> (\<forall>k. shelf (stock sh') k = (onHand (bal (stock sh) k), reserved (bal (stock sh) k) - order_qty (stock sh) oid k))
    \<and> payments sh' = payments sh"
proof -
  let ?c = "\<lparr>cc_order = oid, cc_scope = ''order.cancel:staff'', cc_owner = None, cc_actor = user, cc_request = request,
    cc_key = key, cc_fingerprint = cancel_fingerprint sha user ''STAFF_CANCELLED'', cc_reason = ''STAFF_CANCELLED''\<rparr>"
  have "user \<noteq> []" "request \<noteq> []" using assms(6,7) by (auto simp: blank_def trim_def)
  then have caller: "assert_caller user request = Inr ()" by (simp add: assert_caller_def)
  show ?thesis
    by (rule cancel_order_ok[of sh ?c o' sha now])
      (use assms caller release_for_order_none[OF assms(2)] in \<open>auto simp: cancel_as_staff_def\<close>)
qed

lemma waiting_ok: "ledger_ok (stock waiting_shop)" "promo_inv (promo waiting_shop)"
  using demo_shop_ok by (simp_all add: waiting_shop_def demo_ok shop_ok_def)

theorem cancel_gives_everything_back_witness:
  "\<exists>sh'. cancel_as_staff sha0 5 ''s'' 7 ''k'' ''r'' waiting_shop = Inr (Cancelled_answer 7 ''N7'' 1 5, sh')
     \<and> shelf (stock sh') demo_shelf = (10, 0)"
proof -
  have pre: "map_of (orders waiting_shop) 7 = Some waiting_row" "or_status waiting_row = OS_PENDING_PAYMENT"
    "\<not> is_door_order waiting_shop 7" "\<not> blank (Some ''s'')" "\<not> blank (Some ''r'')"
    "find_record 7 ''order.cancel:staff'' (sha0 ''k'') waiting_shop = None"
    "\<not> request_taken 7 (Some ''r'') (order_log waiting_shop)"
    "Dedup ''order-cancelled'' 7 [] \<notin> ob_key ` set (outbox waiting_shop)" by code_simp+
  have val: "length (active_of_order (stock waiting_shop) 7) = 1" "onHand (bal (stock waiting_shop) demo_shelf) = 10"
    "reserved (bal (stock waiting_shop) demo_shelf) = 4" "order_qty (stock waiting_shop) 7 demo_shelf = 4"
    "or_number waiting_row = ''N7''" by code_simp+
  from cancel_gives_everything_back[where sha = sha0 and key = "''k''" and sh = waiting_shop, OF waiting_ok pre, of 5] show ?thesis using val by auto
qed

text \<open>C28: A cancellation is done once: repeated under its key before the record expires, with the same
  actor and reason, it returns the stored answer and changes nothing; with others it is refused.\<close>

theorem cancel_is_idempotent:
  assumes "cancel_order sha now c sh = Inr (a, sh')"
    and "find_record (cc_order c) (cc_scope c) (sha (cc_key c))
      (purge_records (cc_order c) (cc_scope c) (sha (cc_key c)) now sh) = None"
    and "later < now + 24 * 60 * 60 * 1000"
    and "cc_order d = cc_order c" and "cc_scope d = cc_scope c" and "cc_key d = cc_key c"
  shows "cancel_order sha later d sh' = (if cc_fingerprint d = cc_fingerprint c then Inr (a, sh')
    else Inl (Conflict ''IDEMPOTENCY_CONFLICT''))"
  by (rule cancel_order_replay[OF assms(1,2) _ assms(4-6)]) (use assms(3) in \<open>simp add: record_ttl_def\<close>)

definition demo_cancel :: cancel_command where
  "demo_cancel = \<lparr>cc_order = 7, cc_scope = ''order.cancel:staff'', cc_owner = None, cc_actor = ''s'', cc_request = ''r'',
     cc_key = ''k'', cc_fingerprint = ''f'', cc_reason = ''STAFF_CANCELLED''\<rparr>"

theorem cancel_is_idempotent_witness:
  "\<exists>a sh'. cancel_order sha0 5 demo_cancel waiting_shop = Inr (a, sh')
     \<and> cancel_order sha0 6 (demo_cancel\<lparr>cc_request := ''r2''\<rparr>) sh' = Inr (a, sh')"
proof -
  have "case cancel_order sha0 5 demo_cancel waiting_shop of Inl _ \<Rightarrow> False | Inr _ \<Rightarrow> True" by code_simp
  then obtain a sh' where run: "cancel_order sha0 5 demo_cancel waiting_shop = Inr (a, sh')" by (auto split: sum.splits)
  have "find_record (cc_order demo_cancel) (cc_scope demo_cancel) (sha0 (cc_key demo_cancel))
      (purge_records (cc_order demo_cancel) (cc_scope demo_cancel) (sha0 (cc_key demo_cancel)) 5 waiting_shop) = None" by code_simp
  from cancel_is_idempotent[OF run this, of 6 "demo_cancel\<lparr>cc_request := ''r2''\<rparr>"] run show ?thesis by simp
qed

text \<open>C29: Cancelling an order that does not exist is no \<open>ORDER_NOT_FOUND\<close>: the idempotency record, whose
  order is a foreign key, is written before the order is looked up, so the database error \<open>P2003\<close> escapes.\<close>

theorem cancel_of_unknown_order:
  assumes "map_of (orders sh) oid = None" and "user \<noteq> []" and "request \<noteq> []"
    and "find_record oid ''order.cancel:staff'' (sha key) sh = None"
  shows "cancel_as_staff sha now user oid key request sh = Inl (DbError ''P2003'')"
proof -
  have "find_record oid ''order.cancel:staff'' (sha key) (purge_records oid ''order.cancel:staff'' (sha key) now sh) = None"
    by (rule find_record_purge[OF assms(4)])
  then show ?thesis
    using assms(1-3)
    by (simp add: cancel_as_staff_def assert_caller_def cancel_order_def order_serializable_def cancel_body_def Let_def
        cancel_fresh_def add_record_def serializable_cases as_failure_def is_prisma_serializable_contention_def)
qed

theorem cancel_of_unknown_order_witness:
  "cancel_as_staff sha0 5 ''s'' 99 ''k'' ''r'' waiting_shop = Inl (DbError ''P2003'')"
  by (rule cancel_of_unknown_order) code_simp+

end
