(* ===== verification/Sale_Properties.thy ===== *)
theory Sale_Properties
  imports Order_Properties
begin

text \<open>
  What a sale does, step by step: the checkout, the verification of the payment, the refund, the expiry of
  orders nobody pays, the proof of delivery. The witnesses run on the shops of \<open>Shop_Demo\<close> and
  \<open>Order_Properties\<close>.
\<close>

section \<open>Checkout\<close>

lemma map_res_lines:
  "map_res (order_line_of sh) items = Inr ls \<Longrightarrow>
   \<forall>(v, n, p) \<in> set ls. map_option gd_price (map_of (goods_table (market sh)) v) = Some p"
proof (induction items arbitrary: ls)
  case (Cons x items)
  then show ?case by (auto simp: andthen_Inr order_line_of_def need_Inr)
qed simp

lemma quoted_ok: "shop_ok quoted_shop"
  unfolding quoted_shop_def by (rule shop.run_inv[OF demo_shop_ok])

text \<open>C30: A checkout orders the cart, no more and no less: the new order waits for its payment with the
  lines of the cart at the prices of the catalogue, its total is their sum plus the quoted shipping
  minus the quoted discount, it holds of every variant exactly the quantity in the cart, and the
  cart is empty afterwards.\<close>

theorem checkout_orders_the_cart:
  assumes "shop_ok sh" and "create_for_user sha norm now inp sh = Inr (answer, sh')"
    and "customer_of_user sh (ci_user inp) = Some (cid, cu)" and "fresh_checkout sha now inp cid sh"
  shows "\<exists>i c q row. cart_of sh cid = Some (i, c) \<and> map_of (shipping_quotes (market sh)) (ci_quote inp) = Some q
    \<and> map_of (orders sh) (ck_order answer) = None \<and> map_of (orders sh') (ck_order answer) = Some row
    \<and> or_customer row = cid \<and> or_status row = OS_PENDING_PAYMENT
    \<and> map (\<lambda>(_, l). (oi_variant l, oi_quantity l)) (or_items row) = cart_items c
    \<and> (\<forall>(_, l) \<in> set (or_items row).
        map_option gd_price (map_of (goods_table (market sh)) (oi_variant l)) = Some (oi_unit_price l))
    \<and> or_subtotal row = (\<Sum>x\<leftarrow>or_items row. oi_unit_price (snd x) * oi_quantity (snd x))
    \<and> or_total row = or_subtotal row + sq_amount q - sq_discount q \<and> ck_total answer = or_total row
    \<and> (\<forall>v. variant_held (stock sh') (ck_order answer) v = variant_held (stock sh) (ck_order answer) v
        + (\<Sum>x\<leftarrow>cart_items c. if fst x = v then snd x else 0))
    \<and> map_of (carts (market sh')) i = Some (c\<lparr>ca_items := [], ca_coupon := None, ca_version := ca_version c + 1\<rparr>)"
proof -
  obtain i c q ls row a where e: "cart_of sh cid = Some (i, c)" "map_res (order_line_of sh) (cart_items c) = Inr ls"
    "ck_order answer = next_row sh" "map_of (orders sh') (next_row sh) = Some row"
    "row = (draft_order inp cid a ls q (ck_discount answer) now (next_row sh + 1))\<lparr>or_status := OS_PENDING_PAYMENT\<rparr>"
    "ck_total answer = or_total row" "ck_discount answer = sq_discount q"
    "map_of (shipping_quotes (market sh)) (ci_quote inp) = Some q"
    "\<And>v. variant_held (stock sh') (next_row sh) v = variant_held (stock sh) (next_row sh) v + asked v ls"
    "map_of (carts (market sh')) i = Some (c\<lparr>ca_items := [], ca_coupon := None, ca_version := ca_version c + 1\<rparr>)"
    by (rule checkout_effect[OF assms]) blast
  have items: "or_items row = number_items (next_row sh + 1) ls" by (simp add: e(5) draft_order_def)
  have "map (\<lambda>(_, l). (oi_variant l, oi_quantity l)) (or_items row) =
      map (\<lambda>(v, q, p). (v, q)) (map (\<lambda>(_, l). (oi_variant l, oi_quantity l, oi_unit_price l)) (or_items row))"
    by (simp add: case_prod_beta)
  also have "\<dots> = cart_items c"
    unfolding items number_items_lines order_lines_items[OF e(2), symmetric] by (simp add: case_prod_beta)
  finally have lines: "map (\<lambda>(_, l). (oi_variant l, oi_quantity l)) (or_items row) = cart_items c" .
  have prices: "\<forall>(v, n, p) \<in> set ls. map_option gd_price (map_of (goods_table (market sh)) v) = Some p"
    using map_res_lines[OF e(2)] .
  have "map_option gd_price (map_of (goods_table (market sh)) (oi_variant l)) = Some (oi_unit_price l)"
    if "(j, l) \<in> set (or_items row)" for j l
  proof -
    have "(oi_variant l, oi_quantity l, oi_unit_price l)
        \<in> set (map (\<lambda>(_, l). (oi_variant l, oi_quantity l, oi_unit_price l)) (or_items row))" using that by force
    then show ?thesis unfolding items number_items_lines using prices by auto
  qed
  then have "\<forall>(_, l) \<in> set (or_items row).
      map_option gd_price (map_of (goods_table (market sh)) (oi_variant l)) = Some (oi_unit_price l)" by blast
  moreover have "or_subtotal row = (\<Sum>x\<leftarrow>or_items row. oi_unit_price (snd x) * oi_quantity (snd x))"
    unfolding items number_items_total by (simp add: e(5) draft_order_def)
  ultimately show ?thesis
    using e(1,3,4,6-10) lines next_row_fresh[OF assms(1)] asked_lines(1)[OF e(2)]
    by (intro exI[of _ i] exI[of _ c] exI[of _ q] exI[of _ row]) (simp add: e(5) draft_order_def)
qed

theorem checkout_orders_the_cart_witness:
  "\<exists>answer sh' row. create_for_user sha0 sha0 20 demo_input quoted_shop = Inr (answer, sh')
     \<and> map_of (orders sh') (ck_order answer) = Some row \<and> or_status row = OS_PENDING_PAYMENT \<and> ck_total answer = or_total row"
proof -
  obtain answer sh' where run: "create_for_user sha0 sha0 20 demo_input quoted_shop = Inr (answer, sh')"
    using quoted_facts(4) by (auto simp: returns_def split: sum.splits)
  note quoted_facts(2,3)
  from checkout_orders_the_cart[OF quoted_ok run this] run show ?thesis by blast
qed

text \<open>C31: A checkout is done once: repeated under its key within a day, with the same address and quote, it
  returns the first answer and changes nothing; with others it is refused.\<close>

theorem checkout_is_idempotent:
  assumes "shop_ok sh" and "create_for_user sha norm now inp sh = Inr (answer, sh')"
    and "customer_of_user sh (ci_user inp) = Some (cid, cu)" and "fresh_checkout sha now inp cid sh"
    and "later < now + 24 * 60 * 60 * 1000" and "ci_user again = ci_user inp" and "ci_key again = ci_key inp"
    and "ci_address inp = Inr a" and "ci_address again = Inr b"
  shows "create_for_user sha norm later again sh' =
    (if checkout_fingerprint sha b (ci_quote again) = checkout_fingerprint sha a (ci_quote inp) then Inr (answer, sh')
     else Inl (Conflict ''IDEMPOTENCY_CONFLICT''))"
  by (rule checkout_again[OF assms(1-4) _ assms(6-9)]) (use assms(5) in \<open>simp add: checkout_ttl_def\<close>)

theorem checkout_is_idempotent_witness:
  "\<exists>answer sh'. create_for_user sha0 sha0 20 demo_input quoted_shop = Inr (answer, sh')
     \<and> create_for_user sha0 sha0 25 (demo_input\<lparr>ci_request := ''rq2''\<rparr>) sh' = Inr (answer, sh')"
proof -
  obtain answer sh' where run: "create_for_user sha0 sha0 20 demo_input quoted_shop = Inr (answer, sh')"
    using quoted_facts(4) by (auto simp: returns_def split: sum.splits)
  note quoted_facts(2,3)
  from checkout_is_idempotent[OF quoted_ok run this, of 25 "demo_input\<lparr>ci_request := ''rq2''\<rparr>" demo_address demo_address] run
  show ?thesis by (simp add: demo_input_def)
qed

section \<open>Payment\<close>



lemma payment_failed_frame:
  assumes "payment_step i PAY_PENDING PAY_FAILED info sh = Inr sh'"
  shows "orders sh' = orders sh" "stock sh' = stock sh" "promo sh' = promo sh" "fulfillments sh' = fulfillments sh"
    "\<And>j p. map_of (payments sh') j = Some p \<Longrightarrow> pay_status p = PAY_PAID \<Longrightarrow> map_of (payments sh) j = Some p"
  using assms by (auto simp: payment_step_def res_iff update_conv split: if_splits)

text \<open>C33: Nothing but a verification by the gateway settles anything: whatever a callback claims, when the
  gateway does not verify the payment, no order, no shelf, no promotion and no fulfillment changes and
  no payment becomes paid.\<close>

theorem only_the_gateway_settles:
  assumes "verify gw authority status request result now sh = Inr (v, sh')" and "\<forall>reference. result \<noteq> Verified reference"
  shows "orders sh' = orders sh \<and> shelf (stock sh') = shelf (stock sh) \<and> promo sh' = promo sh \<and> fulfillments sh' = fulfillments sh
    \<and> (\<forall>i p. map_of (payments sh') i = Some p \<and> pay_status p = PAY_PAID \<longrightarrow> map_of (payments sh) i = Some p)"
    (is "?same sh'")
proof -
  have event: "?same sh2" if "?same sh1" "add_outbox e sh1 = Inr sh2" for e sh1 sh2
    using that by (auto simp: add_outbox_def throw_if_Inr)
  have unconfirmed: "?same sh1" if "record_unconfirmed_body i request sh = Inr (v, sh1)" for i v sh1
    using that by (auto simp: record_unconfirmed_body_def with_order_def need_Inr andthen_Inr Let_def add_outbox_def throw_if_Inr
        split: if_splits)
  have not_paid: "?same sh1" if run: "mark_not_paid_body i request sh = Inr (v, sh1)" for i v sh1
  proof -
    obtain p where "sh1 = sh \<or> (\<exists>sh2 sh3 e a. payment_step i PAY_PENDING PAY_FAILED (payment_info request ''gateway_not_paid'') sh = Inr sh2
        \<and> add_outbox e sh2 = Inr sh3 \<and> sh1 = audit a sh3 \<and> map_of (payments sh) i = Some p)"
      using run by (auto simp: mark_not_paid_body_def with_order_def need_Inr andthen_Inr split: if_splits)
    moreover have "?same (audit a sh3)" if "payment_step i PAY_PENDING PAY_FAILED info sh = Inr sh2" "add_outbox e sh2 = Inr sh3"
      for info sh2 sh3 e a
      using event[OF _ that(2)] payment_failed_frame[OF that(1)] by auto
    ultimately show ?thesis by (elim disjE exE conjE) (hypsubst, simp, hypsubst, blast)
  qed
  obtain plan where plan: "verify_start gw authority status request sh = Inr plan"
    and run: "(case plan of Answer_now v sh' \<Rightarrow> Inr (v, sh') | Ask_gateway i \<Rightarrow> verify_finish i result request now sh) = Inr (v, sh')"
    using assms(1) by (auto simp: verify_def andthen_Inr)
  show ?thesis
  proof (cases plan)
    case (Answer_now v' sh1)
    have "?same sh1" using verify_start_answer[OF plan[unfolded Answer_now]] unconfirmed by auto
    then show ?thesis using run Answer_now by simp
  next
    case (Ask_gateway i)
    then have "record_unconfirmed_body i request sh = Inr (v, sh') \<or> mark_not_paid_body i request sh = Inr (v, sh')"
      using run assms(2) by (simp add: verify_finish_def plain_serializable_def serializable_Inr split: verify_result.splits)
    then show ?thesis using unconfirmed not_paid by blast
  qed
qed

theorem only_the_gateway_settles_witness:
  "\<exists>v sh'. verify demo_gateway ''AUTH'' (Some ''OK'') ''cb'' Verify_failed 40 waiting_shop = Inr (v, sh')
     \<and> orders sh' = orders waiting_shop"
proof -
  let ?run = "verify demo_gateway ''AUTH'' (Some ''OK'') ''cb'' Verify_failed 40 waiting_shop"
  have "case ?run of Inl _ \<Rightarrow> False | Inr _ \<Rightarrow> True" by code_simp
  then obtain v sh' where "?run = Inr (v, sh')" by (auto split: sum.splits)
  with only_the_gateway_settles[OF this] show ?thesis by simp
qed

section \<open>Refunds\<close>

text \<open>C34: The key of a refund binds its request: the repetition of a recorded refund under its key is
  answered with the first refund when amount, reference, reason and note are the same, and refused as a
  conflict as soon as one of them differs; no second refund is ever recorded. (The digest is taken to
  be free of collisions.)\<close>

theorem refund_key_binds_its_request:
  assumes "inj sha" and "record_refund sha now r sh = Inr (a, sh')" and "refund_by_key sh (refund_key sha r) = None"
    and "fr_payment again = fr_payment r" and "fr_key again = fr_key r"
    and "parse_amount (fr_amount again) = Inr m" and "assert_evidence again = Inr u"
  shows "record_refund sha later again sh' =
    (if m = digits_value (fr_amount r) \<and> fr_reference again = fr_reference r \<and> fr_reason again = fr_reason r
        \<and> fr_note again = fr_note r
     then Inr (a, sh') else Inl (Conflict ''IDEMPOTENCY_CONFLICT''))"
  by (rule refund_again[OF assms])

theorem refund_key_binds_its_request_witness:
  "\<exists>a sh'. record_refund sha0 60 (demo_refund\<lparr>fr_payment := 9\<rparr>) settled_shop = Inr (a, sh')
     \<and> record_refund sha0 61 (demo_refund\<lparr>fr_payment := 9, fr_amount := ''301''\<rparr>) sh' = Inl (Conflict ''IDEMPOTENCY_CONFLICT'')"
proof -
  let ?r = "demo_refund\<lparr>fr_payment := 9\<rparr>" and ?again = "demo_refund\<lparr>fr_payment := 9, fr_amount := ''301''\<rparr>"
  have "case record_refund sha0 60 ?r settled_shop of Inl _ \<Rightarrow> False | Inr _ \<Rightarrow> True" by code_simp
  then obtain a sh' where run: "record_refund sha0 60 ?r settled_shop = Inr (a, sh')" by (auto split: sum.splits)
  have inj: "inj sha0" by (simp add: sha0_def inj_def)
  have pre: "refund_by_key settled_shop (refund_key sha0 ?r) = None" "fr_payment ?again = fr_payment ?r" "fr_key ?again = fr_key ?r"
    "parse_amount (fr_amount ?again) = Inr 301" "assert_evidence ?again = Inr ()" "digits_value (fr_amount ?r) = 300" by code_simp+
  from refund_key_binds_its_request[OF inj run pre(1-5)] run pre(6) show ?thesis by simp
qed

section \<open>Expiry\<close>

lemma expire_order_frame:
  assumes "expire_order who now oid sh = Inr (done', sh')"
  shows "payments sh' = payments sh" "doors sh' = doors sh"
    "map_of (orders sh) i = Some o' \<Longrightarrow> map_of (orders sh') i = Some o'
      \<or> expirable now sh i o' \<and> map_of (orders sh') i = Some (o'\<lparr>or_status := OS_CANCELLED\<rparr>)"
proof -
  have "sh' = sh \<or> (\<exists>order. map_of (orders sh) oid = Some order \<and> expirable now sh oid order
      \<and> payments sh' = payments sh \<and> doors sh' = doors sh
      \<and> orders sh' = AList.update oid (order\<lparr>or_status := OS_CANCELLED\<rparr>) (orders sh))"
    using assms
    by (auto simp: expire_order_def order_serializable_def serializable_Inr expire_order_body_def expire_pending_def Let_def
        andthen_Inr order_step_def record_transition_Inr on_stock_def on_promo_def add_outbox_def throw_if_Inr
        split: option.splits if_splits)
  then show "payments sh' = payments sh" "doors sh' = doors sh"
    "map_of (orders sh) i = Some o' \<Longrightarrow> map_of (orders sh') i = Some o'
      \<or> expirable now sh i o' \<and> map_of (orders sh') i = Some (o'\<lparr>or_status := OS_CANCELLED\<rparr>)"
    by (auto simp: update_conv split: if_splits)
qed

lemma expire_each_frame:
  assumes "expire_each who now oids n sh = (r, sh')"
  shows "payments sh' = payments sh \<and> doors sh' = doors sh \<and> (\<forall>i o'. map_of (orders sh) i = Some o' \<longrightarrow> map_of (orders sh') i = Some o'
      \<or> expirable now sh i o' \<and> map_of (orders sh') i = Some (o'\<lparr>or_status := OS_CANCELLED\<rparr>))"
  using assms
proof (induction oids arbitrary: n sh)
  case (Cons oid oids)
  show ?case
  proof (cases "expire_order who now oid sh")
    case (Inl e)
    then show ?thesis using Cons by (auto split: if_splits)
  next
    case (Inr x)
    then obtain d sh1 where run: "expire_order who now oid sh = Inr (d, sh1)" by (cases x) simp
    note step = expire_order_frame[OF run]
    have rest: "payments sh' = payments sh1" "doors sh' = doors sh1" "\<And>i o'. map_of (orders sh1) i = Some o' \<Longrightarrow>
        map_of (orders sh') i = Some o' \<or> expirable now sh1 i o' \<and> map_of (orders sh') i = Some (o'\<lparr>or_status := OS_CANCELLED\<rparr>)"
      using Cons.IH[of "if d then n + 1 else n" sh1] Cons.prems run by auto
    have same: "expirable now sh1 i o' = expirable now sh i o'" for i o'
      using step(1,2) by (simp add: expirable_def is_door_order_def payments_of_def)
    have "\<not> expirable now sh i (o'\<lparr>or_status := OS_CANCELLED\<rparr>)" for i o' by (simp add: expirable_def)
    then show ?thesis using step rest same by metis
  qed
qed simp

text \<open>C35: The expiry worker touches only what is abandoned: a run of any batch leaves every order as it is,
  or cancels one that waits for its payment past its reservation and for which no payment was ever
  opened; payments and custom doors never change.\<close>

theorem expiry_spares_paid_orders:
  assumes "map_of (orders sh) i = Some o'" and "expire_batch who now batch sh = (r, sh')"
  shows "payments sh' = payments sh \<and> doors sh' = doors sh \<and> (map_of (orders sh') i = Some o'
    \<or> (or_status o' = OS_PENDING_PAYMENT \<and> or_expires o' \<le> now \<and> \<not> is_door_order sh i
        \<and> (\<forall>(j, p) \<in> set (payments sh). pay_order p \<noteq> i)
        \<and> map_of (orders sh') i = Some (o'\<lparr>or_status := OS_CANCELLED\<rparr>)))"
proof -
  have none: "payments_of sh i = [] \<longleftrightarrow> (\<forall>(j, p) \<in> set (payments sh). pay_order p \<noteq> i)"
    by (auto simp: payments_of_def filter_empty_conv)
  note frame = expire_each_frame[OF assms(2)[unfolded expire_batch_def]]
  then have "map_of (orders sh') i = Some o' \<or> expirable now sh i o' \<and> map_of (orders sh') i = Some (o'\<lparr>or_status := OS_CANCELLED\<rparr>)"
    using assms(1) by blast
  then show ?thesis using frame unfolding expirable_def none by blast
qed

theorem expiry_spares_paid_orders_witness:
  "map_of (orders (snd (expire_batch (System_caller ''x'') 99999999 None waiting_shop))) 7 = Some waiting_row"
proof -
  have row: "map_of (orders waiting_shop) 7 = Some waiting_row" by code_simp
  have paid: "(9, open_payment_row) \<in> set (payments waiting_shop)" "pay_order open_payment_row = 7" by code_simp+
  obtain r sh' where run: "expire_batch (System_caller ''x'') 99999999 None waiting_shop = (r, sh')" by (rule prod.exhaust)
  from expiry_spares_paid_orders[OF row run] paid run show ?thesis by auto
qed

section \<open>Delivery\<close>



end
