(* ===== verification/Door_Orders.thy ===== *)
theory Door_Orders
  imports Payments Checkout
begin

text \<open>
  Custom door orders, \<open>custom-door-orders/door-orders.service.ts\<close> and \<open>door-state.ts\<close>: drafts,
  quotations, acceptance, production, materials and what is shown of them. A command locks the order,
  reads it, and answers a repeated key from \<open>DoorCommand\<close>. \<open>payload\<close> is the JSON text of the request that
  is hashed; messages in Persian are replaced by short names. The answer of a command is \<open>door_detail\<close>
  of the state it leaves.
\<close>

section \<open>Errors, actors and rows\<close>

definition door_conflict :: api_error where
  "door_conflict = Conflict ''DOOR_STATE_CONFLICT''"

definition assert_door_version :: "int \<Rightarrow> int \<Rightarrow> unit res" where
  "assert_door_version expected actual = throw_if (expected \<noteq> actual) door_conflict (Inr ())"

record door_actor =
  da_user :: string
  da_request :: string
  da_staff :: bool

definition door_info :: "door_actor \<Rightarrow> string \<Rightarrow> change_info" where
  "door_info actor reason = (Some (da_user actor), Some (da_request actor), Some reason)"

definition door_context :: "door_actor \<Rightarrow> actor_context" where
  "door_context actor = \<lparr>ctx_actor = Some (da_user actor), ctx_request = Some (da_request actor)\<rparr>"

text \<open>\<open>owned\<close>: staff sees every order, a customer his own.\<close>

definition owned :: "door_actor \<Rightarrow> uid \<Rightarrow> shop_db \<Rightarrow> (door_order \<times> order_row \<times> customer) res" where
  "owned actor i sh =
     need (map_of (door_orders (doors sh)) i) (NotFound ''NOT_FOUND'') (\<lambda>d.
     need (map_of (orders sh) i) (NotFound ''NOT_FOUND'') (\<lambda>order.
     need (map_of (customers sh) (or_customer order)) (NotFound ''NOT_FOUND'') (\<lambda>c.
     throw_if (\<not> da_staff actor \<and> cu_user c \<noteq> da_user actor) (NotFound ''NOT_FOUND'') (Inr (d, order, c)))))"

definition current_door_quote :: "uid \<Rightarrow> door_order \<Rightarrow> shop_db \<Rightarrow> (uid \<times> door_quotation) res" where
  "current_door_quote i d sh = need (current_quotation sh i d) (Conflict ''no quotation of this version'') Inr"

definition order_paid :: "shop_db \<Rightarrow> uid \<Rightarrow> int" where
  "order_paid sh i = door_paid (map snd (payments_of sh i))"

definition open_payments :: "shop_db \<Rightarrow> uid \<Rightarrow> bool" where
  "open_payments sh i \<longleftrightarrow> list_ex (\<lambda>(_, p). pay_status p = PAY_PENDING) (payments_of sh i)"

definition requirements_of :: "shop_db \<Rightarrow> uid \<Rightarrow> (uid \<times> door_requirement) list" where
  "requirements_of sh i = filter (\<lambda>(_, r). rq_order r = i) (door_requirements (doors sh))"

text \<open>The reservation joined to a requirement.\<close>

definition reservation_of :: "shop_db \<Rightarrow> door_requirement \<Rightarrow> reservation option" where
  "reservation_of sh r = (case rq_reservation r of None \<Rightarrow> None | Some j \<Rightarrow> map_of (reservations (stock sh)) j)"

definition reserved_now :: "shop_db \<Rightarrow> door_requirement \<Rightarrow> bool" where
  "reserved_now sh r \<longleftrightarrow> map_option rs_status (reservation_of sh r) = Some RS_ACTIVE"

definition active_models :: "shop_db \<Rightarrow> door_model list" where
  "active_models sh = filter dm_active (door_models (doors sh))"

definition active_materials :: "shop_db \<Rightarrow> door_material list" where
  "active_materials sh = filter ma_active (door_materials (doors sh))"

fun door_status_name :: "door_status \<Rightarrow> string" where
  "door_status_name DS_DRAFT = ''DRAFT''"
| "door_status_name DS_PENDING_QUOTE_APPROVAL = ''PENDING_QUOTE_APPROVAL''"
| "door_status_name DS_AWAITING_DEPOSIT = ''AWAITING_DEPOSIT''"
| "door_status_name DS_DEPOSIT_PAID = ''DEPOSIT_PAID''"
| "door_status_name DS_AWAITING_TECHNICAL_APPROVAL = ''AWAITING_TECHNICAL_APPROVAL''"
| "door_status_name DS_APPROVED_FOR_PRODUCTION = ''APPROVED_FOR_PRODUCTION''"
| "door_status_name DS_IN_PRODUCTION = ''IN_PRODUCTION''"
| "door_status_name DS_QUALITY_CONTROL = ''QUALITY_CONTROL''"
| "door_status_name DS_READY_FOR_DELIVERY = ''READY_FOR_DELIVERY''"
| "door_status_name DS_AWAITING_SETTLEMENT = ''AWAITING_SETTLEMENT''"
| "door_status_name DS_COMPLETED = ''COMPLETED''"
| "door_status_name DS_CANCELLED = ''CANCELLED''"

section \<open>Writes\<close>

definition put_order :: "uid \<Rightarrow> order_row \<Rightarrow> shop_db \<Rightarrow> shop_db" where
  "put_order i order sh = sh\<lparr>orders := AList.update i order (orders sh)\<rparr>"

definition put_doors :: "door_db \<Rightarrow> shop_db \<Rightarrow> shop_db" where
  "put_doors d sh = sh\<lparr>doors := d\<rparr>"

definition put_requirement :: "uid \<Rightarrow> door_requirement \<Rightarrow> shop_db \<Rightarrow> shop_db" where
  "put_requirement j r sh =
     put_doors ((doors sh)\<lparr>door_requirements := AList.update j r (door_requirements (doors sh))\<rparr>) sh"

text \<open>\<open>doorQuotation.create\<close>: order and version are unique together.\<close>

definition add_quotation :: "door_quotation \<Rightarrow> shop_db \<Rightarrow> (uid \<times> shop_db) res" where
  "add_quotation q sh =
     throw_if (\<exists>x \<in> set (quotations_of sh (qt_order q)). qt_version (snd x) = qt_version q) (DbError ''P2002'')
     (Inr (next_row sh, put_doors ((doors sh)\<lparr>door_quotations := door_quotations (doors sh) @ [(next_row sh, q)]\<rparr>)
        (sh\<lparr>next_row := Suc (next_row sh)\<rparr>)))"

definition lower_char :: "char \<Rightarrow> char" where
  "lower_char c = (let n = of_char c :: nat in if 65 \<le> n \<and> n \<le> 90 then char_of (n + 32) else c)"

definition door_event :: "door_actor \<Rightarrow> uid \<Rightarrow> string \<Rightarrow> string \<Rightarrow> (string \<times> jval) list \<Rightarrow> shop_db \<Rightarrow> shop_db" where
  "door_event actor i action message payload sh =
     audit \<lparr>ae_action = ''custom-door.'' @ map lower_char action, ae_entity = ''door-order'', ae_entity_id = i,
        ae_before = [], ae_after = [], ae_metadata = payload, ae_actor = Some (da_user actor),
        ae_request = Some (da_request actor)\<rparr>
      (add_door_record \<lparr>dr_order = i, dr_action = action, dr_message = message, dr_payload = payload,
        dr_actor = Some (da_user actor)\<rparr> sh)"

text \<open>\<open>bom\<close>: one requirement per part of the quotation.\<close>

definition bom :: "uid \<Rightarrow> uid \<Rightarrow> door_quote \<Rightarrow> shop_db \<Rightarrow> shop_db" where
  "bom i qi snapshot sh =
     (let parts = concat (map ln_parts (dq_lines snapshot));
          rows = map (\<lambda>(k, p). (next_row sh + k, \<lparr>rq_order = i, rq_quote = qi, rq_part = p, rq_quantity = None,
            rq_reservation = None, rq_consumed = None\<rparr>)) (zip [0..<length parts] parts)
      in put_doors ((doors sh)\<lparr>door_requirements := door_requirements (doors sh) @ rows\<rparr>)
           (sh\<lparr>next_row := next_row sh + length parts\<rparr>))"

section \<open>The frame of a command\<close>

definition door_command ::
  "(string \<Rightarrow> string) \<Rightarrow> door_actor \<Rightarrow> string \<Rightarrow> string \<Rightarrow> string \<Rightarrow> (shop_db \<Rightarrow> (uid \<times> shop_db) res)
     \<Rightarrow> shop_db \<Rightarrow> (uid \<times> shop_db) res" where
  "door_command sha actor scope key payload work sh =
     (let h = sha (json_object [(''actor'', JStr (da_user actor)), (''scope'', JStr scope), (''key'', JStr key)]);
          fp = sha payload in
      case map_of (door_commands (doors sh)) h of
        Some (f, i) \<Rightarrow> throw_if (f \<noteq> fp) door_conflict (Inr (i, sh))
      | None \<Rightarrow>
          andthen (work sh) (\<lambda>(i, sh1).
          Inr (i, put_doors ((doors sh1)\<lparr>door_commands := door_commands (doors sh1) @ [(h, fp, i)]\<rparr>) sh1)))"

definition mutate ::
  "(string \<Rightarrow> string) \<Rightarrow> door_actor \<Rightarrow> uid \<Rightarrow> string \<Rightarrow> string \<Rightarrow> string
     \<Rightarrow> (door_order \<Rightarrow> order_row \<Rightarrow> shop_db \<Rightarrow> shop_db res) \<Rightarrow> shop_db \<Rightarrow> (uid \<times> shop_db) res" where
  "mutate sha actor i scope key payload work sh =
     plain_serializable (
     andthen (owned actor i sh) (\<lambda>(d, order, c).
     throw_if (\<not> da_staff actor \<and> \<not> cu_active c) door_conflict
     (door_command sha actor (scope @ '':'' @ show_nat i) key payload
       (\<lambda>sh. andthen (work d order sh) (\<lambda>sh'. Inr (i, sh'))) sh)))"

section \<open>Drafts and submission\<close>

definition quotation :: "uid \<Rightarrow> int \<Rightarrow> bool \<Rightarrow> door_quote \<Rightarrow> door_quotation" where
  "quotation i version final snapshot =
     \<lparr>qt_order = i, qt_version = version, qt_approved = final, qt_total = (if final then dq_total snapshot else None),
      qt_deposit = (if final then dq_deposit snapshot else None), qt_snapshot = snapshot, qt_approved_by = None\<rparr>"

definition door_order_row :: "string \<Rightarrow> uid \<Rightarrow> int \<Rightarrow> int \<Rightarrow> order_row" where
  "door_order_row number cid amount now =
     \<lparr>or_number = number, or_customer = cid, or_status = OS_DRAFT, or_subtotal = amount, or_discount = 0, or_shipping = 0,
      or_total = amount, or_expires = now, or_address = Some ''{}'', or_items = []\<rparr>"

definition price_order :: "door_actor \<Rightarrow> uid \<Rightarrow> string \<Rightarrow> shop_db \<Rightarrow> shop_db res" where
  "price_order actor i reason sh = order_step i OS_DRAFT OS_PENDING_PAYMENT (door_info actor reason) sh"

definition submitted_status :: "bool \<Rightarrow> door_status" where
  "submitted_status final = (if final then DS_AWAITING_DEPOSIT else DS_PENDING_QUOTE_APPROVAL)"

definition create_work ::
  "int \<Rightarrow> door_actor \<Rightarrow> uid \<Rightarrow> string \<Rightarrow> bool \<Rightarrow> (door_item \<times> string) list \<Rightarrow> shop_db \<Rightarrow> (uid \<times> shop_db) res" where
  "create_work now actor cid number draft items sh =
     andthen (price_doors (map fst items) (active_models sh) (active_materials sh) now) (\<lambda>snapshot.
     let final = (\<not> draft \<and> dq_total snapshot \<noteq> None); amount = (case dq_total snapshot of None \<Rightarrow> 0 | Some t \<Rightarrow> t);
         status = (if draft then DS_DRAFT else submitted_status final); i = next_row sh in
     andthen (add_order (door_order_row number cid amount now) sh) (\<lambda>sh1.
     let sh2 = put_doors ((doors sh1)\<lparr>door_orders := door_orders (doors sh1) @ [(i, \<lparr>do_status = status, do_version = 1,
           do_quote_version = 1, do_technical = False, do_accepted = None, do_delivery = None, do_items = items\<rparr>)]\<rparr>) sh1 in
     andthen (add_quotation (quotation i 1 final snapshot) sh2) (\<lambda>(qi, sh3).
     andthen (if final then andthen (price_order actor i ''DOOR_QUOTE_APPROVED'' sh3) (\<lambda>sh4. Inr (bom i qi snapshot sh4))
       else Inr sh3) (\<lambda>sh5.
     Inr (i, door_event actor i (if draft then ''DRAFT_SAVED'' else ''SUBMITTED'')
       (if draft then ''draft saved'' else if final then ''submitted with a price'' else ''submitted for a price'')
       [(''status'', JStr (door_status_name status)), (''quoteVersion'', JNum 1)] sh5)))))"

definition create_door ::
  "(string \<Rightarrow> string) \<Rightarrow> int \<Rightarrow> door_actor \<Rightarrow> string \<Rightarrow> bool \<Rightarrow> (door_item \<times> string) list \<Rightarrow> string \<Rightarrow> string
     \<Rightarrow> shop_db \<Rightarrow> (uid \<times> shop_db) res" where
  "create_door sha now actor number draft items payload key sh =
     plain_serializable (
     need (customer_of_user sh (da_user actor)) door_conflict (\<lambda>(cid, c).
     throw_if (\<not> cu_active c) door_conflict
     (door_command sha actor (if draft then ''draft'' else ''create'') key payload
       (create_work now actor cid number draft items) sh)))"

definition replace_draft_work ::
  "int \<Rightarrow> door_actor \<Rightarrow> uid \<Rightarrow> (door_item \<times> string) list \<Rightarrow> int \<Rightarrow> door_order \<Rightarrow> shop_db \<Rightarrow> shop_db res" where
  "replace_draft_work now actor i items expected d sh =
     andthen (assert_door_version expected (do_version d)) (\<lambda>_.
     throw_if (do_status d \<noteq> DS_DRAFT) door_conflict
     (andthen (price_doors (map fst items) (active_models sh) (active_materials sh) now) (\<lambda>snapshot.
      let version = do_quote_version d + 1 in
      andthen (add_quotation (quotation i version False snapshot) sh) (\<lambda>(_, sh1).
      Inr (door_event actor i ''DRAFT_EDITED'' ''draft edited'' [(''quoteVersion'', JNum version)]
        (put_door_order i (d\<lparr>do_items := items, do_quote_version := version, do_version := do_version d + 1\<rparr>) sh1))))))"

definition replace_draft ::
  "(string \<Rightarrow> string) \<Rightarrow> int \<Rightarrow> door_actor \<Rightarrow> uid \<Rightarrow> (door_item \<times> string) list \<Rightarrow> int \<Rightarrow> string \<Rightarrow> string
     \<Rightarrow> shop_db \<Rightarrow> (uid \<times> shop_db) res" where
  "replace_draft sha now actor i items expected payload key =
     mutate sha actor i ''edit-draft'' key payload (\<lambda>d order. replace_draft_work now actor i items expected d)"

definition reprice :: "uid \<Rightarrow> order_row \<Rightarrow> int \<Rightarrow> shop_db \<Rightarrow> shop_db" where
  "reprice i order amount sh = put_order i (order\<lparr>or_subtotal := amount, or_total := amount\<rparr>) sh"

definition submit_draft_work ::
  "int \<Rightarrow> door_actor \<Rightarrow> uid \<Rightarrow> int \<Rightarrow> door_order \<Rightarrow> order_row \<Rightarrow> shop_db \<Rightarrow> shop_db res" where
  "submit_draft_work now actor i expected d order sh =
     andthen (assert_door_version expected (do_version d)) (\<lambda>_.
     throw_if (do_status d \<noteq> DS_DRAFT) door_conflict
     (andthen (price_doors (map fst (do_items d)) (active_models sh) (active_materials sh) now) (\<lambda>snapshot.
      let version = do_quote_version d + 1; final = (dq_total snapshot \<noteq> None) in
      andthen (add_quotation (quotation i version final snapshot) sh) (\<lambda>(qi, sh1).
      let sh2 = put_door_order i (d\<lparr>do_quote_version := version, do_status := submitted_status final,
            do_version := do_version d + 1\<rparr>) sh1 in
      andthen (if final
          then andthen (price_order actor i ''DOOR_QUOTE_APPROVED'' (reprice i order (the (dq_total snapshot)) sh2)) (\<lambda>sh3.
            Inr (bom i qi snapshot sh3))
          else Inr sh2) (\<lambda>sh4.
      Inr (door_event actor i ''SUBMITTED'' (if final then ''submitted with a price'' else ''submitted for a price'')
        [(''quoteVersion'', JNum version)] sh4))))))"

definition submit_draft ::
  "(string \<Rightarrow> string) \<Rightarrow> int \<Rightarrow> door_actor \<Rightarrow> uid \<Rightarrow> int \<Rightarrow> string \<Rightarrow> shop_db \<Rightarrow> (uid \<times> shop_db) res" where
  "submit_draft sha now actor i expected key =
     mutate sha actor i ''submit-draft'' key (json_object [(''expectedVersion'', JNum expected)])
       (submit_draft_work now actor i expected)"

section \<open>The final price\<close>

record door_approval =
  dp_version :: int
  dp_lines :: "(string \<times> string) list"
  dp_total :: string
  dp_adjustments :: "(string \<times> string) list"
  dp_reason :: string

fun money_sum :: "string list \<Rightarrow> int \<Rightarrow> int res" where
  "money_sum [] n = Inr n"
| "money_sum (a # as) n = andthen (door_money a) (\<lambda>v. andthen (checked_money (n + v)) (money_sum as))"

fun approval_lines :: "nat \<Rightarrow> (string \<times> string) list \<Rightarrow> string" where
  "approval_lines k [] = []"
| "approval_lines k (l # ls) = ''line '' @ show_nat k @ '': '' @ snd l
     @ (if ls = [] then [] else CHR 0x0A # approval_lines (k + 1) ls)"

definition final_line :: "door_line \<Rightarrow> int \<Rightarrow> door_line" where
  "final_line line amount = line\<lparr>ln_total := Some amount,
     ln_unit_total := (if amount mod ln_quantity line = 0 then Some (amount div ln_quantity line) else None)\<rparr>"

definition final_snapshot :: "door_approval \<Rightarrow> int \<Rightarrow> door_quote \<Rightarrow> door_quote" where
  "final_snapshot inp total_amount q =
     q\<lparr>dq_lines := map2 (\<lambda>line l. final_line line (digits_value (fst l))) (dq_lines q) (dp_lines inp),
       dq_total := Some total_amount, dq_deposit := Some total_amount, dq_deposit_policy := Some total_amount,
       dq_adjustments := map (\<lambda>(t, a). (t, digits_value a)) (dp_adjustments inp),
       dq_approval_reason := Some (dp_reason inp @ CHR 0x0A # approval_lines 1 (dp_lines inp))\<rparr>"

text \<open>The price is positive, not below what was paid, and it is the sum of the lines and the extras.\<close>

definition approved_total :: "door_approval \<Rightarrow> int \<Rightarrow> door_quote \<Rightarrow> int res" where
  "approved_total inp paid q =
     andthen (door_money (dp_total inp)) (\<lambda>amount.
     throw_if (amount \<le> 0 \<or> amount < paid) door_conflict
     (andthen (money_sum (map snd (dp_adjustments inp)) 0) (\<lambda>extras.
      throw_if (extras > amount) door_conflict
      (throw_if (length (dp_lines inp) \<noteq> length (dq_lines q)) door_conflict
      (andthen (money_sum (map fst (dp_lines inp)) extras) (\<lambda>adding.
       throw_if (adding \<noteq> amount) door_conflict (Inr amount)))))))"

definition repricing_blocked :: "(uid \<Rightarrow> bool) \<Rightarrow> uid \<Rightarrow> door_order \<Rightarrow> order_row \<Rightarrow> shop_db \<Rightarrow> bool" where
  "repricing_blocked invoiced i d order sh \<longleftrightarrow>
     do_status d \<notin> {DS_PENDING_QUOTE_APPROVAL, DS_AWAITING_DEPOSIT, DS_DEPOSIT_PAID, DS_AWAITING_TECHNICAL_APPROVAL}
     \<or> invoiced i \<or> or_status order = OS_PAID \<or> open_payments sh i
     \<or> list_ex (\<lambda>(_, r). map_option rs_status (reservation_of sh r) \<in> {Some RS_ACTIVE, Some RS_CONSUMED}) (requirements_of sh i)"

definition quote_approved_event :: "uid \<Rightarrow> uid \<Rightarrow> int \<Rightarrow> outbox_event" where
  "quote_approved_event i qi version =
     \<lparr>ob_topic = ''DOOR_QUOTE_APPROVED'', ob_aggregate = ''order'', ob_aggregate_id = i,
      ob_key = Dedup ''door-quote-approved'' qi [],
      ob_payload = [(''orderId'', JId i), (''quoteId'', JId qi), (''quoteVersion'', JNum version)]\<rparr>"

definition approve_quote_work ::
  "(uid \<Rightarrow> bool) \<Rightarrow> door_actor \<Rightarrow> uid \<Rightarrow> door_approval \<Rightarrow> door_order \<Rightarrow> order_row \<Rightarrow> shop_db \<Rightarrow> shop_db res" where
  "approve_quote_work invoiced actor i inp d order sh =
     andthen (assert_door_version (dp_version inp) (do_version d)) (\<lambda>_.
     throw_if (repricing_blocked invoiced i d order sh) door_conflict
     (andthen (current_door_quote i d sh) (\<lambda>(_, previous).
      andthen (approved_total inp (order_paid sh i) (qt_snapshot previous)) (\<lambda>amount.
      let version = do_quote_version d + 1; snapshot = final_snapshot inp amount (qt_snapshot previous) in
      andthen (add_quotation ((quotation i version True snapshot)\<lparr>qt_approved_by := Some (da_user actor)\<rparr>) sh) (\<lambda>(qi, sh1).
      let sh2 = reprice i order amount (put_door_order i (d\<lparr>do_status := DS_AWAITING_DEPOSIT, do_quote_version := version,
            do_technical := False, do_accepted := None, do_version := do_version d + 1\<rparr>) sh1) in
      andthen (if or_status order = OS_DRAFT then price_order actor i ''DOOR_QUOTE_APPROVED'' sh2 else Inr sh2) (\<lambda>sh3.
      add_outbox (quote_approved_event i qi version)
        (door_event actor i ''QUOTE_APPROVED'' (dp_reason inp)
          [(''quoteVersion'', JNum version), (''total'', JStr (show_int amount)), (''deposit'', JStr (show_int amount))]
          (bom i qi snapshot sh3))))))))"

definition approve_quote ::
  "(string \<Rightarrow> string) \<Rightarrow> (uid \<Rightarrow> bool) \<Rightarrow> door_actor \<Rightarrow> uid \<Rightarrow> door_approval \<Rightarrow> string \<Rightarrow> string
     \<Rightarrow> shop_db \<Rightarrow> (uid \<times> shop_db) res" where
  "approve_quote sha invoiced actor i inp payload key =
     mutate sha actor i ''approve-quote'' key payload (approve_quote_work invoiced actor i inp)"

section \<open>Acceptance and technical approval\<close>

definition accept_work :: "door_actor \<Rightarrow> uid \<Rightarrow> int \<Rightarrow> door_order \<Rightarrow> order_row \<Rightarrow> shop_db \<Rightarrow> shop_db res" where
  "accept_work actor i expected d order sh =
     andthen (assert_door_version expected (do_version d)) (\<lambda>_.
     andthen (current_door_quote i d sh) (\<lambda>(_, q).
     throw_if (\<not> qt_approved q \<or> do_status d \<notin> {DS_AWAITING_DEPOSIT, DS_DEPOSIT_PAID, DS_AWAITING_TECHNICAL_APPROVAL})
       door_conflict
     (let funded = (case qt_total q of None \<Rightarrow> order_paid sh i \<ge> 0 | Some t \<Rightarrow> order_paid sh i \<ge> t) in
      Inr (door_event actor i ''CUSTOMER_ACCEPTED'' ''accepted'' [(''quoteVersion'', JNum (qt_version q))]
        (put_door_order i (d\<lparr>do_accepted := Some (qt_version q), do_version := do_version d + 1,
          do_status := (if funded then DS_DEPOSIT_PAID else DS_AWAITING_DEPOSIT)\<rparr>) sh)))))"

definition accept_quote ::
  "(string \<Rightarrow> string) \<Rightarrow> door_actor \<Rightarrow> uid \<Rightarrow> int \<Rightarrow> string \<Rightarrow> shop_db \<Rightarrow> (uid \<times> shop_db) res" where
  "accept_quote sha actor i expected key =
     mutate sha actor i ''customer-accept'' key (json_object [(''expectedVersion'', JNum expected)])
       (accept_work actor i expected)"

text \<open>The current quotation is final, the customer accepted it, and it is paid.\<close>

definition fully_agreed :: "shop_db \<Rightarrow> uid \<Rightarrow> door_order \<Rightarrow> door_quotation \<Rightarrow> bool" where
  "fully_agreed sh i d q \<longleftrightarrow> qt_approved q \<and> do_accepted d = Some (qt_version q)
     \<and> order_paid sh i \<ge> (case qt_total q of None \<Rightarrow> 0 | Some t \<Rightarrow> t)"

definition technical_work ::
  "door_actor \<Rightarrow> uid \<Rightarrow> int \<Rightarrow> string \<Rightarrow> door_order \<Rightarrow> order_row \<Rightarrow> shop_db \<Rightarrow> shop_db res" where
  "technical_work actor i expected reason d order sh =
     andthen (assert_door_version expected (do_version d)) (\<lambda>_.
     throw_if (do_status d \<notin> {DS_DEPOSIT_PAID, DS_AWAITING_TECHNICAL_APPROVAL}) door_conflict
     (andthen (current_door_quote i d sh) (\<lambda>(_, q).
      throw_if (\<not> fully_agreed sh i d q) door_conflict
      (Inr (door_event actor i ''TECHNICAL_APPROVED'' reason [(''quoteVersion'', JNum (qt_version q))]
        (put_door_order i (d\<lparr>do_technical := True, do_status := DS_AWAITING_TECHNICAL_APPROVAL,
          do_version := do_version d + 1\<rparr>) sh))))))"

definition approve_technically ::
  "(string \<Rightarrow> string) \<Rightarrow> door_actor \<Rightarrow> uid \<Rightarrow> int \<Rightarrow> string \<Rightarrow> string \<Rightarrow> shop_db \<Rightarrow> (uid \<times> shop_db) res" where
  "approve_technically sha actor i expected reason key =
     mutate sha actor i ''technical-approval'' key
       (json_object [(''expectedVersion'', JNum expected), (''reason'', JStr reason)])
       (technical_work actor i expected reason)"

section \<open>Production\<close>

text \<open>What \<open>assertDoorTransition\<close> is told of an order.\<close>

record door_facts =
  df_approved :: bool
  df_accepted :: bool
  df_remaining :: int
  df_technical :: bool
  df_stock_ready :: bool
  df_consumed :: bool
  df_delivery :: bool

definition assert_door_transition :: "door_status \<Rightarrow> door_status \<Rightarrow> door_facts \<Rightarrow> unit res" where
  "assert_door_transition from next_status f =
     andthen (assert_transition from next_status door_transitions) (\<lambda>_.
     if next_status = DS_CANCELLED then Inr ()
     else throw_if (\<not> df_approved f \<or> \<not> df_accepted f) door_conflict
     (throw_if (df_remaining f > 0) door_conflict
     (throw_if (next_status \<in> {DS_APPROVED_FOR_PRODUCTION, DS_IN_PRODUCTION, DS_QUALITY_CONTROL, DS_READY_FOR_DELIVERY,
          DS_AWAITING_SETTLEMENT, DS_COMPLETED} \<and> \<not> df_technical f) door_conflict
     (throw_if (next_status = DS_IN_PRODUCTION \<and> \<not> df_stock_ready f) door_conflict
     (throw_if (next_status \<in> {DS_QUALITY_CONTROL, DS_READY_FOR_DELIVERY, DS_COMPLETED} \<and> \<not> df_consumed f) door_conflict
     (throw_if (next_status = DS_COMPLETED \<and> (df_remaining f \<noteq> 0 \<or> \<not> df_delivery f)) door_conflict (Inr ())))))))"

definition ready_requirement :: "int \<Rightarrow> shop_db \<Rightarrow> door_requirement \<Rightarrow> bool" where
  "ready_requirement now sh r \<longleftrightarrow> rq_consumed r \<noteq> None
     \<or> (case reservation_of sh r of None \<Rightarrow> False | Some s \<Rightarrow> rs_status s = RS_ACTIVE \<and> rs_expires s > now)"

text \<open>The requirements of the current quotation that take stock.\<close>

definition stocked_requirements :: "shop_db \<Rightarrow> uid \<Rightarrow> uid \<Rightarrow> (uid \<times> door_requirement) list" where
  "stocked_requirements sh i qi =
     filter (\<lambda>(_, r). rq_quote r = qi \<and> pt_variant (rq_part r) \<noteq> None) (requirements_of sh i)"

definition door_facts_of ::
  "int \<Rightarrow> shop_db \<Rightarrow> uid \<Rightarrow> door_order \<Rightarrow> uid \<Rightarrow> door_quotation \<Rightarrow> string option \<Rightarrow> door_facts" where
  "door_facts_of now sh i d qi q delivery =
     \<lparr>df_approved = qt_approved q, df_accepted = (do_accepted d = Some (qt_version q)),
      df_remaining = (case qt_total q of None \<Rightarrow> 1 | Some t \<Rightarrow> t - order_paid sh i),
      df_technical = do_technical d,
      df_stock_ready = list_all (\<lambda>(_, r). ready_requirement now sh r) (stocked_requirements sh i qi),
      df_consumed = list_all (\<lambda>(_, r). rq_consumed r \<noteq> None) (stocked_requirements sh i qi),
      df_delivery = (delivery \<noteq> None)\<rparr>"

fun free_reservations :: "actor_context \<Rightarrow> int \<Rightarrow> uid list \<Rightarrow> inv_db \<Rightarrow> inv_db res" where
  "free_reservations ctx now [] db = Inr db"
| "free_reservations ctx now (j # js) db =
     andthen (transition_production_reservation_in j PA_release ctx now db) (\<lambda>(_, db1).
     free_reservations ctx now js db1)"

definition active_reservations :: "shop_db \<Rightarrow> uid \<Rightarrow> uid list" where
  "active_reservations sh i =
     map (\<lambda>(_, r). the (rq_reservation r)) (filter (\<lambda>(_, r). reserved_now sh r) (requirements_of sh i))"

text \<open>Cancelling needs the money reconciled; it frees the materials and closes the commercial order.\<close>

definition cancel_door :: "int \<Rightarrow> door_actor \<Rightarrow> uid \<Rightarrow> order_row \<Rightarrow> shop_db \<Rightarrow> shop_db res" where
  "cancel_door now actor i order sh =
     throw_if (open_payments sh i \<or> order_paid sh i > 0) door_conflict
     (andthen (free_reservations (door_context actor) now (active_reservations sh i) (stock sh)) (\<lambda>db.
      if or_status order \<noteq> OS_PAID
      then order_step i (or_status order) OS_CANCELLED (door_info actor ''DOOR_CANCELLED'') (sh\<lparr>stock := db\<rparr>)
      else Inr (sh\<lparr>stock := db\<rparr>)))"

record door_move =
  dv_version :: int
  dv_status :: door_status
  dv_reason :: string
  dv_delivery :: "string option"

definition transition_work ::
  "int \<Rightarrow> door_actor \<Rightarrow> uid \<Rightarrow> door_move \<Rightarrow> door_order \<Rightarrow> order_row \<Rightarrow> shop_db \<Rightarrow> shop_db res" where
  "transition_work now actor i inp d order sh =
     andthen (assert_door_version (dv_version inp) (do_version d)) (\<lambda>_.
     throw_if (\<not> da_staff actor \<and> dv_status inp \<noteq> DS_CANCELLED) door_conflict
     (andthen (current_door_quote i d sh) (\<lambda>(qi, q).
      let delivery = (if dv_delivery inp = None then do_delivery d else dv_delivery inp) in
      andthen (assert_door_transition (do_status d) (dv_status inp) (door_facts_of now sh i d qi q delivery)) (\<lambda>_.
      andthen (if dv_status inp = DS_CANCELLED then cancel_door now actor i order sh else Inr sh) (\<lambda>sh1.
      Inr (door_event actor i ''STATUS_CHANGED'' (dv_reason inp)
        [(''from'', JStr (door_status_name (do_status d))), (''to'', JStr (door_status_name (dv_status inp)))]
        (put_door_order i (d\<lparr>do_status := dv_status inp, do_delivery := delivery, do_version := do_version d + 1\<rparr>) sh1)))))))"

definition transition_door ::
  "(string \<Rightarrow> string) \<Rightarrow> int \<Rightarrow> door_actor \<Rightarrow> uid \<Rightarrow> door_move \<Rightarrow> string \<Rightarrow> string \<Rightarrow> shop_db \<Rightarrow> (uid \<times> shop_db) res" where
  "transition_door sha now actor i inp payload key =
     mutate sha actor i ''transition'' key payload (transition_work now actor i inp)"

section \<open>Invoice source and messages\<close>

text \<open>\<open>address_book\<close> is the address row of the invoice with its owner, normalised for checkout.\<close>

definition invoice_source_work ::
  "(uid \<Rightarrow> bool) \<Rightarrow> (uid \<Rightarrow> (uid \<times> address res) option) \<Rightarrow> door_actor \<Rightarrow> uid \<Rightarrow> int \<Rightarrow> uid \<Rightarrow> door_order \<Rightarrow> order_row
     \<Rightarrow> shop_db \<Rightarrow> shop_db res" where
  "invoice_source_work invoiced address_book actor i expected ai d order sh =
     andthen (assert_door_version expected (do_version d)) (\<lambda>_.
     andthen (current_door_quote i d sh) (\<lambda>(qi, q).
     throw_if (\<not> qt_approved q \<or> do_accepted d \<noteq> Some (qt_version q) \<or> do_status d \<in> {DS_CANCELLED, DS_DRAFT}) door_conflict
     (throw_if (invoiced i) door_conflict
     (need (address_book ai) door_conflict (\<lambda>(cid, normalized).
      throw_if (cid \<noteq> or_customer order) door_conflict
      (andthen normalized (\<lambda>a.
       Inr (door_event actor i ''INVOICE_SOURCE_PREPARED'' ''invoice source'' [(''quoteId'', JId qi)]
         (put_door_order i (d\<lparr>do_version := do_version d + 1\<rparr>)
           (put_order i (order\<lparr>or_address := Some (json_object (address_fields a))\<rparr>) sh))))))))))"

definition prepare_invoice_source ::
  "(string \<Rightarrow> string) \<Rightarrow> (uid \<Rightarrow> bool) \<Rightarrow> (uid \<Rightarrow> (uid \<times> address res) option) \<Rightarrow> door_actor \<Rightarrow> uid \<Rightarrow> int \<Rightarrow> uid \<Rightarrow> string
     \<Rightarrow> shop_db \<Rightarrow> (uid \<times> shop_db) res" where
  "prepare_invoice_source sha invoiced address_book actor i expected ai key =
     mutate sha actor i ''invoice-source'' key
       (json_object [(''expectedVersion'', JNum expected), (''addressId'', JId ai)])
       (invoice_source_work invoiced address_book actor i expected ai)"

definition door_message ::
  "(string \<Rightarrow> string) \<Rightarrow> door_actor \<Rightarrow> uid \<Rightarrow> string \<Rightarrow> string \<Rightarrow> shop_db \<Rightarrow> (uid \<times> shop_db) res" where
  "door_message sha actor i message key =
     mutate sha actor i ''message'' key (json_object [(''message'', JStr message)]) (\<lambda>d order sh.
       throw_if (do_status d \<in> {DS_CANCELLED, DS_COMPLETED}) door_conflict
         (Inr (door_event actor i (if da_staff actor then ''STAFF_MESSAGE'' else ''CUSTOMER_MESSAGE'') message [] sh)))"

section \<open>Materials\<close>

record door_reserve =
  dz_version :: int
  dz_warehouse :: uid
  dz_location :: uid
  dz_quantity :: js_number
  dz_expires :: int
  dz_reason :: string

definition find_requirement :: "shop_db \<Rightarrow> uid \<Rightarrow> uid \<Rightarrow> uid \<Rightarrow> door_requirement option" where
  "find_requirement sh i qi j =
     (case List.find (\<lambda>(k, r). k = j \<and> rq_quote r = qi) (requirements_of sh i) of None \<Rightarrow> None | Some (k, r) \<Rightarrow> Some r)"

definition material_reserve_command :: "door_actor \<Rightarrow> door_reserve \<Rightarrow> uid \<Rightarrow> uid \<Rightarrow> int \<Rightarrow> reserve_command" where
  "material_reserve_command actor inp j v version =
     \<lparr>ctx_actor = Some (da_user actor), ctx_request = Some (da_request actor),
      rc_key = StockKey (dz_warehouse inp) (dz_location inp) v, rc_order = None,
      rc_quantity = dz_quantity inp, rc_expires = dz_expires inp, rc_expected = None,
      rc_idem = Some (''door:'' @ show_nat j @ '':'' @ show_int version)\<rparr>"

definition bump_door :: "uid \<Rightarrow> door_order \<Rightarrow> shop_db \<Rightarrow> shop_db" where
  "bump_door i d sh = put_door_order i (d\<lparr>do_version := do_version d + 1\<rparr>) sh"

definition reserve_material_work ::
  "int \<Rightarrow> door_actor \<Rightarrow> uid \<Rightarrow> uid \<Rightarrow> door_reserve \<Rightarrow> door_order \<Rightarrow> order_row \<Rightarrow> shop_db \<Rightarrow> shop_db res" where
  "reserve_material_work now actor i j inp d order sh =
     andthen (assert_door_version (dz_version inp) (do_version d)) (\<lambda>_.
     throw_if (\<not> do_technical d
         \<or> do_status d \<notin> {DS_AWAITING_TECHNICAL_APPROVAL, DS_APPROVED_FOR_PRODUCTION, DS_IN_PRODUCTION}) door_conflict
     (andthen (current_door_quote i d sh) (\<lambda>(qi, _).
      need (find_requirement sh i qi j) door_conflict (\<lambda>r.
      need (pt_variant (rq_part r)) door_conflict (\<lambda>v.
      throw_if (rq_consumed r \<noteq> None \<or> reserved_now sh r) door_conflict
      (throw_if (dz_expires inp \<le> now) door_conflict
      (andthen (on_stock (reserve_in (material_reserve_command actor inp j v (do_version d))) sh) (\<lambda>((ri, s), sh1).
       throw_if (\<exists>x \<in> set (door_requirements (doors sh1)). fst x \<noteq> j \<and> rq_reservation (snd x) = Some ri) (DbError ''P2002'')
       (Inr (door_event actor i ''MATERIAL_RESERVED'' (dz_reason inp)
         [(''requirementId'', JId j), (''reservationId'', JId ri), (''actualStockQuantity'', JNum (the_int (dz_quantity inp)))]
         (bump_door i d (put_requirement j (r\<lparr>rq_reservation := Some ri,
            rq_quantity := Some (the_int (dz_quantity inp))\<rparr>) sh1))))))))))))"

definition reserve_material ::
  "(string \<Rightarrow> string) \<Rightarrow> int \<Rightarrow> door_actor \<Rightarrow> uid \<Rightarrow> uid \<Rightarrow> door_reserve \<Rightarrow> string \<Rightarrow> string \<Rightarrow> shop_db \<Rightarrow> (uid \<times> shop_db) res"
where
  "reserve_material sha now actor i j inp payload key =
     mutate sha actor i ''reserve'' key payload (reserve_material_work now actor i j inp)"

definition action_name :: "production_action \<Rightarrow> string" where
  "action_name a = (case a of PA_consume \<Rightarrow> ''consume'' | PA_release \<Rightarrow> ''release'')"

definition material_action_work ::
  "int \<Rightarrow> door_actor \<Rightarrow> uid \<Rightarrow> uid \<Rightarrow> production_action \<Rightarrow> int \<Rightarrow> string \<Rightarrow> door_order \<Rightarrow> order_row \<Rightarrow> shop_db \<Rightarrow> shop_db res" where
  "material_action_work now actor i j action expected reason d order sh =
     andthen (assert_door_version expected (do_version d)) (\<lambda>_.
     need (map_of (requirements_of sh i) j) door_conflict (\<lambda>r.
     andthen (current_door_quote i d sh) (\<lambda>(qi, _).
     need (rq_reservation r) door_conflict (\<lambda>ri.
     throw_if (rq_quote r \<noteq> qi \<or> rq_consumed r \<noteq> None \<or> \<not> reserved_now sh r) door_conflict
     (throw_if (action = PA_consume \<and> do_status d \<noteq> DS_IN_PRODUCTION) door_conflict
     (throw_if (do_status d \<in> {DS_COMPLETED, DS_CANCELLED}) door_conflict
     (andthen (on_stock (transition_production_reservation_in ri action (door_context actor) now) sh) (\<lambda>(_, sh1).
      Inr (door_event actor i (case action of PA_consume \<Rightarrow> ''MATERIAL_CONSUMED'' | PA_release \<Rightarrow> ''MATERIAL_RELEASED'') reason
        [(''requirementId'', JId j), (''actualStockQuantity'', (case rq_quantity r of None \<Rightarrow> JNull | Some n \<Rightarrow> JNum n))]
        (bump_door i d (case action of PA_consume \<Rightarrow> put_requirement j (r\<lparr>rq_consumed := Some now\<rparr>) sh1
           | PA_release \<Rightarrow> sh1)))))))))))"

definition material_action ::
  "(string \<Rightarrow> string) \<Rightarrow> int \<Rightarrow> door_actor \<Rightarrow> uid \<Rightarrow> uid \<Rightarrow> production_action \<Rightarrow> int \<Rightarrow> string \<Rightarrow> string
     \<Rightarrow> shop_db \<Rightarrow> (uid \<times> shop_db) res" where
  "material_action sha now actor i j action expected reason key =
     mutate sha actor i (''material-'' @ action_name action) key
       (json_object [(''requirementId'', JId j), (''expectedVersion'', JNum expected), (''reason'', JStr reason)])
       (material_action_work now actor i j action expected reason)"

section \<open>What is shown\<close>

datatype door_account = UNPRICED | CREDIT | SETTLED | PARTIAL | UNPAID

text \<open>The part of \<open>project\<close> that is computed; the rest are columns of the rows.\<close>

record door_view =
  vw_order :: door_order
  vw_quote :: "uid \<times> door_quotation"
  vw_paid :: int
  vw_remaining :: "int option"
  vw_credit :: int
  vw_account :: door_account
  vw_requirements :: "(uid \<times> door_requirement) list"

definition owed_total :: "door_order \<Rightarrow> door_quotation \<Rightarrow> int option" where
  "owed_total d q = (if do_status d = DS_CANCELLED then Some 0 else qt_total q)"

definition project_door :: "uid \<Rightarrow> door_order \<Rightarrow> shop_db \<Rightarrow> door_view res" where
  "project_door i d sh =
     andthen (current_door_quote i d sh) (\<lambda>(qi, q).
     let paid = order_paid sh i; amount = owed_total d q in
     Inr \<lparr>vw_order = d, vw_quote = (qi, q), vw_paid = paid,
       vw_remaining = (case amount of None \<Rightarrow> None | Some t \<Rightarrow> Some (if t > paid then t - paid else 0)),
       vw_credit = (case amount of None \<Rightarrow> 0 | Some t \<Rightarrow> if paid > t then paid - t else 0),
       vw_account = (case amount of None \<Rightarrow> UNPRICED
         | Some t \<Rightarrow> if paid > t then CREDIT else if paid = t then SETTLED else if paid > 0 then PARTIAL else UNPAID),
       vw_requirements = filter (\<lambda>(_, r). rq_quote r = qi) (requirements_of sh i)\<rparr>)"

definition door_detail :: "door_actor \<Rightarrow> uid \<Rightarrow> shop_db \<Rightarrow> door_view res" where
  "door_detail actor i sh = andthen (owned actor i sh) (\<lambda>(d, _, _). project_door i d sh)"

definition preview_doors :: "int \<Rightarrow> door_item list \<Rightarrow> shop_db \<Rightarrow> door_quote res" where
  "preview_doors now items sh = price_doors items (active_models sh) (active_materials sh) now"

text \<open>\<open>list\<close>: staff sees every order, a customer his own, the newest first.\<close>

definition visible_doors :: "door_actor \<Rightarrow> shop_db \<Rightarrow> (uid \<times> door_order) list" where
  "visible_doors actor sh = filter (\<lambda>(i, _). da_staff actor
     \<or> (case map_of (orders sh) i of None \<Rightarrow> False
        | Some order \<Rightarrow> map_option cu_user (map_of (customers sh) (or_customer order)) = Some (da_user actor)))
     (rev (door_orders (doors sh)))"

definition list_doors :: "door_actor \<Rightarrow> nat \<Rightarrow> nat \<Rightarrow> shop_db \<Rightarrow> (door_view list \<times> nat) res" where
  "list_doors actor offset limit sh =
     andthen (map_res (\<lambda>(i, d). project_door i d sh) (take limit (drop offset (visible_doors actor sh)))) (\<lambda>views.
     Inr (views, length (visible_doors actor sh)))"

text \<open>\<open>report\<close>: the sums of the SQL query (the quotation is an inner join, the payments an outer one), and
  the number of orders in every status.\<close>

record door_report =
  dt_count :: nat
  dt_quoted :: int
  dt_paid :: int
  dt_remaining :: int
  dt_statuses :: "(door_status \<times> nat) list"

definition paid_in_report :: "shop_db \<Rightarrow> uid \<Rightarrow> int" where
  "paid_in_report sh i = (\<Sum>(_, p)\<leftarrow>filter (\<lambda>(_, p). pay_order p = i
     \<and> pay_status p \<in> {PAY_PAID, PAY_PARTIALLY_REFUNDED, PAY_REFUNDED}) (payments sh). pay_amount p - pay_refunded p)"

definition report_rows :: "shop_db \<Rightarrow> (int option \<times> int) list" where
  "report_rows sh = concat (map (\<lambda>(i, d). map (\<lambda>(_, q). (owed_total d q, paid_in_report sh i))
     (filter (\<lambda>(_, q). qt_version q = do_quote_version d) (quotations_of sh i))) (door_orders (doors sh)))"

definition greatest_zero :: "int option \<Rightarrow> int \<Rightarrow> int" where
  "greatest_zero t paid = (case t of None \<Rightarrow> 0 | Some x \<Rightarrow> max (x - paid) 0)"

definition door_report_of :: "shop_db \<Rightarrow> door_report" where
  "door_report_of sh =
     (let rows = report_rows sh; states = map (\<lambda>(_, d). do_status d) (door_orders (doors sh)) in
      \<lparr>dt_count = length rows, dt_quoted = (\<Sum>(t, _)\<leftarrow>rows. case t of None \<Rightarrow> 0 | Some x \<Rightarrow> x),
       dt_paid = (\<Sum>(_, p)\<leftarrow>rows. p), dt_remaining = (\<Sum>(t, p)\<leftarrow>rows. greatest_zero t p),
       dt_statuses = map (\<lambda>s. (s, length (filter ((=) s) states))) (remdups states)\<rparr>)"

end
