(* ===== verification/Door_Facts.thy ===== *)
theory Door_Facts
  imports Door_Orders Order_Facts Shop_Commands
begin

text \<open>
  What every state of the custom door orders satisfies, and that every command keeps it: what a
  customer accepted is the current final quotation, what is produced was accepted and approved
  technically, what left production took its materials out of stock.
\<close>

named_theorems door_fields

lemma put_fields [door_fields]:
  "orders (put_order i r sh) = AList.update i r (orders sh)" "doors (put_order i r sh) = doors sh"
  "next_row (put_order i r sh) = next_row sh" "stock (put_order i r sh) = stock sh" "payments (put_order i r sh) = payments sh"
  "orders (put_doors x sh) = orders sh" "doors (put_doors x sh) = x" "next_row (put_doors x sh) = next_row sh"
  "stock (put_doors x sh) = stock sh" "payments (put_doors x sh) = payments sh"
  by (simp_all add: put_order_def put_doors_def)

lemma door_order_fields [door_fields]:
  "orders (put_door_order i d sh) = orders sh" "door_orders (doors (put_door_order i d sh)) = AList.update i d (door_orders (doors sh))"
  "door_quotations (doors (put_door_order i d sh)) = door_quotations (doors sh)"
  "door_requirements (doors (put_door_order i d sh)) = door_requirements (doors sh)"
  "next_row (put_door_order i d sh) = next_row sh" "stock (put_door_order i d sh) = stock sh"
  "payments (put_door_order i d sh) = payments sh"
  by (simp_all add: put_door_order_def)

lemma requirement_fields [door_fields]:
  "orders (put_requirement j r sh) = orders sh" "door_orders (doors (put_requirement j r sh)) = door_orders (doors sh)"
  "door_quotations (doors (put_requirement j r sh)) = door_quotations (doors sh)"
  "door_requirements (doors (put_requirement j r sh)) = AList.update j r (door_requirements (doors sh))"
  "next_row (put_requirement j r sh) = next_row sh" "stock (put_requirement j r sh) = stock sh"
  by (simp_all add: put_requirement_def door_fields)

lemma event_fields [door_fields]:
  "orders (door_event actor i a m p sh) = orders sh" "door_orders (doors (door_event actor i a m p sh)) = door_orders (doors sh)"
  "door_quotations (doors (door_event actor i a m p sh)) = door_quotations (doors sh)"
  "door_requirements (doors (door_event actor i a m p sh)) = door_requirements (doors sh)"
  "next_row (door_event actor i a m p sh) = next_row sh"
  "reservations (stock (door_event actor i a m p sh)) = reservations (stock sh)"
  by (simp_all add: door_event_def audit_def add_door_record_def record_audit_def)

lemma reprice_fields [door_fields]:
  "orders (reprice i o' t sh) = AList.update i (o'\<lparr>or_subtotal := t, or_total := t\<rparr>) (orders sh)"
  "doors (reprice i o' t sh) = doors sh" "next_row (reprice i o' t sh) = next_row sh" "stock (reprice i o' t sh) = stock sh"
  by (simp_all add: reprice_def door_fields)

lemma bump_fields [door_fields]:
  "orders (bump_door i d sh) = orders sh"
  "door_orders (doors (bump_door i d sh)) = AList.update i (d\<lparr>do_version := do_version d + 1\<rparr>) (door_orders (doors sh))"
  "door_quotations (doors (bump_door i d sh)) = door_quotations (doors sh)"
  "door_requirements (doors (bump_door i d sh)) = door_requirements (doors sh)"
  "next_row (bump_door i d sh) = next_row sh" "stock (bump_door i d sh) = stock sh"
  by (simp_all add: bump_door_def door_fields)

definition bom_rows :: "uid \<Rightarrow> uid \<Rightarrow> door_quote \<Rightarrow> uid \<Rightarrow> (uid \<times> door_requirement) list" where
  "bom_rows i qi snapshot start = map (\<lambda>(k, p). (start + k, \<lparr>rq_order = i, rq_quote = qi, rq_part = p, rq_quantity = None,
     rq_reservation = None, rq_consumed = None\<rparr>))
     (zip [0..<length (concat (map ln_parts (dq_lines snapshot)))] (concat (map ln_parts (dq_lines snapshot))))"

lemma bom_fields [door_fields]:
  "orders (bom i qi s sh) = orders sh" "door_orders (doors (bom i qi s sh)) = door_orders (doors sh)"
  "door_quotations (doors (bom i qi s sh)) = door_quotations (doors sh)"
  "door_requirements (doors (bom i qi s sh)) = door_requirements (doors sh) @ bom_rows i qi s (next_row sh)"
  "next_row (bom i qi s sh) = next_row sh + length (bom_rows i qi s (next_row sh))" "stock (bom i qi s sh) = stock sh"
  by (simp_all add: bom_def Let_def door_fields bom_rows_def)

lemma bom_rows_mem: "(j, r) \<in> set (bom_rows i qi s n) \<Longrightarrow>
    n \<le> j \<and> j < n + length (bom_rows i qi s n) \<and> rq_order r = i \<and> rq_quote r = qi \<and> rq_consumed r = None"
  by (auto simp: bom_rows_def dest: set_zip_leftD)

lemma bom_rows_distinct: "distinct (map fst (bom_rows i qi s n))"
proof -
  have "map fst (bom_rows i qi s n) = map ((+) n) (map fst (zip [0..<length (concat (map ln_parts (dq_lines s)))] (concat (map ln_parts (dq_lines s)))))"
    by (rule nth_equalityI) (simp_all add: bom_rows_def case_prod_beta)
  then show ?thesis by (simp add: distinct_map)
qed

section \<open>The invariant\<close>

definition producing :: "door_status set" where
  "producing = {DS_APPROVED_FOR_PRODUCTION, DS_IN_PRODUCTION, DS_QUALITY_CONTROL, DS_READY_FOR_DELIVERY,
     DS_AWAITING_SETTLEMENT, DS_COMPLETED}"

definition produced :: "door_status set" where
  "produced = {DS_QUALITY_CONTROL, DS_READY_FOR_DELIVERY, DS_AWAITING_SETTLEMENT, DS_COMPLETED}"

definition unpriced_status :: "door_status set" where
  "unpriced_status = {DS_DRAFT, DS_PENDING_QUOTE_APPROVAL}"

text \<open>The terms of an order against its current quotation and its commercial order.\<close>

definition terms_ok :: "door_order \<Rightarrow> door_quotation \<Rightarrow> order_row \<Rightarrow> bool" where
  "terms_ok d q order \<longleftrightarrow>
     (if qt_approved q then qt_total q = Some (or_total order) \<and> or_status order \<noteq> OS_DRAFT \<and> do_status d \<notin> unpriced_status
      else do_accepted d = None \<and> qt_total q = None)
     \<and> (do_accepted d \<noteq> None \<longrightarrow> do_accepted d = Some (do_quote_version d))
     \<and> (do_technical d \<longrightarrow> do_accepted d \<noteq> None) \<and> (do_status d \<in> producing \<longrightarrow> do_technical d)"

text \<open>The versions of an order are different, and none is above the current one.\<close>

definition versions_ok :: "shop_db \<Rightarrow> uid \<Rightarrow> int \<Rightarrow> bool" where
  "versions_ok sh i v \<longleftrightarrow> (\<forall>x \<in> set (quotations_of sh i). qt_version (snd x) \<le> v)
     \<and> distinct (map (\<lambda>x. qt_version (snd x)) (quotations_of sh i))"

definition door_row_ok :: "shop_db \<Rightarrow> uid \<Rightarrow> door_order \<Rightarrow> bool" where
  "door_row_ok sh i d \<longleftrightarrow> (\<exists>order qi q. map_of (orders sh) i = Some order \<and> current_quotation sh i d = Some (qi, q)
     \<and> versions_ok sh i (do_quote_version d) \<and> terms_ok d q order
     \<and> (do_status d \<in> produced \<longrightarrow> (\<forall>x \<in> set (stocked_requirements sh i qi). rq_consumed (snd x) \<noteq> None)))"

definition door_keys :: "shop_db \<Rightarrow> bool" where
  "door_keys sh \<longleftrightarrow> (\<forall>x \<in> set (orders sh). fst x < next_row sh) \<and> (\<forall>x \<in> set (door_orders (doors sh)). fst x < next_row sh)
     \<and> (\<forall>x \<in> set (door_quotations (doors sh)). fst x < next_row sh \<and> qt_order (snd x) < next_row sh)
     \<and> (\<forall>x \<in> set (door_requirements (doors sh)). fst x < next_row sh \<and> rq_order (snd x) < next_row sh \<and> rq_quote (snd x) < next_row sh)
     \<and> distinct (map fst (door_requirements (doors sh))) \<and> distinct (map fst (door_orders (doors sh)))"

definition consumed_ok :: "shop_db \<Rightarrow> bool" where
  "consumed_ok sh \<longleftrightarrow> (\<forall>x \<in> set (door_requirements (doors sh)). rq_consumed (snd x) \<noteq> None
     \<longrightarrow> map_option rs_status (reservation_of sh (snd x)) = Some RS_CONSUMED)"

definition doors_ok :: "shop_db \<Rightarrow> bool" where
  "doors_ok sh \<longleftrightarrow> door_keys sh \<and> consumed_ok sh
     \<and> (\<forall>i d. map_of (door_orders (doors sh)) i = Some d \<longrightarrow> door_row_ok sh i d)"

lemma quotations_of_cong: "door_quotations (doors sh') = door_quotations (doors sh) \<Longrightarrow> quotations_of sh' = quotations_of sh"
  by (simp add: quotations_of_def fun_eq_iff)

lemma requirements_of_cong: "door_requirements (doors sh') = door_requirements (doors sh) \<Longrightarrow> requirements_of sh' = requirements_of sh"
  by (simp add: requirements_of_def fun_eq_iff)

lemma reservation_of_cong: "reservations (stock sh') = reservations (stock sh) \<Longrightarrow> reservation_of sh' = reservation_of sh"
  by (simp add: reservation_of_def fun_eq_iff split: option.split)

lemma door_row_ok_cong:
  assumes "map_of (orders sh') i = map_of (orders sh) i" "quotations_of sh' i = quotations_of sh i"
    "requirements_of sh' i = requirements_of sh i"
  shows "door_row_ok sh' i d = door_row_ok sh i d"
  using assms by (simp add: door_row_ok_def versions_ok_def current_quotation_def stocked_requirements_def)

lemma doors_okI:
  assumes ok: "doors_ok sh" and keys: "door_keys sh'" "consumed_ok sh'"
    and others: "\<And>j. j \<noteq> i \<Longrightarrow> map_of (door_orders (doors sh')) j = map_of (door_orders (doors sh)) j"
      "\<And>j. j \<noteq> i \<Longrightarrow> map_of (orders sh') j = map_of (orders sh) j" "\<And>j. j \<noteq> i \<Longrightarrow> quotations_of sh' j = quotations_of sh j"
      "\<And>j. j \<noteq> i \<Longrightarrow> requirements_of sh' j = requirements_of sh j"
    and mine: "\<And>d. map_of (door_orders (doors sh')) i = Some d \<Longrightarrow> door_row_ok sh' i d"
  shows "doors_ok sh'"
  unfolding doors_ok_def
proof (intro conjI allI impI keys)
  fix j d assume d: "map_of (door_orders (doors sh')) j = Some d"
  show "door_row_ok sh' j d"
  proof (cases "j = i")
    case False
    have "door_row_ok sh j d" using ok d others(1)[OF False] unfolding doors_ok_def by metis
    then show ?thesis using door_row_ok_cong[OF others(2,3,4)[OF False], of d] by blast
  next
    case True
    then show ?thesis using mine d by blast
  qed
qed

lemma doors_ok_same:
  assumes "doors_ok sh" "orders sh' = orders sh" "door_orders (doors sh') = door_orders (doors sh)"
    "door_quotations (doors sh') = door_quotations (doors sh)" "door_requirements (doors sh') = door_requirements (doors sh)"
    "next_row sh \<le> next_row sh'" "reservations (stock sh') = reservations (stock sh)"
  shows "doors_ok sh'"
proof -
  have k: "door_keys sh'" using assms by (fastforce simp: doors_ok_def door_keys_def)
  have c: "consumed_ok sh'" using assms(1) unfolding doors_ok_def consumed_ok_def reservation_of_cong[OF assms(7)] assms(5) by blast
  have "door_row_ok sh' i d" if "map_of (door_orders (doors sh')) i = Some d" for i d
  proof -
    have "door_row_ok sh i d" using that assms(1) unfolding doors_ok_def assms(3) by blast
    moreover have "map_of (orders sh') i = map_of (orders sh) i" by (simp add: assms(2))
    ultimately show ?thesis
      using door_row_ok_cong[of sh' i sh d] quotations_of_cong[OF assms(4)] requirements_of_cong[OF assms(5)] by metis
  qed
  then show ?thesis using k c unfolding doors_ok_def by blast
qed

section \<open>The two ways a command changes an order\<close>

text \<open>A new quotation with new terms, and new terms under the same quotation.\<close>

lemma current_quotation_new:
  assumes "versions_ok sh i v"
    and "door_quotations (doors sh') = door_quotations (doors sh) @ [(k, q)]" "qt_order q = i" "qt_version q = v + 1"
    and "do_quote_version d' = v + 1"
  shows "current_quotation sh' i d' = Some (k, q)" "versions_ok sh' i (v + 1)"
proof -
  have qs: "quotations_of sh' i = quotations_of sh i @ [(k, q)]" using assms(2,3) by (simp add: quotations_of_def)
  have "List.find (\<lambda>(_, q). qt_version q = v + 1) (quotations_of sh i) = None"
    using assms(1) by (force simp: versions_ok_def find_None_iff)
  then show "current_quotation sh' i d' = Some (k, q)" by (simp add: current_quotation_def qs assms(4,5) find_snoc)
  show "versions_ok sh' i (v + 1)" using assms(1,4) by (force simp: versions_ok_def qs)
qed

lemma revise_ok:
  assumes ok: "doors_ok sh" and i: "i < next_row sh" and old: "versions_ok sh i v"
    and orders: "map_of (orders sh') = (map_of (orders sh))(i \<mapsto> order')" "fst ` set (orders sh') \<subseteq> insert i (fst ` set (orders sh))"
    and door: "map_of (door_orders (doors sh')) = (map_of (door_orders (doors sh)))(i \<mapsto> d')"
      "fst ` set (door_orders (doors sh')) \<subseteq> insert i (fst ` set (door_orders (doors sh)))"
      "distinct (map fst (door_orders (doors sh)))  \<Longrightarrow> distinct (map fst (door_orders (doors sh')))"
    and quotes: "door_quotations (doors sh') = door_quotations (doors sh) @ [(next_row sh, q)]" "qt_order q = i"
      "qt_version q = v + 1" "do_quote_version d' = v + 1"
    and reqs: "door_requirements (doors sh') = door_requirements (doors sh) @ rows" "distinct (map fst rows)"
      "\<forall>x \<in> set rows. next_row sh < fst x \<and> fst x < next_row sh' \<and> rq_order (snd x) = i \<and> rq_quote (snd x) = next_row sh
         \<and> rq_consumed (snd x) = None"
    and rest: "next_row sh < next_row sh'" "reservations (stock sh') = reservations (stock sh)"
    and terms: "terms_ok d' q order'" "do_status d' \<notin> produced"
  shows "doors_ok sh'"
proof -
  have keys: "door_keys sh" and cons: "consumed_ok sh" using ok by (auto simp: doors_ok_def)
  show ?thesis
  proof (rule doors_okI[of sh sh' i, OF ok])
    have "\<forall>x \<in> set (orders sh'). fst x < next_row sh'"
      using orders(2) i rest(1) keys by (fastforce simp: door_keys_def)
    moreover have "\<forall>x \<in> set (door_orders (doors sh')). fst x < next_row sh'"
      using door(2) i rest(1) keys by (fastforce simp: door_keys_def)
    moreover have "distinct (map fst (door_requirements (doors sh')))"
      using keys reqs(2,3) unfolding reqs(1) by (force simp: door_keys_def)
    ultimately show "door_keys sh'"
      using keys reqs(3) rest(1) i quotes(2) door(3) unfolding door_keys_def quotes(1) reqs(1) by fastforce
    show "consumed_ok sh'"
      using cons reqs(3) unfolding consumed_ok_def reservation_of_cong[OF rest(2)] reqs(1) by auto
    show "map_of (door_orders (doors sh')) j = map_of (door_orders (doors sh)) j" "map_of (orders sh') j = map_of (orders sh) j"
      "quotations_of sh' j = quotations_of sh j" "requirements_of sh' j = requirements_of sh j" if "j \<noteq> i" for j
    proof -
      show "map_of (door_orders (doors sh')) j = map_of (door_orders (doors sh)) j" using that by (simp add: door(1))
      show "map_of (orders sh') j = map_of (orders sh) j" using that by (simp add: orders(1))
      show "quotations_of sh' j = quotations_of sh j" using that quotes(2) by (simp add: quotations_of_def quotes(1))
      have "filter (\<lambda>(_, r). rq_order r = j) rows = []" using reqs(3) that by (auto simp: filter_empty_conv)
      then show "requirements_of sh' j = requirements_of sh j" by (simp add: requirements_of_def reqs(1))
    qed
    fix d1 assume "map_of (door_orders (doors sh')) i = Some d1"
    then have "d1 = d'" by (simp add: door(1))
    then show "door_row_ok sh' i d1"
      using current_quotation_new[OF old quotes] terms orders(1) quotes(4) by (simp add: door_row_ok_def)
  qed
qed

lemma consumed_advances:
  assumes "consumed_ok sh" "advances (stock sh) (stock sh')" "door_requirements (doors sh') = door_requirements (doors sh)"
  shows "consumed_ok sh'"
  unfolding consumed_ok_def
proof (intro ballI impI)
  fix x assume x: "x \<in> set (door_requirements (doors sh'))" "rq_consumed (snd x) \<noteq> None"
  then have "map_option rs_status (reservation_of sh (snd x)) = Some RS_CONSUMED"
    using assms(1) unfolding assms(3) consumed_ok_def by blast
  then obtain j r where r: "rq_reservation (snd x) = Some j" "map_of (reservations (stock sh)) j = Some r" "rs_status r = RS_CONSUMED"
    by (auto simp: reservation_of_def split: option.splits)
  then obtain r' where "map_of (reservations (stock sh')) j = Some r'" "settled_step r r'"
    using assms(2) unfolding advances_def by blast
  then have "map_of (reservations (stock sh')) j = Some r'" "rs_status r' = RS_CONSUMED"
    using r(3) by (auto simp: settled_step_def)
  then show "map_option rs_status (reservation_of sh' (snd x)) = Some RS_CONSUMED" using r(1) by (simp add: reservation_of_def)
qed

lemma stock_ok:
  assumes "doors_ok sh" "advances (stock sh) db" shows "doors_ok (sh\<lparr>stock := db\<rparr>)"
proof -
  let ?sh = "sh\<lparr>stock := db\<rparr>"
  have "door_keys ?sh" using assms(1) by (simp add: doors_ok_def door_keys_def)
  moreover have "consumed_ok ?sh" by (rule consumed_advances[of sh]) (use assms in \<open>simp_all add: doors_ok_def\<close>)
  moreover have "door_row_ok ?sh i d = door_row_ok sh i d" for i d
    by (rule door_row_ok_cong) (simp_all add: quotations_of_def requirements_of_def)
  ultimately show ?thesis using assms(1) unfolding doors_ok_def by simp
qed

lemma amend_ok:
  assumes ok: "doors_ok sh" and d: "map_of (door_orders (doors sh)) i = Some d" and cq: "current_quotation sh i d = Some (qi, q)"
    and orders: "map_of (orders sh') = (map_of (orders sh))(i \<mapsto> order')" "fst ` set (orders sh') \<subseteq> insert i (fst ` set (orders sh))"
    and door: "door_orders (doors sh') = AList.update i d' (door_orders (doors sh))" "do_quote_version d' = do_quote_version d"
    and same: "door_quotations (doors sh') = door_quotations (doors sh)" "door_requirements (doors sh') = door_requirements (doors sh)"
    and rest: "next_row sh \<le> next_row sh'" "reservations (stock sh') = reservations (stock sh)"
    and terms: "terms_ok d' q order'"
      "do_status d' \<in> produced \<Longrightarrow> \<forall>x \<in> set (stocked_requirements sh i qi). rq_consumed (snd x) \<noteq> None"
  shows "doors_ok sh'"
proof -
  have keys: "door_keys sh" and cons: "consumed_ok sh" and row: "door_row_ok sh i d" using ok d by (auto simp: doors_ok_def)
  have i: "i < next_row sh" using keys map_of_SomeD[OF d] by (auto simp: door_keys_def)
  note qs = quotations_of_cong[OF same(1)] and rs = requirements_of_cong[OF same(2)]
  show ?thesis
  proof (rule doors_okI[of sh sh' i, OF ok])
    have "\<forall>x \<in> set (orders sh'). fst x < next_row sh'"
      using orders(2) i rest(1) keys by (fastforce simp: door_keys_def)
    moreover have "\<forall>x \<in> set (door_orders (doors sh')). fst x < next_row sh'"
      using fst_set_update[of i d' "door_orders (doors sh)"] i rest(1) keys unfolding door(1) door_keys_def
      by (metis (no_types, lifting) imageE imageI insertE less_le_trans)
    moreover have "distinct (map fst (door_orders (doors sh')))"
      using keys by (simp add: door_keys_def door(1) distinct_update)
    ultimately show "door_keys sh'"
      using keys rest(1) unfolding door_keys_def same by fastforce
    show "consumed_ok sh'" using cons unfolding consumed_ok_def reservation_of_cong[OF rest(2)] same .
    show "map_of (door_orders (doors sh')) j = map_of (door_orders (doors sh)) j" "map_of (orders sh') j = map_of (orders sh) j"
      "quotations_of sh' j = quotations_of sh j" "requirements_of sh' j = requirements_of sh j" if "j \<noteq> i" for j
      using that by (simp_all add: door(1) update_conv orders(1) qs rs)
    fix d1 assume "map_of (door_orders (doors sh')) i = Some d1"
    then have "d1 = d'" by (simp add: door update_conv)
    moreover have "current_quotation sh' i d' = Some (qi, q)" using cq by (simp add: current_quotation_def qs door(2))
    moreover have "versions_ok sh' i (do_quote_version d')"
      using row by (auto simp: door_row_ok_def door(2) versions_ok_def qs)
    moreover have "stocked_requirements sh' i qi = stocked_requirements sh i qi" by (simp add: stocked_requirements_def rs)
    ultimately show "door_row_ok sh' i d1"
      unfolding door_row_ok_def qs using terms orders(1) by (intro exI[of _ order'] exI[of _ qi] exI[of _ q]) simp
  qed
qed

lemma requirement_ok:
  assumes ok: "doors_ok sh" and r: "map_of (door_requirements (doors sh)) j = Some r"
    and same: "rq_order r' = rq_order r" "rq_quote r' = rq_quote r" "rq_part r' = rq_part r"
    and cons: "rq_consumed r' \<noteq> None \<Longrightarrow> map_option rs_status (reservation_of sh r') = Some RS_CONSUMED"
      "rq_consumed r \<noteq> None \<Longrightarrow> rq_consumed r' \<noteq> None"
  shows "doors_ok (put_requirement j r' sh)" (is "doors_ok ?sh")
proof -
  have mem: "x \<in> insert (j, r') (set (door_requirements (doors sh)))" if "x \<in> set (door_requirements (doors ?sh))" for x
    using that set_update_subset[of j r' "door_requirements (doors sh)"] by (auto simp: door_fields)
  have jr: "(j, r) \<in> set (door_requirements (doors sh))" using r by (rule map_of_SomeD)
  have "distinct (map fst (door_requirements (doors ?sh)))"
    using ok by (simp add: doors_ok_def door_keys_def door_fields distinct_update)
  moreover have "fst x < next_row sh \<and> rq_order (snd x) < next_row sh \<and> rq_quote (snd x) < next_row sh"
    if here: "x \<in> set (door_requirements (doors ?sh))" for x
  proof -
    obtain y where "y \<in> set (door_requirements (doors sh))" "fst x = fst y" "rq_order (snd x) = rq_order (snd y)"
      "rq_quote (snd x) = rq_quote (snd y)"
      using mem[OF here] jr same by (cases "x = (j, r')") auto
    then show ?thesis using ok by (simp add: doors_ok_def door_keys_def)
  qed
  ultimately have "door_keys ?sh"
    using ok unfolding doors_ok_def door_keys_def by (simp add: door_fields)
  moreover have "consumed_ok ?sh"
    unfolding consumed_ok_def
  proof (intro ballI impI)
    fix x assume x: "x \<in> set (door_requirements (doors ?sh))" "rq_consumed (snd x) \<noteq> None"
    have same_stock: "reservation_of ?sh = reservation_of sh" by (rule reservation_of_cong) (simp add: door_fields)
    show "map_option rs_status (reservation_of ?sh (snd x)) = Some RS_CONSUMED"
    proof (cases "x = (j, r')")
      case True
      then show ?thesis using cons(1) x(2) unfolding same_stock by simp
    next
      case False
      then have "x \<in> set (door_requirements (doors sh))" using mem[OF x(1)] by simp
      then show ?thesis using ok x(2) unfolding doors_ok_def consumed_ok_def same_stock by blast
    qed
  qed
  moreover have "door_row_ok ?sh i d" if "map_of (door_orders (doors ?sh)) i = Some d" for i d
  proof -
    have row: "door_row_ok sh i d" using that ok by (simp add: doors_ok_def door_fields)
    have qs: "quotations_of ?sh = quotations_of sh" by (rule quotations_of_cong) (simp add: door_fields)
    have "rq_consumed (snd x) \<noteq> None"
      if all: "\<forall>x \<in> set (stocked_requirements sh i qi). rq_consumed (snd x) \<noteq> None" and x: "x \<in> set (stocked_requirements ?sh i qi)" for qi x
    proof (cases "x = (j, r')")
      case True
      then have "(j, r) \<in> set (stocked_requirements sh i qi)"
        using x jr same by (auto simp: stocked_requirements_def requirements_of_def)
      then show ?thesis using all cons(2) True by auto
    next
      case False
      then have "x \<in> set (stocked_requirements sh i qi)"
        using x mem[of x] by (auto simp: stocked_requirements_def requirements_of_def)
      then show ?thesis using all by blast
    qed
    then show ?thesis using row unfolding door_row_ok_def versions_ok_def current_quotation_def qs by (auto simp: door_fields)
  qed
  ultimately show ?thesis unfolding doors_ok_def by blast
qed

section \<open>Every command keeps the invariant\<close>

definition door_inv :: "shop_db \<Rightarrow> bool" where
  "door_inv sh \<longleftrightarrow> doors_ok sh \<and> ledger_ok (stock sh)"

lemma event_ok: "door_inv sh \<Longrightarrow> door_inv (door_event actor i a m p sh)"
proof -
  assume ok: "door_inv sh"
  have "doors_ok (door_event actor i a m p sh)"
    by (rule doors_ok_same[of sh]) (use ok in \<open>simp_all add: door_fields door_inv_def\<close>)
  moreover have "ledger_ok (stock (door_event actor i a m p sh))"
    using ok by (simp add: door_inv_def door_event_def audit_def add_door_record_def ledger_ok_same)
  ultimately show ?thesis by (simp add: door_inv_def)
qed

lemma door_command_ok:
  assumes "door_command sha actor scope key payload work sh = Inr (i, sh')" "door_inv sh"
    and "\<And>j sh1. work sh = Inr (j, sh1) \<Longrightarrow> door_inv sh1"
  shows "door_inv sh'"
proof -
  have "sh' = sh \<or> (\<exists>j sh1 c. work sh = Inr (j, sh1) \<and> sh' = put_doors ((doors sh1)\<lparr>door_commands := c\<rparr>) sh1)"
    using assms(1) by (auto simp: door_command_def Let_def andthen_Inr throw_if_Inr split: option.splits)
  then show ?thesis
  proof (elim disjE exE conjE)
    fix j sh1 c assume run: "work sh = Inr (j, sh1)" and sh': "sh' = put_doors ((doors sh1)\<lparr>door_commands := c\<rparr>) sh1"
    have "doors_ok sh'"
      by (rule doors_ok_same[of sh1]) (use assms(3)[OF run] in \<open>simp_all add: sh' door_fields door_inv_def\<close>)
    then show ?thesis using assms(3)[OF run] by (simp add: door_inv_def sh' door_fields)
  qed (use assms(2) in simp)
qed

lemma mutate_ok:
  assumes run: "mutate sha actor i scope key payload work sh = Inr (j, sh')" and ok: "door_inv sh"
    and work: "\<And>d order sh1. map_of (door_orders (doors sh)) i = Some d \<Longrightarrow> map_of (orders sh) i = Some order
      \<Longrightarrow> work d order sh = Inr sh1 \<Longrightarrow> door_inv sh1"
  shows "door_inv sh'"
proof -
  obtain d order c where row: "map_of (door_orders (doors sh)) i = Some d" "map_of (orders sh) i = Some order"
    and cmd: "door_command sha actor (scope @ '':'' @ show_nat i) key payload
       (\<lambda>sh. andthen (work d order sh) (\<lambda>sh'. Inr (i, sh'))) sh = Inr (j, sh')"
    using run by (auto simp: mutate_def plain_serializable_def serializable_Inr andthen_Inr owned_def need_Inr throw_if_Inr)
  show ?thesis
    by (rule door_command_ok[OF cmd ok]) (use work[OF row] in \<open>auto simp: andthen_Inr\<close>)
qed

lemma terms_of:
  assumes "door_inv sh" "map_of (door_orders (doors sh)) i = Some d" "map_of (orders sh) i = Some order"
  obtains qi q where "current_quotation sh i d = Some (qi, q)" "terms_ok d q order" "qt_version q = do_quote_version d"
    "do_status d \<in> produced \<Longrightarrow> \<forall>x \<in> set (stocked_requirements sh i qi). rq_consumed (snd x) \<noteq> None"
proof -
  have "door_row_ok sh i d" using assms(1,2) by (simp add: door_inv_def doors_ok_def)
  then obtain qi q where q: "current_quotation sh i d = Some (qi, q)" "terms_ok d q order"
    "do_status d \<in> produced \<Longrightarrow> \<forall>x \<in> set (stocked_requirements sh i qi). rq_consumed (snd x) \<noteq> None"
    using assms(3) by (auto simp: door_row_ok_def)
  moreover have "qt_version q = do_quote_version d"
    using q(1) by (auto simp: current_quotation_def find_Some_iff)
  ultimately show thesis using that by blast
qed

text \<open>Accepting, approving technically, moving on: new terms under the same quotation.\<close>

lemma put_door_ok:
  assumes ok: "door_inv sh" and row: "map_of (door_orders (doors sh)) i = Some d" "map_of (orders sh) i = Some order"
    and q: "current_quotation sh i d = Some (qi, q)" "terms_ok d' q order" "do_quote_version d' = do_quote_version d"
    and prod: "do_status d' \<in> produced \<Longrightarrow> \<forall>x \<in> set (stocked_requirements sh i qi). rq_consumed (snd x) \<noteq> None"
  shows "door_inv (put_door_order i d' sh)"
proof -
  have "doors_ok (put_door_order i d' sh)"
  proof (rule amend_ok[OF _ row(1) q(1), where order' = order and d' = d'])
    show "doors_ok sh" using ok by (simp add: door_inv_def)
    show "map_of (orders (put_door_order i d' sh)) = (map_of (orders sh))(i \<mapsto> order)"
      using row(2) by (simp add: door_fields fun_upd_idem)
    show "fst ` set (orders (put_door_order i d' sh)) \<subseteq> insert i (fst ` set (orders sh))" by (auto simp: door_fields)
  qed (use q prod in \<open>simp_all add: door_fields\<close>)
  then show ?thesis using ok by (simp add: door_inv_def door_fields)
qed

lemma accept_ok:
  assumes run: "accept_work actor i expected d order sh = Inr sh'" and ok: "door_inv sh"
    and row: "map_of (door_orders (doors sh)) i = Some d" "map_of (orders sh) i = Some order"
  shows "door_inv sh'"
proof (rule terms_of[OF ok row])
  fix qi q assume q: "current_quotation sh i d = Some (qi, q)" "terms_ok d q order" "qt_version q = do_quote_version d"
  have key: "door_inv (put_door_order i (d\<lparr>do_accepted := Some (qt_version q), do_version := do_version d + 1,
      do_status := (if funded then DS_DEPOSIT_PAID else DS_AWAITING_DEPOSIT)\<rparr>) sh)" if "qt_approved q" for funded
    by (rule put_door_ok[OF ok row q(1)])
      (use q(2,3) that in \<open>auto simp: terms_ok_def producing_def produced_def unpriced_status_def split: if_splits\<close>)
  then show ?thesis
    using run by (auto simp: accept_work_def current_door_quote_def q(1) andthen_Inr throw_if_Inr Let_def intro!: event_ok)
qed

lemma technical_ok:
  assumes run: "technical_work actor i expected reason d order sh = Inr sh'" and ok: "door_inv sh"
    and row: "map_of (door_orders (doors sh)) i = Some d" "map_of (orders sh) i = Some order"
  shows "door_inv sh'"
proof (rule terms_of[OF ok row])
  fix qi q assume q: "current_quotation sh i d = Some (qi, q)" "terms_ok d q order" "qt_version q = do_quote_version d"
  have key: "door_inv (put_door_order i (d\<lparr>do_technical := True, do_status := DS_AWAITING_TECHNICAL_APPROVAL,
      do_version := do_version d + 1\<rparr>) sh)" if "fully_agreed sh i d q"
    by (rule put_door_ok[OF ok row q(1)])
      (use q(2,3) that in \<open>auto simp: terms_ok_def producing_def produced_def unpriced_status_def fully_agreed_def\<close>)
  then show ?thesis
    using run by (auto simp: technical_work_def current_door_quote_def q(1) andthen_Inr throw_if_Inr Let_def intro!: event_ok)
qed

lemma bump_ok:
  assumes ok: "door_inv sh" and row: "map_of (door_orders (doors sh)) i = Some d" "map_of (orders sh) i = Some order"
  shows "door_inv (bump_door i d sh)"
proof (rule terms_of[OF ok row])
  fix qi q assume q: "current_quotation sh i d = Some (qi, q)" "terms_ok d q order" "qt_version q = do_quote_version d"
    "do_status d \<in> produced \<Longrightarrow> \<forall>x \<in> set (stocked_requirements sh i qi). rq_consumed (snd x) \<noteq> None"
  show ?thesis unfolding bump_door_def
    by (rule put_door_ok[OF ok row q(1)]) (use q(2,4) in \<open>simp_all add: terms_ok_def\<close>)
qed

lemma order_step_frame:
  assumes "order_step i s t info sh = Inr sh'"
  obtains order where "map_of (orders sh) i = Some order" "orders sh' = AList.update i (order\<lparr>or_status := t\<rparr>) (orders sh)"
    "doors sh' = doors sh" "stock sh' = stock sh" "next_row sh' = next_row sh" "payments sh' = payments sh"
  using assms by (auto simp: order_step_def andthen_Inr record_transition_Inr)

lemma door_order_step_ok:
  assumes run: "order_step i s t info sh = Inr sh'" and ok: "door_inv sh" and t: "t \<noteq> OS_DRAFT"
  shows "door_inv sh'"
proof (rule order_step_frame[OF run])
  fix order assume f: "map_of (orders sh) i = Some order" "orders sh' = AList.update i (order\<lparr>or_status := t\<rparr>) (orders sh)"
    "doors sh' = doors sh" "stock sh' = stock sh" "next_row sh' = next_row sh"
  have ok': "doors_ok sh" using ok by (simp add: door_inv_def)
  have i: "i < next_row sh" using ok' map_of_SomeD[OF f(1)] by (auto simp: doors_ok_def door_keys_def)
  have "\<forall>x \<in> set (orders sh'). fst x < next_row sh"
    using set_update_subset[of i "order\<lparr>or_status := t\<rparr>" "orders sh"] i ok' unfolding f(2) by (fastforce simp: doors_ok_def door_keys_def)
  then have k: "door_keys sh'" using ok' by (simp add: doors_ok_def door_keys_def f(3,5))
  have c: "consumed_ok sh'" using ok' by (simp add: doors_ok_def consumed_ok_def reservation_of_def f(3,4) cong: option.case_cong)
  have "doors_ok sh'"
  proof (rule doors_okI[OF ok' k c, of i])
    fix d assume "map_of (door_orders (doors sh')) i = Some d"
    then have "door_row_ok sh i d" using ok' by (simp add: f(3) doors_ok_def)
    moreover have "quotations_of sh' = quotations_of sh" "requirements_of sh' = requirements_of sh"
      by (rule quotations_of_cong requirements_of_cong, simp add: f(3))+
    moreover have "map_of (orders sh') i = Some (order\<lparr>or_status := t\<rparr>)" by (simp add: f(2) update_conv)
    moreover have "terms_ok d q order \<Longrightarrow> terms_ok d q (order\<lparr>or_status := t\<rparr>)" for q using t by (simp add: terms_ok_def)
    ultimately show "door_row_ok sh' i d"
      using f(1) unfolding door_row_ok_def versions_ok_def current_quotation_def stocked_requirements_def by auto
  qed (simp_all add: f(2,3) update_conv quotations_of_def requirements_of_def)
  then show ?thesis using ok by (simp add: door_inv_def f(4))
qed

lemma free_reservations_ok:
  "free_reservations ctx now js db = Inr db' \<Longrightarrow> ledger_ok db \<Longrightarrow> ledger_ok db' \<and> advances db db'"
proof (induction js arbitrary: db)
  case (Cons j js)
  then obtain n db1 where "transition_production_reservation_in j PA_release ctx now db = Inr (n, db1)"
    "free_reservations ctx now js db1 = Inr db'" by (auto simp: andthen_Inr)
  then show ?case using Cons.IH[of db1] Cons.prems(2) production_ok production_adv advances_trans by blast
qed (simp add: advances_refl)

lemma keep_status: "\<exists>s. order = order\<lparr>or_status := s\<rparr> \<and> (s = or_status order \<or> s = OS_CANCELLED)"
  by (rule exI[of _ "or_status order"]) simp

lemma cancel_door_ok:
  assumes run: "cancel_door now actor i order sh = Inr sh'" and ok: "door_inv sh"
    and row: "map_of (orders sh) i = Some order"
  shows "door_inv sh'" "doors sh' = doors sh"
    "\<exists>s. map_of (orders sh') i = Some (order\<lparr>or_status := s\<rparr>) \<and> (s = or_status order \<or> s = OS_CANCELLED)"
proof -
  obtain db where free: "free_reservations (door_context actor) now (active_reservations sh i) (stock sh) = Inr db"
    and step: "(if or_status order \<noteq> OS_PAID
      then order_step i (or_status order) OS_CANCELLED (door_info actor ''DOOR_CANCELLED'') (sh\<lparr>stock := db\<rparr>)
      else Inr (sh\<lparr>stock := db\<rparr>)) = Inr sh'"
    using run by (auto simp: cancel_door_def throw_if_Inr andthen_Inr)
  have db: "ledger_ok db" "advances (stock sh) db" using free_reservations_ok[OF free] ok by (simp_all add: door_inv_def)
  then have mid: "door_inv (sh\<lparr>stock := db\<rparr>)" using stock_ok[of sh db] ok by (simp add: door_inv_def)
  have "door_inv sh' \<and> doors sh' = doors sh \<and> (\<exists>s. map_of (orders sh') i = Some (order\<lparr>or_status := s\<rparr>)
      \<and> (s = or_status order \<or> s = OS_CANCELLED))"
  proof (cases "or_status order = OS_PAID")
    case True
    then have "sh' = sh\<lparr>stock := db\<rparr>" using step by simp
    then show ?thesis using mid row keep_status[of order] by auto
  next
    case False
    then have st: "order_step i (or_status order) OS_CANCELLED (door_info actor ''DOOR_CANCELLED'') (sh\<lparr>stock := db\<rparr>) = Inr sh'"
      using step by simp
    obtain o1 where "map_of (orders (sh\<lparr>stock := db\<rparr>)) i = Some o1"
      "orders sh' = AList.update i (o1\<lparr>or_status := OS_CANCELLED\<rparr>) (orders (sh\<lparr>stock := db\<rparr>))"
      "doors sh' = doors (sh\<lparr>stock := db\<rparr>)"
      by (rule order_step_frame[OF st])
    then show ?thesis using door_order_step_ok[OF st mid] row by (auto simp: update_conv)
  qed
  then show "door_inv sh'" "doors sh' = doors sh"
    "\<exists>s. map_of (orders sh') i = Some (order\<lparr>or_status := s\<rparr>) \<and> (s = or_status order \<or> s = OS_CANCELLED)" by blast+
qed

lemma transition_ok:
  assumes run: "transition_work now actor i inp d order sh = Inr sh'" and ok: "door_inv sh"
    and row: "map_of (door_orders (doors sh)) i = Some d" "map_of (orders sh) i = Some order"
  shows "door_inv sh'"
proof (rule terms_of[OF ok row])
  fix qi q assume q: "current_quotation sh i d = Some (qi, q)" "terms_ok d q order" "qt_version q = do_quote_version d"
    "do_status d \<in> produced \<Longrightarrow> \<forall>x \<in> set (stocked_requirements sh i qi). rq_consumed (snd x) \<noteq> None"
  let ?s = "dv_status inp"
  obtain delivery sh1 ev where gate: "assert_door_transition (do_status d) ?s (door_facts_of now sh i d qi q delivery) = Inr ()"
    and mid: "(if ?s = DS_CANCELLED then cancel_door now actor i order sh else Inr sh) = Inr sh1"
    and sh': "sh' = door_event actor i ''STATUS_CHANGED'' (dv_reason inp) ev
       (put_door_order i (d\<lparr>do_status := ?s, do_delivery := delivery, do_version := do_version d + 1\<rparr>) sh1)"
    using run by (auto simp: transition_work_def current_door_quote_def q(1) andthen_Inr throw_if_Inr Let_def)
  have sh1: "door_inv sh1" "doors sh1 = doors sh" "\<exists>s. map_of (orders sh1) i = Some (order\<lparr>or_status := s\<rparr>)
      \<and> (s = or_status order \<or> s = OS_CANCELLED)"
    using mid ok row(2) cancel_door_ok[of now actor i order sh sh1] keep_status[of order] by (auto split: if_splits)
  obtain s where s: "map_of (orders sh1) i = Some (order\<lparr>or_status := s\<rparr>)" "s = or_status order \<or> s = OS_CANCELLED" using sh1(3) by blast
  have step: "?s \<in> set (door_transitions (do_status d))"
    using gate by (auto simp: assert_door_transition_def andthen_Inr assert_transition_def can_transition_def throw_if_Inr)
  show ?thesis unfolding sh'
  proof (intro event_ok put_door_ok[OF sh1(1)])
    show "map_of (door_orders (doors sh1)) i = Some d" "map_of (orders sh1) i = Some (order\<lparr>or_status := s\<rparr>)"
      using row(1) s(1) by (simp_all add: sh1(2))
    show "current_quotation sh1 i d = Some (qi, q)" using q(1) by (simp add: current_quotation_def quotations_of_def sh1(2))
    show "terms_ok (d\<lparr>do_status := ?s, do_delivery := delivery, do_version := do_version d + 1\<rparr>) q (order\<lparr>or_status := s\<rparr>)"
    proof (cases "?s = DS_CANCELLED")
      case True
      then show ?thesis using q(2) s(2) by (auto simp: terms_ok_def producing_def unpriced_status_def)
    next
      case False
      then have g: "qt_approved q" "do_accepted d = Some (qt_version q)" "?s \<in> producing \<longrightarrow> do_technical d"
        using gate by (auto simp: assert_door_transition_def andthen_Inr throw_if_Inr door_facts_of_def producing_def)
      moreover have "?s \<notin> unpriced_status"
        using step g(1) q(2) by (cases "do_status d") (auto simp: terms_ok_def unpriced_status_def)
      ultimately show ?thesis using q(2) s(2) by (auto simp: terms_ok_def)
    qed
    assume "do_status (d\<lparr>do_status := ?s, do_delivery := delivery, do_version := do_version d + 1\<rparr>) \<in> produced"
    then have p: "?s \<in> produced" by simp
    have "stocked_requirements sh1 i qi = stocked_requirements sh i qi"
      by (simp add: stocked_requirements_def requirements_of_def sh1(2))
    moreover have "\<forall>x \<in> set (stocked_requirements sh i qi). rq_consumed (snd x) \<noteq> None"
    proof (cases "?s = DS_AWAITING_SETTLEMENT")
      case True
      then have "do_status d \<in> produced" using step by (cases "do_status d") (auto simp: produced_def)
      then show ?thesis by (rule q(4))
    next
      case False
      then have "?s \<in> {DS_QUALITY_CONTROL, DS_READY_FOR_DELIVERY, DS_COMPLETED}" using p by (auto simp: produced_def)
      then show ?thesis
        using gate by (auto simp: assert_door_transition_def andthen_Inr throw_if_Inr door_facts_of_def list_all_iff)
    qed
    ultimately show "\<forall>x \<in> set (stocked_requirements sh1 i qi). rq_consumed (snd x) \<noteq> None" by simp
  qed simp
qed

text \<open>Materials.\<close>

lemma on_stock_ok:
  assumes "on_stock f sh = Inr (x, sh')" "door_inv sh"
    and "\<And>db. f (stock sh) = Inr (x, db) \<Longrightarrow> ledger_ok db \<and> advances (stock sh) db"
  shows "door_inv sh'" "\<exists>db. f (stock sh) = Inr (x, db) \<and> sh' = sh\<lparr>stock := db\<rparr>"
proof -
  obtain db where db: "f (stock sh) = Inr (x, db)" "sh' = sh\<lparr>stock := db\<rparr>" using assms(1) by (auto simp: on_stock_def andthen_Inr)
  then show "door_inv sh'" using stock_ok[of sh db] assms(2,3) by (simp add: door_inv_def)
  show "\<exists>db. f (stock sh) = Inr (x, db) \<and> sh' = sh\<lparr>stock := db\<rparr>" using db by blast
qed

lemma requirement_inv:
  assumes "door_inv sh" "map_of (door_requirements (doors sh)) j = Some r"
    "rq_order r' = rq_order r" "rq_quote r' = rq_quote r" "rq_part r' = rq_part r"
    "rq_consumed r' \<noteq> None \<Longrightarrow> map_option rs_status (reservation_of sh r') = Some RS_CONSUMED"
    "rq_consumed r \<noteq> None \<Longrightarrow> rq_consumed r' \<noteq> None"
  shows "door_inv (put_requirement j r' sh)"
  using requirement_ok[OF _ assms(2-7)] assms(1) by (simp add: door_inv_def door_fields)

lemma requirement_row:
  assumes "door_inv sh" "(j, r) \<in> set (requirements_of sh i)"
  shows "map_of (door_requirements (doors sh)) j = Some r"
  using assms by (auto simp: requirements_of_def door_inv_def doors_ok_def door_keys_def)

lemma reserve_material_ok:
  assumes run: "reserve_material_work now actor i j inp d order sh = Inr sh'" and ok: "door_inv sh"
    and row: "map_of (door_orders (doors sh)) i = Some d" "map_of (orders sh) i = Some order"
  shows "door_inv sh'"
proof -
  obtain qi r v ri s sh1 ev where r: "find_requirement sh i qi j = Some r" "rq_consumed r = None"
    and stock: "on_stock (reserve_in (material_reserve_command actor inp j v (do_version d))) sh = Inr ((ri, s), sh1)"
    and sh': "sh' = door_event actor i ''MATERIAL_RESERVED'' (dz_reason inp) ev
       (bump_door i d (put_requirement j (r\<lparr>rq_reservation := Some ri, rq_quantity := Some (the_int (dz_quantity inp))\<rparr>) sh1))"
    using run by (auto simp: reserve_material_work_def andthen_Inr throw_if_Inr need_Inr)
  have mid: "door_inv sh1" and db: "\<exists>db. sh1 = sh\<lparr>stock := db\<rparr>"
    using on_stock_ok[OF stock ok] reserve_in_ok reserve_in_adv ok by (auto simp: door_inv_def)
  have "(j, r) \<in> set (requirements_of sh i)"
    using r(1) by (auto simp: find_requirement_def find_Some_iff split: option.splits) (metis nth_mem)
  then have "map_of (door_requirements (doors sh1)) j = Some r" using requirement_row[OF ok] db by auto
  then have "door_inv (put_requirement j (r\<lparr>rq_reservation := Some ri, rq_quantity := Some (the_int (dz_quantity inp))\<rparr>) sh1)"
    by (rule requirement_inv[OF mid]) (use r(2) in simp_all)
  then show ?thesis
    unfolding sh' by (intro event_ok bump_ok) (use row db in \<open>auto simp: door_fields\<close>)
qed

lemma consumed_by:
  assumes "transition_production_reservation_in ri PA_consume ctx now db = Inr (n, db')" "ledger_ok db"
  shows "map_option rs_status (map_of (reservations db') ri) = Some RS_CONSUMED"
proof -
  obtain r where r: "map_of (reservations db) ri = Some r" "rs_status r = RS_ACTIVE" and run: "consume_single ri ctx db = Inr (n, db')"
    using assms(1) by (auto simp: transition_production_reservation_in_def andthen_Inr need_Inr throw_if_Inr)
  have "stock_inv db" using assms(2) by (rule ledger_ok_inv)
  then have "\<exists>db1. consume_effect ri r (bal db (rs_key r)) ctx db = Inr db1 \<and> db' = db1"
    using run consume_single_active[OF _ r] by (auto simp: andthen_Inr)
  then show ?thesis
    by (auto simp: consume_effect_def res_iff record_audit_def set_reservation_def update_conv)
qed

lemma material_action_ok:
  assumes run: "material_action_work now actor i j action expected reason d order sh = Inr sh'" and ok: "door_inv sh"
    and row: "map_of (door_orders (doors sh)) i = Some d" "map_of (orders sh) i = Some order"
  shows "door_inv sh'"
proof -
  obtain r ri n sh1 ev name where r: "map_of (requirements_of sh i) j = Some r" "rq_reservation r = Some ri"
    and stock: "on_stock (transition_production_reservation_in ri action (door_context actor) now) sh = Inr (n, sh1)"
    and sh': "sh' = door_event actor i name reason ev (bump_door i d (case action of
       PA_consume \<Rightarrow> put_requirement j (r\<lparr>rq_consumed := Some now\<rparr>) sh1 | PA_release \<Rightarrow> sh1))"
    using run by (auto simp: material_action_work_def andthen_Inr throw_if_Inr need_Inr)
  have mid: "door_inv sh1"
    using on_stock_ok(1)[OF stock ok] production_ok production_adv ok by (auto simp: door_inv_def)
  obtain db where db: "transition_production_reservation_in ri action (door_context actor) now (stock sh) = Inr (n, db)"
    "sh1 = sh\<lparr>stock := db\<rparr>" using stock by (auto simp: on_stock_def andthen_Inr)
  have "map_of (door_requirements (doors sh1)) j = Some r"
    using requirement_row[OF ok map_of_SomeD[OF r(1)]] by (simp add: db(2))
  then have "door_inv (put_requirement j (r\<lparr>rq_consumed := Some now\<rparr>) sh1)" if "action = PA_consume"
    by (rule requirement_inv[OF mid])
      (use consumed_by[of ri "door_context actor" now "stock sh" n db] db ok r(2) that in \<open>simp_all add: reservation_of_def door_inv_def\<close>)
  then show ?thesis
    using mid row unfolding sh' by (intro event_ok bump_ok) (auto simp: door_fields db(2) split: production_action.splits)
qed

text \<open>The address of the invoice.\<close>

lemma invoice_source_ok:
  assumes run: "invoice_source_work invoiced address_book actor i expected ai d order sh = Inr sh'" and ok: "door_inv sh"
    and row: "map_of (door_orders (doors sh)) i = Some d" "map_of (orders sh) i = Some order"
  shows "door_inv sh'"
proof (rule terms_of[OF ok row])
  fix qi q assume q: "current_quotation sh i d = Some (qi, q)" "terms_ok d q order" "qt_version q = do_quote_version d"
    "do_status d \<in> produced \<Longrightarrow> \<forall>x \<in> set (stocked_requirements sh i qi). rq_consumed (snd x) \<noteq> None"
  obtain a ev where sh': "sh' = door_event actor i ''INVOICE_SOURCE_PREPARED'' ''invoice source'' ev
      (put_door_order i (d\<lparr>do_version := do_version d + 1\<rparr>) (put_order i (order\<lparr>or_address := a\<rparr>) sh))"
    using run by (auto simp: invoice_source_work_def current_door_quote_def q(1) andthen_Inr throw_if_Inr need_Inr)
  let ?sh = "put_door_order i (d\<lparr>do_version := do_version d + 1\<rparr>) (put_order i (order\<lparr>or_address := a\<rparr>) sh)"
  have "doors_ok ?sh"
  proof (rule amend_ok[OF _ row(1) q(1), where order' = "order\<lparr>or_address := a\<rparr>" and d' = "d\<lparr>do_version := do_version d + 1\<rparr>"])
    show "doors_ok sh" using ok by (simp add: door_inv_def)
    show "map_of (orders ?sh) = (map_of (orders sh))(i \<mapsto> order\<lparr>or_address := a\<rparr>)" by (simp add: door_fields update_conv')
    show "fst ` set (orders ?sh) \<subseteq> insert i (fst ` set (orders sh))" by (simp add: door_fields fst_set_update)
    show "terms_ok (d\<lparr>do_version := do_version d + 1\<rparr>) q (order\<lparr>or_address := a\<rparr>)" using q(2) by (simp add: terms_ok_def)
  qed (use q(4) in \<open>simp_all add: door_fields\<close>)
  then show ?thesis using ok unfolding sh' by (intro event_ok) (simp add: door_inv_def door_fields)
qed

text \<open>Messages only add events; drafts, submissions and final prices revise the quotation.\<close>

lemma message_ok:
  assumes "door_message sha actor i m key sh = Inr (j, sh')" "door_inv sh" shows "door_inv sh'"
  by (rule mutate_ok[OF assms(1)[unfolded door_message_def] assms(2)])
    (use assms(2) in \<open>auto simp: throw_if_Inr intro: event_ok\<close>)

lemma add_quotation_Inr:
  "add_quotation q sh = Inr (qi, sh') \<longleftrightarrow> (\<forall>x \<in> set (quotations_of sh (qt_order q)). qt_version (snd x) \<noteq> qt_version q) \<and> qi = next_row sh
     \<and> sh' = put_doors ((doors sh)\<lparr>door_quotations := door_quotations (doors sh) @ [(next_row sh, q)]\<rparr>) (sh\<lparr>next_row := Suc (next_row sh)\<rparr>)"
  by (auto simp: add_quotation_def throw_if_Inr)

text \<open>The state a new quotation of order \<open>i\<close> leaves, with or without its materials.\<close>

definition revised :: "uid \<Rightarrow> door_order \<Rightarrow> order_row \<Rightarrow> door_quotation \<Rightarrow> bool \<Rightarrow> shop_db \<Rightarrow> shop_db \<Rightarrow> bool" where
  "revised i d' order' q with_bom sh sh' \<longleftrightarrow>
     map_of (orders sh') = (map_of (orders sh))(i \<mapsto> order') \<and> fst ` set (orders sh') \<subseteq> insert i (fst ` set (orders sh))
     \<and> map_of (door_orders (doors sh')) = (map_of (door_orders (doors sh)))(i \<mapsto> d')
     \<and> fst ` set (door_orders (doors sh')) \<subseteq> insert i (fst ` set (door_orders (doors sh)))
     \<and> (distinct (map fst (door_orders (doors sh))) \<longrightarrow> distinct (map fst (door_orders (doors sh'))))
     \<and> door_quotations (doors sh') = door_quotations (doors sh) @ [(next_row sh, q)]
     \<and> door_requirements (doors sh') = door_requirements (doors sh)
          @ (if with_bom then bom_rows i (next_row sh) (qt_snapshot q) (Suc (next_row sh)) else [])
     \<and> next_row sh' = Suc (next_row sh)
          + length (if with_bom then bom_rows i (next_row sh) (qt_snapshot q) (Suc (next_row sh)) else [])
     \<and> stock sh' = stock sh"

lemma revised_ok:
  assumes "revised i d' order' q b sh sh'" "door_inv sh" "i < next_row sh"
    "versions_ok sh i v" "qt_order q = i" "qt_version q = v + 1" "do_quote_version d' = v + 1"
    "terms_ok d' q order'" "do_status d' \<notin> produced"
  shows "door_inv sh'"
proof -
  let ?rows = "if b then bom_rows i (next_row sh) (qt_snapshot q) (Suc (next_row sh)) else []"
  have "\<forall>x \<in> set ?rows. next_row sh < fst x \<and> fst x < next_row sh' \<and> rq_order (snd x) = i \<and> rq_quote (snd x) = next_row sh
      \<and> rq_consumed (snd x) = None"
    using assms(1) by (auto simp: revised_def dest!: bom_rows_mem)
  moreover have "distinct (map fst ?rows)" by (simp add: bom_rows_distinct)
  ultimately have "doors_ok sh'"
    using revise_ok[of sh i v sh' order' d' q ?rows] assms by (simp add: revised_def door_inv_def)
  then show ?thesis using assms(1,2) by (simp add: revised_def door_inv_def)
qed

lemma known_order:
  assumes "door_inv sh" "map_of (door_orders (doors sh)) i = Some d"
  shows "i < next_row sh" "versions_ok sh i (do_quote_version d)"
proof -
  show "i < next_row sh"
    using assms(1) map_of_SomeD[OF assms(2)] by (auto simp: door_inv_def doors_ok_def door_keys_def)
  have "door_row_ok sh i d" using assms by (simp add: door_inv_def doors_ok_def)
  then show "versions_ok sh i (do_quote_version d)" by (auto simp: door_row_ok_def)
qed

lemma replace_draft_ok:
  assumes run: "replace_draft_work now actor i items expected d sh = Inr sh'" and ok: "door_inv sh"
    and row: "map_of (door_orders (doors sh)) i = Some d" "map_of (orders sh) i = Some order"
  shows "door_inv sh'"
proof (rule terms_of[OF ok row])
  fix qi q assume q: "terms_ok d q order"
  let ?d = "d\<lparr>do_items := items, do_quote_version := do_quote_version d + 1, do_version := do_version d + 1\<rparr>"
  obtain snapshot sh1 ev where draft: "do_status d = DS_DRAFT"
    and sh1: "sh1 = put_doors ((doors sh)\<lparr>door_quotations := door_quotations (doors sh)
       @ [(next_row sh, quotation i (do_quote_version d + 1) False snapshot)]\<rparr>) (sh\<lparr>next_row := Suc (next_row sh)\<rparr>)"
    and sh': "sh' = door_event actor i ''DRAFT_EDITED'' ''draft edited'' ev (put_door_order i ?d sh1)"
    using run by (auto simp: replace_draft_work_def add_quotation_Inr andthen_Inr throw_if_Inr Let_def)
  have "revised i ?d order (quotation i (do_quote_version d + 1) False snapshot) False sh (put_door_order i ?d sh1)"
    using row(2) by (simp add: revised_def sh1 door_fields update_conv' fst_set_update distinct_update fun_upd_idem subset_insertI)
  then show ?thesis unfolding sh'
    by (intro event_ok, elim revised_ok[OF _ ok known_order[OF ok row(1)]])
      (use q draft in \<open>auto simp: terms_ok_def quotation_def unpriced_status_def producing_def produced_def split: if_splits\<close>)
qed

lemma price_order_Inr:
  "price_order actor i reason sh = Inr sh' \<Longrightarrow> \<exists>order. map_of (orders sh) i = Some order
     \<and> orders sh' = AList.update i (order\<lparr>or_status := OS_PENDING_PAYMENT\<rparr>) (orders sh)
     \<and> doors sh' = doors sh \<and> stock sh' = stock sh \<and> next_row sh' = next_row sh"
  unfolding price_order_def by (erule order_step_frame) simp

lemma submit_draft_ok:
  assumes run: "submit_draft_work now actor i expected d order sh = Inr sh'" and ok: "door_inv sh"
    and row: "map_of (door_orders (doors sh)) i = Some d" "map_of (orders sh) i = Some order"
  shows "door_inv sh'"
proof (rule terms_of[OF ok row])
  fix qi q assume q: "terms_ok d q order"
  obtain snapshot sh1 sh4 where draft: "do_status d = DS_DRAFT"
    and sh1: "sh1 = put_doors ((doors sh)\<lparr>door_quotations := door_quotations (doors sh)
       @ [(next_row sh, quotation i (do_quote_version d + 1) (dq_total snapshot \<noteq> None) snapshot)]\<rparr>) (sh\<lparr>next_row := Suc (next_row sh)\<rparr>)"
    and priced: "(if dq_total snapshot \<noteq> None
          then andthen (price_order actor i ''DOOR_QUOTE_APPROVED'' (reprice i order (the (dq_total snapshot))
            (put_door_order i (d\<lparr>do_quote_version := do_quote_version d + 1, do_status := submitted_status (dq_total snapshot \<noteq> None),
              do_version := do_version d + 1\<rparr>) sh1))) (\<lambda>sh3. Inr (bom i (next_row sh) snapshot sh3))
          else Inr (put_door_order i (d\<lparr>do_quote_version := do_quote_version d + 1, do_status := submitted_status (dq_total snapshot \<noteq> None),
              do_version := do_version d + 1\<rparr>) sh1)) = Inr sh4"
    and sh': "sh' = door_event actor i ''SUBMITTED'' (if dq_total snapshot \<noteq> None then ''submitted with a price''
       else ''submitted for a price'') [(''quoteVersion'', JNum (do_quote_version d + 1))] sh4"
    using run by (auto simp: submit_draft_work_def add_quotation_Inr andthen_Inr throw_if_Inr Let_def simp del: not_None_eq)
  let ?f = "dq_total snapshot \<noteq> None"
  let ?d = "d\<lparr>do_quote_version := do_quote_version d + 1, do_status := submitted_status ?f, do_version := do_version d + 1\<rparr>"
  let ?q = "quotation i (do_quote_version d + 1) ?f snapshot"
  have "\<exists>order'. revised i ?d order' ?q ?f sh sh4
      \<and> (if ?f then or_total order' = the (dq_total snapshot) \<and> or_status order' = OS_PENDING_PAYMENT else order' = order)"
  proof (cases ?f)
    case True
    then obtain sh3 where step: "price_order actor i ''DOOR_QUOTE_APPROVED'' (reprice i order (the (dq_total snapshot))
          (put_door_order i ?d sh1)) = Inr sh3" and sh4: "sh4 = bom i (next_row sh) snapshot sh3"
      using priced by (auto simp: andthen_Inr)
    show ?thesis
      by (rule exI[of _ "order\<lparr>or_subtotal := the (dq_total snapshot), or_total := the (dq_total snapshot), or_status := OS_PENDING_PAYMENT\<rparr>"])
        (use price_order_Inr[OF step] True row(2) in
          \<open>auto simp: revised_def sh4 sh1 door_fields update_conv' fst_set_update distinct_update quotation_def\<close>)
  next
    case False
    then have "sh4 = put_door_order i ?d sh1" using priced by simp
    then show ?thesis
      using row(2) False by (intro exI[of _ order])
        (simp add: revised_def sh1 door_fields update_conv' fst_set_update distinct_update fun_upd_idem subset_insertI)
  qed
  then obtain order' where rev: "revised i ?d order' ?q ?f sh sh4"
    and order': "if ?f then or_total order' = the (dq_total snapshot) \<and> or_status order' = OS_PENDING_PAYMENT else order' = order" by blast
  have "terms_ok ?d ?q order'"
    using q draft order' by (auto simp: terms_ok_def quotation_def submitted_status_def unpriced_status_def producing_def split: if_splits)
  then have "door_inv sh4"
    by (intro revised_ok[OF rev ok known_order[OF ok row(1)]]) (simp_all add: quotation_def submitted_status_def produced_def)
  then show ?thesis unfolding sh' by (rule event_ok)
qed

lemma outbox_ok:
  assumes "add_outbox e sh = Inr sh'" "door_inv sh" shows "door_inv sh'"
proof -
  have sh': "sh' = sh\<lparr>outbox := outbox sh @ [e]\<rparr>" using assms(1) by (simp add: add_outbox_def throw_if_Inr)
  have "doors_ok sh'" by (rule doors_ok_same[of sh]) (use assms(2) in \<open>simp_all add: sh' door_inv_def\<close>)
  then show ?thesis using assms(2) by (simp add: door_inv_def sh')
qed

lemma approve_quote_ok:
  assumes run: "approve_quote_work invoiced actor i inp d order sh = Inr sh'" and ok: "door_inv sh"
    and row: "map_of (door_orders (doors sh)) i = Some d" "map_of (orders sh) i = Some order"
  shows "door_inv sh'"
proof -
  let ?d = "d\<lparr>do_status := DS_AWAITING_DEPOSIT, do_quote_version := do_quote_version d + 1, do_technical := False,
      do_accepted := None, do_version := do_version d + 1\<rparr>"
  obtain previous :: door_quotation and amount qi sh1 sh3 where
    new: "add_quotation ((quotation i (do_quote_version d + 1) True (final_snapshot inp amount (qt_snapshot previous)))
       \<lparr>qt_approved_by := Some (da_user actor)\<rparr>) sh = Inr (qi, sh1)"
    and priced: "(if or_status order = OS_DRAFT then price_order actor i ''DOOR_QUOTE_APPROVED'' (reprice i order amount (put_door_order i ?d sh1))
       else Inr (reprice i order amount (put_door_order i ?d sh1))) = Inr sh3"
    and last: "add_outbox (quote_approved_event i qi (do_quote_version d + 1)) (door_event actor i ''QUOTE_APPROVED'' (dp_reason inp)
        [(''quoteVersion'', JNum (do_quote_version d + 1)), (''total'', JStr (show_int amount)), (''deposit'', JStr (show_int amount))]
        (bom i qi (final_snapshot inp amount (qt_snapshot previous)) sh3)) = Inr sh'"
    using run by (auto simp: approve_quote_work_def andthen_Inr throw_if_Inr Let_def)
  note sh1 = new[unfolded add_quotation_Inr, THEN conjunct2, THEN conjunct2] and qi = new[unfolded add_quotation_Inr, THEN conjunct2, THEN conjunct1]
  note sh' = last[unfolded qi]
  let ?s = "final_snapshot inp amount (qt_snapshot previous)"
  let ?q = "(quotation i (do_quote_version d + 1) True ?s)\<lparr>qt_approved_by := Some (da_user actor)\<rparr>"
  have "\<exists>order'. revised i ?d order' ?q True sh (bom i (next_row sh) ?s sh3) \<and> or_total order' = amount \<and> or_status order' \<noteq> OS_DRAFT"
  proof (cases "or_status order = OS_DRAFT")
    case True
    then have step: "price_order actor i ''DOOR_QUOTE_APPROVED'' (reprice i order amount (put_door_order i ?d sh1)) = Inr sh3"
      using priced by simp
    show ?thesis
      by (rule exI[of _ "order\<lparr>or_subtotal := amount, or_total := amount, or_status := OS_PENDING_PAYMENT\<rparr>"])
        (use price_order_Inr[OF step] row(2) in \<open>auto simp: revised_def sh1 door_fields update_conv' fst_set_update distinct_update quotation_def\<close>)
  next
    case False
    then have "sh3 = reprice i order amount (put_door_order i ?d sh1)" using priced by simp
    then show ?thesis
      using row(2) False by (intro exI[of _ "order\<lparr>or_subtotal := amount, or_total := amount\<rparr>"])
        (simp add: revised_def sh1 door_fields update_conv' fst_set_update distinct_update quotation_def)
  qed
  then obtain order' where rev: "revised i ?d order' ?q True sh (bom i (next_row sh) ?s sh3)"
    and order': "or_total order' = amount" "or_status order' \<noteq> OS_DRAFT" by blast
  have "terms_ok ?d ?q order'"
    using order' by (simp add: terms_ok_def quotation_def final_snapshot_def unpriced_status_def producing_def)
  then have mid: "door_inv (door_event actor i ''QUOTE_APPROVED'' (dp_reason inp) ev (bom i (next_row sh) ?s sh3))" for ev
    by (intro event_ok revised_ok[OF rev ok known_order[OF ok row(1)]]) (simp_all add: quotation_def produced_def)
  show ?thesis by (rule outbox_ok[OF sh' mid])
qed

text \<open>A new order: nothing refers to its number yet.\<close>

lemma add_order_inv:
  assumes run: "add_order o' sh = Inr sh'" and ok: "door_inv sh"
  shows "door_inv sh'" "map_of (orders sh') (next_row sh) = Some o'" "map_of (door_orders (doors sh')) (next_row sh) = None"
    "quotations_of sh' (next_row sh) = []" "next_row sh < next_row sh'" "doors sh' = doors sh" "stock sh' = stock sh"
proof -
  have sh': "sh' = sh\<lparr>orders := orders sh @ [(next_row sh, o')], next_row := next_row sh + 1 + length (or_items o')\<rparr>"
    using run by (simp add: add_order_def throw_if_Inr)
  have ok': "doors_ok sh" and k: "door_keys sh" using ok by (simp_all add: door_inv_def doors_ok_def)
  have fresh: "map_of (orders sh) (next_row sh) = None" "map_of (door_orders (doors sh)) (next_row sh) = None"
    "quotations_of sh (next_row sh) = []" "requirements_of sh (next_row sh) = []"
    using k by (fastforce simp: door_keys_def map_of_eq_None_iff quotations_of_def requirements_of_def filter_empty_conv)+
  show "map_of (orders sh') (next_row sh) = Some o'" "map_of (door_orders (doors sh')) (next_row sh) = None"
    "quotations_of sh' (next_row sh) = []" "next_row sh < next_row sh'" "doors sh' = doors sh" "stock sh' = stock sh"
    using fresh by (simp_all add: sh' map_add_Some_iff quotations_of_def)
  have "doors_ok sh'"
  proof (rule doors_okI[OF ok', where i = "next_row sh"])
    show "door_keys sh'" using k by (fastforce simp: door_keys_def sh')
    show "consumed_ok sh'"
      using ok' by (simp add: doors_ok_def consumed_ok_def reservation_of_def sh' cong: option.case_cong)
    show "map_of (orders sh') j = map_of (orders sh) j" if "j \<noteq> next_row sh" for j
      using that by (simp add: sh' map_add_def split: option.split)
  qed (use fresh in \<open>simp_all add: sh' quotations_of_def requirements_of_def\<close>)
  then show "door_inv sh'" using ok by (simp add: door_inv_def sh')
qed

lemma create_work_ok:
  assumes run: "create_work now actor cid number draft items sh = Inr (i, sh')" and ok: "door_inv sh"
  shows "door_inv sh'"
proof -
  obtain snapshot where split: "price_doors (map fst items) (active_models sh) (active_materials sh) now = Inr snapshot"
    using run unfolding create_work_def andthen_Inr by blast
  define final where "final = (\<not> draft \<and> dq_total snapshot \<noteq> None)"
  define amount where "amount = (case dq_total snapshot of None \<Rightarrow> 0 | Some t \<Rightarrow> t)"
  define d where "d = \<lparr>do_status = (if draft then DS_DRAFT else submitted_status final), do_version = 1, do_quote_version = 1,
      do_technical = False, do_accepted = None, do_delivery = None, do_items = items\<rparr>"
  obtain sh1 qi sh3 sh5 where i: "i = next_row sh"
    and sh1: "add_order (door_order_row number cid amount now) sh = Inr sh1"
    and new: "add_quotation (quotation i 1 final snapshot)
        (put_doors ((doors sh1)\<lparr>door_orders := door_orders (doors sh1) @ [(i, d)]\<rparr>) sh1) = Inr (qi, sh3)"
    and priced: "(if final then andthen (price_order actor i ''DOOR_QUOTE_APPROVED'' sh3) (\<lambda>sh4. Inr (bom i qi snapshot sh4))
        else Inr sh3) = Inr sh5"
    and sh': "sh' = door_event actor i (if draft then ''DRAFT_SAVED'' else ''SUBMITTED'')
        (if draft then ''draft saved'' else if final then ''submitted with a price'' else ''submitted for a price'')
        [(''status'', JStr (door_status_name (if draft then DS_DRAFT else submitted_status final))), (''quoteVersion'', JNum 1)] sh5"
    using run unfolding create_work_def split andthen_def sum.case Let_def final_def[symmetric] amount_def[symmetric] d_def[symmetric]
    unfolding andthen_def[symmetric] by (auto simp: andthen_Inr)
  note s1 = add_order_inv[OF sh1 ok, folded i]
  let ?q = "quotation i 1 final snapshot" and ?o = "door_order_row number cid amount now"
  have qi: "qi = next_row sh1" and sh3: "sh3 = put_doors ((doors sh1)\<lparr>door_orders := door_orders (doors sh1) @ [(i, d)],
      door_quotations := door_quotations (doors sh1) @ [(next_row sh1, ?q)]\<rparr>) (sh1\<lparr>next_row := Suc (next_row sh1)\<rparr>)"
    using new by (simp_all add: add_quotation_Inr put_doors_def)
  have free: "i \<notin> fst ` set (door_orders (doors sh1))" using s1(3) by (simp add: map_of_eq_None_iff)
  have sh3_ok: "map_of (door_orders (doors sh3)) = (map_of (door_orders (doors sh1)))(i \<mapsto> d)"
    using s1(3) by (simp add: sh3 door_fields fun_eq_iff map_add_def split: option.split)
  have "\<exists>order'. revised i d order' ?q final sh1 sh5
      \<and> (if final then or_total order' = amount \<and> or_status order' = OS_PENDING_PAYMENT else order' = ?o)"
  proof (cases final)
    case True
    then obtain sh4 where step: "price_order actor i ''DOOR_QUOTE_APPROVED'' sh3 = Inr sh4" and sh5: "sh5 = bom i qi snapshot sh4"
      using priced by (auto simp: andthen_Inr)
    show ?thesis
      by (rule exI[of _ "?o\<lparr>or_status := OS_PENDING_PAYMENT\<rparr>"])
        (use price_order_Inr[OF step] True s1(2) sh3_ok free in
          \<open>auto simp: revised_def sh5 qi sh3 door_fields update_conv' fst_set_update quotation_def door_order_row_def\<close>)
  next
    case False
    then have "sh5 = sh3" using priced by simp
    then show ?thesis
      using s1(2) sh3_ok free False by (intro exI[of _ ?o]) (auto simp: revised_def sh3 door_fields fun_upd_idem)
  qed
  then obtain order' where rev: "revised i d order' ?q final sh1 sh5"
    and order': "if final then or_total order' = amount \<and> or_status order' = OS_PENDING_PAYMENT else order' = ?o" by blast
  have "terms_ok d ?q order'"
    using order' by (auto simp: terms_ok_def d_def quotation_def submitted_status_def unpriced_status_def producing_def
        amount_def final_def split: if_splits)
  then have "door_inv sh5"
    using revised_ok[OF rev s1(1) s1(5), of 0] s1(4) by (simp add: versions_ok_def quotation_def d_def submitted_status_def produced_def)
  then show ?thesis unfolding sh' by (rule event_ok)
qed

text \<open>The gateway's confirmation of a payment.\<close>

lemma mark_paid_frame:
  assumes "mark_paid i reference request sh = Inr sh'"
  shows "orders sh' = orders sh" "doors sh' = doors sh" "next_row sh' = next_row sh" "stock sh' = stock sh"
  using assms by (auto simp: mark_paid_def payment_step_def andthen_Inr set_reference_def put_payment_def split: option.split)

lemma record_ok: "door_inv sh \<Longrightarrow> door_inv (add_door_record r sh)"
proof -
  assume ok: "door_inv sh"
  have "doors_ok (add_door_record r sh)"
    by (rule doors_ok_same[of sh]) (use ok in \<open>simp_all add: add_door_record_def door_inv_def\<close>)
  then show ?thesis using ok by (simp add: door_inv_def add_door_record_def)
qed

lemma audited_ok: "door_inv sh \<Longrightarrow> door_inv (audit e sh)"
proof -
  assume ok: "door_inv sh"
  have "doors_ok (audit e sh)"
    by (rule doors_ok_same[of sh]) (use ok in \<open>simp_all add: audit_def record_audit_def door_inv_def\<close>)
  then show ?thesis using ok by (simp add: door_inv_def audit_def ledger_ok_same)
qed

lemma door_paid_ok:
  assumes run: "settle_door_payment_in i p reference request sh = Inr (x, sh')" and ok: "door_inv sh"
  shows "door_inv sh'"
proof -
  let ?oid = "pay_order p"
  obtain d order sh1 closes sh2 review q v e r ev sh5 where row: "map_of (door_orders (doors sh)) ?oid = Some d" "map_of (orders sh) ?oid = Some order"
    and paid: "mark_paid i reference request sh = Inr sh1"
    and close: "(if closes then order_step ?oid OS_PENDING_PAYMENT OS_PAID (payment_info request ''DOOR_SETTLED'') sh1 else Inr sh1) = Inr sh2"
    and out: "add_outbox e (add_door_record r (if \<not> review \<and> q \<and> do_status d = DS_AWAITING_DEPOSIT \<and> do_accepted d = Some v
       then put_door_order ?oid (d\<lparr>do_status := DS_DEPOSIT_PAID, do_version := do_version d + 1\<rparr>) sh2 else sh2)) = Inr sh5"
    and sh': "sh' = audit ev sh5"
    using run unfolding settle_door_payment_in_def Let_def need_Inr throw_if_Inr andthen_Inr split_paired_Ex prod.case
      sum.inject prod.inject
    by (elim exE conjE) blast
  define funds where "funds = (\<not> review \<and> q \<and> do_status d = DS_AWAITING_DEPOSIT \<and> do_accepted d = Some v)"
  have funds: "funds \<Longrightarrow> do_status d = DS_AWAITING_DEPOSIT" by (simp add: funds_def)
  note out = out[folded funds_def]
  have ok1: "door_inv sh1"
  proof -
    have "doors_ok sh1" by (rule doors_ok_same[of sh]) (use ok mark_paid_frame[OF paid] in \<open>simp_all add: door_inv_def\<close>)
    then show ?thesis using ok mark_paid_frame[OF paid] by (simp add: door_inv_def)
  qed
  have two: "door_inv sh2 \<and> doors sh2 = doors sh \<and> (\<exists>o2. map_of (orders sh2) ?oid = Some o2)"
  proof (cases closes)
    case True
    then have st: "order_step ?oid OS_PENDING_PAYMENT OS_PAID (payment_info request ''DOOR_SETTLED'') sh1 = Inr sh2"
      using close by simp
    show ?thesis
      by (rule order_step_frame[OF st]) (use door_order_step_ok[OF st ok1] mark_paid_frame[OF paid] in \<open>auto simp: update_conv\<close>)
  qed (use close ok1 row mark_paid_frame[OF paid] in auto)
  then obtain o2 where s2: "door_inv sh2" "doors sh2 = doors sh" "map_of (orders sh2) ?oid = Some o2" by blast
  have d2: "map_of (door_orders (doors sh2)) ?oid = Some d" using row s2(2) by simp
  have "door_inv (if funds then put_door_order ?oid (d\<lparr>do_status := DS_DEPOSIT_PAID, do_version := do_version d + 1\<rparr>) sh2 else sh2)"
  proof (cases funds)
    case True
    show ?thesis
    proof (rule terms_of[OF s2(1) d2 s2(3)])
      fix qi q assume q: "current_quotation sh2 ?oid d = Some (qi, q)" "terms_ok d q o2"
      have "door_inv (put_door_order ?oid (d\<lparr>do_status := DS_DEPOSIT_PAID, do_version := do_version d + 1\<rparr>) sh2)"
        by (rule put_door_ok[OF s2(1) d2 s2(3) q(1)])
          (use q(2) True funds in \<open>auto simp: terms_ok_def unpriced_status_def producing_def produced_def\<close>)
      then show ?thesis using True by simp
    qed
  qed (use s2 in simp)
  then show ?thesis unfolding sh' by (intro audited_ok outbox_ok[OF out] record_ok)
qed

section \<open>Commands\<close>

text \<open>What customers, staff and the gateway start, with the commands of the inventory service between
  them. \<open>sha\<close> is SHA-256 in hexadecimal, \<open>invoiced\<close> says which orders have a sales invoice, \<open>book\<close> is the
  address book.\<close>

datatype door_cmd =
    DC_create int door_actor string bool "(door_item \<times> string) list" string string
  | DC_replace int door_actor uid "(door_item \<times> string) list" int string string
  | DC_submit int door_actor uid int string
  | DC_approve door_actor uid door_approval string string
  | DC_accept door_actor uid int string
  | DC_technical door_actor uid int string string
  | DC_move int door_actor uid door_move string string
  | DC_invoice door_actor uid int uid string
  | DC_message door_actor uid string string
  | DC_reserve int door_actor uid uid door_reserve string string
  | DC_material int door_actor uid uid production_action int string string
  | DC_paid uid payment string string
  | DC_stock inventory_command

fun exec_door :: "(string \<Rightarrow> string) \<Rightarrow> (uid \<Rightarrow> bool) \<Rightarrow> (uid \<Rightarrow> (uid \<times> address res) option) \<Rightarrow> door_cmd
    \<Rightarrow> shop_db \<Rightarrow> (unit \<times> shop_db) res" where
  "exec_door sha invoiced book (DC_create now a number draft items payload key) sh =
     committed (create_door sha now a number draft items payload key sh)"
| "exec_door sha invoiced book (DC_replace now a i items v payload key) sh = committed (replace_draft sha now a i items v payload key sh)"
| "exec_door sha invoiced book (DC_submit now a i v key) sh = committed (submit_draft sha now a i v key sh)"
| "exec_door sha invoiced book (DC_approve a i inp payload key) sh = committed (approve_quote sha invoiced a i inp payload key sh)"
| "exec_door sha invoiced book (DC_accept a i v key) sh = committed (accept_quote sha a i v key sh)"
| "exec_door sha invoiced book (DC_technical a i v reason key) sh = committed (approve_technically sha a i v reason key sh)"
| "exec_door sha invoiced book (DC_move now a i inp payload key) sh = committed (transition_door sha now a i inp payload key sh)"
| "exec_door sha invoiced book (DC_invoice a i v ai key) sh = committed (prepare_invoice_source sha invoiced book a i v ai key sh)"
| "exec_door sha invoiced book (DC_message a i m key) sh = committed (door_message sha a i m key sh)"
| "exec_door sha invoiced book (DC_reserve now a i j inp payload key) sh = committed (reserve_material sha now a i j inp payload key sh)"
| "exec_door sha invoiced book (DC_material now a i j act v reason key) sh = committed (material_action sha now a i j act v reason key sh)"
| "exec_door sha invoiced book (DC_paid i p reference rq) sh = committed (settle_door_payment_in i p reference rq sh)"
| "exec_door sha invoiced book (DC_stock c) sh = on_stock (exec_inventory c) sh"

lemma create_door_ok:
  assumes run: "create_door sha now a number draft items payload key sh = Inr (i, sh')" and ok: "door_inv sh"
  shows "door_inv sh'"
proof -
  obtain cid scope where "door_command sha a scope key payload (create_work now a cid number draft items) sh = Inr (i, sh')"
    using run by (auto simp: create_door_def plain_serializable_def serializable_Inr need_Inr throw_if_Inr)
  then show ?thesis by (rule door_command_ok[OF _ ok]) (rule create_work_ok[OF _ ok])
qed

lemma stock_command_ok:
  assumes "on_stock (exec_inventory c) sh = Inr (x, sh')" "door_inv sh" shows "door_inv sh'"
proof (rule on_stock_ok(1)[OF assms])
  fix db assume run: "exec_inventory c (stock sh) = Inr (x, db)"
  have ok: "ledger_ok (stock sh)" using assms(2) by (simp add: door_inv_def)
  show "ledger_ok db \<and> advances (stock sh) db" using stock.exec_inv[OF ok run] stock_log.exec_adv[OF ok run] by blast
qed

lemmas work_ok = replace_draft_ok submit_draft_ok approve_quote_ok accept_ok technical_ok transition_ok invoice_source_ok
  reserve_material_ok material_action_ok

lemma exec_door_ok:
  assumes run: "exec_door sha invoiced book c sh = Inr (r, sh')" and ok: "door_inv sh" shows "door_inv sh'"
proof (cases c)
  case DC_stock
  then show ?thesis using run ok stock_command_ok by simp
next
  case DC_message
  then show ?thesis using run ok message_ok by (auto simp: committed_Inr)
next
  case DC_paid
  then show ?thesis using run ok door_paid_ok by (auto simp: committed_Inr)
next
  case DC_create
  then show ?thesis using run ok create_door_ok by (auto simp: committed_Inr)
qed (use run ok in \<open>auto simp: committed_Inr replace_draft_def submit_draft_def approve_quote_def accept_quote_def
    approve_technically_def transition_door_def prepare_invoice_source_def reserve_material_def material_action_def
    elim!: mutate_ok intro: work_ok\<close>)

interpretation doors: tx_component "exec_door sha invoiced book" door_inv for sha invoiced book
  by unfold_locales (rule exec_door_ok)

end
