(* ===== verification/Door_Properties.thy ===== *)
theory Door_Properties
  imports Door_Facts Pricing_Properties Shop_Demo
begin

text \<open>
  What the custom door orders promise, after any run of their commands and of the inventory service; the
  witnesses follow one door from its price to the quality control.
\<close>

section \<open>A door, start to finish\<close>

definition hinge :: door_material where
  "hinge = \<lparr>ma_id = ''hinge'', ma_title = ''hinge'', ma_active = True, ma_version = 1, ma_variant = Some 50, ma_unit = EACH,
     ma_rate = Some ''3000'', ma_valid_until = None, ma_processing_fee = ''0'', ma_stock_unit = None\<rparr>"

definition hinged_door :: door_model where
  "hinged_door = glass_door\<lparr>dm_config := (dm_config glass_door)\<lparr>cf_slots :=
     [\<lparr>sl_key = ''hinge'', sl_title = ''hinge'', sl_materials = [''hinge''], sl_required = True\<rparr>],
     cf_components := [door_rule ''hinge'' FIXED 2]\<rparr>\<rparr>"

definition hinged_item :: door_item where
  "hinged_item = (door_of 500 1000)\<lparr>di_selections := [(''hinge'', ''hinge'')]\<rparr>"

definition door_client :: "string \<Rightarrow> door_actor" where
  "door_client r = \<lparr>da_user = ''u1'', da_request = r, da_staff = False\<rparr>"

definition door_worker :: "string \<Rightarrow> door_actor" where
  "door_worker r = \<lparr>da_user = ''s'', da_request = r, da_staff = True\<rparr>"

definition door_payment :: payment where
  "door_payment = \<lparr>pay_order = 10, pay_provider = ''zarinpal'', pay_amount = 17440, pay_status = PAY_PENDING, pay_authority = None,
     pay_reference = None, pay_refunded = 0, pay_key = ''p'', pay_fingerprint = ''f'', pay_correlation = None,
     pay_environment = ''sandbox''\<rparr>"

definition door_shop :: shop_db where
  "door_shop = demo_shop\<lparr>doors := empty_doors\<lparr>door_models := [hinged_door], door_materials := [hinge],
     door_allocations := [(9, 11)]\<rparr>, payments := [(9, door_payment)], next_row := 10\<rparr>"

definition moving :: "int \<Rightarrow> door_status \<Rightarrow> string \<Rightarrow> door_cmd" where
  "moving v s k = DC_move 5 (door_worker k) 10 \<lparr>dv_version = v, dv_status = s, dv_reason = ''R'', dv_delivery = None\<rparr> k k"

definition door_story :: "door_cmd list" where
  "door_story = [DC_create 1 (door_client ''1'') ''D1'' False [(hinged_item, ''x'')] ''p'' ''1'',
     DC_accept (door_client ''2'') 10 1 ''2'', DC_paid 9 door_payment ''REF'' ''3'',
     DC_technical (door_worker ''4'') 10 3 ''ok'' ''4'', moving 4 DS_APPROVED_FOR_PRODUCTION ''5'',
     DC_reserve 6 (door_worker ''6'') 10 12 \<lparr>dz_version = 5, dz_warehouse = 0, dz_location = 1, dz_quantity = JsInt 4,
       dz_expires = 99, dz_reason = ''R''\<rparr> ''p'' ''6'',
     moving 6 DS_IN_PRODUCTION ''7'', DC_material 8 (door_worker ''8'') 10 12 PA_consume 7 ''R'' ''8'',
     moving 8 DS_QUALITY_CONTROL ''9'']"

abbreviation door_run :: "door_cmd list \<Rightarrow> shop_db \<Rightarrow> shop_db" where
  "door_run \<equiv> run_txs (exec_door sha0 (\<lambda>_. False) (\<lambda>_. None))"

definition made_shop :: shop_db where
  "made_shop = door_run door_story door_shop"

text \<open>Of order \<open>i\<close>: its status, the total of the current quotation, and whether it takes stock.\<close>

definition door_summary :: "uid \<Rightarrow> shop_db \<Rightarrow> (door_status \<times> int option \<times> bool) option" where
  "door_summary i sh = (case map_of (door_orders (doors sh)) i of None \<Rightarrow> None
     | Some d \<Rightarrow> (case current_quotation sh i d of None \<Rightarrow> None
         | Some (qi, q) \<Rightarrow> Some (do_status d, qt_total q, stocked_requirements sh i qi \<noteq> [])))"

lemma made_shop_summary: "door_summary 10 made_shop = Some (DS_QUALITY_CONTROL, Some 17440, True)"
  by code_simp

text \<open>Of the report: the orders and what was paid.\<close>

definition report_summary :: "shop_db \<Rightarrow> nat \<times> int" where
  "report_summary sh = (let r = door_report_of sh in (dt_count r, dt_paid r))"

definition ordered_door :: shop_db where
  "ordered_door = door_run (take 3 door_story) door_shop"

lemma ordered_door_report: "report_summary ordered_door = (1, 17440)"
  by code_simp

section \<open>Properties\<close>

text \<open>A shop before its first door.\<close>

definition no_doors_yet :: "shop_db \<Rightarrow> bool" where
  "no_doors_yet sh \<longleftrightarrow> door_orders (doors sh) = [] \<and> door_quotations (doors sh) = [] \<and> door_requirements (doors sh) = []
     \<and> ledger_ok (stock sh) \<and> (\<forall>x \<in> set (orders sh). fst x < next_row sh)"

lemma no_doors_inv: "no_doors_yet sh \<Longrightarrow> door_inv sh"
  by (simp add: no_doors_yet_def door_inv_def doors_ok_def door_keys_def consumed_ok_def)

lemma door_run_inv: "no_doors_yet sh \<Longrightarrow> door_inv (run_txs (exec_door sha invoiced book) cs sh)"
  by (rule doors.run_inv) (rule no_doors_inv)

lemma door_shop_start: "no_doors_yet door_shop"
  by (simp add: no_doors_yet_def door_shop_def empty_doors_def demo_shop_def empty_shop_def stocked_ok)

text \<open>C37: Whatever customers, staff, the payment gateway and the warehouse do, a door in production was agreed:
  its current quotation is final, the customer accepted exactly that version, it was approved
  technically, and the commercial order is for the price of that quotation; and a door that left the
  workshop has every material it takes from stock consumed, each by a reservation of its own that
  the warehouse closed as consumed.\<close>

theorem production_was_agreed:
  assumes "no_doors_yet sh0" and "sh = run_txs (exec_door sha invoiced book) cs sh0"
    and "map_of (door_orders (doors sh)) i = Some d" and "do_status d \<in> producing"
  shows "\<exists>order qi q. map_of (orders sh) i = Some order \<and> current_quotation sh i d = Some (qi, q)
    \<and> qt_approved q \<and> qt_total q = Some (or_total order) \<and> do_accepted d = Some (qt_version q) \<and> do_technical d
    \<and> (do_status d \<in> produced \<longrightarrow> (\<forall>(_, r) \<in> set (stocked_requirements sh i qi). rq_consumed r \<noteq> None
        \<and> map_option rs_status (reservation_of sh r) = Some RS_CONSUMED))"
proof -
  have inv: "door_inv sh" unfolding assms(2) by (rule door_run_inv[OF assms(1)])
  then have "door_row_ok sh i d" using assms(3) by (simp add: door_inv_def doors_ok_def)
  then obtain order where order: "map_of (orders sh) i = Some order" by (auto simp: door_row_ok_def)
  show ?thesis
  proof (rule terms_of[OF inv assms(3) order])
    fix qi q assume q: "current_quotation sh i d = Some (qi, q)" "terms_ok d q order" "qt_version q = do_quote_version d"
      "do_status d \<in> produced \<Longrightarrow> \<forall>x \<in> set (stocked_requirements sh i qi). rq_consumed (snd x) \<noteq> None"
    have "map_option rs_status (reservation_of sh r) = Some RS_CONSUMED"
      if "(j, r) \<in> set (stocked_requirements sh i qi)" "rq_consumed r \<noteq> None" for j r
      using inv that by (force simp: door_inv_def doors_ok_def consumed_ok_def stocked_requirements_def requirements_of_def)
    moreover have "qt_approved q" "qt_total q = Some (or_total order)" "do_accepted d = Some (qt_version q)" "do_technical d"
      using q(2,3) assms(4) by (auto simp: terms_ok_def split: if_splits)
    ultimately show ?thesis using order q(1,4) by (intro exI[of _ order] exI[of _ qi] exI[of _ q]) fastforce
  qed
qed

theorem production_was_agreed_witness:
  "\<exists>d order qi q. map_of (door_orders (doors made_shop)) 10 = Some d \<and> do_status d = DS_QUALITY_CONTROL
    \<and> map_of (orders made_shop) 10 = Some order \<and> or_total order = 17440 \<and> current_quotation made_shop 10 d = Some (qi, q)
    \<and> do_accepted d = Some (qt_version q) \<and> stocked_requirements made_shop 10 qi \<noteq> []
    \<and> (\<forall>(_, r) \<in> set (stocked_requirements made_shop 10 qi). rq_consumed r \<noteq> None)"
proof -
  obtain d qi0 q0 where d: "map_of (door_orders (doors made_shop)) 10 = Some d" "do_status d = DS_QUALITY_CONTROL"
    and now: "current_quotation made_shop 10 d = Some (qi0, q0)" "qt_total q0 = Some 17440" "stocked_requirements made_shop 10 qi0 \<noteq> []"
    using made_shop_summary unfolding door_summary_def by (auto split: option.splits)
  have in_production: "do_status d \<in> producing" "do_status d \<in> produced" by (simp_all add: d(2) producing_def produced_def)
  obtain order qi q where p: "map_of (orders made_shop) 10 = Some order" "current_quotation made_shop 10 d = Some (qi, q)"
    "qt_total q = Some (or_total order)" "do_accepted d = Some (qt_version q)"
    "\<forall>(_, r) \<in> set (stocked_requirements made_shop 10 qi). rq_consumed r \<noteq> None
       \<and> map_option rs_status (reservation_of made_shop r) = Some RS_CONSUMED"
    using production_was_agreed[OF door_shop_start made_shop_def d(1) in_production(1)] in_production(2) by blast
  have "or_total order = 17440" "stocked_requirements made_shop 10 qi \<noteq> []" using now p(2,3) by simp_all
  then show ?thesis using d p by (intro exI[of _ d] exI[of _ order] exI[of _ qi] exI[of _ q]) blast
qed

section \<open>The report and the list\<close>

text \<open>The query selects the payments that count; the service counts nothing for the others.\<close>

lemma paid_in_report: "paid_in_report sh i = order_paid sh i"
proof -
  have counted: "settled s \<longleftrightarrow> s \<in> {PAY_PAID, PAY_PARTIALLY_REFUNDED, PAY_REFUNDED}" for s by (cases s) (simp_all add: settled_def)
  have "(\<Sum>(_, p)\<leftarrow>filter (\<lambda>(_, p). pay_order p = i \<and> settled (pay_status p)) ps. pay_amount p - pay_refunded p)
      = door_paid (map snd (filter (\<lambda>(_, p). pay_order p = i) ps))" for ps
    by (induction ps) (auto simp: door_paid_def)
  then show ?thesis by (simp add: paid_in_report_def order_paid_def payments_of_def counted[symmetric] del: insert_iff)
qed

definition joined :: "shop_db \<Rightarrow> uid \<Rightarrow> door_order \<Rightarrow> (int option \<times> int) list" where
  "joined sh i d = map (\<lambda>(_, q). (owed_total d q, paid_in_report sh i))
     (filter (\<lambda>(_, q). qt_version q = do_quote_version d) (quotations_of sh i))"

lemma find_unique:
  "distinct (map f xs) \<Longrightarrow> List.find (\<lambda>x. f x = v) xs = Some y \<Longrightarrow> filter (\<lambda>x. f x = v) xs = [y]"
proof (induction xs)
  case (Cons x xs)
  then show ?case by (cases "f x = v") (auto simp: filter_empty_conv rev_image_eqI)
qed simp

text \<open>The inner join of the report finds the one quotation the list shows.\<close>

lemma joined_view:
  assumes "door_row_ok sh i d"
  shows "\<exists>v t. project_door i d sh = Inr v \<and> joined sh i d = [(t, vw_paid v)] \<and> vw_order v = d
    \<and> greatest_zero t (vw_paid v) = (case vw_remaining v of None \<Rightarrow> 0 | Some r \<Rightarrow> r)
    \<and> (case t of None \<Rightarrow> 0 | Some x \<Rightarrow> x) = (case vw_remaining v of None \<Rightarrow> 0 | Some r \<Rightarrow> vw_paid v + r - vw_credit v)"
proof -
  obtain qi q where q: "current_quotation sh i d = Some (qi, q)"
    and uniq: "distinct (map (\<lambda>x. qt_version (snd x)) (quotations_of sh i))"
    using assms by (auto simp: door_row_ok_def versions_ok_def)
  have "filter (\<lambda>(_, q). qt_version q = do_quote_version d) (quotations_of sh i) = [(qi, q)]"
    using find_unique[OF uniq, of "do_quote_version d" "(qi, q)"] q
    unfolding current_quotation_def case_prod_beta by simp
  then have "joined sh i d = [(owed_total d q, order_paid sh i)]" by (simp add: joined_def paid_in_report)
  then show ?thesis
    by (auto simp: project_door_def current_door_quote_def q greatest_zero_def Let_def split: option.split)
qed

lemma views_of_rows:
  assumes "\<forall>(i, d) \<in> set xs. door_row_ok sh i d"
  shows "\<exists>vs. map_res (\<lambda>(i, d). project_door i d sh) xs = Inr vs \<and> length vs = length xs \<and> map vw_order vs = map snd xs
    \<and> (\<Sum>(_, p)\<leftarrow>concat (map (\<lambda>(i, d). joined sh i d) xs). p) = (\<Sum>v\<leftarrow>vs. vw_paid v)
    \<and> (\<Sum>(t, p)\<leftarrow>concat (map (\<lambda>(i, d). joined sh i d) xs). greatest_zero t p) = (\<Sum>v\<leftarrow>vs. case vw_remaining v of None \<Rightarrow> 0 | Some r \<Rightarrow> r)
    \<and> (\<Sum>(t, _)\<leftarrow>concat (map (\<lambda>(i, d). joined sh i d) xs). case t of None \<Rightarrow> 0 | Some x \<Rightarrow> x)
        = (\<Sum>v\<leftarrow>vs. case vw_remaining v of None \<Rightarrow> 0 | Some r \<Rightarrow> vw_paid v + r - vw_credit v)
    \<and> length (concat (map (\<lambda>(i, d). joined sh i d) xs)) = length xs"
  using assms
proof (induction xs)
  case (Cons x xs)
  obtain i d where x: "x = (i, d)" by fastforce
  obtain v t where v: "project_door i d sh = Inr v" "joined sh i d = [(t, vw_paid v)]" "vw_order v = d"
    "greatest_zero t (vw_paid v) = (case vw_remaining v of None \<Rightarrow> 0 | Some r \<Rightarrow> r)"
    "(case t of None \<Rightarrow> 0 | Some x \<Rightarrow> x) = (case vw_remaining v of None \<Rightarrow> 0 | Some r \<Rightarrow> vw_paid v + r - vw_credit v)"
    using joined_view[of sh i d] Cons.prems by (auto simp: x)
  obtain vs where vs: "map_res (\<lambda>(i, d). project_door i d sh) xs = Inr vs"
    "length vs = length xs \<and> map vw_order vs = map snd xs
      \<and> (\<Sum>(_, p)\<leftarrow>concat (map (\<lambda>(i, d). joined sh i d) xs). p) = (\<Sum>v\<leftarrow>vs. vw_paid v)
      \<and> (\<Sum>(t, p)\<leftarrow>concat (map (\<lambda>(i, d). joined sh i d) xs). greatest_zero t p) = (\<Sum>v\<leftarrow>vs. case vw_remaining v of None \<Rightarrow> 0 | Some r \<Rightarrow> r)
      \<and> (\<Sum>(t, _)\<leftarrow>concat (map (\<lambda>(i, d). joined sh i d) xs). case t of None \<Rightarrow> 0 | Some x \<Rightarrow> x)
          = (\<Sum>v\<leftarrow>vs. case vw_remaining v of None \<Rightarrow> 0 | Some r \<Rightarrow> vw_paid v + r - vw_credit v)
      \<and> length (concat (map (\<lambda>(i, d). joined sh i d) xs)) = length xs"
    using Cons by auto
  show ?case
    by (rule exI[of _ "v # vs"]) (use v vs in \<open>simp add: x\<close>)
qed simp

lemma status_counts: "(\<Sum>x\<leftarrow>map (\<lambda>s. (s, length (filter ((=) s) xs))) (remdups xs). snd x) = length xs"
proof -
  have "(\<Sum>x\<leftarrow>map (\<lambda>s. (s, length (filter ((=) s) xs))) (remdups xs). snd x) = (\<Sum>s\<in>set xs. count_list xs s)"
    by (simp add: comp_def sum_list_distinct_conv_sum_set count_list_eq_length_filter)
  then show ?thesis by (simp add: sum_count_set)
qed

text \<open>C38: After any run the figures of the report, which the database computes over its tables, are the sums of
  what the list shows order by order: every order is shown, the report counts each once, what was
  paid and what remains are the sums of the shown amounts, what was quoted is what was paid and
  remains less the credit of the customers, and the numbers per status add up to the orders.\<close>

theorem report_adds_up_the_list:
  assumes "no_doors_yet sh0" and "sh = run_txs (exec_door sha invoiced book) cs sh0"
  shows "\<exists>vs. map_res (\<lambda>(i, d). project_door i d sh) (door_orders (doors sh)) = Inr vs
    \<and> map vw_order vs = map snd (door_orders (doors sh)) \<and> dt_count (door_report_of sh) = length vs
    \<and> dt_paid (door_report_of sh) = (\<Sum>v\<leftarrow>vs. vw_paid v)
    \<and> dt_remaining (door_report_of sh) = (\<Sum>v\<leftarrow>vs. case vw_remaining v of None \<Rightarrow> 0 | Some r \<Rightarrow> r)
    \<and> dt_quoted (door_report_of sh) = (\<Sum>v\<leftarrow>vs. case vw_remaining v of None \<Rightarrow> 0 | Some r \<Rightarrow> vw_paid v + r - vw_credit v)
    \<and> (\<Sum>x\<leftarrow>dt_statuses (door_report_of sh). snd x) = length vs"
proof -
  have inv: "doors_ok sh" using door_run_inv[OF assms(1)] unfolding assms(2) by (simp add: door_inv_def)
  have "\<forall>(i, d) \<in> set (door_orders (doors sh)). door_row_ok sh i d"
    using inv by (auto simp: doors_ok_def door_keys_def)
  then obtain vs where vs: "map_res (\<lambda>(i, d). project_door i d sh) (door_orders (doors sh)) = Inr vs"
    "length vs = length (door_orders (doors sh))" "map vw_order vs = map snd (door_orders (doors sh))"
    "(\<Sum>(_, p)\<leftarrow>report_rows sh. p) = (\<Sum>v\<leftarrow>vs. vw_paid v)"
    "(\<Sum>(t, p)\<leftarrow>report_rows sh. greatest_zero t p) = (\<Sum>v\<leftarrow>vs. case vw_remaining v of None \<Rightarrow> 0 | Some r \<Rightarrow> r)"
    "(\<Sum>(t, _)\<leftarrow>report_rows sh. case t of None \<Rightarrow> 0 | Some x \<Rightarrow> x)
        = (\<Sum>v\<leftarrow>vs. case vw_remaining v of None \<Rightarrow> 0 | Some r \<Rightarrow> vw_paid v + r - vw_credit v)"
    "length (report_rows sh) = length (door_orders (doors sh))"
    using views_of_rows[of "door_orders (doors sh)" sh] unfolding report_rows_def joined_def by blast
  then show ?thesis
    using status_counts[of "map (\<lambda>(_, d). do_status d) (door_orders (doors sh))"]
    by (intro exI[of _ vs]) (simp add: door_report_of_def Let_def)
qed

theorem report_adds_up_the_list_witness:
  "\<exists>vs. map_res (\<lambda>(i, d). project_door i d ordered_door) (door_orders (doors ordered_door)) = Inr vs \<and> length vs = 1
    \<and> dt_paid (door_report_of ordered_door) = (\<Sum>v\<leftarrow>vs. vw_paid v) \<and> dt_paid (door_report_of ordered_door) = 17440"
proof -
  obtain vs where vs: "map_res (\<lambda>(i, d). project_door i d ordered_door) (door_orders (doors ordered_door)) = Inr vs"
    "dt_count (door_report_of ordered_door) = length vs" "dt_paid (door_report_of ordered_door) = (\<Sum>v\<leftarrow>vs. vw_paid v)"
    using report_adds_up_the_list[OF door_shop_start ordered_door_def] by blast
  have "dt_count (door_report_of ordered_door) = 1" "dt_paid (door_report_of ordered_door) = 17440"
    using ordered_door_report by (simp_all add: report_summary_def Let_def)
  then show ?thesis using vs by auto
qed

end
