(* ===== verification/Office.thy ===== *)
theory Office
  imports Transfers Json Door_Pricing "HOL-Library.List_Lexorder" "HOL-Library.Char_ord"
begin

text \<open>
  The state of the back office, purchase orders with their receipts and stocktakes over the stock ledger,
  and the idempotent command both services run: \<open>purchasing/purchasing.service.ts\<close> and
  \<open>stocktake/stocktake.service.ts\<close> contain the same \<open>stableJson\<close> and the same \<open>command\<close>, here
  \<open>stable_json\<close> and \<open>keyed_command\<close>. Identifiers are row numbers; a rejected transaction keeps the old
  state; the retries on a serialization failure (P2034) repeat the whole command.
\<close>

section \<open>Canonical JSON\<close>

datatype jtree = Leaf jval | Arr "jtree list" | Obj "(string \<times> jtree) list"

fun commas :: "string list \<Rightarrow> string" where
  "commas [] = []"
| "commas [s] = s"
| "commas (s # ss) = s @ '','' @ commas ss"

text \<open>The keys of an object are sorted by code unit.\<close>

fun stable_json :: "jtree \<Rightarrow> string" where
  "stable_json (Leaf v) = json_value v"
| "stable_json (Arr xs) = CHR ''['' # commas (map stable_json xs) @ '']''"
| "stable_json (Obj kvs) = CHR 0x7B # commas (map (\<lambda>(k, s). json_string k @ '':'' @ s)
     (sort_key fst (map (map_prod id stable_json) kvs))) @ ''}''"

section \<open>Purchase orders\<close>

datatype purchase_status = PO_DRAFT | PO_APPROVED | PO_PARTIALLY_RECEIVED | PO_RECEIVED | PO_CANCELLED

fun purchase_status_name :: "purchase_status \<Rightarrow> string" where
  "purchase_status_name PO_DRAFT = ''DRAFT''"
| "purchase_status_name PO_APPROVED = ''APPROVED''"
| "purchase_status_name PO_PARTIALLY_RECEIVED = ''PARTIALLY_RECEIVED''"
| "purchase_status_name PO_RECEIVED = ''RECEIVED''"
| "purchase_status_name PO_CANCELLED = ''CANCELLED''"

record purchase_item =
  pi_variant :: uid
  pi_ordered :: int
  pi_received :: int
  pi_cost :: int

record purchase =
  po_number :: string
  po_supplier :: uid
  po_warehouse :: uid
  po_status :: purchase_status
  po_version :: int
  po_expected :: "int option"
  po_notes :: "string option"
  po_items :: "(uid \<times> purchase_item) list"

record receipt_line =
  rl_item :: uid
  rl_variant :: uid
  rl_location :: uid
  rl_quantity :: int
  rl_movement :: uid

record receipt =
  rc_number :: string
  rc_purchase :: uid
  rc_warehouse :: uid
  rc_reference :: string
  rc_actor :: string
  rc_lines :: "(uid \<times> receipt_line) list"

text \<open>What \<open>publicOrder\<close> and \<open>publicReceipt\<close> compute: the cost of every line and of the order.\<close>

record purchase_view =
  pv_id :: uid
  pv_order :: purchase
  pv_line_costs :: "int list"
  pv_total :: int

datatype purchase_answer = Order_answer purchase_view | Receipt_answer uid receipt

section \<open>Stocktakes\<close>

datatype stocktake_status = TK_DRAFT | TK_COUNTING | TK_REVIEW | TK_COMPLETED | TK_CANCELLED

fun stocktake_status_name :: "stocktake_status \<Rightarrow> string" where
  "stocktake_status_name TK_DRAFT = ''DRAFT''"
| "stocktake_status_name TK_COUNTING = ''COUNTING''"
| "stocktake_status_name TK_REVIEW = ''REVIEW''"
| "stocktake_status_name TK_COMPLETED = ''COMPLETED''"
| "stocktake_status_name TK_CANCELLED = ''CANCELLED''"

datatype scope_type = Whole_warehouse | Some_locations | Some_variants

record count_line =
  cl_location :: uid
  cl_variant :: uid
  cl_expected :: int
  cl_counted :: "int option"
  cl_difference :: "int option"
  cl_counted_at :: "int option"
  cl_counted_by :: "string option"
  cl_movement :: "uid option"
  cl_notes :: "string option"

record stocktake =
  tk_number :: string
  tk_warehouse :: uid
  tk_status :: stocktake_status
  tk_scope :: scope_type
  tk_locations :: "uid list"
  tk_variants :: "uid list"
  tk_version :: int
  tk_notes :: "string option"
  tk_created_by :: string
  tk_counted_by :: "string option"
  tk_approved_by :: "string option"
  tk_started :: "int option"
  tk_submitted :: "int option"
  tk_completed :: "int option"
  tk_cancelled :: "int option"
  tk_items :: "(uid \<times> count_line) list"

text \<open>What is shown: the expected quantities and the differences are there only for approvers.\<close>

record count_view =
  cv_id :: uid
  cv_location :: uid
  cv_variant :: uid
  cv_expected :: "int option"
  cv_counted :: "int option"
  cv_difference :: "int option option"
  cv_counted_at :: "int option"
  cv_counted_by :: "string option"
  cv_movement :: "uid option"
  cv_notes :: "string option"

record stocktake_summary =
  su_total :: nat
  su_counted :: nat
  su_pending :: int
  su_net :: "int option"

record stocktake_view =
  tv_id :: uid
  tv_head :: stocktake
  tv_summary :: stocktake_summary
  tv_lines :: "count_view list"

section \<open>State\<close>

text \<open>Actor, scope and digest of the key identify a command; its record holds the digest of the payload.\<close>

type_synonym command_key = "string \<times> string \<times> string"
type_synonym 'r command_records = "(command_key \<times> string \<times> 'r) list"

record office_db =
  of_stock :: inv_db
  of_suppliers :: "(uid \<times> bool) list"
  of_purchases :: "(uid \<times> purchase) list"
  of_receipts :: "(uid \<times> receipt) list"
  of_purchase_records :: "purchase_answer command_records"
  of_stocktakes :: "(uid \<times> stocktake) list"
  of_stocktake_records :: "stocktake_view command_records"
  of_next :: uid

record office_context =
  oc_actor :: string
  oc_request :: "string option"
  oc_key :: string

definition office_audit :: "office_context \<Rightarrow> string \<Rightarrow> string \<Rightarrow> uid \<Rightarrow> (string \<times> jval) list \<Rightarrow> office_db \<Rightarrow> office_db" where
  "office_audit ctx action entity i meta db = db\<lparr>of_stock := record_audit
     \<lparr>ae_action = action, ae_entity = entity, ae_entity_id = i, ae_before = [], ae_after = [], ae_metadata = meta,
      ae_actor = Some (oc_actor ctx), ae_request = oc_request ctx\<rparr> (of_stock db)\<rparr>"

definition warehouse_open :: "office_db \<Rightarrow> uid \<Rightarrow> bool" where
  "warehouse_open db w \<longleftrightarrow> map_option wh_active (map_of (warehouses (of_stock db)) w) = Some True"

definition open_locations :: "office_db \<Rightarrow> uid \<Rightarrow> uid list \<Rightarrow> (uid \<times> location) list" where
  "open_locations db w ls = filter (\<lambda>(i, l). i \<in> set ls \<and> loc_warehouse l = w \<and> loc_active l) (locations (of_stock db))"

section \<open>Commands\<close>

definition command_key_ok :: "string \<Rightarrow> bool" where
  "command_key_ok s \<longleftrightarrow> 8 \<le> length s \<and> length s \<le> 96 \<and> list_all (\<lambda>c. is_alnum c \<or> c = CHR ''_'' \<or> c = CHR ''-'') s"

definition keyed_command ::
  "(string \<Rightarrow> string) \<Rightarrow> ('db \<Rightarrow> 'r command_records) \<Rightarrow> ('r command_records \<Rightarrow> 'db \<Rightarrow> 'db) \<Rightarrow> nat option
     \<Rightarrow> string \<Rightarrow> jtree \<Rightarrow> office_context \<Rightarrow> ('db \<Rightarrow> ('r \<times> 'db) res) \<Rightarrow> 'db \<Rightarrow> ('r \<times> 'db) res" where
  "keyed_command sha recs put limit scope payload ctx execute db =
     throw_if (\<not> command_key_ok (oc_key ctx)) (BadRequest ''VALIDATION_ERROR'')
     (throw_if (case limit of None \<Rightarrow> False | Some n \<Rightarrow> length scope > n) (BadRequest ''VALIDATION_ERROR'')
     (let key = (oc_actor ctx, scope, sha (oc_key ctx)); h = sha (stable_json payload) in
      case map_of (recs db) key of
        Some (h', answer) \<Rightarrow> throw_if (h' \<noteq> h) (Conflict ''IDEMPOTENCY_CONFLICT'') (Inr (answer, db))
      | None \<Rightarrow> andthen (execute db) (\<lambda>(answer, db'). Inr (answer, put (recs db' @ [(key, h, answer)]) db'))))"

end
