(* ===== verification/Credit.thy ===== *)
theory Credit
  imports Office
begin

text \<open>
  \<open>credit/credit.service.ts\<close>: credit accounts of customers, whose debt is the sum of an append-only ledger, and
  the triggers and constraints of the credit migrations that check every posting again. Sales on credit and
  their returns are rows this service reads; their own commands, and the triggers that reconcile them with
  orders, stock and payments, are not modelled. The Unicode normalizations and the reading of a timestamp
  belong to the runtime: \<open>nfc\<close>, \<open>fold_text\<close> (NFKC in upper case) and the instant of a \<open>stamp\<close> are arguments.
  The request middleware gives every request an id without blanks; that column of the constraints is left out.
\<close>

section \<open>Rows\<close>

datatype document_kind = DK_SALE | DK_OPENING

datatype entry_kind = EK_SALE | EK_OPENING | EK_RECEIPT | EK_REVERSAL | EK_DEBIT | EK_CREDIT_NOTE

datatype receipt_method = Cash | Bank_transfer

record credit_customer =
  xc_user :: "string option"
  xc_active :: bool

record credit_account =
  ca_customer :: uid
  ca_active :: bool
  ca_limit :: int
  ca_terms :: int
  ca_version :: int

record receivable =
  rd_account :: uid
  rd_order :: "uid option"
  rd_kind :: document_kind
  rd_amount :: int
  rd_issued :: int
  rd_due :: int
  rd_terms :: int
  rd_source :: string

record credit_receipt =
  cr_account :: uid
  cr_amount :: int
  cr_method :: receipt_method
  cr_evidence :: string
  cr_hash :: string
  cr_effective :: int

record credit_entry =
  ce_account :: uid
  ce_document :: uid
  ce_receipt :: "uid option"
  ce_reversal_of :: "uid option"
  ce_kind :: entry_kind
  ce_amount :: int
  ce_evidence :: "string option"
  ce_reason :: "string option"
  ce_hash :: "string option"
  ce_effective :: int

record sale_return =
  xr_document :: uid
  xr_amount :: int
  xr_refund_due :: int

record credit_summary =
  xs_id :: uid
  xs_customer :: uid
  xs_active :: bool
  xs_version :: int
  xs_limit :: int
  xs_terms :: int
  xs_outstanding :: int
  xs_available :: int
  xs_overdue :: int
  xs_opening :: bool
  xs_over_limit :: bool

record credit_answer =
  xa_account :: credit_summary
  xa_document :: "uid option"
  xa_receipt :: "uid option"
  xa_entries :: "uid list"

record credit_db =
  cd_customers :: "(uid \<times> credit_customer) list"
  cd_accounts :: "(uid \<times> credit_account) list"
  cd_documents :: "(uid \<times> receivable) list"
  cd_receipts :: "(uid \<times> credit_receipt) list"
  cd_entries :: "(uid \<times> credit_entry) list"
  cd_returns :: "(uid \<times> sale_return) list"
  cd_records :: "credit_answer command_records"
  cd_audits :: "audit_event list"
  cd_next :: uid

record credit_context =
  xx_actor :: string
  xx_request :: string
  xx_key :: string

section \<open>Reading the request\<close>

definition max_credit :: int where
  "max_credit = 9223372036854775807"

definition credit_invalid :: api_error where
  "credit_invalid = BadRequest ''VALIDATION_ERROR''"

definition credit_missing :: api_error where
  "credit_missing = NotFound ''CREDIT_NOT_FOUND''"

definition credit_amount :: "bool \<Rightarrow> string \<Rightarrow> int res" where
  "credit_amount allow_zero s =
     throw_if (\<not> decimal 18 s) credit_invalid
     (throw_if (digits_value s > max_credit \<or> (\<not> allow_zero \<and> digits_value s = 0)) credit_invalid (Inr (digits_value s)))"

definition control_char :: "char \<Rightarrow> bool" where
  "control_char c \<longleftrightarrow> (of_char c :: nat) < 32 \<or> (of_char c :: nat) = 127"

definition credit_text :: "(string \<Rightarrow> string) \<Rightarrow> nat \<Rightarrow> string \<Rightarrow> string res" where
  "credit_text nfc maximum s =
     throw_if (trim s = [] \<or> length (trim s) > maximum \<or> list_ex control_char s) credit_invalid (Inr (nfc (trim s)))"

text \<open>A timestamp as it was sent, with its instant when it has the required form and names a day of the calendar.\<close>

type_synonym stamp = "string \<times> int option"

definition credit_date :: "int \<Rightarrow> bool \<Rightarrow> stamp \<Rightarrow> int res" where
  "credit_date now allow_future x =
     need (snd x) credit_invalid (\<lambda>i. throw_if (\<not> allow_future \<and> i > now) credit_invalid (Inr i))"

definition version_input :: "int \<Rightarrow> unit res" where
  "version_input v = throw_if (v < 0 \<or> v > 2147483647) credit_invalid (Inr ())"

definition normalize_idempotency_key :: "string \<Rightarrow> string res" where
  "normalize_idempotency_key s =
     throw_if (trim s = [] \<or> length (trim s) > 128 \<or> list_ex control_char (trim s)) (BadRequest ''INVALID_REQUEST'') (Inr (trim s))"

section \<open>Balances\<close>

definition entry_sum :: "(credit_entry \<Rightarrow> bool) \<Rightarrow> credit_db \<Rightarrow> int" where
  "entry_sum P db = asum (\<lambda>_ e. if P e then ce_amount e else 0) (cd_entries db)"

definition of_document :: "uid \<Rightarrow> uid \<Rightarrow> credit_entry \<Rightarrow> bool" where
  "of_document a d e \<longleftrightarrow> ce_document e = d \<and> ce_account e = a"

definition principal_kinds :: "entry_kind set" where
  "principal_kinds = {EK_OPENING, EK_SALE, EK_DEBIT, EK_CREDIT_NOTE}"

definition document_outstanding :: "credit_db \<Rightarrow> uid \<Rightarrow> uid \<Rightarrow> int" where
  "document_outstanding db a d = entry_sum (of_document a d) db"

definition document_principal :: "credit_db \<Rightarrow> uid \<Rightarrow> uid \<Rightarrow> int" where
  "document_principal db a d = entry_sum (\<lambda>e. of_document a d e \<and> ce_kind e \<in> principal_kinds) db"

text \<open>Outstanding, principal and date of issue of a document of the account that has entries.\<close>

definition document_balance :: "credit_db \<Rightarrow> uid \<Rightarrow> uid \<Rightarrow> (int \<times> int \<times> int) option" where
  "document_balance db a d = (case map_of (cd_documents db) d of None \<Rightarrow> None
     | Some doc \<Rightarrow> if rd_account doc = a \<and> list_ex (\<lambda>(_, e). of_document a d e) (cd_entries db)
         then Some (document_outstanding db a d, document_principal db a d, rd_issued doc) else None)"

definition account_outstanding :: "credit_db \<Rightarrow> uid \<Rightarrow> int" where
  "account_outstanding db a = asum (\<lambda>d doc. if rd_account doc = a then document_outstanding db a d else 0) (cd_documents db)"

definition account_overdue :: "int \<Rightarrow> credit_db \<Rightarrow> uid \<Rightarrow> int" where
  "account_overdue now db a = asum (\<lambda>d doc. if rd_account doc = a \<and> rd_due doc < now \<and> document_outstanding db a d > 0
     then document_outstanding db a d else 0) (cd_documents db)"

definition opening_recorded :: "credit_db \<Rightarrow> uid \<Rightarrow> bool" where
  "opening_recorded db a \<longleftrightarrow> list_ex (\<lambda>(_, doc). rd_account doc = a \<and> rd_kind doc = DK_OPENING) (cd_documents db)"

definition available_credit :: "int \<Rightarrow> credit_db \<Rightarrow> uid \<Rightarrow> credit_account \<Rightarrow> bool \<Rightarrow> int" where
  "available_credit now db a acc customer_active =
     (if ca_active acc \<and> customer_active \<and> account_overdue now db a = 0 \<and> ca_limit acc > account_outstanding db a
      then ca_limit acc - account_outstanding db a else 0)"

definition credit_summary_of :: "int \<Rightarrow> credit_db \<Rightarrow> uid \<Rightarrow> credit_summary res" where
  "credit_summary_of now db a =
     need (map_of (cd_accounts db) a) (DbError ''P2025'') (\<lambda>acc.
     let active = (case map_of (cd_customers db) (ca_customer acc) of None \<Rightarrow> False | Some c \<Rightarrow> xc_active c) in
     Inr \<lparr>xs_id = a, xs_customer = ca_customer acc, xs_active = ca_active acc, xs_version = ca_version acc,
       xs_limit = ca_limit acc, xs_terms = ca_terms acc, xs_outstanding = account_outstanding db a,
       xs_available = available_credit now db a acc active, xs_overdue = account_overdue now db a,
       xs_opening = opening_recorded db a, xs_over_limit = account_outstanding db a > ca_limit acc\<rparr>)"

definition account_of :: "credit_db \<Rightarrow> uid \<Rightarrow> (uid \<times> credit_account) option" where
  "account_of db customer = List.find (\<lambda>(_, a). ca_customer a = customer) (cd_accounts db)"

definition current_account :: "credit_db \<Rightarrow> uid \<Rightarrow> int \<Rightarrow> (uid \<times> credit_account) res" where
  "current_account db customer expected =
     andthen (version_input expected) (\<lambda>_.
     need (account_of db customer) credit_missing (\<lambda>acc.
     throw_if (ca_version (snd acc) \<noteq> expected) (Conflict ''CREDIT_VERSION_CONFLICT'') (Inr acc)))"

definition check_debt_bound :: "int \<Rightarrow> credit_db \<Rightarrow> uid \<Rightarrow> int \<Rightarrow> unit res" where
  "check_debt_bound now db a delta =
     andthen (credit_summary_of now db a) (\<lambda>s.
     throw_if (xs_outstanding s + delta < 0 \<or> xs_outstanding s + delta > max_credit) credit_invalid (Inr ()))"

section \<open>Postings\<close>

definition entry_kind_of :: "document_kind \<Rightarrow> entry_kind" where
  "entry_kind_of k = (case k of DK_SALE \<Rightarrow> EK_SALE | DK_OPENING \<Rightarrow> EK_OPENING)"

text \<open>The check constraints on the shape of an entry; that its texts are not blank is left to \<open>credit_text\<close>.\<close>

definition entry_shape :: "credit_entry \<Rightarrow> bool" where
  "entry_shape e \<longleftrightarrow> (case ce_kind e of
     EK_OPENING \<Rightarrow> ce_amount e > 0 \<and> ce_receipt e = None \<and> ce_reversal_of e = None
   | EK_SALE \<Rightarrow> ce_amount e > 0 \<and> ce_receipt e = None \<and> ce_reversal_of e = None
   | EK_RECEIPT \<Rightarrow> ce_amount e < 0 \<and> ce_receipt e \<noteq> None \<and> ce_reversal_of e = None
   | EK_REVERSAL \<Rightarrow> ce_amount e > 0 \<and> ce_receipt e \<noteq> None \<and> ce_reversal_of e \<noteq> None \<and> ce_reason e \<noteq> None \<and> ce_evidence e \<noteq> None
   | EK_DEBIT \<Rightarrow> ce_amount e > 0 \<and> ce_receipt e = None \<and> ce_reversal_of e = None \<and> ce_reason e \<noteq> None \<and> ce_evidence e \<noteq> None
       \<and> ce_hash e \<noteq> None
   | EK_CREDIT_NOTE \<Rightarrow> ce_amount e < 0 \<and> ce_receipt e = None \<and> ce_reversal_of e = None \<and> ce_reason e \<noteq> None
       \<and> ce_evidence e \<noteq> None \<and> ce_hash e \<noteq> None)"

text \<open>The triggers before an insert: \<open>credit_entry_validate\<close> and \<open>credit_entry_chronology\<close>.\<close>

definition entry_matches :: "credit_db \<Rightarrow> credit_entry \<Rightarrow> bool" where
  "entry_matches db e \<longleftrightarrow> (case ce_kind e of
     EK_RECEIPT \<Rightarrow> (case ce_receipt e of None \<Rightarrow> False | Some r \<Rightarrow> (case map_of (cd_receipts db) r of None \<Rightarrow> False
       | Some rc \<Rightarrow> cr_account rc = ce_account e \<and> cr_effective rc = ce_effective e))
   | EK_REVERSAL \<Rightarrow> (case ce_reversal_of e of None \<Rightarrow> False | Some i \<Rightarrow> (case map_of (cd_entries db) i of None \<Rightarrow> False
       | Some ori \<Rightarrow> ce_kind ori = EK_RECEIPT \<and> ce_account ori = ce_account e \<and> ce_document ori = ce_document e
           \<and> ce_receipt ori = ce_receipt e \<and> ce_amount ori + ce_amount e = 0 \<and> ce_effective ori \<le> ce_effective e))
   | k \<Rightarrow> k \<in> {EK_DEBIT, EK_CREDIT_NOTE} \<or> (case map_of (cd_documents db) (ce_document e) of None \<Rightarrow> False
       | Some d \<Rightarrow> rd_account d = ce_account e \<and> entry_kind_of (rd_kind d) = k \<and> rd_amount d = ce_amount e
           \<and> rd_issued d = ce_effective e))"

definition entry_in_order :: "int \<Rightarrow> credit_db \<Rightarrow> credit_entry \<Rightarrow> bool" where
  "entry_in_order now db e \<longleftrightarrow> ce_effective e \<le> now
     \<and> (case map_of (cd_documents db) (ce_document e) of None \<Rightarrow> True | Some d \<Rightarrow> rd_issued d \<le> ce_effective e)"

definition entry_unique :: "credit_db \<Rightarrow> credit_entry \<Rightarrow> bool" where
  "entry_unique db e \<longleftrightarrow> \<not> list_ex (\<lambda>(_, f).
        (ce_reversal_of e \<noteq> None \<and> ce_reversal_of f = ce_reversal_of e)
      \<or> (ce_hash e \<noteq> None \<and> ce_hash f = ce_hash e)
      \<or> (ce_receipt e \<noteq> None \<and> ce_receipt f = ce_receipt e \<and> ce_document f = ce_document e \<and> ce_kind f = ce_kind e)
      \<or> (ce_kind e \<in> {EK_OPENING, EK_SALE} \<and> ce_kind f = ce_kind e \<and> ce_document f = ce_document e)) (cd_entries db)"

definition entry_refers :: "credit_db \<Rightarrow> credit_entry \<Rightarrow> bool" where
  "entry_refers db e \<longleftrightarrow>
     (case map_of (cd_documents db) (ce_document e) of None \<Rightarrow> False | Some d \<Rightarrow> rd_account d = ce_account e)
     \<and> (case ce_receipt e of None \<Rightarrow> True | Some r \<Rightarrow> (case map_of (cd_receipts db) r of None \<Rightarrow> False
          | Some rc \<Rightarrow> cr_account rc = ce_account e))"

definition bump_account :: "uid \<Rightarrow> credit_db \<Rightarrow> credit_db" where
  "bump_account a db = db\<lparr>cd_accounts := map (\<lambda>(i, acc). (i, if i = a then acc\<lparr>ca_version := ca_version acc + 1\<rparr> else acc)) (cd_accounts db)\<rparr>"

definition post_entry :: "int \<Rightarrow> credit_entry \<Rightarrow> credit_db \<Rightarrow> (uid \<times> credit_db) res" where
  "post_entry now e db =
     throw_if (\<not> entry_matches db e \<or> \<not> entry_in_order now db e \<or> \<not> entry_shape e) (DbError ''23514'')
     (throw_if (\<not> entry_unique db e) (DbError ''P2002'')
     (throw_if (\<not> entry_refers db e) (DbError ''P2003'')
     (let db1 = bump_account (ce_account e) db in
      Inr (cd_next db, db1\<lparr>cd_entries := cd_entries db @ [(cd_next db, e)], cd_next := Suc (cd_next db)\<rparr>))))"

fun post_entries :: "int \<Rightarrow> credit_entry list \<Rightarrow> credit_db \<Rightarrow> (uid list \<times> credit_db) res" where
  "post_entries now [] db = Inr ([], db)"
| "post_entries now (e # es) db =
     andthen (post_entry now e db) (\<lambda>(i, db1).
     andthen (post_entries now es db1) (\<lambda>(is, db2). Inr (i # is, db2)))"

text \<open>The deferred trigger \<open>credit_account_reconcile\<close>, for the account whose rows were inserted.\<close>

definition count_entries :: "(credit_entry \<Rightarrow> bool) \<Rightarrow> credit_db \<Rightarrow> nat" where
  "count_entries P db = length (filter (\<lambda>(_, e). P e) (cd_entries db))"

definition document_reconciled :: "credit_db \<Rightarrow> uid \<Rightarrow> receivable \<Rightarrow> bool" where
  "document_reconciled db d doc \<longleftrightarrow>
     count_entries (\<lambda>e. of_document (rd_account doc) d e \<and> ce_kind e = entry_kind_of (rd_kind doc)) db = 1
     \<and> 0 \<le> document_outstanding db (rd_account doc) d \<and> document_outstanding db (rd_account doc) d \<le> max_credit
     \<and> 0 \<le> document_principal db (rd_account doc) d \<and> document_principal db (rd_account doc) d \<le> max_credit"

definition of_receipt :: "uid \<Rightarrow> uid \<Rightarrow> entry_kind \<Rightarrow> credit_entry \<Rightarrow> bool" where
  "of_receipt a r k e \<longleftrightarrow> ce_account e = a \<and> ce_receipt e = Some r \<and> ce_kind e = k"

definition receipt_reconciled :: "credit_db \<Rightarrow> uid \<Rightarrow> credit_receipt \<Rightarrow> bool" where
  "receipt_reconciled db r rc \<longleftrightarrow>
     - entry_sum (of_receipt (cr_account rc) r EK_RECEIPT) db = cr_amount rc
     \<and> (count_entries (of_receipt (cr_account rc) r EK_REVERSAL) db = 0
        \<or> count_entries (of_receipt (cr_account rc) r EK_REVERSAL) db = count_entries (of_receipt (cr_account rc) r EK_RECEIPT) db)"

definition account_total :: "credit_db \<Rightarrow> uid \<Rightarrow> int" where
  "account_total db a = entry_sum (\<lambda>e. ce_account e = a) db"

definition account_reconciled :: "credit_db \<Rightarrow> uid \<Rightarrow> bool" where
  "account_reconciled db a \<longleftrightarrow>
     list_all (\<lambda>(d, doc). rd_account doc = a \<longrightarrow> document_reconciled db d doc) (cd_documents db)
     \<and> list_all (\<lambda>(r, rc). cr_account rc = a \<longrightarrow> receipt_reconciled db r rc) (cd_receipts db)
     \<and> 0 \<le> account_total db a \<and> account_total db a \<le> max_credit"

definition commit_account :: "uid \<Rightarrow> 'a \<Rightarrow> credit_db \<Rightarrow> ('a \<times> credit_db) res" where
  "commit_account a x db = throw_if (\<not> account_reconciled db a) (DbError ''23514'') (Inr (x, db))"

section \<open>Commands\<close>

definition credit_audit :: "credit_context \<Rightarrow> string \<Rightarrow> uid \<Rightarrow> (string \<times> jval) list \<Rightarrow> credit_db \<Rightarrow> credit_db" where
  "credit_audit ctx action i meta db = db\<lparr>cd_audits := cd_audits db @
     [\<lparr>ae_action = action, ae_entity = ''credit'', ae_entity_id = i, ae_before = [], ae_after = [], ae_metadata = meta,
       ae_actor = Some (xx_actor ctx), ae_request = Some (xx_request ctx)\<rparr>]\<rparr>"

text \<open>A unique violation is an answer; any other database error or crash is hidden behind a 500.\<close>

definition credit_failure :: "api_error \<Rightarrow> api_error" where
  "credit_failure e = (case e of
     DbError c \<Rightarrow> if c = ''P2002'' then Conflict ''CREDIT_EVIDENCE_CONFLICT'' else Crash ''CREDIT_COMMAND_FAILED''
   | Crash _ \<Rightarrow> Crash ''CREDIT_COMMAND_FAILED''
   | _ \<Rightarrow> e)"

definition credit_work ::
  "(string \<times> string \<times> string) \<Rightarrow> string \<Rightarrow> (credit_db \<Rightarrow> (credit_answer \<times> credit_db) res) \<Rightarrow> credit_db \<Rightarrow> (credit_answer \<times> credit_db) res" where
  "credit_work key h execute db =
     (case map_of (cd_records db) key of
        Some (h', answer) \<Rightarrow> throw_if (h' \<noteq> h) (Conflict ''IDEMPOTENCY_CONFLICT'') (Inr (answer, db))
      | None \<Rightarrow> andthen (execute db) (\<lambda>(answer, db'). Inr (answer, db'\<lparr>cd_records := cd_records db' @ [(key, h, answer)]\<rparr>)))"

definition execute_command ::
  "(string \<Rightarrow> string) \<Rightarrow> uid \<Rightarrow> string \<Rightarrow> jtree \<Rightarrow> credit_context \<Rightarrow> (credit_db \<Rightarrow> (credit_answer \<times> credit_db) res)
     \<Rightarrow> credit_db \<Rightarrow> (credit_answer \<times> credit_db) res" where
  "execute_command sha customer command payload ctx execute db =
     andthen (normalize_idempotency_key (xx_key ctx)) (\<lambda>key.
     throw_if (xx_actor ctx = [] \<or> xx_request ctx = [] \<or> length (xx_request ctx) > 100) credit_invalid
     (case credit_work (xx_actor ctx, ''credit:'' @ sha (show_nat customer @ '':'' @ command), sha key) (sha (stable_json payload))
        execute db of Inl e \<Rightarrow> Inl (credit_failure e) | Inr r \<Rightarrow> Inr r))"

definition credit_answer_of :: "int \<Rightarrow> uid \<Rightarrow> uid option \<Rightarrow> uid option \<Rightarrow> uid list \<Rightarrow> credit_db \<Rightarrow> (credit_answer \<times> credit_db) res" where
  "credit_answer_of now a d r es db =
     andthen (credit_summary_of now db a) (\<lambda>s. Inr (\<lparr>xa_account = s, xa_document = d, xa_receipt = r, xa_entries = es\<rparr>, db))"

text \<open>The terms of the account.\<close>

definition policy_work :: "uid \<Rightarrow> int option \<Rightarrow> bool \<Rightarrow> int \<Rightarrow> int \<Rightarrow> int \<Rightarrow> credit_context \<Rightarrow> credit_db \<Rightarrow> (credit_answer \<times> credit_db) res" where
  "policy_work customer expected active climit terms now ctx db =
     need (map_of (cd_customers db) customer) credit_missing (\<lambda>c.
     throw_if (active \<and> \<not> xc_active c) (Conflict ''CUSTOMER_INACTIVE'')
     (throw_if (map_option (\<lambda>(_, acc). ca_version acc) (account_of db customer) \<noteq> expected) (Conflict ''CREDIT_VERSION_CONFLICT'')
     (let (a, version, db1) = (case account_of db customer of
          Some (i, acc) \<Rightarrow> (i, ca_version acc + 1, db\<lparr>cd_accounts := AList.update i
            (acc\<lparr>ca_active := active, ca_limit := climit, ca_terms := terms, ca_version := ca_version acc + 1\<rparr>) (cd_accounts db)\<rparr>)
        | None \<Rightarrow> (cd_next db, 0, db\<lparr>cd_accounts := cd_accounts db @ [(cd_next db,
            \<lparr>ca_customer = customer, ca_active = active, ca_limit = climit, ca_terms = terms, ca_version = 0\<rparr>)],
            cd_next := Suc (cd_next db)\<rparr>)) in
      credit_answer_of now a None None [] (credit_audit ctx ''credit.policy.updated'' a
        [(''status'', JStr (if active then ''ACTIVE'' else ''SUSPENDED'')), (''creditLimit'', JStr (show_int climit)),
         (''termsDays'', JNum terms), (''version'', JNum version)] db1))))"

definition credit_policy ::
  "(string \<Rightarrow> string) \<Rightarrow> uid \<Rightarrow> int option \<Rightarrow> bool \<Rightarrow> string \<Rightarrow> int \<Rightarrow> int \<Rightarrow> credit_context \<Rightarrow> credit_db \<Rightarrow> (credit_answer \<times> credit_db) res" where
  "credit_policy sha customer expected active climit terms now ctx db =
     andthen (credit_amount True climit) (\<lambda>n.
     throw_if (terms < 0 \<or> terms > 365) credit_invalid
     (andthen (case expected of None \<Rightarrow> Inr () | Some v \<Rightarrow> version_input v) (\<lambda>_.
      execute_command sha customer ''policy''
        (Obj [(''expectedVersion'', Leaf (case expected of None \<Rightarrow> JNull | Some v \<Rightarrow> JNum v)),
          (''status'', Leaf (JStr (if active then ''ACTIVE'' else ''SUSPENDED''))), (''creditLimit'', Leaf (JStr climit)),
          (''termsDays'', Leaf (JNum terms))])
        ctx (policy_work customer expected active n terms now ctx) db)))"

text \<open>The opening balance.\<close>

definition day_ms :: int where
  "day_ms = 86400000"

text \<open>\<open>Math.ceil\<close> of the quotient.\<close>

definition terms_between :: "int \<Rightarrow> int \<Rightarrow> int" where
  "terms_between issued due_on = - ((issued - due_on) div day_ms)"

definition add_document :: "receivable \<Rightarrow> credit_db \<Rightarrow> (uid \<times> credit_db) res" where
  "add_document d db =
     throw_if (\<not> (rd_amount d > 0 \<and> 0 \<le> rd_terms d \<and> rd_terms d \<le> 365 \<and> rd_issued d \<le> rd_due d)) (DbError ''23514'')
     (Inr (cd_next db, db\<lparr>cd_documents := cd_documents db @ [(cd_next db, d)], cd_next := Suc (cd_next db)\<rparr>))"

definition opening_document :: "uid \<Rightarrow> int \<Rightarrow> int \<Rightarrow> int \<Rightarrow> string \<Rightarrow> receivable" where
  "opening_document a amount issued due_on source = \<lparr>rd_account = a, rd_order = None, rd_kind = DK_OPENING, rd_amount = amount,
     rd_issued = issued, rd_due = due_on, rd_terms = terms_between issued due_on, rd_source = source\<rparr>"

definition opening_entry :: "uid \<Rightarrow> uid \<Rightarrow> int \<Rightarrow> int \<Rightarrow> credit_entry" where
  "opening_entry a d amount issued = \<lparr>ce_account = a, ce_document = d, ce_receipt = None, ce_reversal_of = None,
     ce_kind = EK_OPENING, ce_amount = amount, ce_evidence = None, ce_reason = None, ce_hash = None, ce_effective = issued\<rparr>"

definition opening_work ::
  "uid \<Rightarrow> int \<Rightarrow> int \<Rightarrow> int \<Rightarrow> int \<Rightarrow> string \<Rightarrow> int \<Rightarrow> credit_context \<Rightarrow> credit_db \<Rightarrow> (credit_answer \<times> credit_db) res" where
  "opening_work customer expected amount issued due_on source now ctx db =
     andthen (current_account db customer expected) (\<lambda>(a, _).
     throw_if (opening_recorded db a) (Conflict ''CREDIT_OPENING_EXISTS'')
     (andthen (check_debt_bound now db a amount) (\<lambda>_.
      andthen (add_document (opening_document a amount issued due_on source) db) (\<lambda>(d, db1).
      andthen (post_entries now [opening_entry a d amount issued] db1) (\<lambda>(is, db2).
      let db3 = credit_audit ctx ''credit.opening.recorded'' d [(''accountId'', JId a), (''amount'', JStr (show_int amount))] db2 in
      andthen (credit_answer_of now a (Some d) None is db3) (\<lambda>(answer, db4). commit_account a answer db4))))))"

definition credit_opening ::
  "(string \<Rightarrow> string) \<Rightarrow> (string \<Rightarrow> string) \<Rightarrow> uid \<Rightarrow> int \<Rightarrow> string \<Rightarrow> stamp \<Rightarrow> stamp \<Rightarrow> string \<Rightarrow> int \<Rightarrow> credit_context \<Rightarrow> credit_db
     \<Rightarrow> (credit_answer \<times> credit_db) res" where
  "credit_opening sha nfc customer expected amount issued_at due_at source now ctx db =
     andthen (credit_amount False amount) (\<lambda>n.
     andthen (credit_date now False issued_at) (\<lambda>issued.
     andthen (credit_date now True due_at) (\<lambda>due_on.
     andthen (credit_text nfc 128 source) (\<lambda>reference.
     throw_if (terms_between issued due_on < 0 \<or> terms_between issued due_on > 365) credit_invalid
     (execute_command sha customer ''opening''
       (Obj [(''expectedVersion'', Leaf (JNum expected)), (''amount'', Leaf (JStr amount)), (''issuedAt'', Leaf (JStr (fst issued_at))),
         (''dueAt'', Leaf (JStr (fst due_at))), (''sourceReference'', Leaf (JStr reference))])
       ctx (opening_work customer expected n issued due_on reference now ctx) db)))))"

text \<open>A receipt and its allocations to documents.\<close>

type_synonym allocation = "uid \<times> int"

fun read_allocations :: "(uid \<times> string) list \<Rightarrow> allocation list res" where
  "read_allocations [] = Inr []"
| "read_allocations ((d, s) # xs) =
     andthen (credit_amount False s) (\<lambda>n. andthen (read_allocations xs) (\<lambda>ys. Inr ((d, n) # ys)))"

fun check_allocations :: "credit_db \<Rightarrow> uid \<Rightarrow> int \<Rightarrow> allocation list \<Rightarrow> unit res" where
  "check_allocations db a effective [] = Inr ()"
| "check_allocations db a effective ((d, n) # xs) =
     need (document_balance db a d) credit_missing (\<lambda>(outstanding, _, issued).
     throw_if (effective < issued) credit_invalid
     (throw_if (n > outstanding) (Conflict ''CREDIT_ALLOCATION_CONFLICT'') (check_allocations db a effective xs)))"

definition receipt_entry :: "uid \<Rightarrow> uid \<Rightarrow> int \<Rightarrow> allocation \<Rightarrow> credit_entry" where
  "receipt_entry a r effective x = \<lparr>ce_account = a, ce_document = fst x, ce_receipt = Some r, ce_reversal_of = None,
     ce_kind = EK_RECEIPT, ce_amount = - snd x, ce_evidence = None, ce_reason = None, ce_hash = None, ce_effective = effective\<rparr>"

definition method_name :: "receipt_method \<Rightarrow> string" where
  "method_name m = (case m of Cash \<Rightarrow> ''CASH'' | Bank_transfer \<Rightarrow> ''BANK_TRANSFER'')"

definition receipt_work ::
  "uid \<Rightarrow> int \<Rightarrow> int \<Rightarrow> receipt_method \<Rightarrow> int \<Rightarrow> string \<Rightarrow> string \<Rightarrow> allocation list \<Rightarrow> int \<Rightarrow> credit_context \<Rightarrow> credit_db
     \<Rightarrow> (credit_answer \<times> credit_db) res" where
  "receipt_work customer expected amount m effective evidence h allocations now ctx db =
     andthen (current_account db customer expected) (\<lambda>(a, _).
     throw_if (list_ex (\<lambda>(_, rc). cr_hash rc = h) (cd_receipts db)) (Conflict ''CREDIT_EVIDENCE_CONFLICT'')
     (andthen (check_allocations db a effective allocations) (\<lambda>_.
      let r = cd_next db;
          db1 = db\<lparr>cd_receipts := cd_receipts db @ [(r, \<lparr>cr_account = a, cr_amount = amount, cr_method = m, cr_evidence = evidence,
            cr_hash = h, cr_effective = effective\<rparr>)], cd_next := Suc r\<rparr> in
      andthen (post_entries now (map (receipt_entry a r effective) allocations) db1) (\<lambda>(is, db2).
      let db3 = credit_audit ctx ''credit.receipt.recorded'' r [(''accountId'', JId a), (''amount'', JStr (show_int amount)),
        (''method'', JStr (method_name m)), (''allocationCount'', JNum (int (length allocations)))] db2 in
      andthen (credit_answer_of now a None (Some r) is db3) (\<lambda>(answer, db4). commit_account a answer db4)))))"

record receipt_request =
  xq_version :: int
  xq_amount :: string
  xq_method :: receipt_method
  xq_effective :: stamp
  xq_evidence :: string
  xq_allocations :: "(uid \<times> string) list"

definition credit_receive ::
  "(string \<Rightarrow> string) \<Rightarrow> (string \<Rightarrow> string) \<Rightarrow> (string \<Rightarrow> string) \<Rightarrow> uid \<Rightarrow> receipt_request \<Rightarrow> int \<Rightarrow> credit_context \<Rightarrow> credit_db
     \<Rightarrow> (credit_answer \<times> credit_db) res" where
  "credit_receive sha nfc fold_text customer q now ctx db =
     andthen (credit_amount False (xq_amount q)) (\<lambda>amount.
     andthen (credit_date now False (xq_effective q)) (\<lambda>effective.
     andthen (credit_text nfc 128 (xq_evidence q)) (\<lambda>evidence.
     throw_if (length (xq_allocations q) < 1 \<or> length (xq_allocations q) > 100) credit_invalid
     (andthen (read_allocations (xq_allocations q)) (\<lambda>read.
      let allocations = sort_key fst read in
      throw_if (\<not> distinct (map fst allocations) \<or> (\<Sum>(_, n)\<leftarrow>allocations. n) \<noteq> amount) credit_invalid
      (execute_command sha customer ''receipt''
        (Obj [(''expectedVersion'', Leaf (JNum (xq_version q))), (''amount'', Leaf (JStr (xq_amount q))),
          (''method'', Leaf (JStr (method_name (xq_method q)))), (''effectiveAt'', Leaf (JStr (fst (xq_effective q)))),
          (''evidenceReference'', Leaf (JStr evidence)),
          (''allocations'', Arr (map (\<lambda>(d, n). Obj [(''documentId'', Leaf (JId d)), (''amount'', Leaf (JStr (show_int n)))]) allocations))])
        ctx (receipt_work customer (xq_version q) amount (xq_method q) effective evidence (sha (fold_text evidence)) allocations now ctx)
        db))))))"

text \<open>The reversal of a whole receipt.\<close>

definition receipt_entries :: "credit_db \<Rightarrow> uid \<Rightarrow> (uid \<times> credit_entry) list" where
  "receipt_entries db r = filter (\<lambda>(_, e). ce_receipt e = Some r \<and> ce_kind e = EK_RECEIPT) (cd_entries db)"

definition reversed :: "credit_db \<Rightarrow> uid \<Rightarrow> bool" where
  "reversed db i \<longleftrightarrow> list_ex (\<lambda>(_, e). ce_reversal_of e = Some i) (cd_entries db)"

definition reversal_entry :: "uid \<Rightarrow> uid \<Rightarrow> int \<Rightarrow> string \<Rightarrow> string \<Rightarrow> uid \<times> credit_entry \<Rightarrow> credit_entry" where
  "reversal_entry a r effective evidence reason x = \<lparr>ce_account = a, ce_document = ce_document (snd x), ce_receipt = Some r,
     ce_reversal_of = Some (fst x), ce_kind = EK_REVERSAL, ce_amount = - ce_amount (snd x), ce_evidence = Some evidence,
     ce_reason = Some reason, ce_hash = None, ce_effective = effective\<rparr>"

definition reverse_work ::
  "uid \<Rightarrow> uid \<Rightarrow> int \<Rightarrow> int \<Rightarrow> string \<Rightarrow> string \<Rightarrow> int \<Rightarrow> credit_context \<Rightarrow> credit_db \<Rightarrow> (credit_answer \<times> credit_db) res" where
  "reverse_work customer r expected effective reason evidence now ctx db =
     andthen (current_account db customer expected) (\<lambda>(a, _).
     need (case map_of (cd_receipts db) r of None \<Rightarrow> None | Some rc \<Rightarrow> if cr_account rc = a then Some rc else None) credit_missing (\<lambda>rc.
     let originals = receipt_entries db r in
     throw_if (list_ex (\<lambda>(_, x). xr_refund_due x > 0 \<and> xr_document x \<in> set (map (\<lambda>(_, e). ce_document e) originals)) (cd_returns db))
       (Conflict ''CREDIT_RETURN_CONFLICT'')
     (throw_if (originals = [] \<or> list_ex (\<lambda>(i, _). reversed db i) originals) (Conflict ''CREDIT_RECEIPT_REVERSED'')
     (throw_if (effective < cr_effective rc) credit_invalid
     (andthen (check_debt_bound now db a (cr_amount rc)) (\<lambda>_.
      andthen (post_entries now (map (reversal_entry a r effective evidence reason) originals) db) (\<lambda>(is, db1).
      let db2 = credit_audit ctx ''credit.receipt.reversed'' r [(''accountId'', JId a), (''amount'', JStr (show_int (cr_amount rc))),
        (''allocationCount'', JNum (int (length originals)))] db1 in
      andthen (credit_answer_of now a None (Some r) is db2) (\<lambda>(answer, db3). commit_account a answer db3))))))))"

definition correction_json :: "int \<Rightarrow> stamp \<Rightarrow> string \<Rightarrow> string \<Rightarrow> (string \<times> jtree) list" where
  "correction_json expected effective_at reason evidence = [(''expectedVersion'', Leaf (JNum expected)),
     (''effectiveAt'', Leaf (JStr (fst effective_at))), (''reason'', Leaf (JStr reason)), (''evidenceReference'', Leaf (JStr evidence))]"

definition credit_reverse ::
  "(string \<Rightarrow> string) \<Rightarrow> (string \<Rightarrow> string) \<Rightarrow> uid \<Rightarrow> uid \<Rightarrow> int \<Rightarrow> stamp \<Rightarrow> string \<Rightarrow> string \<Rightarrow> int \<Rightarrow> credit_context \<Rightarrow> credit_db
     \<Rightarrow> (credit_answer \<times> credit_db) res" where
  "credit_reverse sha nfc customer r expected effective_at raw_reason raw_evidence now ctx db =
     andthen (credit_date now False effective_at) (\<lambda>effective.
     andthen (credit_text nfc 500 raw_reason) (\<lambda>reason.
     andthen (credit_text nfc 128 raw_evidence) (\<lambda>evidence.
     execute_command sha customer (''reverse:'' @ show_nat r) (Obj (correction_json expected effective_at reason evidence)) ctx
       (reverse_work customer r expected effective reason evidence now ctx) db)))"

text \<open>A correction of a document.\<close>

definition adjustment_entry :: "uid \<Rightarrow> uid \<Rightarrow> bool \<Rightarrow> int \<Rightarrow> int \<Rightarrow> string \<Rightarrow> string \<Rightarrow> string \<Rightarrow> credit_entry" where
  "adjustment_entry a d note amount effective reason evidence h = \<lparr>ce_account = a, ce_document = d, ce_receipt = None,
     ce_reversal_of = None, ce_kind = (if note then EK_CREDIT_NOTE else EK_DEBIT), ce_amount = amount, ce_evidence = Some evidence,
     ce_reason = Some reason, ce_hash = Some h, ce_effective = effective\<rparr>"

definition adjust_work ::
  "(string \<Rightarrow> string) \<Rightarrow> (string \<Rightarrow> string) \<Rightarrow> uid \<Rightarrow> uid \<Rightarrow> int \<Rightarrow> bool \<Rightarrow> int \<Rightarrow> int \<Rightarrow> string \<Rightarrow> string \<Rightarrow> int \<Rightarrow> credit_context \<Rightarrow> credit_db
     \<Rightarrow> (credit_answer \<times> credit_db) res" where
  "adjust_work sha fold_text customer d expected note amount effective reason evidence now ctx db =
     andthen (current_account db customer expected) (\<lambda>(a, _).
     throw_if (list_ex (\<lambda>(_, x). xr_document x = d) (cd_returns db)) (Conflict ''CREDIT_RETURN_CONFLICT'')
     (need (document_balance db a d) credit_missing (\<lambda>(outstanding, debt, issued).
      throw_if (effective < issued) credit_invalid
      (throw_if (outstanding + amount < 0) (Conflict ''CREDIT_ADJUSTMENT_CONFLICT'')
      (throw_if (debt + amount > max_credit) credit_invalid
      (andthen (check_debt_bound now db a amount) (\<lambda>_.
       let h = sha (stable_json (Arr [Leaf (JId a), Leaf (JId d), Leaf (JStr (fold_text evidence))])) in
       throw_if (list_ex (\<lambda>(_, e). ce_hash e = Some h) (cd_entries db)) (Conflict ''CREDIT_EVIDENCE_CONFLICT'')
       (andthen (post_entries now [adjustment_entry a d note amount effective reason evidence h] db) (\<lambda>(is, db1).
        let db2 = credit_audit ctx ''credit.document.adjusted'' d [(''accountId'', JId a),
          (''kind'', JStr (if note then ''CREDIT_NOTE'' else ''DEBIT_ADJUSTMENT'')), (''amount'', JStr (show_int amount))] db1 in
        andthen (credit_answer_of now a (Some d) None is db2) (\<lambda>(answer, db3). commit_account a answer db3))))))))))"

definition credit_adjust ::
  "(string \<Rightarrow> string) \<Rightarrow> (string \<Rightarrow> string) \<Rightarrow> (string \<Rightarrow> string) \<Rightarrow> uid \<Rightarrow> uid \<Rightarrow> int \<Rightarrow> bool \<Rightarrow> string \<Rightarrow> stamp \<Rightarrow> string \<Rightarrow> string \<Rightarrow> int
     \<Rightarrow> credit_context \<Rightarrow> credit_db \<Rightarrow> (credit_answer \<times> credit_db) res" where
  "credit_adjust sha nfc fold_text customer d expected note raw_amount effective_at raw_reason raw_evidence now ctx db =
     andthen (credit_amount False raw_amount) (\<lambda>unsigned.
     andthen (credit_date now False effective_at) (\<lambda>effective.
     andthen (credit_text nfc 500 raw_reason) (\<lambda>reason.
     andthen (credit_text nfc 128 raw_evidence) (\<lambda>evidence.
     execute_command sha customer (''adjust:'' @ show_nat d)
       (Obj (correction_json expected effective_at reason evidence @ [(''amount'', Leaf (JStr raw_amount)),
          (''kind'', Leaf (JStr (if note then ''CREDIT_NOTE'' else ''DEBIT_ADJUSTMENT'')))]))
       ctx (adjust_work sha fold_text customer d expected note (if note then - unsigned else unsigned) effective reason evidence now ctx)
       db))))"

section \<open>Reading\<close>

datatype document_state = XD_CREDITED | XD_PAID | XD_OVERDUE | XD_PARTIALLY_PAID | XD_UNPAID

record document_view =
  dv_id :: uid
  dv_document :: receivable
  dv_principal :: int
  dv_outstanding :: int
  dv_state :: document_state

definition document_returns :: "credit_db \<Rightarrow> uid \<Rightarrow> sale_return list" where
  "document_returns db d = map snd (filter (\<lambda>(_, x). xr_document x = d) (cd_returns db))"

definition document_state_of :: "int \<Rightarrow> receivable \<Rightarrow> int \<Rightarrow> int \<Rightarrow> sale_return list \<Rightarrow> document_state" where
  "document_state_of now doc outstanding debt rs =
     (if outstanding = 0 \<and> rs \<noteq> [] \<and> (\<Sum>x\<leftarrow>rs. xr_amount x) = rd_amount doc then XD_CREDITED
      else if outstanding = 0 then XD_PAID else if rd_due doc < now then XD_OVERDUE
      else if outstanding < debt then XD_PARTIALLY_PAID else XD_UNPAID)"

definition document_line :: "int \<Rightarrow> credit_db \<Rightarrow> uid \<Rightarrow> uid \<times> receivable \<Rightarrow> document_view res" where
  "document_line now db a x =
     need (document_balance db a (fst x)) (Conflict ''CREDIT_RECONCILIATION_REQUIRED'') (\<lambda>(outstanding, debt, _).
     let rs = document_returns db (fst x); effective = debt - (\<Sum>y\<leftarrow>rs. xr_refund_due y) in
     Inr \<lparr>dv_id = fst x, dv_document = snd x, dv_principal = effective, dv_outstanding = outstanding,
       dv_state = document_state_of now (snd x) outstanding effective rs\<rparr>)"

fun document_lines :: "int \<Rightarrow> credit_db \<Rightarrow> uid \<Rightarrow> (uid \<times> receivable) list \<Rightarrow> document_view list res" where
  "document_lines now db a [] = Inr []"
| "document_lines now db a (x # xs) =
     andthen (document_line now db a x) (\<lambda>v. andthen (document_lines now db a xs) (\<lambda>vs. Inr (v # vs)))"

record credit_statement =
  xt_account :: "credit_summary option"
  xt_documents :: "document_view list"
  xt_total :: nat

definition check_page :: "nat \<Rightarrow> nat \<Rightarrow> unit res" where
  "check_page offset limit = throw_if (offset > 1000000 \<or> limit < 1 \<or> limit > 100) credit_invalid (Inr ())"

definition empty_statement :: credit_statement where
  "empty_statement = \<lparr>xt_account = None, xt_documents = [], xt_total = 0\<rparr>"

definition statement_in :: "int \<Rightarrow> uid \<Rightarrow> nat \<Rightarrow> nat \<Rightarrow> credit_db \<Rightarrow> credit_statement res" where
  "statement_in now customer offset limit db =
     (case account_of db customer of None \<Rightarrow> Inr empty_statement
      | Some (a, _) \<Rightarrow>
        andthen (credit_summary_of now db a) (\<lambda>s.
        let rows = rev (sort_key (\<lambda>(d, doc). (rd_issued doc, d)) (filter (\<lambda>(_, doc). rd_account doc = a) (cd_documents db))) in
        andthen (document_lines now db a (take limit (drop offset rows))) (\<lambda>vs.
        Inr \<lparr>xt_account = Some s, xt_documents = vs, xt_total = length rows\<rparr>)))"

definition credit_statement_of :: "int \<Rightarrow> uid \<Rightarrow> nat \<Rightarrow> nat \<Rightarrow> credit_db \<Rightarrow> credit_statement res" where
  "credit_statement_of now customer offset limit db =
     andthen (check_page offset limit) (\<lambda>_.
     need (map_of (cd_customers db) customer) credit_missing (\<lambda>_. statement_in now customer offset limit db))"

definition customer_statement :: "int \<Rightarrow> string \<Rightarrow> nat \<Rightarrow> nat \<Rightarrow> credit_db \<Rightarrow> credit_statement res" where
  "customer_statement now user offset limit db =
     andthen (check_page offset limit) (\<lambda>_.
     case List.find (\<lambda>(_, c). xc_user c = Some user \<and> xc_active c) (cd_customers db) of
       None \<Rightarrow> Inr empty_statement
     | Some (i, _) \<Rightarrow> statement_in now i offset limit db)"

definition credit_ledger :: "uid \<Rightarrow> nat \<Rightarrow> nat \<Rightarrow> credit_db \<Rightarrow> ((uid \<times> credit_entry) list \<times> nat) res" where
  "credit_ledger customer offset limit db =
     andthen (check_page offset limit) (\<lambda>_.
     need (account_of db customer) credit_missing (\<lambda>(a, _).
     let rows = rev (filter (\<lambda>(_, e). ce_account e = a) (cd_entries db)) in
     Inr (take limit (drop offset rows), length rows)))"

end
