(* ===== verification/Credit_Facts.thy ===== *)
theory Credit_Facts
  imports Credit
begin

text \<open>
  The books of the credit accounts: what every posting keeps, and why the triggers of the database never
  refuse what the service has checked.
\<close>

section \<open>Sums over an extended ledger\<close>

definition added_sum :: "(credit_entry \<Rightarrow> bool) \<Rightarrow> (uid \<times> credit_entry) list \<Rightarrow> int" where
  "added_sum P es = asum (\<lambda>_ e. if P e then ce_amount e else 0) es"

lemma entry_sum_added:
  "cd_entries db' = cd_entries db @ es \<Longrightarrow> entry_sum P db' = entry_sum P db + added_sum P es"
  by (simp add: entry_sum_def added_sum_def table_simps)

lemma added_sum_none: "\<forall>(_, e) \<in> set es. \<not> P e \<Longrightarrow> added_sum P es = 0"
  by (induction es) (auto simp: added_sum_def)

lemma added_sum_Cons [simp]: "added_sum P ((i, e) # es) = (if P e then ce_amount e else 0) + added_sum P es"
  "added_sum P [] = 0"
  by (simp_all add: added_sum_def)

lemma count_added:
  "cd_entries db' = cd_entries db @ es \<Longrightarrow> count_entries P db' = count_entries P db + length (filter (\<lambda>(_, e). P e) es)"
  by (simp add: count_entries_def)

section \<open>The invariant\<close>

definition issued_before :: "credit_db \<Rightarrow> credit_entry \<Rightarrow> bool" where
  "issued_before db e \<longleftrightarrow> (\<exists>doc. map_of (cd_documents db) (ce_document e) = Some doc \<and> rd_account doc = ce_account e
     \<and> rd_issued doc \<le> ce_effective e)"

definition receipt_there :: "credit_db \<Rightarrow> credit_entry \<Rightarrow> bool" where
  "receipt_there db e \<longleftrightarrow> (\<forall>r. ce_receipt e = Some r \<longrightarrow> (\<exists>rc. map_of (cd_receipts db) r = Some rc \<and> cr_account rc = ce_account e
     \<and> (ce_kind e = EK_RECEIPT \<longrightarrow> cr_effective rc = ce_effective e)))"

definition reverses :: "credit_db \<Rightarrow> credit_entry \<Rightarrow> bool" where
  "reverses db e \<longleftrightarrow> (\<forall>i. ce_reversal_of e = Some i \<longrightarrow> (\<exists>ori. map_of (cd_entries db) i = Some ori \<and> ce_kind ori = EK_RECEIPT
     \<and> ce_account ori = ce_account e \<and> ce_document ori = ce_document e \<and> ce_receipt ori = ce_receipt e
     \<and> ce_amount ori + ce_amount e = 0))"

definition entry_ok :: "credit_db \<Rightarrow> credit_entry \<Rightarrow> bool" where
  "entry_ok db e \<longleftrightarrow> entry_shape e \<and> issued_before db e \<and> receipt_there db e \<and> reverses db e"

definition settling :: "credit_entry \<Rightarrow> bool" where
  "settling e \<longleftrightarrow> ce_kind e \<in> {EK_RECEIPT, EK_REVERSAL}"

text \<open>What receipts took from a document: the receipts that are not reversed.\<close>

definition standing :: "credit_db \<Rightarrow> uid \<Rightarrow> uid \<Rightarrow> int" where
  "standing db a d = asum (\<lambda>i e. if of_document a d e \<and> ce_kind e = EK_RECEIPT \<and> \<not> reversed db i then ce_amount e else 0) (cd_entries db)"

definition keys_ok :: "credit_db \<Rightarrow> bool" where
  "keys_ok db \<longleftrightarrow> distinct (map fst (cd_accounts db)) \<and> distinct (map fst (cd_documents db)) \<and> distinct (map fst (cd_receipts db))
     \<and> distinct (map fst (cd_entries db))
     \<and> (\<forall>i \<in> fst ` set (cd_accounts db) \<union> fst ` set (cd_documents db) \<union> fst ` set (cd_receipts db) \<union> fst ` set (cd_entries db). i < cd_next db)"

definition entries_ok :: "credit_db \<Rightarrow> bool" where
  "entries_ok db \<longleftrightarrow> (\<forall>(_, e) \<in> set (cd_entries db). entry_ok db e)
     \<and> (\<forall>a d. entry_sum (\<lambda>e. of_document a d e \<and> settling e) db = standing db a d)"

definition books_ok :: "credit_db \<Rightarrow> bool" where
  "books_ok db \<longleftrightarrow> keys_ok db \<and> entries_ok db \<and> (\<forall>a. account_reconciled db a)"

lemma entries_okD:
  assumes "entries_ok db"
  shows "(i, e) \<in> set (cd_entries db) \<Longrightarrow> entry_ok db e"
    "entry_sum (\<lambda>e. of_document a d e \<and> settling e) db = standing db a d"
  using assms by (auto simp: entries_ok_def)

lemma books_okD:
  assumes "books_ok db"
  shows "keys_ok db" "account_reconciled db a" "entries_ok db"
  using assms by (auto simp: books_ok_def)

lemma standing_nonpos: "entries_ok db \<Longrightarrow> standing db a d \<le> 0"
proof -
  assume ok: "entries_ok db"
  have neg: "ce_amount e < 0" if "(i, e) \<in> set (cd_entries db)" "ce_kind e = EK_RECEIPT" for i e
    using entries_okD(1)[OF ok that(1)] that(2) by (simp add: entry_ok_def entry_shape_def)
  have "0 \<le> asum (\<lambda>i e. - (if of_document a d e \<and> ce_kind e = EK_RECEIPT \<and> \<not> reversed db i then ce_amount e else 0)) (cd_entries db)"
    by (intro asum_nonneg) (auto dest: neg)
  moreover have "asum (\<lambda>i e. - f i e) t = - asum f t" for f and t :: "(uid \<times> credit_entry) list"
    by (induction t) auto
  ultimately show ?thesis by (simp add: standing_def)
qed

text \<open>Receipts only lower what is owed.\<close>

lemma kinds_split: "ce_kind e \<in> principal_kinds \<longleftrightarrow> \<not> settling e"
  by (cases "ce_kind e") (auto simp: principal_kinds_def settling_def)

lemma outstanding_split:
  "document_outstanding db a d = document_principal db a d + entry_sum (\<lambda>e. of_document a d e \<and> settling e) db"
  unfolding document_outstanding_def document_principal_def entry_sum_def asum_add[symmetric]
  by (intro asum_cong) (auto simp: kinds_split)

lemma outstanding_le: "entries_ok db \<Longrightarrow> document_outstanding db a d \<le> document_principal db a d"
  using standing_nonpos[of db a d] entries_okD(2)[of db a d] by (simp add: outstanding_split)

text \<open>The two totals of an account agree: over its entries and over its documents.\<close>

lemma asum_absent: "i \<notin> fst ` set t \<Longrightarrow> asum (\<lambda>k v. if k = i \<and> P v then c else 0) t = (0::int)"
  by (induction t) auto

lemma asum_single:
  "distinct (map fst t) \<Longrightarrow> map_of t i = Some v \<Longrightarrow> asum (\<lambda>k v. if k = i \<and> P v then c else 0) t = (if P v then c else (0::int))"
  by (induction t) (auto simp: asum_absent split: if_splits)

lemma account_total_documents:
  assumes docs: "distinct (map fst (cd_documents db))" and es: "\<forall>(_, e) \<in> set (cd_entries db). issued_before db e"
  shows "account_outstanding db a = account_total db a"
proof -
  have "asum (\<lambda>d doc. if rd_account doc = a then asum (\<lambda>_ e. if of_document a d e then ce_amount e else 0) es else 0) (cd_documents db)
      = asum (\<lambda>_ e. if ce_account e = a then ce_amount e else 0) es" if "set es \<subseteq> set (cd_entries db)" for es
    using that
  proof (induction es)
    case Nil
    show ?case by (simp add: table_simps cong: if_cong)
  next
    case (Cons x es)
    obtain i e where x: "x = (i, e)" by (cases x)
    obtain doc where doc: "map_of (cd_documents db) (ce_document e) = Some doc" "rd_account doc = ce_account e"
      using es Cons.prems by (auto simp: x issued_before_def)
    have "asum (\<lambda>d doc. if rd_account doc = a then asum (\<lambda>_ e. if of_document a d e then ce_amount e else 0) (x # es) else 0) (cd_documents db)
        = asum (\<lambda>d doc. (if d = ce_document e \<and> (rd_account doc = a \<and> ce_account e = a) then ce_amount e else 0)
            + (if rd_account doc = a then asum (\<lambda>_ e. if of_document a d e then ce_amount e else 0) es else 0)) (cd_documents db)"
      by (intro asum_cong) (auto simp: x of_document_def)
    also have "\<dots> = (if ce_account e = a then ce_amount e else 0) + asum (\<lambda>_ e. if ce_account e = a then ce_amount e else 0) es"
      using Cons.IH Cons.prems doc by (simp add: asum_add asum_single[OF docs])
    finally show ?case by (simp add: x)
  qed
  from this[of "cd_entries db"] show ?thesis
    unfolding account_outstanding_def account_total_def document_outstanding_def entry_sum_def by simp
qed

section \<open>Posting\<close>

definition numbered :: "uid \<Rightarrow> credit_entry list \<Rightarrow> (uid \<times> credit_entry) list" where
  "numbered n es = zip [n..<n + length es] es"

lemma numbered_simps [simp]: "numbered n [] = []" "numbered n (e # es) = (n, e) # numbered (Suc n) es"
  by (simp_all add: numbered_def upt_conv_Cons del: upt_Suc)

lemma numbered_snd: "map snd (numbered n es) = es"
  by (simp add: numbered_def)

lemma numbered_set: "(i, e) \<in> set (numbered n es) \<Longrightarrow> n \<le> i \<and> i < n + length es \<and> e \<in> set es"
  by (auto simp: numbered_def dest: set_zip_leftD set_zip_rightD)

lemma numbered_keys: "map fst (numbered n es) = [n..<n + length es]"
  by (simp add: numbered_def)

definition postable :: "int \<Rightarrow> credit_db \<Rightarrow> credit_entry \<Rightarrow> bool" where
  "postable now db e \<longleftrightarrow> entry_matches db e \<and> entry_in_order now db e \<and> entry_shape e \<and> entry_refers db e"

lemma bump_account_fields [simp]:
  "cd_entries (bump_account a db) = cd_entries db" "cd_documents (bump_account a db) = cd_documents db"
  "cd_receipts (bump_account a db) = cd_receipts db" "cd_next (bump_account a db) = cd_next db"
  "map fst (cd_accounts (bump_account a db)) = map fst (cd_accounts db)"
  by (simp_all add: bump_account_def)

lemma entry_matches_more:
  assumes "entry_matches db e" "cd_documents db' = cd_documents db" "cd_receipts db' = cd_receipts db"
    "\<And>i ori. map_of (cd_entries db) i = Some ori \<Longrightarrow> map_of (cd_entries db') i = Some ori"
  shows "entry_matches db' e"
  using assms by (cases "ce_kind e") (auto simp: entry_matches_def split: option.splits)

lemma postable_more:
  assumes "postable now db e" "cd_documents db' = cd_documents db" "cd_receipts db' = cd_receipts db"
    "\<And>i ori. map_of (cd_entries db) i = Some ori \<Longrightarrow> map_of (cd_entries db') i = Some ori"
  shows "postable now db' e"
  using assms(1) entry_matches_more[OF _ assms(2-4)] unfolding postable_def entry_in_order_def entry_refers_def assms(2,3) by blast

lemma post_entries_spec:
  assumes "\<forall>e \<in> set es. postable now db e"
  shows "post_entries now es db = Inl (DbError ''P2002'')
    \<or> (\<exists>is accs. map fst accs = map fst (cd_accounts db) \<and> post_entries now es db = Inr (is, db\<lparr>cd_accounts := accs,
         cd_entries := cd_entries db @ numbered (cd_next db) es, cd_next := cd_next db + length es\<rparr>))"
  using assms
proof (induction es arbitrary: db)
  case Nil
  show ?case by (auto intro!: exI[of _ "cd_accounts db"])
next
  case (Cons e es)
  define db1 where "db1 = (bump_account (ce_account e) db)\<lparr>cd_entries := cd_entries db @ [(cd_next db, e)], cd_next := Suc (cd_next db)\<rparr>"
  show ?case
  proof (cases "entry_unique db e")
    case False
    then show ?thesis using Cons.prems by (simp add: post_entry_def postable_def)
  next
    case True
    then have one: "post_entry now e db = Inr (cd_next db, db1)"
      using Cons.prems by (simp add: post_entry_def postable_def db1_def Let_def)
    have "postable now db1 f" if "f \<in> set es" for f
      by (rule postable_more[of now db]) (use Cons.prems that in \<open>simp_all add: db1_def map_add_def\<close>)
    then have "\<forall>f \<in> set es. postable now db1 f" by blast
    from Cons.IH[OF this] consider "post_entries now es db1 = Inl (DbError ''P2002'')"
      | "is" accs where "map fst accs = map fst (cd_accounts db1)" "post_entries now es db1 = Inr (is, db1\<lparr>cd_accounts := accs,
          cd_entries := cd_entries db1 @ numbered (cd_next db1) es, cd_next := cd_next db1 + length es\<rparr>)"
      by blast
    then show ?thesis
    proof cases
      case 1
      then show ?thesis by (simp add: one)
    next
      case 2
      have "map fst accs = map fst (cd_accounts db)" using 2(1) by (simp add: db1_def)
      then show ?thesis using 2(2) by (intro disjI2 exI[of _ "cd_next db # is"] exI[of _ accs]) (simp add: one db1_def bump_account_def)
    qed
  qed
qed

section \<open>Growing books\<close>

text \<open>The rows of one account are extended; nothing else changes.\<close>

definition grown :: "uid \<Rightarrow> (uid \<times> receivable) list \<Rightarrow> (uid \<times> credit_receipt) list \<Rightarrow> (uid \<times> credit_entry) list \<Rightarrow> credit_db \<Rightarrow> credit_db \<Rightarrow> bool" where
  "grown a ds rs es db db' \<longleftrightarrow> cd_documents db' = cd_documents db @ ds \<and> cd_receipts db' = cd_receipts db @ rs
     \<and> cd_entries db' = cd_entries db @ es \<and> map fst (cd_accounts db') = map fst (cd_accounts db) \<and> cd_next db \<le> cd_next db'
     \<and> (\<forall>(_, d) \<in> set ds. rd_account d = a) \<and> (\<forall>(_, r) \<in> set rs. cr_account r = a) \<and> (\<forall>(_, e) \<in> set es. ce_account e = a)
     \<and> distinct (map fst ds @ map fst rs @ map fst es) \<and> (\<forall>i \<in> fst ` set ds \<union> fst ` set rs \<union> fst ` set es. cd_next db \<le> i \<and> i < cd_next db')"

lemma distinct_grown:
  "distinct ks \<Longrightarrow> distinct ks' \<Longrightarrow> \<forall>i \<in> set ks. i < (n::nat) \<Longrightarrow> \<forall>i \<in> set ks'. n \<le> i \<Longrightarrow> distinct (ks @ ks')"
  by fastforce

lemma keys_grown:
  assumes k: "keys_ok db" and g: "grown a ds rs es db db'"
  shows "keys_ok db'"
proof -
  have old: "distinct (map fst (cd_documents db))" "distinct (map fst (cd_receipts db))" "distinct (map fst (cd_entries db))"
    "\<forall>i \<in> set (map fst (cd_documents db)). i < cd_next db" "\<forall>i \<in> set (map fst (cd_receipts db)). i < cd_next db"
    "\<forall>i \<in> set (map fst (cd_entries db)). i < cd_next db" "\<forall>i \<in> set (map fst (cd_accounts db)). i < cd_next db"
    using k by (simp_all add: keys_ok_def)
  have new: "distinct (map fst ds)" "distinct (map fst rs)" "distinct (map fst es)" "\<forall>i \<in> set (map fst ds). cd_next db \<le> i \<and> i < cd_next db'"
    "\<forall>i \<in> set (map fst rs). cd_next db \<le> i \<and> i < cd_next db'" "\<forall>i \<in> set (map fst es). cd_next db \<le> i \<and> i < cd_next db'"
    and n: "cd_next db \<le> cd_next db'"
    and eqs: "map fst (cd_documents db') = map fst (cd_documents db) @ map fst ds"
      "map fst (cd_receipts db') = map fst (cd_receipts db) @ map fst rs" "map fst (cd_entries db') = map fst (cd_entries db) @ map fst es"
      "map fst (cd_accounts db') = map fst (cd_accounts db)"
    using g by (simp_all add: grown_def)
  have "distinct (map fst (cd_documents db'))" "distinct (map fst (cd_receipts db'))" "distinct (map fst (cd_entries db'))"
    unfolding eqs using old new by (auto intro!: distinct_grown[of _ _ "cd_next db"] simp del: set_map distinct_append)
  moreover have "\<forall>i \<in> set (map fst (cd_documents db')) \<union> set (map fst (cd_receipts db')) \<union> set (map fst (cd_entries db'))
      \<union> set (map fst (cd_accounts db')). i < cd_next db'"
    unfolding eqs set_append using old new n by (auto simp del: set_map dest!: bspec)
  ultimately show ?thesis using k eqs(4) unfolding keys_ok_def set_map by auto
qed

lemma other_account:
  assumes g: "grown a ds rs es db db'" and other: "a' \<noteq> a"
  shows "account_reconciled db' a' = account_reconciled db a'"
proof -
  have entries: "cd_entries db' = cd_entries db @ es" and foreign: "\<forall>(_, e) \<in> set es. ce_account e \<noteq> a'"
    using g other by (auto simp: grown_def)
  have sums: "entry_sum P db' = entry_sum P db" "count_entries P db' = count_entries P db" if "\<And>e. P e \<Longrightarrow> ce_account e = a'" for P
    using foreign that by (auto simp: entry_sum_added[OF entries] count_added[OF entries] intro!: added_sum_none filter_False)
  have "entry_sum (of_document a' d) db' = entry_sum (of_document a' d) db"
    "entry_sum (\<lambda>e. of_document a' d e \<and> ce_kind e \<in> K) db' = entry_sum (\<lambda>e. of_document a' d e \<and> ce_kind e \<in> K) db"
    "count_entries (\<lambda>e. of_document a' d e \<and> ce_kind e = k) db' = count_entries (\<lambda>e. of_document a' d e \<and> ce_kind e = k) db" for d K k
    by (rule sums, simp add: of_document_def)+
  then have "document_reconciled db' d doc = document_reconciled db d doc" if "rd_account doc = a'" for d doc
    using that by (simp add: document_reconciled_def document_outstanding_def document_principal_def)
  moreover have "entry_sum (of_receipt a' r k) db' = entry_sum (of_receipt a' r k) db"
    "count_entries (of_receipt a' r k) db' = count_entries (of_receipt a' r k) db" for r k
    by (rule sums, simp add: of_receipt_def)+
  then have "receipt_reconciled db' r rc = receipt_reconciled db r rc" if "cr_account rc = a'" for r rc
    using that by (simp add: receipt_reconciled_def)
  moreover have "account_total db' a' = account_total db a'" unfolding account_total_def by (rule sums)
  moreover have "\<forall>(_, d) \<in> set ds. rd_account d \<noteq> a'" "\<forall>(_, r) \<in> set rs. cr_account r \<noteq> a'"
    using g other by (auto simp: grown_def)
  ultimately show ?thesis
    using g by (fastforce simp: account_reconciled_def grown_def list_all_iff)
qed

lemma map_of_more: "map_of xs k = Some v \<Longrightarrow> map_of (xs @ ys) k = Some v"
  by (simp add: map_add_def)

lemma entry_ok_grown:
  assumes "entry_ok db e" "grown a ds rs es db db'"
  shows "entry_ok db' e"
proof -
  have "map_of (cd_documents db) d = Some doc \<Longrightarrow> map_of (cd_documents db') d = Some doc"
    "map_of (cd_receipts db) r = Some rc \<Longrightarrow> map_of (cd_receipts db') r = Some rc"
    "map_of (cd_entries db) i = Some f \<Longrightarrow> map_of (cd_entries db') i = Some f" for d doc r rc i f
    using assms(2) map_of_more[of "cd_documents db"] map_of_more[of "cd_receipts db"] map_of_more[of "cd_entries db"]
    by (simp_all add: grown_def)
  then show ?thesis using assms(1) unfolding entry_ok_def issued_before_def receipt_there_def reverses_def by meson
qed

lemma keys_less:
  assumes "keys_ok db"
  shows "(i, acc) \<in> set (cd_accounts db) \<Longrightarrow> i < cd_next db" "(i, doc) \<in> set (cd_documents db) \<Longrightarrow> i < cd_next db"
    "(i, rc) \<in> set (cd_receipts db) \<Longrightarrow> i < cd_next db" "(i, e) \<in> set (cd_entries db) \<Longrightarrow> i < cd_next db"
  using assms unfolding keys_ok_def by (metis UnI1 UnI2 fst_conv imageI)+

lemma grown_new: "grown a ds rs es db db' \<Longrightarrow> (i, e) \<in> set es \<Longrightarrow> cd_next db \<le> i \<and> ce_account e = a"
  unfolding grown_def by (metis (mono_tags, lifting) UnI2 case_prodD fst_conv imageI)

lemma reversed_less: "keys_ok db \<Longrightarrow> entries_ok db \<Longrightarrow> reversed db i \<Longrightarrow> i < cd_next db"
proof -
  assume k: "keys_ok db" and e: "entries_ok db" and "reversed db i"
  then obtain j f where "(j, f) \<in> set (cd_entries db)" "ce_reversal_of f = Some i" by (auto simp: reversed_def list_ex_iff)
  with entries_okD(1)[OF e] obtain ori where "map_of (cd_entries db) i = Some ori" by (fastforce simp: entry_ok_def reverses_def)
  then show ?thesis using keys_less(4)[OF k] map_of_SomeD by metis
qed

text \<open>New entries that reverse nothing count with their amounts.\<close>

lemma standing_grown:
  assumes k: "keys_ok db" and e: "entries_ok db" and g: "grown a ds rs es db db'"
    and plain: "\<forall>(_, f) \<in> set es. ce_reversal_of f = None"
  shows "standing db' b d = standing db b d + added_sum (\<lambda>f. of_document b d f \<and> ce_kind f = EK_RECEIPT) es"
proof -
  have same: "reversed db' i = reversed db i" for i
    using g plain by (auto simp: reversed_def grown_def list_ex_iff)
  have new: "\<not> reversed db i" if "(i, f) \<in> set es" for i f
    using grown_new[OF g that] reversed_less[OF k e, of i] by auto
  have "asum (\<lambda>i f. if of_document b d f \<and> ce_kind f = EK_RECEIPT \<and> \<not> reversed db i then ce_amount f else 0) es
      = added_sum (\<lambda>f. of_document b d f \<and> ce_kind f = EK_RECEIPT) es"
    unfolding added_sum_def by (rule asum_cong) (use new in auto)
  then show ?thesis using g by (simp add: standing_def same grown_def table_simps)
qed

lemma entries_grown:
  assumes k: "keys_ok db" and e: "entries_ok db" and g: "grown a ds rs es db db'"
    and plain: "\<forall>(_, f) \<in> set es. ce_reversal_of f = None \<and> entry_ok db' f"
  shows "entries_ok db'"
proof -
  have es: "cd_entries db' = cd_entries db @ es" using g by (simp add: grown_def)
  have "settling f \<longleftrightarrow> ce_kind f = EK_RECEIPT" if "(i, f) \<in> set es" for i f
    using plain that by (fastforce simp: settling_def entry_ok_def entry_shape_def)
  then have "added_sum (\<lambda>f. of_document b d f \<and> settling f) es = added_sum (\<lambda>f. of_document b d f \<and> ce_kind f = EK_RECEIPT) es" for b d
    unfolding added_sum_def by (intro asum_cong) auto
  moreover have "\<forall>(_, f) \<in> set es. ce_reversal_of f = None" using plain by auto
  ultimately have "entry_sum (\<lambda>f. of_document b d f \<and> settling f) db' = standing db' b d" for b d
    using entries_okD(2)[OF e] by (simp add: entry_sum_added[OF es] standing_grown[OF k e g])
  moreover have "\<forall>(_, f) \<in> set (cd_entries db'). entry_ok db' f"
    using plain entries_okD(1)[OF e] entry_ok_grown[OF _ g] by (auto simp: es)
  ultimately show ?thesis by (simp add: entries_ok_def)
qed

text \<open>An account whose documents stand between nothing and the maximum reconciles.\<close>

lemma account_reconciledI:
  assumes k: "keys_ok db" and e: "entries_ok db"
    and docs: "\<And>d doc. (d, doc) \<in> set (cd_documents db) \<Longrightarrow> rd_account doc = a \<Longrightarrow>
      count_entries (\<lambda>e. of_document a d e \<and> ce_kind e = entry_kind_of (rd_kind doc)) db = 1
      \<and> 0 \<le> document_outstanding db a d \<and> document_principal db a d \<le> max_credit"
    and receipts: "\<And>r rc. (r, rc) \<in> set (cd_receipts db) \<Longrightarrow> cr_account rc = a \<Longrightarrow> receipt_reconciled db r rc"
    and total: "account_total db a \<le> max_credit"
  shows "account_reconciled db a"
proof -
  have "document_reconciled db d doc" if "(d, doc) \<in> set (cd_documents db)" "rd_account doc = a" for d doc
    using docs[OF that] outstanding_le[OF e, of a d] that(2) by (simp add: document_reconciled_def)
  moreover have "0 \<le> account_outstanding db a"
    unfolding account_outstanding_def by (intro asum_nonneg) (use docs in auto)
  moreover have "account_outstanding db a = account_total db a"
    by (rule account_total_documents) (use k e in \<open>auto simp: keys_ok_def entries_ok_def entry_ok_def\<close>)
  ultimately show ?thesis using receipts total by (auto simp: account_reconciled_def list_all_iff)
qed

lemma reconciledD:
  assumes "books_ok db" "(d, doc) \<in> set (cd_documents db)" "rd_account doc = a"
  shows "count_entries (\<lambda>e. of_document a d e \<and> ce_kind e = entry_kind_of (rd_kind doc)) db = 1"
    "0 \<le> document_outstanding db a d" "document_principal db a d \<le> max_credit"
  using books_okD(2)[OF assms(1), of a] assms(2,3) by (auto simp: account_reconciled_def document_reconciled_def list_all_iff)

lemma receipt_reconciledD:
  "books_ok db \<Longrightarrow> (r, rc) \<in> set (cd_receipts db) \<Longrightarrow> receipt_reconciled db r rc"
  using books_okD(2)[of db "cr_account rc"] by (auto simp: account_reconciled_def list_all_iff)

lemma total_outstanding: "books_ok db \<Longrightarrow> account_outstanding db a = account_total db a"
  by (rule account_total_documents) (auto simp: books_ok_def keys_ok_def entries_ok_def entry_ok_def)

section \<open>Clean answers\<close>

text \<open>An error the caller is meant to see: no crash and no database error other than a unique violation.\<close>

definition clean_error :: "api_error \<Rightarrow> bool" where
  "clean_error e \<longleftrightarrow> (case e of DbError c \<Rightarrow> c = ''P2002'' | Crash _ \<Rightarrow> False | _ \<Rightarrow> True)"

lemma clean_error_simps [simp]:
  "clean_error (BadRequest c)" "clean_error (Conflict c)" "clean_error (NotFound c)" "clean_error (DbError c) \<longleftrightarrow> c = ''P2002''"
  "\<not> clean_error (Crash c)" "clean_error credit_invalid" "clean_error credit_missing"
  by (simp_all add: clean_error_def credit_invalid_def credit_missing_def)

definition clean :: "'a res \<Rightarrow> bool" where
  "clean m \<longleftrightarrow> (\<forall>e. m = Inl e \<longrightarrow> clean_error e)"

lemma clean_simps [simp]:
  "clean (Inr x)" "clean (Inl e) \<longleftrightarrow> clean_error e" "clean (throw_if b e m) \<longleftrightarrow> (if b then clean_error e else clean m)"
  by (simp_all add: clean_def throw_if_def)

lemma clean_need: "clean_error e \<Longrightarrow> (\<And>y. x = Some y \<Longrightarrow> clean (k y)) \<Longrightarrow> clean (need x e k)"
  by (cases x) auto

lemma clean_andthen: "clean m \<Longrightarrow> (\<And>y. m = Inr y \<Longrightarrow> clean (k y)) \<Longrightarrow> clean (andthen m k)"
  by (cases m) auto

text \<open>Cleanly refused, or the books stay in order.\<close>

definition sound :: "('a \<times> credit_db) res \<Rightarrow> bool" where
  "sound m \<longleftrightarrow> clean m \<and> (\<forall>x db'. m = Inr (x, db') \<longrightarrow> books_ok db')"

lemma sound_simps [simp]: "sound (Inl e) \<longleftrightarrow> clean_error e" "sound (Inr (x, db)) \<longleftrightarrow> books_ok db"
  by (auto simp: sound_def)

lemma sound_throw: "clean_error e \<Longrightarrow> (\<not> c \<Longrightarrow> sound m) \<Longrightarrow> sound (throw_if c e m)"
  by (simp add: throw_if_def)

lemma sound_need: "clean_error e \<Longrightarrow> (\<And>y. x = Some y \<Longrightarrow> sound (k y)) \<Longrightarrow> sound (need x e k)"
  by (cases x) auto

lemma sound_andthen: "clean m \<Longrightarrow> (\<And>y. m = Inr y \<Longrightarrow> sound (k y)) \<Longrightarrow> sound (andthen m k)"
  by (cases m) auto

lemma books_accounts:
  assumes ok: "books_ok db" and same: "cd_documents db' = cd_documents db" "cd_receipts db' = cd_receipts db" "cd_entries db' = cd_entries db"
    and accs: "distinct (map fst (cd_accounts db'))" "\<forall>i \<in> fst ` set (cd_accounts db'). i < cd_next db'" and n: "cd_next db \<le> cd_next db'"
  shows "books_ok db'"
proof -
  have sums: "entry_sum P db' = entry_sum P db" "count_entries P db' = count_entries P db" for P
    using same by (simp_all add: entry_sum_def count_entries_def)
  have "account_reconciled db' b = account_reconciled db b" for b
    using same by (simp add: account_reconciled_def document_reconciled_def receipt_reconciled_def document_outstanding_def
        document_principal_def account_total_def sums)
  moreover have "entries_ok db' = entries_ok db"
    using same by (simp add: entries_ok_def entry_ok_def issued_before_def receipt_there_def reverses_def standing_def reversed_def sums)
  moreover have "keys_ok db'"
    using books_okD(1)[OF ok] accs n unfolding keys_ok_def same by (auto dest: order.strict_trans2)
  ultimately show ?thesis using ok by (simp add: books_ok_def)
qed

lemma books_cong:
  assumes "books_ok db" "cd_documents db' = cd_documents db" "cd_receipts db' = cd_receipts db" "cd_entries db' = cd_entries db"
    "map fst (cd_accounts db') = map fst (cd_accounts db)" "cd_next db' = cd_next db"
  shows "books_ok db'"
proof -
  have "fst ` set (cd_accounts db') = fst ` set (cd_accounts db)" using assms(5) by (metis set_map)
  then show ?thesis
    using books_okD(1)[OF assms(1)] assms by (intro books_accounts[OF assms(1-4)]) (auto simp: keys_ok_def)
qed

lemma books_grown:
  assumes ok: "books_ok db" and g: "grown a ds rs es db db'" and e: "entries_ok db'" and r: "account_reconciled db' a"
  shows "books_ok db'"
proof -
  have "account_reconciled db' b" for b
    using other_account[OF g, of b] books_okD(2)[OF ok, of b] r by (cases "b = a") auto
  then show ?thesis using keys_grown[OF books_okD(1)[OF ok] g] e by (simp add: books_ok_def)
qed

lemma credit_audit_books [simp]: "books_ok (credit_audit ctx act i md db) = books_ok db"
  using books_cong[of db "credit_audit ctx act i md db"] books_cong[of "credit_audit ctx act i md db" db]
  by (auto simp: credit_audit_def)

lemma summary_there: "a \<in> fst ` set (cd_accounts db) \<Longrightarrow> \<exists>s. credit_summary_of now db a = Inr s \<and> xs_outstanding s = account_outstanding db a"
proof -
  assume "a \<in> fst ` set (cd_accounts db)"
  then obtain acc where "map_of (cd_accounts db) a = Some acc"
    by (cases "map_of (cd_accounts db) a") (auto simp: map_of_eq_None_iff)
  then show ?thesis by (simp add: credit_summary_of_def Let_def)
qed

lemma commit_sound:
  assumes ok: "books_ok db" and a: "a \<in> fst ` set (cd_accounts db)"
  shows "sound (andthen (credit_answer_of now a d r is (credit_audit ctx act i md db)) (\<lambda>(answer, db4). commit_account a answer db4))"
proof -
  have "a \<in> fst ` set (cd_accounts (credit_audit ctx act i md db))" using a by (simp add: credit_audit_def)
  from summary_there[OF this, of now] obtain s where "credit_summary_of now (credit_audit ctx act i md db) a = Inr s" by blast
  moreover have "books_ok (credit_audit ctx act i md db)" using ok by simp
  ultimately show ?thesis using books_okD(2) by (simp add: credit_answer_of_def commit_account_def)
qed

lemma posting_sound:
  assumes a: "a \<in> fst ` set (cd_accounts db)" and es: "\<forall>e \<in> set es. postable now db e"
    and ok: "\<And>accs. map fst accs = map fst (cd_accounts db) \<Longrightarrow> books_ok (db\<lparr>cd_accounts := accs,
         cd_entries := cd_entries db @ numbered (cd_next db) es, cd_next := cd_next db + length es\<rparr>)"
  shows "sound (andthen (post_entries now es db) (\<lambda>(is, db2).
    let db3 = credit_audit ctx act i md db2 in
    andthen (credit_answer_of now a d r is db3) (\<lambda>(answer, db4). commit_account a answer db4)))"
  using post_entries_spec[OF es]
proof (elim disjE exE conjE)
  fix "is" accs assume same: "map fst accs = map fst (cd_accounts db)"
    and run: "post_entries now es db = Inr (is, db\<lparr>cd_accounts := accs, cd_entries := cd_entries db @ numbered (cd_next db) es,
      cd_next := cd_next db + length es\<rparr>)"
  have "fst ` set accs = fst ` set (cd_accounts db)" using same by (metis set_map)
  then show ?thesis using commit_sound[OF ok[OF same]] a by (simp add: run)
qed simp

lemma current_account_Inr:
  "current_account db customer expected = Inr (a, acc) \<Longrightarrow> a \<in> fst ` set (cd_accounts db)"
  by (force simp: current_account_def res_iff account_of_def find_Some_iff in_set_conv_nth)

lemma clean_current [simp]: "clean (current_account db customer expected)"
  by (auto simp: current_account_def version_input_def credit_invalid_def credit_missing_def throw_if_def intro!: clean_andthen clean_need)

lemma clean_bound: "a \<in> fst ` set (cd_accounts db) \<Longrightarrow> clean (check_debt_bound now db a delta)"
  using summary_there[of a db now] by (auto simp: check_debt_bound_def credit_invalid_def)

lemma check_debt_bound_Inr:
  "a \<in> fst ` set (cd_accounts db) \<Longrightarrow> check_debt_bound now db a delta = Inr u \<Longrightarrow> account_outstanding db a + delta \<le> max_credit"
  using summary_there[of a db now] by (auto simp: check_debt_bound_def res_iff)

end
