(* ===== verification/Credit_Soundness.thy ===== *)
theory Credit_Soundness
  imports Credit_Facts Door_Price_Facts
begin

text \<open>
  Every command of the credit service: what it checks before it writes is enough for the triggers, so its
  only refusals are answers to the caller, and the books stay in order.
\<close>

section \<open>Terms\<close>

lemma policy_sound:
  assumes ok: "books_ok db"
  shows "sound (policy_work customer expected active climit terms now ctx db)"
proof -
  note k = books_okD(1)[OF ok]
  have answered: "sound (credit_answer_of now a None None [] (credit_audit ctx act a md db1))"
    if "books_ok db1" "a \<in> fst ` set (cd_accounts db1)" for a act md db1
  proof -
    have "a \<in> fst ` set (cd_accounts (credit_audit ctx act a md db1))" using that(2) by (simp add: credit_audit_def)
    from summary_there[OF this, of now] that(1) show ?thesis by (auto simp: credit_answer_of_def)
  qed
  show ?thesis
  proof (cases "account_of db customer")
    case None
    let ?db = "db\<lparr>cd_accounts := cd_accounts db @ [(cd_next db,
      \<lparr>ca_customer = customer, ca_active = active, ca_limit = climit, ca_terms = terms, ca_version = 0\<rparr>)], cd_next := Suc (cd_next db)\<rparr>"
    have "books_ok ?db"
      using k keys_less(1)[OF k] by (intro books_accounts[OF ok]) (auto simp: keys_ok_def less_SucI)
    then show ?thesis
      using None unfolding policy_work_def Let_def by (auto intro!: sound_need sound_throw answered)
  next
    case (Some x)
    obtain i acc where x: "x = (i, acc)" by (cases x)
    then have there: "i \<in> fst ` set (cd_accounts db)"
      using Some by (force simp: account_of_def find_Some_iff in_set_conv_nth)
    then have "map fst (AList.update i acc' (cd_accounts db)) = map fst (cd_accounts db)" for acc'
      by (cases "map_of (cd_accounts db) i") (auto simp: map_of_eq_None_iff map_fst_update_same)
    then have "books_ok (db\<lparr>cd_accounts := AList.update i acc' (cd_accounts db)\<rparr>)" for acc'
      by (intro books_cong[OF ok]) simp_all
    then show ?thesis
      using Some unfolding policy_work_def Let_def by (auto intro!: sound_need sound_throw answered simp: x fst_set_update)
  qed
qed

section \<open>The opening balance\<close>

lemma no_entries_yet:
  assumes ok: "books_ok db" and e: "(i, e) \<in> set (cd_entries db)"
  shows "ce_document e < cd_next db" "ce_receipt e = Some r \<Longrightarrow> r < cd_next db"
proof -
  have eok: "entry_ok db e" using entries_okD(1)[OF books_okD(3)[OF ok] e] .
  then obtain doc where "map_of (cd_documents db) (ce_document e) = Some doc" by (auto simp: entry_ok_def issued_before_def)
  then show "ce_document e < cd_next db" using keys_less(2)[OF books_okD(1)[OF ok]] map_of_SomeD by metis
  show "r < cd_next db" if r: "ce_receipt e = Some r"
  proof -
    obtain rc where "map_of (cd_receipts db) r = Some rc" using eok r unfolding entry_ok_def receipt_there_def by blast
    then show ?thesis using keys_less(3)[OF books_okD(1)[OF ok]] map_of_SomeD by metis
  qed
qed

lemma fresh_document:
  assumes ok: "books_ok db"
  shows "entry_sum (\<lambda>e. of_document a (cd_next db) e \<and> Q e) db = 0" "entry_sum (of_document a (cd_next db)) db = 0"
    "count_entries (\<lambda>e. of_document a (cd_next db) e \<and> Q e) db = 0" "map_of (cd_documents db) (cd_next db) = None"
proof -
  have none: "\<not> of_document a (cd_next db) e" if "(i, e) \<in> set (cd_entries db)" for i e
    using no_entries_yet(1)[OF ok that] by (simp add: of_document_def)
  have "asum (\<lambda>_ e. if of_document a (cd_next db) e \<and> R e then ce_amount e else 0) (cd_entries db) = asum (\<lambda>_ _. 0) (cd_entries db)" for R
    by (rule asum_cong) (use none in auto)
  then have zero: "entry_sum (\<lambda>e. of_document a (cd_next db) e \<and> R e) db = 0" for R by (simp add: entry_sum_def table_simps)
  show "entry_sum (\<lambda>e. of_document a (cd_next db) e \<and> Q e) db = 0" by (rule zero)
  show "entry_sum (of_document a (cd_next db)) db = 0" using zero[of "\<lambda>_. True"] by simp
  show "count_entries (\<lambda>e. of_document a (cd_next db) e \<and> Q e) db = 0" using none by (auto simp: count_entries_def filter_empty_conv)
  show "map_of (cd_documents db) (cd_next db) = None"
    using keys_less(2)[OF books_okD(1)[OF ok]] by (cases "map_of (cd_documents db) (cd_next db)") (auto dest!: map_of_SomeD)
qed

lemma opening_posted:
  fixes issued due_on :: int and source :: string
  assumes ok: "books_ok db" and amount: "0 < amount" "amount \<le> max_credit" and bound: "account_outstanding db a + amount \<le> max_credit"
    and accs: "map fst accs = map fst (cd_accounts db)"
  defines "doc \<equiv> opening_document a amount issued due_on source"
  defines "db' \<equiv> db\<lparr>cd_documents := cd_documents db @ [(cd_next db, doc)], cd_accounts := accs,
     cd_entries := cd_entries db @ [(Suc (cd_next db), opening_entry a (cd_next db) amount issued)], cd_next := Suc (Suc (cd_next db))\<rparr>"
  shows "books_ok db'"
proof (rule books_grown[OF ok])
  let ?e = "opening_entry a (cd_next db) amount issued"
  note k = books_okD(1)[OF ok]
  show g: "grown a [(cd_next db, doc)] [] [(Suc (cd_next db), ?e)] db db'"
    using accs by (auto simp: grown_def db'_def doc_def opening_document_def opening_entry_def)
  have es: "cd_entries db' = cd_entries db @ [(Suc (cd_next db), ?e)]" by (simp add: db'_def)
  have lookup: "map_of (cd_documents db') (cd_next db) = Some doc"
    using fresh_document(4)[OF ok] by (simp add: db'_def map_add_def)
  have "entry_ok db' ?e"
    using amount lookup by (simp add: entry_ok_def entry_shape_def opening_entry_def issued_before_def receipt_there_def
        reverses_def doc_def opening_document_def)
  then show e: "entries_ok db'"
    by (intro entries_grown[OF k books_okD(3)[OF ok] g]) (auto simp: opening_entry_def)
  show "account_reconciled db' a"
  proof (rule account_reconciledI[OF keys_grown[OF k g] e])
    fix d doc' assume d: "(d, doc') \<in> set (cd_documents db')" "rd_account doc' = a"
    show "count_entries (\<lambda>e. of_document a d e \<and> ce_kind e = entry_kind_of (rd_kind doc')) db' = 1
      \<and> 0 \<le> document_outstanding db' a d \<and> document_principal db' a d \<le> max_credit"
    proof (cases "(d, doc') \<in> set (cd_documents db)")
      case True
      then have "d \<noteq> cd_next db" using keys_less(2)[OF k] by auto
      then show ?thesis using reconciledD[OF ok True d(2)]
        by (simp add: count_added[OF es] document_outstanding_def document_principal_def entry_sum_added[OF es]
            of_document_def opening_entry_def)
    next
      case False
      then have "d = cd_next db" "doc' = doc" using d(1) by (auto simp: db'_def)
      then show ?thesis using amount
        by (simp add: count_added[OF es] document_outstanding_def document_principal_def entry_sum_added[OF es]
            fresh_document[OF ok]) (simp add: of_document_def opening_entry_def doc_def opening_document_def entry_kind_of_def principal_kinds_def)
    qed
  next
    fix r rc assume "(r, rc) \<in> set (cd_receipts db')"
    then have "receipt_reconciled db r rc" using receipt_reconciledD[OF ok] by (simp add: db'_def)
    then show "receipt_reconciled db' r rc"
      by (simp add: receipt_reconciled_def entry_sum_added[OF es] count_added[OF es] of_receipt_def opening_entry_def)
  next
    show "account_total db' a \<le> max_credit"
      using bound total_outstanding[OF ok, of a] by (simp add: account_total_def entry_sum_added[OF es] opening_entry_def)
  qed
qed


lemma opening_sound:
  assumes ok: "books_ok db" and amount: "0 < amount" "amount \<le> max_credit" and issue: "issued \<le> now" "issued \<le> due_on"
    and terms: "0 \<le> terms_between issued due_on" "terms_between issued due_on \<le> 365"
  shows "sound (opening_work customer expected amount issued due_on source now ctx db)"
  unfolding opening_work_def
proof (rule sound_andthen[OF clean_current], clarify, rule sound_throw, simp, rule sound_andthen)
  fix a acc assume "current_account db customer expected = Inr (a, acc)"
  then have a: "a \<in> fst ` set (cd_accounts db)" by (rule current_account_Inr)
  show "clean (check_debt_bound now db a amount)" by (rule clean_bound[OF a])
  fix u assume "check_debt_bound now db a amount = Inr u"
  then have bound: "account_outstanding db a + amount \<le> max_credit" by (rule check_debt_bound_Inr[OF a])
  define doc where "doc = opening_document a amount issued due_on source"
  define db1 where "db1 = db\<lparr>cd_documents := cd_documents db @ [(cd_next db, doc)], cd_next := Suc (cd_next db)\<rparr>"
  have add: "add_document doc db = Inr (cd_next db, db1)"
    using amount terms issue by (simp add: add_document_def doc_def db1_def opening_document_def)
  have "map_of (cd_documents db1) (cd_next db) = Some doc" using fresh_document(4)[OF ok] by (simp add: db1_def map_add_def)
  then have "\<forall>e \<in> set [opening_entry a (cd_next db) amount issued]. postable now db1 e"
    using amount issue by (simp add: postable_def entry_matches_def entry_in_order_def entry_shape_def entry_refers_def
        opening_entry_def doc_def opening_document_def entry_kind_of_def)
  moreover have "books_ok (db1\<lparr>cd_accounts := accs, cd_entries := cd_entries db1 @ numbered (cd_next db1) [opening_entry a (cd_next db) amount issued],
      cd_next := cd_next db1 + length [opening_entry a (cd_next db) amount issued]\<rparr>)" if "map fst accs = map fst (cd_accounts db1)" for accs
    using opening_posted[OF ok amount bound, of accs issued due_on source] that by (simp add: db1_def doc_def)
  ultimately have "sound (andthen (post_entries now [opening_entry a (cd_next db) amount issued] db1) (\<lambda>(is, db2).
      let db3 = credit_audit ctx ''credit.opening.recorded'' (cd_next db) [(''accountId'', JId a), (''amount'', JStr (show_int amount))] db2 in
      andthen (credit_answer_of now a (Some (cd_next db)) None is db3) (\<lambda>(answer, db4). commit_account a answer db4)))"
    by (intro posting_sound) (simp_all add: a db1_def)
  then show "sound (andthen (add_document (opening_document a amount issued due_on source) db) (\<lambda>(d, db1).
      andthen (post_entries now [opening_entry a d amount issued] db1) (\<lambda>(is, db2).
      let db3 = credit_audit ctx ''credit.opening.recorded'' d [(''accountId'', JId a), (''amount'', JStr (show_int amount))] db2 in
      andthen (credit_answer_of now a (Some d) None is db3) (\<lambda>(answer, db4). commit_account a answer db4))))"
    unfolding add[unfolded doc_def] andthen_simps prod.case .
qed

section \<open>Receipts\<close>

lemma added_numbered: "added_sum P (numbered n es) = (\<Sum>e\<leftarrow>es. if P e then ce_amount e else 0)"
  by (induction es arbitrary: n) auto

lemma filter_numbered: "length (filter (\<lambda>(_, e). P e) (numbered n es)) = length (filter P es)"
  by (induction es arbitrary: n) auto

lemma sum_allocated:
  "distinct (map fst xs) \<Longrightarrow> (\<Sum>x\<leftarrow>xs. if fst x = d then f x else 0) = (case map_of xs d of None \<Rightarrow> (0::int) | Some n \<Rightarrow> f (d, n))"
proof (induction xs)
  case (Cons x xs)
  have "fst x \<notin> set (map fst xs) \<Longrightarrow> map_of xs (fst x) = None" by (simp add: map_of_eq_None_iff)
  then show ?case using Cons by (cases x) auto
qed simp

text \<open>An allocation that passed the checks.\<close>

definition allocated :: "credit_db \<Rightarrow> uid \<Rightarrow> int \<Rightarrow> allocation \<Rightarrow> bool" where
  "allocated db a effective x \<longleftrightarrow> (\<exists>doc. map_of (cd_documents db) (fst x) = Some doc \<and> rd_account doc = a \<and> rd_issued doc \<le> effective)
     \<and> 0 < snd x \<and> snd x \<le> document_outstanding db a (fst x)"

lemma document_balance_Some:
  "document_balance db a d = Some (owed, debt, issued) \<Longrightarrow> owed = document_outstanding db a d \<and> debt = document_principal db a d
     \<and> (\<exists>doc. map_of (cd_documents db) d = Some doc \<and> rd_account doc = a \<and> rd_issued doc = issued)"
  by (auto simp: document_balance_def split: option.splits if_splits)

lemma check_allocations_clean: "clean (check_allocations db a effective xs)"
  by (induction xs) (auto simp: credit_missing_def credit_invalid_def intro!: clean_need)

lemma check_allocations_Inr:
  "check_allocations db a effective xs = Inr u \<Longrightarrow> (d, n) \<in> set xs \<Longrightarrow> 0 < n \<Longrightarrow> allocated db a effective (d, n)"
proof (induction xs)
  case (Cons x xs)
  obtain d' n' where x: "x = (d', n')" by (cases x)
  show ?case
  proof (cases "(d, n) = (d', n')")
    case True
    then show ?thesis using Cons.prems by (auto simp: x res_iff allocated_def dest!: document_balance_Some)
  next
    case False
    then show ?thesis using Cons by (auto simp: x res_iff)
  qed
qed simp

lemma credit_amount_Inr:
  assumes "credit_amount False s = Inr n"
  shows "0 < n" "n \<le> max_credit"
proof -
  from assms have n: "n = digits_value s" "digits_value s \<noteq> 0" "decimal 18 s" "n \<le> max_credit"
    by (auto simp: credit_amount_def res_iff)
  then have "list_all is_digit s" by (auto simp: decimal_def is_digit_def)
  then show "0 < n" "n \<le> max_credit" using digits_value_nonneg[of s] n by simp_all
qed

lemma read_allocations_Inr: "read_allocations xs = Inr ys \<Longrightarrow> y \<in> set ys \<Longrightarrow> 0 < snd y"
  by (induction xs arbitrary: ys rule: read_allocations.induct) (auto simp: res_iff credit_amount_Inr)


lemma fresh_receipt:
  assumes ok: "books_ok db"
  shows "entry_sum (of_receipt a (cd_next db) k) db = 0" "count_entries (of_receipt a (cd_next db) k) db = 0"
    "map_of (cd_receipts db) (cd_next db) = None"
proof -
  have none: "\<not> of_receipt a (cd_next db) k e" if "(i, e) \<in> set (cd_entries db)" for i e
    using no_entries_yet(2)[OF ok that, of "cd_next db"] by (auto simp: of_receipt_def)
  have "asum (\<lambda>_ e. if of_receipt a (cd_next db) k e then ce_amount e else 0) (cd_entries db) = asum (\<lambda>_ _. 0) (cd_entries db)"
    by (rule asum_cong) (use none in auto)
  then show "entry_sum (of_receipt a (cd_next db) k) db = 0" by (simp add: entry_sum_def table_simps)
  show "count_entries (of_receipt a (cd_next db) k) db = 0" using none by (auto simp: count_entries_def filter_empty_conv)
  show "map_of (cd_receipts db) (cd_next db) = None"
    using keys_less(3)[OF books_okD(1)[OF ok]] by (cases "map_of (cd_receipts db) (cd_next db)") (auto dest!: map_of_SomeD)
qed

lemma receipt_added:
  "added_sum P (numbered n (map (receipt_entry a r effective) xs)) = (\<Sum>x\<leftarrow>xs. if P (receipt_entry a r effective x) then - snd x else 0)"
  by (simp add: added_numbered o_def receipt_entry_def cong: if_cong)

lemma sum_when: "(\<Sum>x\<leftarrow>xs. if c then f x else 0) = (if c then \<Sum>x\<leftarrow>xs. f x else (0::int))"
  by simp

lemma receipt_entry_simps:
  "of_document b d (receipt_entry a r effective x) \<longleftrightarrow> fst x = d \<and> b = a" "ce_kind (receipt_entry a r effective x) = EK_RECEIPT"
  "of_receipt b s k (receipt_entry a r effective x) \<longleftrightarrow> b = a \<and> s = r \<and> k = EK_RECEIPT"
  "ce_reversal_of (receipt_entry a r effective x) = None" "ce_account (receipt_entry a r effective x) = a"
  "ce_amount (receipt_entry a r effective x) = - snd x"
  by (auto simp: of_document_def of_receipt_def receipt_entry_def)

lemma receipt_posted:
  fixes m effective evidence h
  assumes ok: "books_ok db" and xs: "distinct (map fst xs)" "\<And>x. x \<in> set xs \<Longrightarrow> allocated db a effective x"
    and accs: "map fst accs = map fst (cd_accounts db)"
  defines "rc \<equiv> \<lparr>cr_account = a, cr_amount = (\<Sum>x\<leftarrow>xs. snd x), cr_method = m, cr_evidence = evidence, cr_hash = h, cr_effective = effective\<rparr>"
    and "es \<equiv> numbered (Suc (cd_next db)) (map (receipt_entry a (cd_next db) effective) xs)"
  defines "db' \<equiv> db\<lparr>cd_receipts := cd_receipts db @ [(cd_next db, rc)], cd_accounts := accs, cd_entries := cd_entries db @ es,
     cd_next := Suc (cd_next db) + length xs\<rparr>"
  shows "books_ok db'"
proof (rule books_grown[OF ok])
  note k = books_okD(1)[OF ok]
  have es: "cd_entries db' = cd_entries db @ es" by (simp add: db'_def)
  have from_es: "\<exists>x \<in> set xs. e = receipt_entry a (cd_next db) effective x" if "(i, e) \<in> set es" for i e
    using numbered_set[OF that[unfolded es_def]] by auto
  have keys: "map fst es = [Suc (cd_next db)..<Suc (cd_next db) + length xs]" by (simp add: es_def numbered_keys del: upt_Suc)
  have "fst ` set es = {Suc (cd_next db)..<Suc (cd_next db) + length xs}" using arg_cong[OF keys, of set] by (simp del: upt_Suc)
  then show g: "grown a [] [(cd_next db, rc)] es db db'"
    unfolding grown_def list.map append_Nil map_append keys using accs
    by (auto simp: db'_def rc_def receipt_entry_simps dest!: from_es)
  have lookup: "map_of (cd_receipts db') (cd_next db) = Some rc"
    using fresh_receipt(3)[OF ok] by (simp add: db'_def map_add_def)
  have "ce_reversal_of e = None \<and> entry_ok db' e" if e: "(i, e) \<in> set es" for i e
  proof -
    obtain x where x: "x \<in> set xs" "e = receipt_entry a (cd_next db) effective x" using from_es[OF e] by blast
    from xs(2)[OF x(1)] show ?thesis
      using lookup by (auto simp: x(2) entry_ok_def entry_shape_def receipt_entry_def issued_before_def receipt_there_def
          reverses_def allocated_def rc_def db'_def)
  qed
  then show e: "entries_ok db'" by (intro entries_grown[OF k books_okD(3)[OF ok] g]) auto
  show "account_reconciled db' a"
  proof (rule account_reconciledI[OF keys_grown[OF k g] e])
    fix d doc assume d: "(d, doc) \<in> set (cd_documents db')" "rd_account doc = a"
    then have old: "(d, doc) \<in> set (cd_documents db)" by (simp add: db'_def)
    have taken: "added_sum (of_document a d) es = (case map_of xs d of None \<Rightarrow> 0 | Some n \<Rightarrow> - n)"
      unfolding es_def receipt_added receipt_entry_simps using sum_allocated[OF xs(1), of d "\<lambda>x. - snd x"] by (simp split: option.splits)
    have "0 \<le> document_outstanding db a d + added_sum (of_document a d) es"
    proof (cases "map_of xs d")
      case None
      then show ?thesis using reconciledD(2)[OF ok old d(2)] by (simp add: taken)
    next
      case (Some n)
      then show ?thesis using xs(2)[OF map_of_SomeD[OF Some]] by (simp add: taken allocated_def)
    qed
    moreover have "added_sum (\<lambda>e. of_document a d e \<and> ce_kind e \<in> principal_kinds) es = 0"
      by (rule added_sum_none) (auto dest!: from_es simp: receipt_entry_simps principal_kinds_def)
    moreover have "filter (\<lambda>(_, e). of_document a d e \<and> ce_kind e = entry_kind_of (rd_kind doc)) es = []"
      by (auto simp: filter_empty_conv receipt_entry_simps entry_kind_of_def dest!: from_es split: document_kind.splits)
    ultimately show "count_entries (\<lambda>e. of_document a d e \<and> ce_kind e = entry_kind_of (rd_kind doc)) db' = 1
      \<and> 0 \<le> document_outstanding db' a d \<and> document_principal db' a d \<le> max_credit"
      using reconciledD[OF ok old d(2)]
      by (simp add: count_added[OF es] document_outstanding_def document_principal_def entry_sum_added[OF es])
  next
    fix r rc' assume r: "(r, rc') \<in> set (cd_receipts db')"
    have sums: "entry_sum (of_receipt b s EK_RECEIPT) db' = entry_sum (of_receipt b s EK_RECEIPT) db
        + (if b = a \<and> s = cd_next db then - (\<Sum>x\<leftarrow>xs. snd x) else 0)"
      "count_entries (of_receipt b s EK_RECEIPT) db' = count_entries (of_receipt b s EK_RECEIPT) db + (if b = a \<and> s = cd_next db then length xs else 0)"
      "count_entries (of_receipt b s EK_REVERSAL) db' = count_entries (of_receipt b s EK_REVERSAL) db" for b s
      unfolding entry_sum_added[OF es] count_added[OF es] es_def receipt_added filter_numbered
      by (simp_all add: receipt_entry_simps filter_map o_def uminus_sum_list_map[unfolded o_def] sum_when)
    show "receipt_reconciled db' r rc'"
    proof (cases "(r, rc') \<in> set (cd_receipts db)")
      case True
      then show ?thesis using receipt_reconciledD[OF ok True] keys_less(3)[OF k True] by (simp add: receipt_reconciled_def sums)
    next
      case False
      then have "r = cd_next db" "rc' = rc" using r by (auto simp: db'_def)
      then show ?thesis by (simp add: receipt_reconciled_def sums fresh_receipt[OF ok] rc_def)
    qed
  next
    have "(\<Sum>x\<leftarrow>xs. - snd x) \<le> 0" by (rule sum_list_nonpos) (use xs(2) in \<open>fastforce simp: allocated_def\<close>)
    then have "added_sum (\<lambda>e. ce_account e = a) es \<le> 0" unfolding es_def receipt_added by (simp add: receipt_entry_simps)
    moreover have "account_total db a \<le> max_credit" using books_okD(2)[OF ok, of a] by (simp add: account_reconciled_def)
    ultimately show "account_total db' a \<le> max_credit" by (simp add: account_total_def entry_sum_added[OF es])
  qed
qed


lemma receipt_sound:
  assumes ok: "books_ok db" and xs: "distinct (map fst xs)" "\<And>x. x \<in> set xs \<Longrightarrow> 0 < snd x" "(\<Sum>(_, n)\<leftarrow>xs. n) = amount"
    and past: "effective \<le> now"
  shows "sound (receipt_work customer expected amount m effective evidence h xs now ctx db)"
  unfolding receipt_work_def
proof (rule sound_andthen[OF clean_current], clarify, rule sound_throw, simp, rule sound_andthen[OF check_allocations_clean])
  fix a acc u assume "current_account db customer expected = Inr (a, acc)" and checked: "check_allocations db a effective xs = Inr u"
  then have a: "a \<in> fst ` set (cd_accounts db)" by (blast intro: current_account_Inr)
  have alloc: "allocated db a effective x" if "x \<in> set xs" for x
    using check_allocations_Inr[OF checked, of "fst x" "snd x"] xs(2) that by simp
  define rc where "rc = \<lparr>cr_account = a, cr_amount = (\<Sum>x\<leftarrow>xs. snd x), cr_method = m, cr_evidence = evidence, cr_hash = h, cr_effective = effective\<rparr>"
  define db1 where "db1 = db\<lparr>cd_receipts := cd_receipts db @ [(cd_next db, rc)], cd_next := Suc (cd_next db)\<rparr>"
  let ?es = "map (receipt_entry a (cd_next db) effective) xs"
  have lookup: "map_of (cd_receipts db1) (cd_next db) = Some rc" using fresh_receipt(3)[OF ok] by (simp add: db1_def map_add_def)
  have "postable now db1 (receipt_entry a (cd_next db) effective x)" if "x \<in> set xs" for x
    using alloc[OF that] lookup past by (auto simp: postable_def entry_matches_def entry_in_order_def entry_shape_def
        entry_refers_def receipt_entry_def allocated_def rc_def db1_def)
  then have ready: "\<forall>e \<in> set ?es. postable now db1 e" by simp
  have "books_ok (db1\<lparr>cd_accounts := accs, cd_entries := cd_entries db1 @ numbered (cd_next db1) ?es, cd_next := cd_next db1 + length ?es\<rparr>)"
    if "map fst accs = map fst (cd_accounts db1)" for accs
    using receipt_posted[OF ok xs(1) alloc, of accs m evidence h] that by (simp add: db1_def rc_def)
  from posting_sound[OF _ ready this] have "sound (andthen (post_entries now ?es db1) (\<lambda>(is, db2).
      let db3 = credit_audit ctx act i md db2 in
      andthen (credit_answer_of now a d r is db3) (\<lambda>(answer, db4). commit_account a answer db4)))" for act i md d r
    using a by (simp add: db1_def)
  moreover have "amount = (\<Sum>x\<leftarrow>xs. snd x)" using xs(3) by (simp add: case_prod_unfold)
  ultimately show "sound (let r = cd_next db;
          db1 = db\<lparr>cd_receipts := cd_receipts db @ [(r, \<lparr>cr_account = a, cr_amount = amount, cr_method = m, cr_evidence = evidence,
            cr_hash = h, cr_effective = effective\<rparr>)], cd_next := Suc r\<rparr> in
      andthen (post_entries now (map (receipt_entry a r effective) xs) db1) (\<lambda>(is, db2).
      let db3 = credit_audit ctx ''credit.receipt.recorded'' r [(''accountId'', JId a), (''amount'', JStr (show_int amount)),
        (''method'', JStr (method_name m)), (''allocationCount'', JNum (int (length xs)))] db2 in
      andthen (credit_answer_of now a None (Some r) is db3) (\<lambda>(answer, db4). commit_account a answer db4)))"
    unfolding Let_def[of "cd_next db"] Let_def[of "db\<lparr>cd_receipts := _, cd_next := _\<rparr>"] db1_def rc_def by blast
qed

section \<open>Corrections of a document\<close>

lemma adjustment_posted:
  fixes reason evidence h
  assumes ok: "books_ok db" and doc: "map_of (cd_documents db) d = Some doc" "rd_account doc = a" "rd_issued doc \<le> effective"
    and sign: "if note then amount < 0 else 0 < amount" and stays: "0 \<le> document_outstanding db a d + amount"
    and bound: "document_principal db a d + amount \<le> max_credit" "account_outstanding db a + amount \<le> max_credit"
    and accs: "map fst accs = map fst (cd_accounts db)"
  defines "e \<equiv> adjustment_entry a d note amount effective reason evidence h"
  defines "db' \<equiv> db\<lparr>cd_accounts := accs, cd_entries := cd_entries db @ [(cd_next db, e)], cd_next := Suc (cd_next db)\<rparr>"
  shows "books_ok db'"
proof (rule books_grown[OF ok])
  note k = books_okD(1)[OF ok]
  show g: "grown a [] [] [(cd_next db, e)] db db'" using accs by (auto simp: grown_def db'_def e_def adjustment_entry_def)
  have es: "cd_entries db' = cd_entries db @ [(cd_next db, e)]" by (simp add: db'_def)
  have "entry_ok db' e"
    using doc sign by (auto simp: entry_ok_def entry_shape_def e_def adjustment_entry_def issued_before_def receipt_there_def
        reverses_def db'_def split: if_splits)
  then show eok: "entries_ok db'"
    by (intro entries_grown[OF k books_okD(3)[OF ok] g]) (auto simp: e_def adjustment_entry_def)
  have kind: "ce_kind e \<in> {EK_DEBIT, EK_CREDIT_NOTE}" "ce_receipt e = None" "ce_amount e = amount" "ce_account e = a" "ce_document e = d"
    by (simp_all add: e_def adjustment_entry_def)
  then have kinds: "ce_kind e \<in> principal_kinds" "ce_kind e \<noteq> entry_kind_of q" for q
    by (auto simp: principal_kinds_def entry_kind_of_def split: document_kind.splits)
  show "account_reconciled db' a"
  proof (rule account_reconciledI[OF keys_grown[OF k g] eok])
    fix d' doc' assume d': "(d', doc') \<in> set (cd_documents db')" "rd_account doc' = a"
    then have old: "(d', doc') \<in> set (cd_documents db)" by (simp add: db'_def)
    show "count_entries (\<lambda>e. of_document a d' e \<and> ce_kind e = entry_kind_of (rd_kind doc')) db' = 1
      \<and> 0 \<le> document_outstanding db' a d' \<and> document_principal db' a d' \<le> max_credit"
      using reconciledD[OF ok old d'(2)] stays bound(1)
      by (cases "d' = d") (simp_all add: count_added[OF es] document_outstanding_def document_principal_def entry_sum_added[OF es]
          of_document_def kinds kind)
  next
    fix r rc assume "(r, rc) \<in> set (cd_receipts db')"
    then have "receipt_reconciled db r rc" using receipt_reconciledD[OF ok] by (simp add: db'_def)
    then show "receipt_reconciled db' r rc"
      by (simp add: receipt_reconciled_def entry_sum_added[OF es] count_added[OF es] of_receipt_def kind)
  next
    show "account_total db' a \<le> max_credit"
      using bound(2) total_outstanding[OF ok, of a] by (simp add: account_total_def entry_sum_added[OF es] kind)
  qed
qed

lemma adjustment_sound:
  assumes ok: "books_ok db" and sign: "if note then amount < 0 else 0 < amount" and past: "effective \<le> now"
  shows "sound (adjust_work sha fold_text customer d expected note amount effective reason evidence now ctx db)"
  unfolding adjust_work_def
proof (rule sound_andthen[OF clean_current], clarify, rule sound_throw, simp, rule sound_need, simp, clarify,
    rule sound_throw, simp, rule sound_throw, simp, rule sound_throw, simp, rule sound_andthen)
  fix a acc owed debt issued
  assume "current_account db customer expected = Inr (a, acc)"
  then have a: "a \<in> fst ` set (cd_accounts db)" by (rule current_account_Inr)
  show "clean (check_debt_bound now db a amount)" by (rule clean_bound[OF a])
  fix u assume "check_debt_bound now db a amount = Inr u"
  then have bound: "account_outstanding db a + amount \<le> max_credit" by (rule check_debt_bound_Inr[OF a])
  assume b: "document_balance db a d = Some (owed, debt, issued)" "\<not> effective < issued" "\<not> owed + amount < 0" "\<not> max_credit < debt + amount"
  from document_balance_Some[OF b(1)] b(2) obtain doc where owed: "owed = document_outstanding db a d" "debt = document_principal db a d"
    and doc: "map_of (cd_documents db) d = Some doc" "rd_account doc = a" "rd_issued doc \<le> effective" by auto
  let ?e = "adjustment_entry a d note amount effective reason evidence"
  have ready: "postable now db (?e h)" for h
    using doc sign past by (auto simp: postable_def entry_matches_def entry_in_order_def entry_shape_def entry_refers_def
        adjustment_entry_def split: if_splits)
  have books: "books_ok (db\<lparr>cd_accounts := accs, cd_entries := cd_entries db @ numbered (cd_next db) [?e h],
      cd_next := cd_next db + length [?e h]\<rparr>)" if "map fst accs = map fst (cd_accounts db)" for accs h
    using adjustment_posted[OF ok doc sign _ _ bound that, of reason evidence h] b(3,4) owed by simp
  have "sound (andthen (post_entries now [?e h] db) (\<lambda>(is, db2).
      let db3 = credit_audit ctx act i md db2 in
      andthen (credit_answer_of now a x r is db3) (\<lambda>(answer, db4). commit_account a answer db4)))" for h act i md x r
    by (rule posting_sound[OF a _ books]) (simp_all add: ready)
  then show "sound (let h = sha (stable_json (Arr [Leaf (JId a), Leaf (JId d), Leaf (JStr (fold_text evidence))])) in
       throw_if (list_ex (\<lambda>(_, e). ce_hash e = Some h) (cd_entries db)) (Conflict ''CREDIT_EVIDENCE_CONFLICT'')
       (andthen (post_entries now [?e h] db) (\<lambda>(is, db1).
        let db2 = credit_audit ctx ''credit.document.adjusted'' d [(''accountId'', JId a),
          (''kind'', JStr (if note then ''CREDIT_NOTE'' else ''DEBIT_ADJUSTMENT'')), (''amount'', JStr (show_int amount))] db1 in
        andthen (credit_answer_of now a (Some d) None is db2) (\<lambda>(answer, db3). commit_account a answer db3))))"
    unfolding Let_def[of "sha _"] by (intro sound_throw) simp_all
qed

end
