(* ===== verification/Credit_Reversals.thy ===== *)
theory Credit_Reversals
  imports Credit_Soundness
begin

text \<open>
  The reversal of a receipt keeps the books in order: the receipt's entries stop counting as one, and an
  entry of the opposite amount stands against each.
\<close>

section \<open>The entries of a receipt\<close>

lemma map_of_entry: "books_ok db \<Longrightarrow> (i, e) \<in> set (cd_entries db) \<Longrightarrow> map_of (cd_entries db) i = Some e"
  by (rule map_of_is_SomeI) (simp_all add: books_ok_def keys_ok_def)

lemma receipt_entriesD:
  assumes ok: "books_ok db" and rc: "map_of (cd_receipts db) r = Some rc" and e: "(i, e) \<in> set (receipt_entries db r)"
  shows "map_of (cd_entries db) i = Some e" "entry_ok db e" "ce_receipt e = Some r" "ce_kind e = EK_RECEIPT"
    "ce_account e = cr_account rc" "ce_effective e = cr_effective rc" "ce_amount e < 0"
proof -
  from e have mem: "(i, e) \<in> set (cd_entries db)" and r: "ce_receipt e = Some r" "ce_kind e = EK_RECEIPT"
    by (auto simp: receipt_entries_def)
  have eok: "entry_ok db e" using entries_okD(1)[OF books_okD(3)[OF ok] mem] .
  then show "ce_account e = cr_account rc" "ce_effective e = cr_effective rc"
    using rc r unfolding entry_ok_def receipt_there_def by force+
  show "ce_amount e < 0" using eok r by (simp add: entry_ok_def entry_shape_def)
  show "map_of (cd_entries db) i = Some e" "entry_ok db e" "ce_receipt e = Some r" "ce_kind e = EK_RECEIPT"
    using map_of_entry[OF ok mem] eok r by simp_all
qed

lemma receipt_entries_sum:
  "(\<Sum>x\<leftarrow>receipt_entries db r. if P (snd x) then ce_amount (snd x) else 0)
     = asum (\<lambda>_ e. if P e \<and> ce_receipt e = Some r \<and> ce_kind e = EK_RECEIPT then ce_amount e else 0) (cd_entries db)"
proof -
  have "asum (\<lambda>_ e. if P e then ce_amount e else 0) (receipt_entries db r)
      = asum (\<lambda>_ e. if P e \<and> ce_receipt e = Some r \<and> ce_kind e = EK_RECEIPT then ce_amount e else 0) (cd_entries db)"
    unfolding receipt_entries_def asum_filter by (rule asum_cong) auto
  then show ?thesis by (simp add: asum_sum_list)
qed

section \<open>Posting the reversal\<close>

lemma reversal_added:
  "added_sum P (numbered n (map (reversal_entry a r effective evidence reason) xs))
     = - (\<Sum>x\<leftarrow>xs. if P (reversal_entry a r effective evidence reason x) then ce_amount (snd x) else 0)"
  unfolding added_numbered by (induction xs) (auto simp: reversal_entry_def)

lemma reversal_entry_simps:
  "of_document b d (reversal_entry a r effective evidence reason x) \<longleftrightarrow> ce_document (snd x) = d \<and> b = a"
  "ce_kind (reversal_entry a r effective evidence reason x) = EK_REVERSAL"
  "of_receipt b s k (reversal_entry a r effective evidence reason x) \<longleftrightarrow> b = a \<and> s = r \<and> k = EK_REVERSAL"
  "ce_reversal_of (reversal_entry a r effective evidence reason x) = Some (fst x)"
  "ce_account (reversal_entry a r effective evidence reason x) = a"
  "ce_amount (reversal_entry a r effective evidence reason x) = - ce_amount (snd x)"
  "ce_document (reversal_entry a r effective evidence reason x) = ce_document (snd x)"
  by (auto simp: of_document_def of_receipt_def reversal_entry_def)

lemma list_ex_numbered: "list_ex (\<lambda>(_, e). P e) (numbered n es) \<longleftrightarrow> (\<exists>e \<in> set es. P e)"
  by (induction es arbitrary: n) auto

definition reversal_rows :: "credit_db \<Rightarrow> uid \<Rightarrow> uid \<Rightarrow> int \<Rightarrow> string \<Rightarrow> string \<Rightarrow> (uid \<times> credit_entry) list" where
  "reversal_rows db a r effective evidence reason =
     numbered (cd_next db) (map (reversal_entry a r effective evidence reason) (receipt_entries db r))"

lemma reversal_rowsE:
  assumes "(i, f) \<in> set (reversal_rows db a r effective evidence reason)"
  obtains x where "x \<in> set (receipt_entries db r)" "f = reversal_entry a r effective evidence reason x"
  using numbered_set[OF assms[unfolded reversal_rows_def]] by auto

lemma reversal_grown:
  assumes "cd_documents db' = cd_documents db" "cd_receipts db' = cd_receipts db" "map fst (cd_accounts db') = map fst (cd_accounts db)"
    "cd_entries db' = cd_entries db @ reversal_rows db a r effective evidence reason"
    "cd_next db' = cd_next db + length (receipt_entries db r)"
  shows "grown a [] [] (reversal_rows db a r effective evidence reason) db db'"
proof -
  let ?es = "reversal_rows db a r effective evidence reason"
  have keys: "map fst ?es = [cd_next db..<cd_next db + length (receipt_entries db r)]" by (simp add: reversal_rows_def numbered_keys)
  have "fst ` set ?es = {cd_next db..<cd_next db + length (receipt_entries db r)}" using arg_cong[OF keys, of set] by simp
  then show ?thesis
    unfolding grown_def list.map append_Nil map_append keys using assms
    by (auto simp: reversal_entry_simps elim!: reversal_rowsE)
qed

lemma reversal_entry_ok:
  assumes ok: "books_ok db" and rc: "map_of (cd_receipts db) r = Some rc" "cr_account rc = a" "cr_effective rc \<le> effective"
    and f: "(j, f) \<in> set (reversal_rows db a r effective evidence reason)"
    and same: "cd_documents db' = cd_documents db" "cd_receipts db' = cd_receipts db" "cd_entries db' = cd_entries db @ es"
  shows "entry_ok db' f"
proof -
  obtain i ori where x: "(i, ori) \<in> set (receipt_entries db r)" "f = reversal_entry a r effective evidence reason (i, ori)"
    using f by (auto elim!: reversal_rowsE)
  note ori = receipt_entriesD[OF ok rc(1) x(1)]
  have "map_of (cd_entries db') i = Some ori" using ori(1) by (simp add: same map_of_more)
  then have "reverses db' f" using ori(3-5) rc(2) by (simp add: reverses_def x(2) reversal_entry_def)
  moreover have "issued_before db' f"
    using ori(2,5,6) rc(2,3) by (auto simp: entry_ok_def issued_before_def x(2) reversal_entry_def same)
  ultimately show ?thesis
    using ori(7) rc by (simp add: entry_ok_def entry_shape_def receipt_there_def x(2) reversal_entry_def same)
qed

lemma reversed_after:
  assumes ok: "books_ok db" and rc: "map_of (cd_receipts db) r = Some rc"
    and es: "cd_entries db' = cd_entries db @ reversal_rows db a r effective evidence reason" and f: "(i, f) \<in> set (cd_entries db)"
  shows "reversed db' i \<longleftrightarrow> reversed db i \<or> ce_receipt f = Some r \<and> ce_kind f = EK_RECEIPT"
proof -
  let ?rev = "reversal_entry a r effective evidence reason"
  have "reversed db' i \<longleftrightarrow> reversed db i \<or> (\<exists>h \<in> set (map ?rev (receipt_entries db r)). ce_reversal_of h = Some i)"
    unfolding reversed_def es reversal_rows_def list_ex_append list_ex_numbered ..
  also have "(\<exists>h \<in> set (map ?rev (receipt_entries db r)). ce_reversal_of h = Some i) \<longleftrightarrow> (\<exists>h. (i, h) \<in> set (receipt_entries db r))"
    by (force simp: reversal_entry_simps)
  also have "\<dots> \<longleftrightarrow> (i, f) \<in> set (receipt_entries db r)"
    using receipt_entriesD(1)[OF ok rc] map_of_entry[OF ok f] by fastforce
  finally show ?thesis using f by (simp add: receipt_entries_def)
qed

lemma standing_after:
  assumes ok: "books_ok db" and rc: "map_of (cd_receipts db) r = Some rc" "cr_account rc = a"
    and unreversed: "\<And>i e. (i, e) \<in> set (receipt_entries db r) \<Longrightarrow> \<not> reversed db i"
    and es: "cd_entries db' = cd_entries db @ reversal_rows db a r effective evidence reason"
  shows "standing db' b d = standing db b d + added_sum (\<lambda>f. of_document b d f \<and> settling f) (reversal_rows db a r effective evidence reason)"
proof -
  let ?es = "reversal_rows db a r effective evidence reason" and ?xs = "receipt_entries db r"
  have fresh: "\<not> reversed db i" if "(i, f) \<in> set (cd_entries db)" "ce_receipt f = Some r" "ce_kind f = EK_RECEIPT" for i f
    using unreversed that by (auto simp: receipt_entries_def)
  have "asum (\<lambda>i f. if of_document b d f \<and> ce_kind f = EK_RECEIPT \<and> \<not> reversed db' i then ce_amount f else 0) ?es = asum (\<lambda>_ _. 0) ?es"
    by (rule asum_cong) (auto simp: reversal_entry_simps elim!: reversal_rowsE)
  then have "standing db' b d = asum (\<lambda>i f. (if of_document b d f \<and> ce_kind f = EK_RECEIPT \<and> \<not> reversed db i then ce_amount f else 0)
      - (if of_document b d f \<and> ce_receipt f = Some r \<and> ce_kind f = EK_RECEIPT then ce_amount f else 0)) (cd_entries db)"
    unfolding standing_def es asum_append
    using fresh by (auto simp: table_simps reversed_after[OF ok rc(1) es] intro!: asum_cong)
  also have "\<dots> = standing db b d - (\<Sum>x\<leftarrow>?xs. if of_document b d (snd x) then ce_amount (snd x) else 0)"
    unfolding standing_def asum_diff receipt_entries_sum ..
  also have "(\<Sum>x\<leftarrow>?xs. if of_document b d (snd x) then ce_amount (snd x) else 0)
      = - added_sum (\<lambda>f. of_document b d f \<and> settling f) ?es"
    unfolding reversal_rows_def reversal_added minus_minus
    by (rule arg_cong[of _ _ sum_list], rule map_cong[OF refl])
      (use receipt_entriesD(5)[OF ok rc(1)] rc(2) in \<open>auto simp: reversal_entry_simps settling_def of_document_def\<close>)
  finally show ?thesis by simp
qed

text \<open>A receipt none of whose entries is reversed has no reversal, and its entries add up to its amount.\<close>

lemma unreversed_receipt:
  assumes ok: "books_ok db" and rc: "map_of (cd_receipts db) r = Some rc" "cr_account rc = a"
    and unreversed: "\<And>i e. (i, e) \<in> set (receipt_entries db r) \<Longrightarrow> \<not> reversed db i"
  shows "count_entries (of_receipt a r EK_REVERSAL) db = 0" "count_entries (of_receipt a r EK_RECEIPT) db = length (receipt_entries db r)"
    "(\<Sum>x\<leftarrow>receipt_entries db r. ce_amount (snd x)) = - cr_amount rc"
proof -
  have "\<not> of_receipt a r EK_REVERSAL f" if f: "(j, f) \<in> set (cd_entries db)" for j f
  proof
    assume rv: "of_receipt a r EK_REVERSAL f"
    have "entry_ok db f" by (rule entries_okD(1)[OF books_okD(3)[OF ok] f])
    then obtain i ori where ori: "ce_reversal_of f = Some i" "map_of (cd_entries db) i = Some ori" "ce_kind ori = EK_RECEIPT" "ce_receipt ori = Some r"
      using rv unfolding entry_ok_def entry_shape_def reverses_def of_receipt_def by auto
    from ori(2) have "(i, ori) \<in> set (receipt_entries db r)" using ori(3,4) by (auto simp: receipt_entries_def dest: map_of_SomeD)
    moreover have "reversed db i" using f ori(1) by (auto simp: reversed_def list_ex_iff)
    ultimately show False using unreversed by blast
  qed
  then show "count_entries (of_receipt a r EK_REVERSAL) db = 0" by (auto simp: count_entries_def filter_empty_conv)
  note org = receipt_entriesD[OF ok rc(1)]
  show "count_entries (of_receipt a r EK_RECEIPT) db = length (receipt_entries db r)"
    unfolding count_entries_def receipt_entries_def
    by (rule arg_cong[of _ _ length], rule filter_cong[OF refl]) (use org(5) rc(2) in \<open>auto simp: of_receipt_def receipt_entries_def\<close>)
  have "(\<Sum>x\<leftarrow>receipt_entries db r. ce_amount (snd x))
      = (\<Sum>x\<leftarrow>receipt_entries db r. if of_receipt a r EK_RECEIPT (snd x) then ce_amount (snd x) else 0)"
    by (rule arg_cong[of _ _ sum_list], rule map_cong[OF refl]) (use org(3-5) rc(2) in \<open>auto simp: of_receipt_def\<close>)
  also have "\<dots> = entry_sum (of_receipt a r EK_RECEIPT) db"
    unfolding receipt_entries_sum entry_sum_def by (rule asum_cong) (auto simp: of_receipt_def)
  finally show "(\<Sum>x\<leftarrow>receipt_entries db r. ce_amount (snd x)) = - cr_amount rc"
    using receipt_reconciledD[OF ok map_of_SomeD[OF rc(1)]] rc(2) by (simp add: receipt_reconciled_def)
qed

lemma reversal_posted:
  fixes reason evidence
  assumes ok: "books_ok db" and rc: "map_of (cd_receipts db) r = Some rc" "cr_account rc = a"
    and unreversed: "\<And>i e. (i, e) \<in> set (receipt_entries db r) \<Longrightarrow> \<not> reversed db i" and later: "cr_effective rc \<le> effective"
    and bound: "account_outstanding db a + cr_amount rc \<le> max_credit" and accs: "map fst accs = map fst (cd_accounts db)"
  defines "db' \<equiv> db\<lparr>cd_accounts := accs, cd_entries := cd_entries db @ reversal_rows db a r effective evidence reason,
     cd_next := cd_next db + length (receipt_entries db r)\<rparr>"
  shows "books_ok db'"
proof (rule books_grown[OF ok])
  note k = books_okD(1)[OF ok] and e = books_okD(3)[OF ok]
  let ?es = "reversal_rows db a r effective evidence reason"
  have es: "cd_entries db' = cd_entries db @ ?es" by (simp add: db'_def)
  show g: "grown a [] [] ?es db db'" by (rule reversal_grown) (simp_all add: db'_def accs)
  have "\<forall>(_, f) \<in> set (cd_entries db'). entry_ok db' f"
    using reversal_entry_ok[OF ok rc later, of _ _ evidence reason db' ?es] entries_okD(1)[OF e] entry_ok_grown[OF _ g]
    by (auto simp: db'_def)
  then show eok: "entries_ok db'"
    using entries_okD(2)[OF e] standing_after[OF ok rc unreversed es] by (simp add: entries_ok_def entry_sum_added[OF es])
  show "account_reconciled db' a"
  proof (rule account_reconciledI[OF keys_grown[OF k g] eok])
    fix d doc assume d: "(d, doc) \<in> set (cd_documents db')" "rd_account doc = a"
    then have old: "(d, doc) \<in> set (cd_documents db)" by (simp add: db'_def)
    have "(\<Sum>x\<leftarrow>receipt_entries db r. if of_document a d (reversal_entry a r effective evidence reason x) then ce_amount (snd x) else 0) \<le> 0"
      by (rule sum_list_nonpos) (auto dest!: receipt_entriesD(7)[OF ok rc(1)])
    then have "0 \<le> added_sum (of_document a d) ?es" by (simp add: reversal_rows_def reversal_added)
    moreover have "added_sum (\<lambda>f. of_document a d f \<and> ce_kind f \<in> principal_kinds) ?es = 0"
      by (rule added_sum_none) (auto elim!: reversal_rowsE simp: reversal_entry_simps principal_kinds_def)
    moreover have "filter (\<lambda>(_, f). of_document a d f \<and> ce_kind f = entry_kind_of (rd_kind doc)) ?es = []"
      by (auto simp: filter_empty_conv reversal_entry_simps entry_kind_of_def elim!: reversal_rowsE split: document_kind.splits)
    ultimately show "count_entries (\<lambda>f. of_document a d f \<and> ce_kind f = entry_kind_of (rd_kind doc)) db' = 1
      \<and> 0 \<le> document_outstanding db' a d \<and> document_principal db' a d \<le> max_credit"
      using reconciledD[OF ok old d(2)]
      by (simp add: count_added[OF es] document_outstanding_def document_principal_def entry_sum_added[OF es])
  next
    fix s rc' assume s: "(s, rc') \<in> set (cd_receipts db')" "cr_account rc' = a"
    then have old: "(s, rc') \<in> set (cd_receipts db)" by (simp add: db'_def)
    have "entry_sum (of_receipt b t EK_RECEIPT) db' = entry_sum (of_receipt b t EK_RECEIPT) db"
      "count_entries (of_receipt b t EK_RECEIPT) db' = count_entries (of_receipt b t EK_RECEIPT) db"
      "count_entries (of_receipt b t EK_REVERSAL) db' = count_entries (of_receipt b t EK_REVERSAL) db
         + (if b = a \<and> t = r then length (receipt_entries db r) else 0)" for b t
      unfolding entry_sum_added[OF es] count_added[OF es] reversal_rows_def reversal_added filter_numbered
      by (simp_all add: reversal_entry_simps filter_map o_def sum_when)
    then show "receipt_reconciled db' s rc'"
      using receipt_reconciledD[OF ok old] s(2) unreversed_receipt(1,2)[OF ok rc unreversed] by (auto simp: receipt_reconciled_def)
  next
    show "account_total db' a \<le> max_credit"
      using bound total_outstanding[OF ok, of a] unreversed_receipt(3)[OF ok rc unreversed]
      by (simp add: account_total_def entry_sum_added[OF es] reversal_rows_def reversal_added reversal_entry_simps)
  qed
qed

lemma reversal_sound:
  assumes ok: "books_ok db" and past: "effective \<le> now"
  shows "sound (reverse_work customer r expected effective reason evidence now ctx db)"
  unfolding reverse_work_def Let_def[of "receipt_entries db r"]
proof (rule sound_andthen[OF clean_current], clarify, rule sound_need, simp, rule sound_throw, simp, rule sound_throw, simp,
    rule sound_throw, simp, rule sound_andthen)
  fix a acc and rc :: credit_receipt assume "current_account db customer expected = Inr (a, acc)"
  then have a: "a \<in> fst ` set (cd_accounts db)" by (rule current_account_Inr)
  show "clean (check_debt_bound now db a (cr_amount rc))" by (rule clean_bound[OF a])
  fix u assume "check_debt_bound now db a (cr_amount rc) = Inr u"
  then have bound: "account_outstanding db a + cr_amount rc \<le> max_credit" by (rule check_debt_bound_Inr[OF a])
  assume "(case map_of (cd_receipts db) r of None \<Rightarrow> None | Some rc \<Rightarrow> if cr_account rc = a then Some rc else None) = Some rc"
    and later: "\<not> effective < cr_effective rc" and "\<not> (receipt_entries db r = [] \<or> list_ex (\<lambda>(i, _). reversed db i) (receipt_entries db r))"
  then have rc: "map_of (cd_receipts db) r = Some rc" "cr_account rc = a"
    and unreversed: "\<And>i e. (i, e) \<in> set (receipt_entries db r) \<Longrightarrow> \<not> reversed db i"
    by (auto split: option.splits if_splits simp: list_ex_iff)
  let ?es = "map (reversal_entry a r effective evidence reason) (receipt_entries db r)"
  have "postable now db (reversal_entry a r effective evidence reason (i, ori))" if x: "(i, ori) \<in> set (receipt_entries db r)" for i ori
  proof -
    note ori = receipt_entriesD[OF ok rc(1) x]
    obtain doc where "map_of (cd_documents db) (ce_document ori) = Some doc" "rd_account doc = a" "rd_issued doc \<le> ce_effective ori"
      using ori(2,5) rc(2) by (auto simp: entry_ok_def issued_before_def)
    then show ?thesis using ori rc later past
      by (simp add: postable_def entry_matches_def entry_in_order_def entry_shape_def entry_refers_def reversal_entry_def)
  qed
  then have ready: "\<forall>e \<in> set ?es. postable now db e" by auto
  have books: "books_ok (db\<lparr>cd_accounts := accs, cd_entries := cd_entries db @ numbered (cd_next db) ?es, cd_next := cd_next db + length ?es\<rparr>)"
    if "map fst accs = map fst (cd_accounts db)" for accs
    using reversal_posted[OF ok rc unreversed _ bound that, where effective = effective and evidence = evidence and reason = reason] later by (simp add: reversal_rows_def)
  show "sound (andthen (post_entries now ?es db) (\<lambda>(is, db1).
      let db2 = credit_audit ctx ''credit.receipt.reversed'' r [(''accountId'', JId a), (''amount'', JStr (show_int (cr_amount rc))),
        (''allocationCount'', JNum (int (length (receipt_entries db r))))] db1 in
      andthen (credit_answer_of now a None (Some r) is db2) (\<lambda>(answer, db3). commit_account a answer db3)))"
    by (rule posting_sound[OF a ready books])
qed

end
