(* ===== verification/Purchasing.thy ===== *)
theory Purchasing
  imports Office
begin

text \<open>
  \<open>purchasing/purchasing.service.ts\<close>: purchase orders from the draft to the last receipt. A receipt puts the
  goods on the shelves through the stock ledger of the inventory service. Searches for suppliers,
  warehouses and SKUs to choose from are left out.
\<close>

section \<open>Normalization\<close>

definition max_i64 :: int where
  "max_i64 = 9223372036854775807"

text \<open>\<open>costPattern\<close>: \<open>[1-9][0-9]{0,18}\<close>.\<close>

definition cost_pattern :: "string \<Rightarrow> bool" where
  "cost_pattern s \<longleftrightarrow> s \<noteq> [] \<and> list_all is_digit s \<and> hd s \<noteq> CHR ''0'' \<and> length s \<le> 19"

type_synonym order_line_input = "uid \<times> js_number \<times> string"
type_synonym normal_line = "uid \<times> int \<times> int"

definition quantity_ok :: "js_number \<Rightarrow> bool" where
  "quantity_ok q \<longleftrightarrow> is_integer q \<and> 1 \<le> the_int q \<and> the_int q \<le> 1000000"

text \<open>The lines in turn, with the variants and the total seen so far.\<close>

fun normalize_from :: "uid list \<Rightarrow> int \<Rightarrow> order_line_input list \<Rightarrow> normal_line list res" where
  "normalize_from ids acc [] = Inr []"
| "normalize_from ids acc ((v, q, c) # items) =
     throw_if (v \<in> set ids \<or> \<not> quantity_ok q \<or> \<not> cost_pattern c) (BadRequest ''VALIDATION_ERROR'')
     (let cost = digits_value c; acc' = acc + cost * the_int q in
      throw_if (cost > max_i64 \<or> acc' > max_i64) (BadRequest ''VALIDATION_ERROR'')
      (andthen (normalize_from (v # ids) acc' items) (\<lambda>ls. Inr ((v, the_int q, cost) # ls))))"

definition normalize_lines :: "order_line_input list \<Rightarrow> normal_line list res" where
  "normalize_lines items =
     throw_if (length items < 1 \<or> length items > 100) (BadRequest ''VALIDATION_ERROR'')
     (andthen (normalize_from [] 0 items) (\<lambda>ls. Inr (sort_key fst ls)))"

definition assert_command_target :: "int \<Rightarrow> unit res" where
  "assert_command_target expected = throw_if (expected < 0) (BadRequest ''VALIDATION_ERROR'') (Inr ())"

section \<open>Views\<close>

definition line_costs :: "purchase \<Rightarrow> int list" where
  "line_costs p = map (\<lambda>(_, it). pi_cost it * pi_ordered it) (po_items p)"

definition public_order :: "uid \<Rightarrow> purchase \<Rightarrow> purchase_view" where
  "public_order i p = \<lparr>pv_id = i, pv_order = p, pv_line_costs = line_costs p, pv_total = sum_list (line_costs p)\<rparr>"

definition get_purchase :: "uid \<Rightarrow> office_db \<Rightarrow> purchase_view res" where
  "get_purchase i db = need (map_of (of_purchases db) i) (NotFound ''NOT_FOUND'') (\<lambda>p. Inr (public_order i p))"

record purchase_filter =
  pf_status :: "purchase_status option"
  pf_supplier :: "uid option"
  pf_warehouse :: "uid option"
  pf_offset :: nat
  pf_limit :: nat

definition purchase_matches :: "purchase_filter \<Rightarrow> purchase \<Rightarrow> bool" where
  "purchase_matches f p \<longleftrightarrow> (pf_status f = None \<or> pf_status f = Some (po_status p))
     \<and> (pf_supplier f = None \<or> pf_supplier f = Some (po_supplier p))
     \<and> (pf_warehouse f = None \<or> pf_warehouse f = Some (po_warehouse p))"

definition list_purchases :: "purchase_filter \<Rightarrow> office_db \<Rightarrow> purchase_view list \<times> nat" where
  "list_purchases f db = (let rows = filter (\<lambda>(_, p). purchase_matches f p) (rev (of_purchases db)) in
     (map (\<lambda>(i, p). public_order i p) (take (pf_limit f) (drop (pf_offset f) rows)), length rows))"

definition purchase_history :: "uid \<Rightarrow> nat \<Rightarrow> nat \<Rightarrow> office_db \<Rightarrow> (audit_event list \<times> nat) res" where
  "purchase_history i offset limit db =
     need (map_of (of_purchases db) i) (NotFound ''NOT_FOUND'') (\<lambda>_.
     let rows = filter (\<lambda>e. ae_entity e = ''PurchaseOrder'' \<and> ae_entity_id e = i) (rev (audits (of_stock db))) in
     Inr (take limit (drop offset rows), length rows))"

definition list_receipts :: "uid \<Rightarrow> nat \<Rightarrow> nat \<Rightarrow> office_db \<Rightarrow> ((uid \<times> receipt) list \<times> nat) res" where
  "list_receipts i offset limit db =
     need (map_of (of_purchases db) i) (NotFound ''NOT_FOUND'') (\<lambda>_.
     let rows = filter (\<lambda>(_, r). rc_purchase r = i) (rev (of_receipts db)) in
     Inr (take limit (drop offset rows), length rows))"

section \<open>Commands\<close>

definition put_purchase :: "uid \<Rightarrow> purchase \<Rightarrow> office_db \<Rightarrow> office_db" where
  "put_purchase i p db = db\<lparr>of_purchases := AList.update i p (of_purchases db)\<rparr>"

definition purchase_command ::
  "(string \<Rightarrow> string) \<Rightarrow> string \<Rightarrow> jtree \<Rightarrow> office_context \<Rightarrow> (office_db \<Rightarrow> (purchase_answer \<times> office_db) res)
     \<Rightarrow> office_db \<Rightarrow> (purchase_answer \<times> office_db) res" where
  "purchase_command sha = keyed_command sha of_purchase_records (\<lambda>rs db. db\<lparr>of_purchase_records := rs\<rparr>) None"

definition assert_active_references :: "uid \<Rightarrow> uid \<Rightarrow> uid list \<Rightarrow> office_db \<Rightarrow> unit res" where
  "assert_active_references supplier w vs db =
     throw_if (map_of (of_suppliers db) supplier \<noteq> Some True) (Conflict ''SUPPLIER_INACTIVE'')
     (throw_if (\<not> warehouse_open db w) (Conflict ''WAREHOUSE_INACTIVE'')
     (let rows = filter (\<lambda>(i, _). i \<in> set vs) (variants (of_stock db)) in
      throw_if (length rows \<noteq> length vs
          \<or> list_ex (\<lambda>(_, r). \<not> var_active r \<or> var_status r \<noteq> PS_ACTIVE \<or> var_product_status r \<noteq> PS_ACTIVE) rows)
        (Conflict ''VARIANT_INACTIVE'') (Inr ())))"

definition number_lines :: "uid \<Rightarrow> normal_line list \<Rightarrow> (uid \<times> purchase_item) list" where
  "number_lines start ls = map (\<lambda>(k, (v, q, c)). (start + k, \<lparr>pi_variant = v, pi_ordered = q, pi_received = 0, pi_cost = c\<rparr>))
     (zip [0..<length ls] ls)"

definition lines_json :: "normal_line list \<Rightarrow> jtree" where
  "lines_json ls = Arr (map (\<lambda>(v, q, c). Obj [(''variantId'', Leaf (JId v)), (''orderedQty'', Leaf (JNum q)),
     (''unitCost'', Leaf (JStr (show_int c)))]) ls)"

text \<open>A date arrives as text and is stored as an instant.\<close>

type_synonym date_input = "string \<times> int"

definition text_json :: "string option \<Rightarrow> jtree" where
  "text_json t = Leaf (case t of None \<Rightarrow> JNull | Some s \<Rightarrow> JStr s)"

record purchase_input =
  pn_supplier :: uid
  pn_warehouse :: uid
  pn_expected :: "date_input option"
  pn_notes :: "string option"
  pn_items :: "order_line_input list"

definition drafted_purchase :: "string \<Rightarrow> purchase_input \<Rightarrow> (uid \<times> purchase_item) list \<Rightarrow> purchase" where
  "drafted_purchase number inp items =
     \<lparr>po_number = number, po_supplier = pn_supplier inp, po_warehouse = pn_warehouse inp, po_status = PO_DRAFT, po_version = 0,
      po_expected = map_option snd (pn_expected inp), po_notes = pn_notes inp, po_items = items\<rparr>"

definition create_purchase_work ::
  "string \<Rightarrow> purchase_input \<Rightarrow> normal_line list \<Rightarrow> office_context \<Rightarrow> office_db \<Rightarrow> (purchase_answer \<times> office_db) res" where
  "create_purchase_work number inp ls ctx db =
     andthen (assert_active_references (pn_supplier inp) (pn_warehouse inp) (map fst ls) db) (\<lambda>_.
     throw_if (\<exists>x \<in> set (of_purchases db). po_number (snd x) = number) (DbError ''P2002'')
     (let i = of_next db; p = drafted_purchase number inp (number_lines (i + 1) ls);
          db1 = db\<lparr>of_purchases := of_purchases db @ [(i, p)], of_next := i + 1 + length ls\<rparr> in
      Inr (Order_answer (public_order i p), office_audit ctx ''purchase-order.created'' ''PurchaseOrder'' i
        [(''number'', JStr number), (''lineCount'', JNum (int (length ls)))] db1)))"

definition create_purchase ::
  "(string \<Rightarrow> string) \<Rightarrow> string \<Rightarrow> purchase_input \<Rightarrow> office_context \<Rightarrow> office_db \<Rightarrow> (purchase_answer \<times> office_db) res" where
  "create_purchase sha number inp ctx db =
     andthen (normalize_lines (pn_items inp)) (\<lambda>ls.
     purchase_command sha ''create''
       (Obj [(''supplierId'', Leaf (JId (pn_supplier inp))), (''warehouseId'', Leaf (JId (pn_warehouse inp))),
         (''expectedAt'', text_json (map_option fst (pn_expected inp))), (''notes'', text_json (pn_notes inp)),
         (''items'', lines_json ls)])
       ctx (create_purchase_work number inp ls ctx) db)"

text \<open>A field of an update is absent, cleared or set.\<close>

record purchase_change =
  pc_version :: int
  pc_expected :: "date_input option option"
  pc_notes :: "string option option"
  pc_items :: "order_line_input list option"

definition set_given :: "'a option \<Rightarrow> 'a \<Rightarrow> 'a" where
  "set_given x old = (case x of None \<Rightarrow> old | Some y \<Rightarrow> y)"

definition change_json :: "purchase_change \<Rightarrow> normal_line list option \<Rightarrow> (string \<times> jtree) list" where
  "change_json inp ls =
     [(''expectedVersion'', Leaf (JNum (pc_version inp)))]
     @ (case pc_expected inp of None \<Rightarrow> [] | Some e \<Rightarrow> [(''expectedAt'', text_json (map_option fst e))])
     @ (case pc_notes inp of None \<Rightarrow> [] | Some n \<Rightarrow> [(''notes'', text_json n)])
     @ (case ls of None \<Rightarrow> [] | Some l \<Rightarrow> [(''items'', lines_json l)])"

definition updated_purchase :: "purchase_change \<Rightarrow> (uid \<times> purchase_item) list option \<Rightarrow> purchase \<Rightarrow> purchase" where
  "updated_purchase inp items p = p\<lparr>po_version := po_version p + 1,
     po_expected := set_given (map_option (map_option snd) (pc_expected inp)) (po_expected p),
     po_notes := set_given (pc_notes inp) (po_notes p), po_items := set_given items (po_items p)\<rparr>"

definition update_purchase_work ::
  "uid \<Rightarrow> purchase_change \<Rightarrow> normal_line list option \<Rightarrow> office_context \<Rightarrow> office_db \<Rightarrow> (purchase_answer \<times> office_db) res" where
  "update_purchase_work i inp ls ctx db =
     need (map_of (of_purchases db) i) (NotFound ''NOT_FOUND'') (\<lambda>p.
     throw_if (po_status p \<noteq> PO_DRAFT) (Conflict ''PURCHASE_ORDER_STATE_CONFLICT'')
     (throw_if (po_version p \<noteq> pc_version inp) (Conflict ''VERSION_CONFLICT'')
     (andthen (case ls of None \<Rightarrow> Inr ()
         | Some l \<Rightarrow> assert_active_references (po_supplier p) (po_warehouse p) (map fst l) db) (\<lambda>_.
      let p' = updated_purchase inp (map_option (number_lines (of_next db)) ls) p;
          db1 = (put_purchase i p' db)\<lparr>of_next := of_next db + (case ls of None \<Rightarrow> 0 | Some l \<Rightarrow> length l)\<rparr> in
      Inr (Order_answer (public_order i p'), office_audit ctx ''purchase-order.updated'' ''PurchaseOrder'' i
        [(''fromVersion'', JNum (po_version p)), (''toVersion'', JNum (po_version p'))] db1)))))"

definition update_purchase ::
  "(string \<Rightarrow> string) \<Rightarrow> uid \<Rightarrow> purchase_change \<Rightarrow> office_context \<Rightarrow> office_db \<Rightarrow> (purchase_answer \<times> office_db) res" where
  "update_purchase sha i inp ctx db =
     andthen (assert_command_target (pc_version inp)) (\<lambda>_.
     throw_if (pc_items inp = None \<and> pc_expected inp = None \<and> pc_notes inp = None) (BadRequest ''VALIDATION_ERROR'')
     (andthen (case pc_items inp of None \<Rightarrow> Inr None | Some items \<Rightarrow> andthen (normalize_lines items) (\<lambda>l. Inr (Some l))) (\<lambda>ls.
      purchase_command sha (''update:'' @ show_nat i) (Obj (change_json inp ls)) ctx (update_purchase_work i inp ls ctx) db)))"

text \<open>Approving and cancelling: \<open>target\<close> and the states it is allowed from.\<close>

definition transition_purchase_work ::
  "uid \<Rightarrow> purchase_status \<Rightarrow> purchase_status list \<Rightarrow> int \<Rightarrow> office_context \<Rightarrow> office_db
     \<Rightarrow> (purchase_answer \<times> office_db) res" where
  "transition_purchase_work i target allowed expected ctx db =
     need (map_of (of_purchases db) i) (NotFound ''NOT_FOUND'') (\<lambda>p.
     throw_if (po_status p \<notin> set allowed \<or> list_ex (\<lambda>(_, it). pi_received it \<noteq> 0) (po_items p))
       (Conflict ''PURCHASE_ORDER_STATE_CONFLICT'')
     (throw_if (po_version p \<noteq> expected) (Conflict ''VERSION_CONFLICT'')
     (andthen (if target = PO_APPROVED
         then throw_if (po_items p = []) (Conflict ''PURCHASE_ORDER_STATE_CONFLICT'')
           (assert_active_references (po_supplier p) (po_warehouse p) (map (\<lambda>(_, it). pi_variant it) (po_items p)) db)
         else Inr ()) (\<lambda>_.
      let p' = p\<lparr>po_status := target, po_version := po_version p + 1\<rparr> in
      Inr (Order_answer (public_order i p'), office_audit ctx
        (if target = PO_APPROVED then ''purchase-order.approved'' else ''purchase-order.cancelled'') ''PurchaseOrder'' i
        [(''from'', JStr (purchase_status_name (po_status p))), (''to'', JStr (purchase_status_name target)),
         (''fromVersion'', JNum (po_version p)), (''toVersion'', JNum (po_version p'))] (put_purchase i p' db))))))"

definition transition_purchase ::
  "(string \<Rightarrow> string) \<Rightarrow> string \<Rightarrow> uid \<Rightarrow> purchase_status \<Rightarrow> purchase_status list \<Rightarrow> int \<Rightarrow> office_context \<Rightarrow> office_db
     \<Rightarrow> (purchase_answer \<times> office_db) res" where
  "transition_purchase sha scope i target allowed expected ctx db =
     andthen (assert_command_target expected) (\<lambda>_.
     purchase_command sha (scope @ '':'' @ show_nat i) (Obj [(''expectedVersion'', Leaf (JNum expected))]) ctx
       (transition_purchase_work i target allowed expected ctx) db)"

definition approve_purchase ::
  "(string \<Rightarrow> string) \<Rightarrow> uid \<Rightarrow> int \<Rightarrow> office_context \<Rightarrow> office_db \<Rightarrow> (purchase_answer \<times> office_db) res" where
  "approve_purchase sha i expected = transition_purchase sha ''approved'' i PO_APPROVED [PO_DRAFT] expected"

definition cancel_purchase ::
  "(string \<Rightarrow> string) \<Rightarrow> uid \<Rightarrow> int \<Rightarrow> office_context \<Rightarrow> office_db \<Rightarrow> (purchase_answer \<times> office_db) res" where
  "cancel_purchase sha i expected = transition_purchase sha ''cancelled'' i PO_CANCELLED [PO_DRAFT, PO_APPROVED] expected"

section \<open>Receipts\<close>

type_synonym receipt_input = "uid \<times> uid \<times> js_number"
type_synonym receipt_row = "uid \<times> uid \<times> int"

text \<open>Variant, location and quantity of every line; the quantities per variant in order of first mention.\<close>

fun receipt_scan :: "(uid \<times> uid) list \<Rightarrow> (uid \<times> int) list \<Rightarrow> receipt_input list \<Rightarrow> (receipt_row list \<times> (uid \<times> int) list) res" where
  "receipt_scan seen qs [] = Inr ([], qs)"
| "receipt_scan seen qs ((v, l, q) # ls) =
     throw_if (\<not> quantity_ok q) (BadRequest ''VALIDATION_ERROR'')
     (throw_if ((l, v) \<in> set seen) (BadRequest ''VALIDATION_ERROR'')
     (let n = find_or 0 qs v + the_int q in
      throw_if (n > 1000000) (BadRequest ''VALIDATION_ERROR'')
      (andthen (receipt_scan ((l, v) # seen) (AList.update v n qs) ls) (\<lambda>(rows, qs').
       Inr ((v, l, the_int q) # rows, qs')))))"

definition item_of_variant :: "purchase \<Rightarrow> uid \<Rightarrow> (uid \<times> purchase_item) option" where
  "item_of_variant p v = List.find (\<lambda>(_, it). pi_variant it = v) (po_items p)"

definition fits_order :: "purchase \<Rightarrow> uid \<times> int \<Rightarrow> bool" where
  "fits_order p x = (case item_of_variant p (fst x) of None \<Rightarrow> False
     | Some (_, it) \<Rightarrow> snd x \<le> pi_ordered it - pi_received it)"

text \<open>One line: the balance, the movement, the line of the receipt and the audit record.\<close>

definition received_balance :: "int \<Rightarrow> balance \<Rightarrow> balance" where
  "received_balance q b = b\<lparr>onHand := onHand b + q, available := onHand b + q - reserved b, bal_version := bal_version b + 1\<rparr>"

definition receipt_movement :: "stock_key \<Rightarrow> int \<Rightarrow> balance \<Rightarrow> uid \<Rightarrow> movement" where
  "receipt_movement k q b line =
     \<lparr>mv_key = k, mv_type = RECEIPT, mv_quantity = q, mv_before = onHand b, mv_after = onHand b + q, mv_reason = None,
      mv_ref_type = Some ''PurchaseReceiptLine'', mv_ref_id = Some (JId line), mv_idem = None\<rparr>"

definition receive_line ::
  "uid \<Rightarrow> purchase \<Rightarrow> office_context \<Rightarrow> receipt_row \<Rightarrow> office_db \<Rightarrow> ((uid \<times> receipt_line) \<times> office_db) res" where
  "receive_line receipt_id p ctx row db =
     (case row of (v, l, q) \<Rightarrow>
      let k = StockKey (po_warehouse p) l v; b = bal (of_stock db) k; line = of_next db in
      throw_if (onHand b + q > 2147483647 \<or> onHand b + q - reserved b > 2147483647) (Conflict ''INVENTORY_OVERFLOW'')
      (andthen (put_balance k (received_balance q b) (of_stock db)) (\<lambda>stock1.
       andthen (add_movement (receipt_movement k q b line) stock1) (\<lambda>(m, stock2).
       need (item_of_variant p v) (Crash ''TypeError'') (\<lambda>(item, _).
       Inr ((line, \<lparr>rl_item = item, rl_variant = v, rl_location = l, rl_quantity = q, rl_movement = m\<rparr>),
         office_audit ctx ''inventory.balance.changed'' ''inventory-movement'' m
           [(''type'', JStr ''RECEIPT''), (''receiptId'', JId receipt_id), (''warehouseId'', JId (po_warehouse p)),
            (''locationId'', JId l), (''variantId'', JId v), (''quantity'', JNum q), (''beforeOnHand'', JNum (onHand b)), (''afterOnHand'', JNum (onHand b + q))]
           (db\<lparr>of_stock := stock2, of_next := Suc line\<rparr>)))))))"

fun receive_lines ::
  "uid \<Rightarrow> purchase \<Rightarrow> office_context \<Rightarrow> receipt_row list \<Rightarrow> office_db \<Rightarrow> ((uid \<times> receipt_line) list \<times> office_db) res" where
  "receive_lines r p ctx [] db = Inr ([], db)"
| "receive_lines r p ctx (x # xs) db =
     andthen (receive_line r p ctx x db) (\<lambda>(line, db1).
     andthen (receive_lines r p ctx xs db1) (\<lambda>(rest, db2). Inr (line # rest, db2)))"

definition received_item :: "(uid \<times> int) list \<Rightarrow> purchase_item \<Rightarrow> purchase_item" where
  "received_item qs it = it\<lparr>pi_received := pi_received it + find_or 0 qs (pi_variant it)\<rparr>"

definition received_order :: "(uid \<times> int) list \<Rightarrow> purchase \<Rightarrow> purchase" where
  "received_order qs p =
     (let items = map (\<lambda>(i, it). (i, received_item qs it)) (po_items p) in
      p\<lparr>po_items := items, po_version := po_version p + 1,
        po_status := (if list_all (\<lambda>(_, it). pi_received it = pi_ordered it) items then PO_RECEIVED
          else PO_PARTIALLY_RECEIVED)\<rparr>)"

definition receive_work ::
  "string \<Rightarrow> uid \<Rightarrow> int \<Rightarrow> string \<Rightarrow> receipt_row list \<Rightarrow> (uid \<times> int) list \<Rightarrow> office_context \<Rightarrow> office_db
     \<Rightarrow> (purchase_answer \<times> office_db) res" where
  "receive_work number i expected reference rows qs ctx db =
     need (map_of (of_purchases db) i) (NotFound ''NOT_FOUND'') (\<lambda>p.
     throw_if (po_status p \<noteq> PO_APPROVED \<and> po_status p \<noteq> PO_PARTIALLY_RECEIVED) (Conflict ''PURCHASE_ORDER_STATE_CONFLICT'')
     (throw_if (po_version p \<noteq> expected) (Conflict ''VERSION_CONFLICT'')
     (throw_if (\<not> warehouse_open db (po_warehouse p)) (Conflict ''WAREHOUSE_INACTIVE'')
     (throw_if (\<exists>x \<in> set (of_receipts db). rc_purchase (snd x) = i \<and> rc_reference (snd x) = reference)
        (Conflict ''DELIVERY_REFERENCE_CONFLICT'')
     (throw_if (\<not> list_all (fits_order p) qs) (Conflict ''RECEIPT_QUANTITY_CONFLICT'')
     (let ls = first_occurrences (map (\<lambda>(v, l, q). l) rows) in
      throw_if (length (open_locations db (po_warehouse p) ls) \<noteq> length ls) (Conflict ''LOCATION_INACTIVE'')
      (throw_if (\<exists>x \<in> set (of_receipts db). rc_number (snd x) = number) (DbError ''P2002'')
      (let r = of_next db in
       andthen (receive_lines r p ctx rows (db\<lparr>of_next := Suc r\<rparr>)) (\<lambda>(lines, db1).
       let receipt = \<lparr>rc_number = number, rc_purchase = i, rc_warehouse = po_warehouse p, rc_reference = reference,
             rc_actor = oc_actor ctx, rc_lines = lines\<rparr>;
           p' = received_order qs p in
       Inr (Receipt_answer r receipt, office_audit ctx ''purchase-order.received'' ''PurchaseOrder'' i
         [(''receiptId'', JId r), (''lineCount'', JNum (int (length rows))),
          (''from'', JStr (purchase_status_name (po_status p))), (''to'', JStr (purchase_status_name (po_status p'))),
          (''fromVersion'', JNum (po_version p)), (''toVersion'', JNum (po_version p'))]
         (put_purchase i p' (db1\<lparr>of_receipts := of_receipts db1 @ [(r, receipt)]\<rparr>))))))))))))"

record receive_input =
  ri_version :: int
  ri_reference :: "string option"
  ri_lines :: "receipt_input list"

definition receive_purchase ::
  "(string \<Rightarrow> string) \<Rightarrow> string \<Rightarrow> uid \<Rightarrow> receive_input \<Rightarrow> office_context \<Rightarrow> office_db \<Rightarrow> (purchase_answer \<times> office_db) res" where
  "receive_purchase sha number i inp ctx db =
     andthen (assert_command_target (ri_version inp)) (\<lambda>_.
     need (map_option trim (ri_reference inp)) (BadRequest ''VALIDATION_ERROR'') (\<lambda>reference.
     throw_if (reference = [] \<or> length reference > 120 \<or> length (ri_lines inp) < 1 \<or> length (ri_lines inp) > 100)
       (BadRequest ''VALIDATION_ERROR'')
     (andthen (receipt_scan [] [] (ri_lines inp)) (\<lambda>(scanned, qs).
      let rows = sort_key (\<lambda>(v, l, q). (l, v)) scanned in
      purchase_command sha (''receive:'' @ show_nat i)
        (Obj [(''expectedVersion'', Leaf (JNum (ri_version inp))), (''externalReference'', Leaf (JStr reference)),
          (''lines'', Arr (map (\<lambda>(v, l, q). Obj [(''variantId'', Leaf (JId v)), (''locationId'', Leaf (JId l)),
             (''quantity'', Leaf (JNum q))]) rows))])
        ctx (receive_work number i (ri_version inp) reference rows qs ctx) db))))"

end
