(* ===== verification/Stocktake.thy ===== *)
theory Stocktake
  imports Office
begin

text \<open>
  \<open>stocktake/stocktake.service.ts\<close>: a count of the shelves of a warehouse from its opening to its
  approval, which sets the stock ledger to what was counted. Searches for warehouses, locations and
  SKUs to choose from are left out.
\<close>

section \<open>Views\<close>

text \<open>Expected quantities and differences are stripped for principals who may not approve: counting is blind.\<close>

definition count_lines :: "bool \<Rightarrow> stocktake \<Rightarrow> count_view list" where
  "count_lines can_approve t = map (\<lambda>(i, it).
     \<lparr>cv_id = i, cv_location = cl_location it, cv_variant = cl_variant it,
      cv_expected = (if can_approve then Some (cl_expected it) else None), cv_counted = cl_counted it,
      cv_difference = (if can_approve then Some (cl_difference it) else None), cv_counted_at = cl_counted_at it,
      cv_counted_by = cl_counted_by it, cv_movement = cl_movement it, cv_notes = cl_notes it\<rparr>) (tk_items t)"

definition net_difference :: "(uid \<times> count_line) list \<Rightarrow> int" where
  "net_difference items = (\<Sum>(_, it)\<leftarrow>items. case cl_difference it of None \<Rightarrow> 0 | Some d \<Rightarrow> d)"

definition count_summary :: "bool \<Rightarrow> stocktake \<Rightarrow> stocktake_summary" where
  "count_summary can_approve t =
     (let counted = length (filter (\<lambda>(_, it). cl_counted it \<noteq> None) (tk_items t)) in
      \<lparr>su_total = length (tk_items t), su_counted = counted, su_pending = int (length (tk_items t)) - int counted,
       su_net = (if can_approve then Some (net_difference (tk_items t)) else None)\<rparr>)"

definition to_detail :: "uid \<Rightarrow> stocktake \<Rightarrow> bool \<Rightarrow> stocktake_view" where
  "to_detail i t can_approve = \<lparr>tv_id = i, tv_head = t\<lparr>tk_items := []\<rparr>, tv_summary = count_summary can_approve t,
     tv_lines = count_lines can_approve t\<rparr>"

definition authorized_response :: "stocktake_view \<Rightarrow> bool \<Rightarrow> stocktake_view" where
  "authorized_response v can_approve =
     (if can_approve then v
      else v\<lparr>tv_summary := (tv_summary v)\<lparr>su_net := None\<rparr>,
        tv_lines := map (\<lambda>l. l\<lparr>cv_expected := None, cv_difference := None\<rparr>) (tv_lines v)\<rparr>)"

definition stocktake_missing :: api_error where
  "stocktake_missing = NotFound ''STOCKTAKE_NOT_FOUND''"

definition get_stocktake :: "uid \<Rightarrow> bool \<Rightarrow> office_db \<Rightarrow> stocktake_view res" where
  "get_stocktake i can_approve db =
     need (map_of (of_stocktakes db) i) stocktake_missing (\<lambda>t. Inr (to_detail i t can_approve))"

text \<open>The list shows the head and the summary of every stocktake, the newest first.\<close>

definition list_stocktakes ::
  "stocktake_status option \<Rightarrow> uid option \<Rightarrow> nat \<Rightarrow> nat \<Rightarrow> bool \<Rightarrow> office_db \<Rightarrow> (uid \<times> stocktake \<times> stocktake_summary) list \<times> nat" where
  "list_stocktakes status w offset limit can_approve db =
     (let rows = filter (\<lambda>(_, t). (status = None \<or> status = Some (tk_status t)) \<and> (w = None \<or> w = Some (tk_warehouse t)))
        (rev (of_stocktakes db)) in
      (map (\<lambda>(i, t). (i, t\<lparr>tk_items := []\<rparr>, count_summary can_approve t)) (take limit (drop offset rows)), length rows))"

definition stocktake_history :: "uid \<Rightarrow> nat \<Rightarrow> nat \<Rightarrow> office_db \<Rightarrow> (audit_event list \<times> nat) res" where
  "stocktake_history i offset limit db =
     need (map_of (of_stocktakes db) i) stocktake_missing (\<lambda>_.
     let rows = filter (\<lambda>e. ae_entity e = ''Stocktake'' \<and> ae_entity_id e = i) (audits (of_stock db)) in
     Inr (take limit (drop offset rows), length rows))"

section \<open>Commands\<close>

definition put_stocktake :: "uid \<Rightarrow> stocktake \<Rightarrow> office_db \<Rightarrow> office_db" where
  "put_stocktake i t db = db\<lparr>of_stocktakes := AList.update i t (of_stocktakes db)\<rparr>"

text \<open>The record keeps the whole answer; every answer, also a repeated one, passes the permissions of today.\<close>

definition stocktake_command ::
  "(string \<Rightarrow> string) \<Rightarrow> bool \<Rightarrow> string \<Rightarrow> jtree \<Rightarrow> office_context \<Rightarrow> (office_db \<Rightarrow> (uid \<times> office_db) res)
     \<Rightarrow> office_db \<Rightarrow> (stocktake_view \<times> office_db) res" where
  "stocktake_command sha can_approve scope payload ctx execute db =
     andthen (keyed_command sha of_stocktake_records (\<lambda>rs db. db\<lparr>of_stocktake_records := rs\<rparr>) (Some 100) scope payload ctx
       (\<lambda>db. andthen (execute db) (\<lambda>(i, db1).
          need (map_of (of_stocktakes db1) i) stocktake_missing (\<lambda>t. Inr (to_detail i t True, db1)))) db) (\<lambda>(v, db').
     Inr (authorized_response v can_approve, db'))"

definition stocktake_state_conflict :: api_error where
  "stocktake_state_conflict = Conflict ''STOCKTAKE_STATE_CONFLICT''"

definition stocktake_version_conflict :: api_error where
  "stocktake_version_conflict = Conflict ''STOCKTAKE_VERSION_CONFLICT''"

definition version_meta :: "stocktake_status \<Rightarrow> stocktake_status \<Rightarrow> int \<Rightarrow> (string \<times> jval) list" where
  "version_meta from_status to_status v = [(''from'', JStr (stocktake_status_name from_status)),
     (''to'', JStr (stocktake_status_name to_status)), (''fromVersion'', JNum v), (''toVersion'', JNum (v + 1))]"

section \<open>Opening\<close>

record stocktake_input =
  sn_warehouse :: uid
  sn_scope :: "scope_type option"
  sn_locations :: "uid list"
  sn_variants :: "uid list"
  sn_notes :: "string option"

definition scope_name :: "scope_type \<Rightarrow> string" where
  "scope_name s = (case s of Whole_warehouse \<Rightarrow> ''WAREHOUSE'' | Some_locations \<Rightarrow> ''LOCATIONS'' | Some_variants \<Rightarrow> ''VARIANTS'')"

definition opened_stocktake ::
  "string \<Rightarrow> stocktake_input \<Rightarrow> scope_type \<Rightarrow> uid list \<Rightarrow> uid list \<Rightarrow> string \<Rightarrow> stocktake" where
  "opened_stocktake number inp scope ls vs actor =
     \<lparr>tk_number = number, tk_warehouse = sn_warehouse inp, tk_status = TK_DRAFT, tk_scope = scope,
      tk_locations = ls, tk_variants = vs, tk_version = 0, tk_notes = sn_notes inp, tk_created_by = actor,
      tk_counted_by = None, tk_approved_by = None, tk_started = None, tk_submitted = None, tk_completed = None,
      tk_cancelled = None, tk_items = []\<rparr>"

definition create_stocktake_work ::
  "string \<Rightarrow> stocktake_input \<Rightarrow> scope_type \<Rightarrow> uid list \<Rightarrow> uid list \<Rightarrow> office_context \<Rightarrow> office_db \<Rightarrow> (uid \<times> office_db) res" where
  "create_stocktake_work number inp scope ls vs ctx db =
     throw_if (\<not> warehouse_open db (sn_warehouse inp)) (Conflict ''WAREHOUSE_INACTIVE'')
     (throw_if (ls \<noteq> [] \<and> length (open_locations db (sn_warehouse inp) ls) \<noteq> length ls) (Conflict ''LOCATION_INACTIVE'')
     (throw_if (vs \<noteq> [] \<and> length (filter (\<lambda>(i, _). i \<in> set vs) (variants (of_stock db))) \<noteq> length vs)
        (BadRequest ''VALIDATION_ERROR'')
     (throw_if (\<exists>x \<in> set (of_stocktakes db). tk_number (snd x) = number) (DbError ''P2002'')
     (let i = of_next db; t = opened_stocktake number inp scope ls vs (oc_actor ctx) in
      Inr (i, office_audit ctx ''stocktake.created'' ''Stocktake'' i
        [(''warehouseId'', JId (sn_warehouse inp)), (''scopeType'', JStr (scope_name scope))]
        (db\<lparr>of_stocktakes := of_stocktakes db @ [(i, t)], of_next := Suc i\<rparr>))))))"

definition create_stocktake ::
  "(string \<Rightarrow> string) \<Rightarrow> string \<Rightarrow> stocktake_input \<Rightarrow> bool \<Rightarrow> office_context \<Rightarrow> office_db
     \<Rightarrow> (stocktake_view \<times> office_db) res" where
  "create_stocktake sha number inp can_approve ctx db =
     (let scope = (case sn_scope inp of None \<Rightarrow> Whole_warehouse | Some s \<Rightarrow> s) in
      throw_if (scope = Some_locations \<and> sn_locations inp = []) (BadRequest ''STOCKTAKE_LOCATION_REQUIRED'')
      (throw_if (scope = Some_variants \<and> sn_variants inp = []) (BadRequest ''VALIDATION_ERROR'')
      (let ls = first_occurrences (sn_locations inp); vs = first_occurrences (sn_variants inp) in
       throw_if ((scope \<noteq> Some_locations \<and> ls \<noteq> []) \<or> (scope \<noteq> Some_variants \<and> vs \<noteq> [])) (BadRequest ''VALIDATION_ERROR'')
       (stocktake_command sha can_approve ''create''
         (Obj [(''warehouseId'', Leaf (JId (sn_warehouse inp))), (''scopeType'', Leaf (JStr (scope_name scope))),
           (''locationIds'', Arr (map (Leaf \<circ> JId) ls)), (''variantIds'', Arr (map (Leaf \<circ> JId) vs)),
           (''notes'', Leaf (case sn_notes inp of None \<Rightarrow> JNull | Some s \<Rightarrow> JStr s))])
         ctx (create_stocktake_work number inp scope ls vs ctx) db))))"

section \<open>The count sheet\<close>

definition max_stocktake_lines :: nat where
  "max_stocktake_lines = 500"

definition in_scope :: "stocktake \<Rightarrow> stock_key \<Rightarrow> bool" where
  "in_scope t k \<longleftrightarrow> sk_warehouse k = tk_warehouse t
     \<and> (case tk_scope t of Whole_warehouse \<Rightarrow> True | Some_locations \<Rightarrow> sk_location k \<in> set (tk_locations t)
        | Some_variants \<Rightarrow> sk_variant k \<in> set (tk_variants t))"

definition scope_balances :: "stocktake \<Rightarrow> office_db \<Rightarrow> (stock_key \<times> balance) list res" where
  "scope_balances t db =
     (let rows = take (max_stocktake_lines + 1) (sort_key (\<lambda>(k, _). (sk_location k, sk_variant k))
        (filter (\<lambda>(k, b). in_scope t k \<and> (onHand b > 0 \<or> reserved b > 0)) (balances (of_stock db)))) in
      throw_if (length rows > max_stocktake_lines) (Conflict ''STOCKTAKE_SCOPE_TOO_LARGE'') (Inr rows))"

definition sheet_line :: "uid \<times> stock_key \<times> balance \<Rightarrow> uid \<times> count_line" where
  "sheet_line x = (case x of (i, k, b) \<Rightarrow> (i, \<lparr>cl_location = sk_location k, cl_variant = sk_variant k, cl_expected = onHand b,
     cl_counted = None, cl_difference = None, cl_counted_at = None, cl_counted_by = None, cl_movement = None, cl_notes = None\<rparr>))"

definition start_work :: "uid \<Rightarrow> int \<Rightarrow> int \<Rightarrow> office_context \<Rightarrow> office_db \<Rightarrow> (uid \<times> office_db) res" where
  "start_work i expected now ctx db =
     need (map_of (of_stocktakes db) i) stocktake_missing (\<lambda>t.
     throw_if (tk_status t \<noteq> TK_DRAFT) stocktake_state_conflict
     (throw_if (tk_version t \<noteq> expected) stocktake_version_conflict
     (andthen (scope_balances t db) (\<lambda>rows.
      throw_if (rows = []) (Conflict ''STOCKTAKE_LINE_REQUIRED'')
      (let items = map sheet_line (zip [of_next db..<of_next db + length rows] rows);
           t' = t\<lparr>tk_status := TK_COUNTING, tk_started := Some now, tk_counted_by := Some (oc_actor ctx),
             tk_version := tk_version t + 1, tk_items := items\<rparr> in
       Inr (i, office_audit ctx ''stocktake.started'' ''Stocktake'' i
         ((''lineCount'', JNum (int (length rows))) # version_meta TK_DRAFT TK_COUNTING (tk_version t))
         (put_stocktake i t' (db\<lparr>of_next := of_next db + length rows\<rparr>))))))))"

definition version_json :: "int \<Rightarrow> (string \<times> jtree) list" where
  "version_json expected = [(''expectedVersion'', Leaf (JNum expected))]"

definition start_stocktake ::
  "(string \<Rightarrow> string) \<Rightarrow> uid \<Rightarrow> int \<Rightarrow> int \<Rightarrow> bool \<Rightarrow> office_context \<Rightarrow> office_db \<Rightarrow> (stocktake_view \<times> office_db) res" where
  "start_stocktake sha i expected now can_approve ctx =
     stocktake_command sha can_approve (''start:'' @ show_nat i) (Obj (version_json expected)) ctx
       (start_work i expected now ctx)"

section \<open>Counting\<close>

text \<open>Location, variant, quantity and note.\<close>

type_synonym count_input = "uid \<times> uid \<times> js_number \<times> string option"
type_synonym count_row = "uid \<times> uid \<times> int \<times> string option"

fun normalize_counts_from :: "(uid \<times> uid) list \<Rightarrow> count_input list \<Rightarrow> count_row list res" where
  "normalize_counts_from seen [] = Inr []"
| "normalize_counts_from seen ((l, v, q, n) # ls) =
     throw_if ((l, v) \<in> set seen) (BadRequest ''STOCKTAKE_LINE_CONFLICT'')
     (throw_if (\<not> is_integer q \<or> the_int q < 0 \<or> the_int q > 2147483647) (BadRequest ''VALIDATION_ERROR'')
     (andthen (normalize_counts_from ((l, v) # seen) ls) (\<lambda>rows. Inr ((l, v, the_int q, n) # rows))))"

definition normalize_counts :: "count_input list \<Rightarrow> count_row list res" where
  "normalize_counts ls =
     throw_if (length ls < 1 \<or> length ls > 500) (BadRequest ''VALIDATION_ERROR'')
     (andthen (normalize_counts_from [] ls) (\<lambda>rows. Inr (sort_key (\<lambda>(l, v, _, _). (l, v)) rows)))"

definition line_at :: "stocktake \<Rightarrow> uid \<Rightarrow> uid \<Rightarrow> (uid \<times> count_line) option" where
  "line_at t l v = List.find (\<lambda>(_, it). cl_location it = l \<and> cl_variant it = v) (tk_items t)"

definition counted_line :: "string \<Rightarrow> int \<Rightarrow> count_row list \<Rightarrow> count_line \<Rightarrow> count_line" where
  "counted_line actor now rows it =
     (case List.find (\<lambda>(l, v, _, _). l = cl_location it \<and> v = cl_variant it) rows of
        None \<Rightarrow> it
      | Some (_, _, q, n) \<Rightarrow> it\<lparr>cl_counted := Some q, cl_counted_at := Some now, cl_counted_by := Some actor,
          cl_notes := n, cl_difference := Some (q - cl_expected it)\<rparr>)"

definition count_work :: "uid \<Rightarrow> int \<Rightarrow> count_row list \<Rightarrow> int \<Rightarrow> office_context \<Rightarrow> office_db \<Rightarrow> (uid \<times> office_db) res" where
  "count_work i expected rows now ctx db =
     need (map_of (of_stocktakes db) i) stocktake_missing (\<lambda>t.
     throw_if (tk_status t \<noteq> TK_COUNTING) stocktake_state_conflict
     (throw_if (tk_version t \<noteq> expected) stocktake_version_conflict
     (throw_if (list_ex (\<lambda>(l, v, _, _). line_at t l v = None) rows) (BadRequest ''STOCKTAKE_OUT_OF_SCOPE'')
     (let t' = t\<lparr>tk_version := tk_version t + 1,
            tk_items := map (\<lambda>(j, it). (j, counted_line (oc_actor ctx) now rows it)) (tk_items t)\<rparr> in
      Inr (i, office_audit ctx ''stocktake.counted'' ''Stocktake'' i
        [(''lineCount'', JNum (int (length rows))),
         (''netDifference'', JNum (\<Sum>(l, v, q, _)\<leftarrow>rows. case line_at t l v of None \<Rightarrow> 0 | Some (_, it) \<Rightarrow> q - cl_expected it)),
         (''fromVersion'', JNum (tk_version t)), (''toVersion'', JNum (tk_version t + 1))]
        (put_stocktake i t' db))))))"

definition count_stocktake ::
  "(string \<Rightarrow> string) \<Rightarrow> uid \<Rightarrow> int \<Rightarrow> count_input list \<Rightarrow> int \<Rightarrow> bool \<Rightarrow> office_context \<Rightarrow> office_db
     \<Rightarrow> (stocktake_view \<times> office_db) res" where
  "count_stocktake sha i expected ls now can_approve ctx db =
     andthen (normalize_counts ls) (\<lambda>rows.
     stocktake_command sha can_approve (''count:'' @ show_nat i)
       (Obj (version_json expected @ [(''lines'', Arr (map (\<lambda>(l, v, q, n). Obj [(''locationId'', Leaf (JId l)),
          (''variantId'', Leaf (JId v)), (''countedQty'', Leaf (JNum q)),
          (''notes'', Leaf (case n of None \<Rightarrow> JNull | Some s \<Rightarrow> JStr s))]) rows))]))
       ctx (count_work i expected rows now ctx) db)"

section \<open>Submitting and cancelling\<close>

definition submit_work :: "uid \<Rightarrow> int \<Rightarrow> int \<Rightarrow> office_context \<Rightarrow> office_db \<Rightarrow> (uid \<times> office_db) res" where
  "submit_work i expected now ctx db =
     need (map_of (of_stocktakes db) i) stocktake_missing (\<lambda>t.
     throw_if (tk_status t \<noteq> TK_COUNTING) stocktake_state_conflict
     (throw_if (tk_version t \<noteq> expected) stocktake_version_conflict
     (throw_if (tk_items t = [] \<or> list_ex (\<lambda>(_, it). cl_counted it = None) (tk_items t)) (Conflict ''STOCKTAKE_NOT_FULLY_COUNTED'')
     (Inr (i, office_audit ctx ''stocktake.submitted'' ''Stocktake'' i
       ([(''countedLines'', JNum (int (length (filter (\<lambda>(_, it). cl_counted it \<noteq> None) (tk_items t))))),
         (''lineCount'', JNum (int (length (tk_items t))))] @ version_meta TK_COUNTING TK_REVIEW (tk_version t))
       (put_stocktake i (t\<lparr>tk_status := TK_REVIEW, tk_submitted := Some now, tk_version := tk_version t + 1\<rparr>) db))))))"

definition submit_stocktake ::
  "(string \<Rightarrow> string) \<Rightarrow> uid \<Rightarrow> int \<Rightarrow> int \<Rightarrow> bool \<Rightarrow> office_context \<Rightarrow> office_db \<Rightarrow> (stocktake_view \<times> office_db) res" where
  "submit_stocktake sha i expected now can_approve ctx =
     stocktake_command sha can_approve (''submit:'' @ show_nat i) (Obj (version_json expected)) ctx
       (submit_work i expected now ctx)"

definition cancel_stocktake_work :: "uid \<Rightarrow> int \<Rightarrow> int \<Rightarrow> office_context \<Rightarrow> office_db \<Rightarrow> (uid \<times> office_db) res" where
  "cancel_stocktake_work i expected now ctx db =
     need (map_of (of_stocktakes db) i) stocktake_missing (\<lambda>t.
     throw_if (tk_status t = TK_COMPLETED \<or> tk_status t = TK_CANCELLED) stocktake_state_conflict
     (throw_if (tk_version t \<noteq> expected) stocktake_version_conflict
     (Inr (i, office_audit ctx ''stocktake.cancelled'' ''Stocktake'' i (version_meta (tk_status t) TK_CANCELLED (tk_version t))
       (put_stocktake i (t\<lparr>tk_status := TK_CANCELLED, tk_cancelled := Some now, tk_version := tk_version t + 1\<rparr>) db)))))"

definition cancel_stocktake ::
  "(string \<Rightarrow> string) \<Rightarrow> uid \<Rightarrow> int \<Rightarrow> int \<Rightarrow> bool \<Rightarrow> office_context \<Rightarrow> office_db \<Rightarrow> (stocktake_view \<times> office_db) res" where
  "cancel_stocktake sha i expected now can_approve ctx =
     stocktake_command sha can_approve (''cancel:'' @ show_nat i) (Obj (version_json expected)) ctx
       (cancel_stocktake_work i expected now ctx)"

section \<open>Approval\<close>

text \<open>One line: the count against the balance of now; a line that agrees leaves no movement.\<close>

definition counted_balance :: "int \<Rightarrow> balance \<Rightarrow> balance" where
  "counted_balance n b = b\<lparr>onHand := n, available := n - reserved b, bal_version := bal_version b + 1\<rparr>"

definition count_movement :: "stock_key \<Rightarrow> int \<Rightarrow> balance \<Rightarrow> uid \<Rightarrow> string \<Rightarrow> movement" where
  "count_movement k n b item number =
     \<lparr>mv_key = k, mv_type = STOCKTAKE, mv_quantity = n - onHand b, mv_before = onHand b, mv_after = n,
      mv_reason = Some (''Physical count approved for '' @ number), mv_ref_type = Some ''StocktakeItem'',
      mv_ref_id = Some (JId item), mv_idem = None\<rparr>"

definition approve_line ::
  "uid \<Rightarrow> stocktake \<Rightarrow> office_context \<Rightarrow> uid \<times> count_line \<Rightarrow> office_db \<Rightarrow> (uid option \<times> office_db) res" where
  "approve_line i t ctx x db =
     (case x of (j, it) \<Rightarrow>
      let k = StockKey (tk_warehouse t) (cl_location it) (cl_variant it); b = bal (of_stock db) k; n = the (cl_counted it) in
      throw_if (n < reserved b) (Conflict ''STOCKTAKE_RESERVED_EXCEEDS_COUNT'')
      (throw_if (n > 2147483647 \<or> n - reserved b > 2147483647) (Conflict ''INVENTORY_OVERFLOW'')
      (if n - onHand b = 0 then Inr (None, db)
       else andthen (add_movement (count_movement k n b j (tk_number t)) (of_stock db)) (\<lambda>(m, stock1).
         let db1 = office_audit ctx ''inventory.balance.changed'' ''inventory-movement'' m
           [(''type'', JStr ''STOCKTAKE''), (''stocktakeId'', JId i), (''warehouseId'', JId (tk_warehouse t)),
            (''locationId'', JId (cl_location it)), (''variantId'', JId (cl_variant it)), (''quantity'', JNum (n - onHand b)),
            (''beforeOnHand'', JNum (onHand b)), (''afterOnHand'', JNum n)] (db\<lparr>of_stock := stock1\<rparr>) in
         andthen (put_balance k (counted_balance n b) (of_stock db1)) (\<lambda>stock2.
         Inr (Some m, db1\<lparr>of_stock := stock2\<rparr>))))))"

fun approve_lines ::
  "uid \<Rightarrow> stocktake \<Rightarrow> office_context \<Rightarrow> (uid \<times> count_line) list \<Rightarrow> office_db \<Rightarrow> ((uid \<times> count_line) list \<times> office_db) res" where
  "approve_lines i t ctx [] db = Inr ([], db)"
| "approve_lines i t ctx (x # xs) db =
     andthen (approve_line i t ctx x db) (\<lambda>(m, db1).
     andthen (approve_lines i t ctx xs db1) (\<lambda>(rest, db2).
     Inr ((fst x, (snd x)\<lparr>cl_movement := m\<rparr>) # rest, db2)))"

definition approve_work :: "uid \<Rightarrow> int \<Rightarrow> int \<Rightarrow> office_context \<Rightarrow> office_db \<Rightarrow> (uid \<times> office_db) res" where
  "approve_work i expected now ctx db =
     need (map_of (of_stocktakes db) i) stocktake_missing (\<lambda>t.
     throw_if (tk_status t \<noteq> TK_REVIEW) stocktake_state_conflict
     (throw_if (tk_version t \<noteq> expected) stocktake_version_conflict
     (throw_if (tk_items t = []) (Conflict ''STOCKTAKE_LINE_REQUIRED'')
     (throw_if (list_ex (\<lambda>(_, it). cl_counted it = None) (tk_items t)) (Conflict ''STOCKTAKE_NOT_FULLY_COUNTED'')
     (andthen (approve_lines i t ctx (tk_items t) db) (\<lambda>(items, db1).
      let t' = t\<lparr>tk_status := TK_COMPLETED, tk_completed := Some now, tk_approved_by := Some (oc_actor ctx),
            tk_version := tk_version t + 1, tk_items := items\<rparr> in
      Inr (i, office_audit ctx ''stocktake.approved'' ''Stocktake'' i
        ([(''lineCount'', JNum (int (length items))),
          (''adjustedLines'', JNum (int (length (filter (\<lambda>(_, it). cl_movement it \<noteq> None) items)))),
          (''netDifference'', JNum (net_difference (tk_items t)))] @ version_meta TK_REVIEW TK_COMPLETED (tk_version t))
        (put_stocktake i t' db1))))))))"

definition approve_stocktake ::
  "(string \<Rightarrow> string) \<Rightarrow> uid \<Rightarrow> int \<Rightarrow> int \<Rightarrow> bool \<Rightarrow> office_context \<Rightarrow> office_db \<Rightarrow> (stocktake_view \<times> office_db) res" where
  "approve_stocktake sha i expected now can_approve ctx =
     stocktake_command sha can_approve (''approve:'' @ show_nat i) (Obj (version_json expected)) ctx
       (approve_work i expected now ctx)"

end
