(* ===== verification/Office_Facts.thy ===== *)
theory Office_Facts
  imports Purchasing Stocktake Inventory_Commands
begin

text \<open>
  What the back office promises: received quantities are the sums of the receipts and never exceed what was
  ordered, every receipt line is backed by its movement in the ledger, an approved count sets the
  shelves it counted and no other, and the ledger stays reconciled with the balances.
\<close>

section \<open>Commands with a key\<close>

text \<open>The table of command records of a service.\<close>

locale command_table =
  fixes recs :: "'db \<Rightarrow> 'r command_records"
    and put :: "'r command_records \<Rightarrow> 'db \<Rightarrow> 'db"
  assumes recs_put: "recs (put rs db) = rs"
begin

lemma keyed_Inr:
  assumes "keyed_command sha recs put limit scope payload ctx execute db = Inr (a, db')"
  shows "(map_of (recs db) (oc_actor ctx, scope, sha (oc_key ctx)) = Some (sha (stable_json payload), a) \<and> db' = db)
    \<or> (map_of (recs db) (oc_actor ctx, scope, sha (oc_key ctx)) = None
       \<and> (\<exists>db1. execute db = Inr (a, db1)
          \<and> db' = put (recs db1 @ [((oc_actor ctx, scope, sha (oc_key ctx)), sha (stable_json payload), a)]) db1))"
  using assms by (auto simp: keyed_command_def Let_def res_iff split: option.splits)

lemma keyed_again:
  assumes run: "keyed_command sha recs put limit scope payload ctx execute db = Inr (a, db')"
    and kept: "\<And>a db1. execute db = Inr (a, db1) \<Longrightarrow> recs db1 = recs db"
  shows "keyed_command sha recs put limit scope payload ctx execute' db' = Inr (a, db')"
proof -
  have "map_of (recs db') (oc_actor ctx, scope, sha (oc_key ctx)) = Some (sha (stable_json payload), a)"
    using keyed_Inr[OF run] by (auto simp: recs_put kept map_add_def)
  then show ?thesis using run by (simp add: keyed_command_def Let_def res_iff)
qed

lemma keyed_kept:
  assumes run: "keyed_command sha recs put limit scope payload ctx execute db = Inr (a, db')" and P: "P db"
    and step: "\<And>a db1. execute db = Inr (a, db1) \<Longrightarrow> P db1" and recorded: "\<And>rs db. P (put rs db) = P db"
  shows "P db'"
  using keyed_Inr[OF run] by (auto simp: recorded P step)

end

interpretation purchase_keys: command_table of_purchase_records "\<lambda>rs db. db\<lparr>of_purchase_records := rs\<rparr>"
  by unfold_locales simp

interpretation stocktake_keys: command_table of_stocktake_records "\<lambda>rs db. db\<lparr>of_stocktake_records := rs\<rparr>"
  by unfold_locales simp

section \<open>Goods that arrive or are recounted\<close>

definition moved :: "stock_key \<Rightarrow> balance \<Rightarrow> movement \<Rightarrow> audit_event \<Rightarrow> inv_db \<Rightarrow> inv_db" where
  "moved k b m e s = record_audit e (s\<lparr>balances := AList.update k b (balances s),
     movements := movements s @ [(next_id s, m)], next_id := Suc (next_id s)\<rparr>)"

lemma bal_moved: "bal (moved k b m e s) k' = (if k' = k then b else bal s k')"
  by (simp add: moved_def stock_simps)

lemma movements_moved [simp]: "movements (moved k b m e s) = movements s @ [(next_id s, m)]"
  by (simp add: moved_def)

lemma moved_ok:
  assumes ok: "ledger_ok s" and b: "consistent b" "int4 (onHand b)" "reserved b = reserved (bal s k)"
    and m: "mv_key m = k" "mv_quantity m = onHand b - onHand (bal s k)" "mv_after m = mv_before m + mv_quantity m"
  shows "ledger_ok (moved k b m e s)"
proof (rule ledger_okI)
  show "stock_inv (moved k b m e s)"
    by (rule stock_inv_step[OF ledger_ok_inv[OF ok], where k = k and b' = b])
      (use b m stock_invD(4)[OF ledger_ok_inv[OF ok]] in \<open>auto simp: moved_def stock_simps\<close>)
  show "int4 (onHand (bal (moved k b m e s) k'))" for k'
    using b(2) ledger_ok_onHand[OF ok, of k'] by (simp add: bal_moved)
qed

lemma moved_adv: "advances s (moved k b m e s)"
  by (simp add: moved_def advances_def record_audit_def)

lemma map_of_prefix: "prefix xs ys \<Longrightarrow> map_of xs k = Some v \<Longrightarrow> map_of ys k = Some v"
  by (auto simp: prefix_def map_add_def)

lemma advances_movement:
  "advances s s' \<Longrightarrow> map_of (movements s) i = Some m \<Longrightarrow> map_of (movements s') i = Some m"
  by (auto simp: advances_def intro: map_of_prefix)

lemma new_movement: "ledger_ok s \<Longrightarrow> map_of (movements (moved k b m e s)) (next_id s) = Some m"
  using ledger_ok_rows[of s] by (auto simp: rows_wf_def map_add_def dest!: map_of_SomeD split: option.splits)

lemma audit_ok [simp]: "ledger_ok (record_audit e s) = ledger_ok s"
  by (auto simp: ledger_ok_def in_range_def stock_inv_def stock_simps)

lemma audit_adv: "advances s (record_audit e s)"
  by (simp add: advances_def record_audit_def)

lemma office_audit_fields [simp]:
  "of_purchases (office_audit ctx a e i md db) = of_purchases db"
  "of_receipts (office_audit ctx a e i md db) = of_receipts db"
  "of_stocktakes (office_audit ctx a e i md db) = of_stocktakes db"
  "of_stocktake_records (office_audit ctx a e i md db) = of_stocktake_records db"
  "of_purchase_records (office_audit ctx a e i md db) = of_purchase_records db"
  "of_next (office_audit ctx a e i md db) = of_next db"
  "movements (of_stock (office_audit ctx a e i md db)) = movements (of_stock db)"
  "ledger_ok (of_stock (office_audit ctx a e i md db)) = ledger_ok (of_stock db)"
  "bal (of_stock (office_audit ctx a e i md db)) = bal (of_stock db)"
  by (simp_all add: office_audit_def stock_simps)

end
