(* ===== verification/Purchasing_Facts.thy ===== *)
theory Purchasing_Facts
  imports Office_Facts
begin

text \<open>
  The purchasing invariant: an item has received what the receipt lines of its order say, at most what was
  ordered; every receipt line is backed by a movement of the ledger. Every command keeps it.
\<close>

section \<open>What was received\<close>

definition line_total :: "uid \<Rightarrow> (uid \<times> receipt_line) list \<Rightarrow> int" where
  "line_total j ls = asum (\<lambda>_ ln. if rl_item ln = j then rl_quantity ln else 0) ls"

definition received_total :: "(uid \<times> receipt) list \<Rightarrow> uid \<Rightarrow> uid \<Rightarrow> int" where
  "received_total rs i j = asum (\<lambda>_ r. if rc_purchase r = i then line_total j (rc_lines r) else 0) rs"

definition received_statuses :: "purchase_status set" where
  "received_statuses = {PO_PARTIALLY_RECEIVED, PO_RECEIVED}"

definition order_ok :: "(uid \<times> receipt) list \<Rightarrow> uid \<Rightarrow> purchase \<Rightarrow> bool" where
  "order_ok rs i p \<longleftrightarrow> distinct (map fst (po_items p)) \<and> distinct (map (\<lambda>(_, it). pi_variant it) (po_items p))
     \<and> (\<forall>(j, it) \<in> set (po_items p). pi_received it = received_total rs i j \<and> 0 \<le> pi_received it
          \<and> pi_received it \<le> pi_ordered it)
     \<and> (po_status p = PO_RECEIVED \<longrightarrow> (\<forall>(j, it) \<in> set (po_items p). pi_received it = pi_ordered it))
     \<and> (po_status p = PO_PARTIALLY_RECEIVED \<longrightarrow> (\<exists>(j, it) \<in> set (po_items p). pi_received it < pi_ordered it))"

definition line_ok :: "inv_db \<Rightarrow> uid \<Rightarrow> uid \<times> receipt_line \<Rightarrow> bool" where
  "line_ok s w x \<longleftrightarrow> 0 < rl_quantity (snd x) \<and> (\<exists>m. map_of (movements s) (rl_movement (snd x)) = Some m
     \<and> mv_type m = RECEIPT \<and> mv_key m = StockKey w (rl_location (snd x)) (rl_variant (snd x))
     \<and> mv_quantity m = rl_quantity (snd x) \<and> mv_ref_id m = Some (JId (fst x)))"

definition receipt_ok :: "inv_db \<Rightarrow> (uid \<times> purchase) list \<Rightarrow> receipt \<Rightarrow> bool" where
  "receipt_ok s ps r \<longleftrightarrow> (\<exists>p. map_of ps (rc_purchase r) = Some p \<and> po_status p \<in> received_statuses)
     \<and> list_all (line_ok s (rc_warehouse r)) (rc_lines r)"

definition purchases_ok :: "office_db \<Rightarrow> bool" where
  "purchases_ok db \<longleftrightarrow> (\<forall>i p. map_of (of_purchases db) i = Some p \<longrightarrow> i < of_next db \<and> order_ok (of_receipts db) i p)
     \<and> (\<forall>(_, r) \<in> set (of_receipts db). receipt_ok (of_stock db) (of_purchases db) r)"

lemma purchases_okD:
  assumes "purchases_ok db" "map_of (of_purchases db) i = Some p"
  shows "order_ok (of_receipts db) i p" "i < of_next db"
  using assms by (auto simp: purchases_ok_def)

lemma received_none: "\<forall>(_, r) \<in> set rs. rc_purchase r \<noteq> i \<Longrightarrow> received_total rs i j = 0"
  by (induction rs) (auto simp: received_total_def)

lemma not_received:
  assumes ok: "purchases_ok db" and p: "\<And>p. map_of (of_purchases db) i = Some p \<Longrightarrow> po_status p \<notin> received_statuses"
  shows "received_total (of_receipts db) i j = 0" "\<forall>(_, r) \<in> set (of_receipts db). rc_purchase r \<noteq> i"
proof -
  show "\<forall>(_, r) \<in> set (of_receipts db). rc_purchase r \<noteq> i"
    using ok p by (fastforce simp: purchases_ok_def receipt_ok_def)
  then show "received_total (of_receipts db) i j = 0" by (rule received_none)
qed

lemma line_ok_adv: "advances s s' \<Longrightarrow> line_ok s w x \<Longrightarrow> line_ok s' w x"
  by (auto simp: line_ok_def intro: advances_movement)

lemma receipt_ok_cong: "movements s' = movements s \<Longrightarrow> receipt_ok s' ps r = receipt_ok s ps r"
  by (simp add: receipt_ok_def line_ok_def list_all_iff)

lemma receipt_ok_mono:
  assumes "receipt_ok s ps r" "advances s s'"
    and "\<And>p. map_of ps (rc_purchase r) = Some p \<Longrightarrow> po_status p \<in> received_statuses
      \<Longrightarrow> \<exists>p'. map_of ps' (rc_purchase r) = Some p' \<and> po_status p' \<in> received_statuses"
  shows "receipt_ok s' ps' r"
  using assms by (auto simp: receipt_ok_def list_all_iff dest: line_ok_adv)

text \<open>The stock moves on, the documents stay.\<close>

lemma purchases_ok_stock:
  assumes "purchases_ok db" "advances (of_stock db) (of_stock db')"
    and "of_purchases db' = of_purchases db" "of_receipts db' = of_receipts db" "of_next db \<le> of_next db'"
  shows "purchases_ok db'"
  using assms by (fastforce simp: purchases_ok_def intro: receipt_ok_mono)

text \<open>One document is written, no receipt is.\<close>

lemma purchases_ok_put:
  assumes ok: "purchases_ok db" and adv: "advances (of_stock db) (of_stock db')"
    and ps: "\<And>i'. map_of (of_purchases db') i' = (if i' = i then Some p' else map_of (of_purchases db) i')"
    and rs: "of_receipts db' = of_receipts db" and n: "of_next db \<le> of_next db'" "i < of_next db'"
    and fresh: "\<And>p. map_of (of_purchases db) i = Some p \<Longrightarrow> po_status p \<notin> received_statuses"
    and p': "order_ok (of_receipts db) i p'"
  shows "purchases_ok db'"
  unfolding purchases_ok_def
proof (intro conjI allI impI)
  show "i' < of_next db'" "order_ok (of_receipts db') i' q" if "map_of (of_purchases db') i' = Some q" for i' q
    using that n p' purchases_okD[OF ok, of i' q] by (auto simp: ps rs split: if_splits)
  show "\<forall>(_, r) \<in> set (of_receipts db'). receipt_ok (of_stock db') (of_purchases db') r"
    using ok not_received(2)[OF ok fresh]
    by (fastforce simp: rs ps purchases_ok_def intro: receipt_ok_mono[OF _ adv])
qed

section \<open>Drafts\<close>

lemma normalize_from_Inr:
  "normalize_from ids acc items = Inr ls \<Longrightarrow>
     distinct (map fst ls) \<and> set (map fst ls) \<inter> set ids = {} \<and> (\<forall>(_, q, _) \<in> set ls. 1 \<le> q)"
proof (induction items arbitrary: ids acc ls)
  case (Cons x items)
  obtain v q c where x: "x = (v, q, c)" by (cases x)
  then obtain rest acc' where rest: "ls = (v, the_int q, digits_value c) # rest" "v \<notin> set ids" "quantity_ok q"
    "normalize_from (v # ids) acc' items = Inr rest"
    using Cons.prems by (auto simp: Let_def res_iff)
  show ?case using Cons.IH[OF rest(4)] rest(1-3) by (auto simp: x quantity_ok_def)
qed simp

lemma normalize_lines_Inr:
  assumes "normalize_lines items = Inr ls"
  shows "distinct (map fst ls)" "\<forall>(_, q, _) \<in> set ls. 1 \<le> q"
proof -
  obtain ls0 where ls0: "normalize_from [] 0 items = Inr ls0" "ls = sort_key fst ls0"
    using assms by (auto simp: normalize_lines_def res_iff)
  note n = normalize_from_Inr[OF ls0(1)]
  have "mset (map fst ls) = mset (map fst ls0)" by (simp add: ls0(2))
  from mset_eq_imp_distinct_iff[OF this] n show "distinct (map fst ls)" by metis
  show "\<forall>(_, q, _) \<in> set ls. 1 \<le> q" using n by (simp add: ls0(2))
qed

lemma fst_number_lines: "map fst (number_lines n ls) = map ((+) n) [0..<length ls]"
  by (rule nth_equalityI) (auto simp: number_lines_def split: prod.splits)

lemma variants_number_lines: "map (\<lambda>(_, it). pi_variant it) (number_lines n ls) = map fst ls"
  by (rule nth_equalityI) (auto simp: number_lines_def split: prod.splits)

lemma number_lines_items:
  "(j, it) \<in> set (number_lines n ls) \<Longrightarrow> pi_received it = 0 \<and> (\<exists>v c. (v, pi_ordered it, c) \<in> set ls)"
  by (force simp: number_lines_def dest: set_zip_rightD)

lemma drafted_ok:
  assumes "normalize_lines items = Inr ls" "po_items p = number_lines n ls" "po_status p \<notin> received_statuses"
    and "\<And>j. received_total rs i j = 0"
  shows "order_ok rs i p"
proof -
  note n = normalize_lines_Inr[OF assms(1)]
  have "distinct (map ((+) n) [0..<length ls])" by (simp add: distinct_map)
  with n assms(2-) show ?thesis
    unfolding order_ok_def received_statuses_def
    by (simp add: fst_number_lines variants_number_lines) (fastforce dest: number_lines_items)
qed

lemma order_ok_same:
  "order_ok rs i p \<Longrightarrow> po_items p' = po_items p \<Longrightarrow> po_status p' \<notin> received_statuses \<Longrightarrow> order_ok rs i p'"
  by (auto simp: order_ok_def received_statuses_def)

lemma advances_audit_stock [simp]: "advances (of_stock db) (of_stock (office_audit ctx a e i md db))"
  by (simp add: office_audit_def audit_adv)

text \<open>What a command of the office leaves: the ledger reconciled and advanced, the orders in order.\<close>

definition purchasing_ok :: "office_db \<Rightarrow> bool" where
  "purchasing_ok db \<longleftrightarrow> ledger_ok (of_stock db) \<and> purchases_ok db"

lemma create_purchase_work_ok:
  assumes ok: "purchasing_ok db" and ls: "normalize_lines items = Inr ls"
    and run: "create_purchase_work number inp ls ctx db = Inr (a, db')"
  shows "purchasing_ok db'"
proof -
  define p where "p = drafted_purchase number inp (number_lines (of_next db + 1) ls)"
  have p: "po_items p = number_lines (of_next db + 1) ls" "po_status p = PO_DRAFT"
    by (simp_all add: p_def drafted_purchase_def)
  obtain md where db': "db' = office_audit ctx ''purchase-order.created'' ''PurchaseOrder'' (of_next db) md
      (db\<lparr>of_purchases := of_purchases db @ [(of_next db, p)], of_next := of_next db + 1 + length ls\<rparr>)"
    using run by (auto simp: create_purchase_work_def res_iff Let_def p_def)
  have none: "map_of (of_purchases db) (of_next db) = None"
    using ok purchases_okD(2)[of db "of_next db"]
    by (cases "map_of (of_purchases db) (of_next db)") (auto simp: purchasing_ok_def)
  have "order_ok (of_receipts db) (of_next db) p"
    by (rule drafted_ok[OF ls p(1)], simp add: p(2) received_statuses_def)
      (rule not_received(1), use ok none in \<open>simp_all add: purchasing_ok_def\<close>)
  then have "purchases_ok db'"
    using ok none by - (rule purchases_ok_put[where i = "of_next db" and p' = p and db = db],
      auto simp: db' purchasing_ok_def office_audit_def audit_adv table_simps map_add_def split: option.splits)
  then show ?thesis using ok by (simp add: purchasing_ok_def db')
qed

lemma put_purchase_fields [simp]:
  "of_stock (put_purchase i p db) = of_stock db" "of_receipts (put_purchase i p db) = of_receipts db"
  "of_next (put_purchase i p db) = of_next db" "of_stocktakes (put_purchase i p db) = of_stocktakes db"
  "of_stocktake_records (put_purchase i p db) = of_stocktake_records db"
  "of_purchase_records (put_purchase i p db) = of_purchase_records db"
  "map_of (of_purchases (put_purchase i p db)) k = (if k = i then Some p else map_of (of_purchases db) k)"
  by (simp_all add: put_purchase_def update_conv)

lemma put_unreceived:
  assumes ok: "purchasing_ok db" and p: "map_of (of_purchases db) i = Some p" "po_status p \<notin> received_statuses"
    and p': "order_ok (of_receipts db) i p'" and n: "of_next db \<le> n"
  shows "purchasing_ok (office_audit ctx a e i md ((put_purchase i p' db)\<lparr>of_next := n\<rparr>))"
proof -
  have "i < of_next db" using ok p(1) purchases_okD(2) by (simp add: purchasing_ok_def)
  moreover have "advances (of_stock db) (of_stock (office_audit ctx a e i md ((put_purchase i p' db)\<lparr>of_next := n\<rparr>)))"
    by (simp add: office_audit_def audit_adv)
  ultimately have "purchases_ok (office_audit ctx a e i md ((put_purchase i p' db)\<lparr>of_next := n\<rparr>))"
    using ok p n by - (rule purchases_ok_put[where i = i and p' = p' and db = db],
      simp_all add: purchasing_ok_def p')
  then show ?thesis using ok by (simp add: purchasing_ok_def)
qed

lemma update_work_ok:
  assumes ok: "purchasing_ok db" and ls: "\<And>l. ls = Some l \<Longrightarrow> \<exists>items. normalize_lines items = Inr l"
    and run: "update_purchase_work i inp ls ctx db = Inr (a, db')"
  shows "purchasing_ok db'"
proof -
  obtain p where p: "map_of (of_purchases db) i = Some p" "po_status p = PO_DRAFT"
    using run by (auto simp: update_purchase_work_def res_iff)
  define p' where "p' = updated_purchase inp (map_option (number_lines (of_next db)) ls) p"
  have p': "po_status p' = PO_DRAFT" "po_items p' = (case ls of None \<Rightarrow> po_items p | Some l \<Rightarrow> number_lines (of_next db) l)"
    using p(2) by (simp_all add: p'_def updated_purchase_def set_given_def split: option.splits)
  define n where "n = of_next db + (case ls of None \<Rightarrow> 0 | Some l \<Rightarrow> length l)"
  then have n: "of_next db \<le> n" by simp
  obtain md where db': "db' = office_audit ctx ''purchase-order.updated'' ''PurchaseOrder'' i md ((put_purchase i p' db)\<lparr>of_next := n\<rparr>)"
    using run p by (auto simp: update_purchase_work_def res_iff Let_def p'_def n_def)
  have none: "po_status p \<notin> received_statuses" "po_status p' \<notin> received_statuses"
    using p p' by (simp_all add: received_statuses_def)
  have zero: "received_total (of_receipts db) i j = 0" for j
    by (rule not_received(1)) (use ok p none in \<open>auto simp: purchasing_ok_def\<close>)
  have "order_ok (of_receipts db) i p'"
  proof (cases ls)
    case None
    with p'(2) order_ok_same[OF purchases_okD(1) _ none(2)] p(1) ok show ?thesis
      by (simp add: purchasing_ok_def)
  next
    case (Some l)
    with ls obtain items where "normalize_lines items = Inr l" by blast
    from drafted_ok[OF this _ none(2) zero] p'(2) Some show ?thesis by simp
  qed
  then show ?thesis unfolding db' by (rule put_unreceived[OF ok p(1) none(1) _ n])
qed

lemma transition_work_ok:
  assumes ok: "purchasing_ok db" and target: "target \<notin> received_statuses" and allowed: "set allowed \<inter> received_statuses = {}"
    and run: "transition_purchase_work i target allowed expected ctx db = Inr (a, db')"
  shows "purchasing_ok db'"
proof -
  obtain p act md where p: "map_of (of_purchases db) i = Some p" "po_status p \<in> set allowed"
    and db': "db' = office_audit ctx act ''PurchaseOrder'' i md
      ((put_purchase i (p\<lparr>po_status := target, po_version := po_version p + 1\<rparr>) db)\<lparr>of_next := of_next db\<rparr>)"
    using run by (auto simp: transition_purchase_work_def res_iff Let_def put_purchase_def)
  have none: "po_status p \<notin> received_statuses" using p(2) allowed by auto
  have "order_ok (of_receipts db) i p" using ok p(1) by (simp add: purchasing_ok_def purchases_okD)
  then show ?thesis
    unfolding db' by (intro put_unreceived[OF ok p(1) none]) (auto intro: order_ok_same simp: target)
qed

section \<open>The receipt as it arrives\<close>

definition scanned_total :: "uid \<Rightarrow> receipt_row list \<Rightarrow> int" where
  "scanned_total v rows = (\<Sum>(v', _, q)\<leftarrow>rows. if v' = v then q else 0)"

lemma scanned_total_simps [simp]:
  "scanned_total v [] = 0" "scanned_total v ((v', l, q) # rows) = (if v' = v then q else 0) + scanned_total v rows"
  by (simp_all add: scanned_total_def)

lemma scanned_total_sorted: "scanned_total v (sort_key f rows) = scanned_total v rows"
  by (simp add: scanned_total_def split_def)

lemma receipt_scan_Inr:
  "receipt_scan seen qs ls = Inr (rows, qs') \<Longrightarrow>
     (\<forall>(_, _, q) \<in> set rows. 0 < q) \<and> (\<forall>v. find_or 0 qs' v = find_or 0 qs v + scanned_total v rows)
     \<and> set (map fst qs') = set (map fst qs) \<union> set (map fst rows)"
proof (induction ls arbitrary: seen qs rows)
  case (Cons x ls)
  obtain v l q where x: "x = (v, l, q)" by (cases x)
  then obtain rest n where rest: "rows = (v, l, the_int q) # rest" "quantity_ok q"
    "n = find_or 0 qs v + the_int q" "receipt_scan ((l, v) # seen) (AList.update v n qs) ls = Inr (rest, qs')"
    using Cons.prems by (auto simp: Let_def res_iff)
  show ?case using Cons.IH[OF rest(4)] rest(1-3) by (auto simp: quantity_ok_def table_simps fst_set_update)
qed auto

lemma scanned_zero: "v \<notin> set (map fst rows) \<Longrightarrow> scanned_total v rows = 0"
  by (induction rows) (auto simp: scanned_total_def)

section \<open>Receiving\<close>

lemma received_balance_fields [simp]:
  "onHand (received_balance q b) = onHand b + q" "reserved (received_balance q b) = reserved b"
  "available (received_balance q b) = onHand b + q - reserved b"
  by (simp_all add: received_balance_def)

lemma receipt_movement_fields [simp]:
  "mv_key (receipt_movement k q b i) = k" "mv_quantity (receipt_movement k q b i) = q"
  "mv_type (receipt_movement k q b i) = RECEIPT" "mv_ref_id (receipt_movement k q b i) = Some (JId i)"
  "mv_before (receipt_movement k q b i) = onHand b" "mv_after (receipt_movement k q b i) = onHand b + q"
  "mv_idem (receipt_movement k q b i) = None"
  by (simp_all add: receipt_movement_def)

lemma receive_line_Inr:
  assumes run: "receive_line r p ctx (v, l, q) db = Inr (x, db')"
  obtains e j it where "item_of_variant p v = Some (j, it)" "int4 (onHand (bal (of_stock db) (StockKey (po_warehouse p) l v)) + q)"
    "x = (of_next db, \<lparr>rl_item = j, rl_variant = v, rl_location = l, rl_quantity = q, rl_movement = next_id (of_stock db)\<rparr>)"
    "db' = db\<lparr>of_stock := moved (StockKey (po_warehouse p) l v)
        (received_balance q (bal (of_stock db) (StockKey (po_warehouse p) l v)))
        (receipt_movement (StockKey (po_warehouse p) l v) q (bal (of_stock db) (StockKey (po_warehouse p) l v)) (of_next db))
        e (of_stock db), of_next := Suc (of_next db)\<rparr>"
proof -
  define e where "e = \<lparr>ae_action = ''inventory.balance.changed'', ae_entity = ''inventory-movement'', ae_entity_id = next_id (of_stock db),
     ae_before = [], ae_after = [], ae_metadata = [(''type'', JStr ''RECEIPT''), (''receiptId'', JId r),
       (''warehouseId'', JId (po_warehouse p)), (''locationId'', JId l), (''variantId'', JId v), (''quantity'', JNum q),
       (''beforeOnHand'', JNum (onHand (bal (of_stock db) (StockKey (po_warehouse p) l v)))),
       (''afterOnHand'', JNum (onHand (bal (of_stock db) (StockKey (po_warehouse p) l v)) + q))],
     ae_actor = Some (oc_actor ctx), ae_request = oc_request ctx\<rparr>"
  show ?thesis
    using run by (auto simp: receive_line_def Let_def res_iff office_audit_def intro!: that[of _ _ e])
      (simp add: moved_def e_def)
qed

text \<open>The shelf gains what arrived.\<close>

lemma receive_line_ok:
  assumes ok: "ledger_ok (of_stock db)" and q: "0 < q" and run: "receive_line r p ctx (v, l, q) db = Inr (x, db')"
  shows "ledger_ok (of_stock db')" "advances (of_stock db) (of_stock db')"
    "line_ok (of_stock db') (po_warehouse p) x"
    "shelf (of_stock db') = put_goods (StockKey (po_warehouse p) l v) q (shelf (of_stock db))"
proof -
  let ?k = "StockKey (po_warehouse p) l v"
  obtain e j it where int: "int4 (onHand (bal (of_stock db) ?k) + q)"
    and x: "x = (of_next db, \<lparr>rl_item = j, rl_variant = v, rl_location = l, rl_quantity = q, rl_movement = next_id (of_stock db)\<rparr>)"
    and db': "of_stock db' = moved ?k (received_balance q (bal (of_stock db) ?k))
        (receipt_movement ?k q (bal (of_stock db) ?k) (of_next db)) e (of_stock db)"
    by (rule receive_line_Inr[OF run]) auto
  have "consistent (received_balance q (bal (of_stock db) ?k))"
    using stock_invD(1)[OF ledger_ok_inv[OF ok], of ?k] q by (simp add: consistent_def)
  then show "ledger_ok (of_stock db')" unfolding db' by (intro moved_ok[OF ok]) (simp_all add: int)
  show "advances (of_stock db) (of_stock db')" unfolding db' by (rule moved_adv)
  show "line_ok (of_stock db') (po_warehouse p) x"
    unfolding line_ok_def db' x using q new_movement[OF ok] by (auto simp del: movements_moved)
  show "shelf (of_stock db') = put_goods ?k q (shelf (of_stock db))"
    by (simp add: db' shelf_def put_goods_def bal_moved fun_eq_iff)
qed

definition line_of_row :: "purchase \<Rightarrow> receipt_row \<Rightarrow> uid \<times> receipt_line \<Rightarrow> bool" where
  "line_of_row p row x \<longleftrightarrow> row = (rl_variant (snd x), rl_location (snd x), rl_quantity (snd x))
     \<and> map_option fst (item_of_variant p (fst row)) = Some (rl_item (snd x))"

lemma receive_lines_ok:
  "receive_lines r p ctx rows db = Inr (ls, db') \<Longrightarrow> ledger_ok (of_stock db) \<Longrightarrow> \<forall>(_, _, q) \<in> set rows. 0 < q \<Longrightarrow>
     ledger_ok (of_stock db') \<and> advances (of_stock db) (of_stock db') \<and> list_all (line_ok (of_stock db') (po_warehouse p)) ls
     \<and> list_all2 (line_of_row p) rows ls \<and> (\<exists>s. db' = db\<lparr>of_stock := s, of_next := of_next db + length rows\<rparr>)
     \<and> shelf (of_stock db') = fold (\<lambda>(v, l, q). put_goods (StockKey (po_warehouse p) l v) q) rows (shelf (of_stock db))"
proof (induction rows arbitrary: db ls)
  case Nil
  then show ?case by (auto simp: advances_refl intro: exI[of _ "of_stock db"])
next
  case (Cons row rows)
  obtain v l q where row: "row = (v, l, q)" by (cases row)
  obtain x db1 rest where x: "receive_line r p ctx (v, l, q) db = Inr (x, db1)" "ls = x # rest"
    and rest: "receive_lines r p ctx rows db1 = Inr (rest, db')"
    using Cons.prems(1) by (auto simp: row res_iff)
  have q: "0 < q" using Cons.prems(3) by (simp add: row)
  note one = receive_line_ok[OF Cons.prems(2) q x(1)]
  have IH: "ledger_ok (of_stock db') \<and> advances (of_stock db1) (of_stock db') \<and> list_all (line_ok (of_stock db') (po_warehouse p)) rest
     \<and> list_all2 (line_of_row p) rows rest \<and> (\<exists>s. db' = db1\<lparr>of_stock := s, of_next := of_next db1 + length rows\<rparr>)
     \<and> shelf (of_stock db') = fold (\<lambda>(v, l, q). put_goods (StockKey (po_warehouse p) l v) q) rows (shelf (of_stock db1))"
    using Cons.IH[OF rest one(1)] Cons.prems(3) by simp
  obtain s1 where db1: "db1 = db\<lparr>of_stock := s1, of_next := Suc (of_next db)\<rparr>" and ln: "line_of_row p row x"
    by (rule receive_line_Inr[OF x(1)]) (auto simp: line_of_row_def row intro: that)
  have "line_ok (of_stock db') (po_warehouse p) x" using IH one(3) by (blast intro: line_ok_adv)
  moreover have "advances (of_stock db) (of_stock db')" using IH one(2) advances_trans by blast
  moreover have "\<exists>s. db' = db\<lparr>of_stock := s, of_next := of_next db + length (row # rows)\<rparr>"
    using IH db1 by auto
  ultimately show ?case using IH ln one(4) by (simp add: x(2) row)
qed

lemma item_of_variantD: "item_of_variant p v = Some (j, it) \<Longrightarrow> (j, it) \<in> set (po_items p) \<and> pi_variant it = v"
  unfolding item_of_variant_def find_Some_iff by (auto simp: in_set_conv_nth)

lemma same_item:
  assumes "distinct (map fst (po_items p))" "distinct (map (\<lambda>(_, it). pi_variant it) (po_items p))"
    and "(j, it) \<in> set (po_items p)" "(j', it') \<in> set (po_items p)"
  shows "j' = j \<longleftrightarrow> pi_variant it' = pi_variant it"
proof -
  have inj: "inj_on (\<lambda>(_, it). pi_variant it) (set (po_items p))" using assms(2) by (simp add: distinct_map)
  have "it' = it" if "j' = j" using eq_key_imp_eq_value[OF assms(1,4)] assms(3) that by simp
  moreover have "j' = j" if "pi_variant it' = pi_variant it" using inj_onD[OF inj _ assms(4,3)] that by simp
  ultimately show ?thesis by blast
qed

lemma line_total_rows:
  assumes p: "order_ok rs i p" and j: "(j, it) \<in> set (po_items p)"
  shows "list_all2 (line_of_row p) rows ls \<Longrightarrow> line_total j ls = scanned_total (pi_variant it) rows"
proof (induction rule: list_all2_induct)
  case (Cons row rows x xs)
  obtain j' it' where "item_of_variant p (fst row) = Some (j', it')" "rl_item (snd x) = j'"
    using Cons(1) by (auto simp: line_of_row_def)
  with same_item[OF _ _ j, of j' it'] p have "rl_item (snd x) = j \<longleftrightarrow> fst row = pi_variant it"
    by (auto simp: order_ok_def dest: item_of_variantD)
  with Cons show ?case by (auto simp: line_total_def line_of_row_def)
qed (simp add: line_total_def)

lemma received_item_fits:
  assumes p: "order_ok rs i p" and j: "(j, it) \<in> set (po_items p)" and fits: "list_all (fits_order p) qs"
  shows "pi_received (received_item qs it) \<le> pi_ordered it"
proof (cases "map_of qs (pi_variant it)")
  case None
  then show ?thesis using p j by (auto simp: received_item_def find_or_None order_ok_def)
next
  case (Some n)
  then have fit: "fits_order p (pi_variant it, n)" using fits by (auto simp: list_all_iff dest!: map_of_SomeD)
  then obtain j' it' where it': "item_of_variant p (pi_variant it) = Some (j', it')" "n \<le> pi_ordered it' - pi_received it'"
    by (auto simp: fits_order_def split: option.splits)
  have "distinct (map fst (po_items p))" "j' = j"
    using p same_item[OF _ _ j, of j' it'] item_of_variantD[OF it'(1)] by (auto simp: order_ok_def)
  then have "it' = it" using item_of_variantD[OF it'(1)] j eq_key_imp_eq_value by metis
  with it' Some show ?thesis by (simp add: received_item_def find_or_Some)
qed

lemma received_order_fields [simp]:
  "po_items (received_order qs p) = map (\<lambda>(i, it). (i, received_item qs it)) (po_items p)"
  "po_warehouse (received_order qs p) = po_warehouse p"
  "po_status (received_order qs p) \<in> received_statuses"
  by (simp_all add: received_order_def Let_def received_statuses_def)

lemma received_item_fields [simp]:
  "pi_variant (received_item qs it) = pi_variant it" "pi_ordered (received_item qs it) = pi_ordered it"
  by (simp_all add: received_item_def)

lemma received_total_snoc:
  "received_total (rs @ [(r, rc)]) i j = received_total rs i j + (if rc_purchase rc = i then line_total j (rc_lines rc) else 0)"
  by (simp add: received_total_def table_simps)

lemma order_ok_other: "rc_purchase rc \<noteq> i \<Longrightarrow> order_ok (rs @ [(r, rc)]) i p = order_ok rs i p"
  by (simp add: order_ok_def received_total_snoc)

lemma received_order_ok:
  assumes p: "order_ok rs i p" and fits: "list_all (fits_order p) qs" and rc: "rc_purchase rc = i"
    and ls: "list_all2 (line_of_row p) rows (rc_lines rc)"
    and qs: "\<And>v. find_or 0 qs v = scanned_total v rows" "\<And>v. 0 \<le> find_or 0 qs v"
  shows "order_ok (rs @ [(r, rc)]) i (received_order qs p)"
  unfolding order_ok_def
proof (intro conjI)
  have one: "pi_received (received_item qs it) = received_total (rs @ [(r, rc)]) i j" "0 \<le> pi_received (received_item qs it)"
    "pi_received (received_item qs it) \<le> pi_ordered it" if j: "(j, it) \<in> set (po_items p)" for j it
    using p j received_item_fits[OF p j fits] line_total_rows[OF p j ls] qs(2)[of "pi_variant it"]
    by (auto simp: received_total_snoc rc qs(1) received_item_def order_ok_def)
  then show "\<forall>(j, it) \<in> set (po_items (received_order qs p)). pi_received it = received_total (rs @ [(r, rc)]) i j
      \<and> 0 \<le> pi_received it \<and> pi_received it \<le> pi_ordered it"
    by auto
  show "po_status (received_order qs p) = PO_PARTIALLY_RECEIVED
      \<longrightarrow> (\<exists>(j, it) \<in> set (po_items (received_order qs p)). pi_received it < pi_ordered it)"
  proof
    assume "po_status (received_order qs p) = PO_PARTIALLY_RECEIVED"
    then obtain j it where "(j, it) \<in> set (po_items p)" "pi_received (received_item qs it) \<noteq> pi_ordered it"
      by (auto simp: received_order_def Let_def list_all_iff split: if_splits)
    with one(3)[of j it] show "\<exists>(j, it) \<in> set (po_items (received_order qs p)). pi_received it < pi_ordered it"
      by force
  qed
qed (use p in \<open>auto simp: order_ok_def received_order_def Let_def list_all_iff split_def comp_def\<close>)

text \<open>What a receipt leaves.\<close>

lemma receive_work_Inr:
  assumes run: "receive_work number i expected reference rows qs ctx db = Inr (a, db')"
  obtains p ls db1 md where "map_of (of_purchases db) i = Some p" "list_all (fits_order p) qs"
    "po_status p \<in> {PO_APPROVED, PO_PARTIALLY_RECEIVED}"
    "receive_lines (of_next db) p ctx rows (db\<lparr>of_next := Suc (of_next db)\<rparr>) = Inr (ls, db1)"
    "db' = office_audit ctx ''purchase-order.received'' ''PurchaseOrder'' i md (put_purchase i (received_order qs p)
       (db1\<lparr>of_receipts := of_receipts db1 @ [(of_next db, \<lparr>rc_number = number, rc_purchase = i, rc_warehouse = po_warehouse p,
          rc_reference = reference, rc_actor = oc_actor ctx, rc_lines = ls\<rparr>)]\<rparr>))"
  using run by (auto simp: receive_work_def Let_def res_iff)

lemma receive_work_ok:
  assumes ok: "purchasing_ok db" and pos: "\<forall>(_, _, q) \<in> set rows. 0 < q"
    and qs: "\<And>v. find_or 0 qs v = scanned_total v rows"
    and run: "receive_work number i expected reference rows qs ctx db = Inr (a, db')"
  shows "purchasing_ok db'"
proof -
  obtain p ls db1 md where p: "map_of (of_purchases db) i = Some p" "list_all (fits_order p) qs"
    and rl: "receive_lines (of_next db) p ctx rows (db\<lparr>of_next := Suc (of_next db)\<rparr>) = Inr (ls, db1)"
    and db': "db' = office_audit ctx ''purchase-order.received'' ''PurchaseOrder'' i md (put_purchase i (received_order qs p)
       (db1\<lparr>of_receipts := of_receipts db1 @ [(of_next db, \<lparr>rc_number = number, rc_purchase = i, rc_warehouse = po_warehouse p,
          rc_reference = reference, rc_actor = oc_actor ctx, rc_lines = ls\<rparr>)]\<rparr>))"
    by (rule receive_work_Inr[OF run])
  let ?rc = "\<lparr>rc_number = number, rc_purchase = i, rc_warehouse = po_warehouse p, rc_reference = reference,
    rc_actor = oc_actor ctx, rc_lines = ls\<rparr>" and ?p = "received_order qs p"
  have lines: "ledger_ok (of_stock db1)" "advances (of_stock db) (of_stock db1)"
    "list_all (line_ok (of_stock db1) (po_warehouse p)) ls" "list_all2 (line_of_row p) rows ls"
    "\<exists>s. db1 = db\<lparr>of_stock := s, of_next := Suc (of_next db) + length rows\<rparr>"
    using receive_lines_ok[OF rl] ok pos by (auto simp: purchasing_ok_def)
  have nonneg: "0 \<le> find_or 0 qs v" for v
    using pos unfolding qs scanned_total_def by (intro sum_list_nonneg) auto
  have old: "purchases_ok db" using ok by (simp add: purchasing_ok_def)
  have p': "order_ok (of_receipts db @ [(of_next db, ?rc)]) i ?p"
    by (rule received_order_ok[where rows = rows, OF purchases_okD(1)[OF old p(1)] p(2)]) (simp_all add: lines nonneg qs[symmetric])
  have "purchases_ok db'"
    unfolding purchases_ok_def
  proof (intro conjI allI impI)
    show "k < of_next db'" "order_ok (of_receipts db') k q" if "map_of (of_purchases db') k = Some q" for k q
      using that p' lines(5) purchases_okD[OF old, of k q] purchases_okD(2)[OF old p(1)]
      by (auto simp: db' order_ok_other split: if_splits)
    have "receipt_ok (of_stock db1) (of_purchases db') r" if "r \<in> snd ` set (of_receipts db)" for r
    proof (rule receipt_ok_mono[OF _ lines(2)])
      show "receipt_ok (of_stock db) (of_purchases db) r" using old that by (auto simp: purchases_ok_def)
      show "\<exists>p'. map_of (of_purchases db') (rc_purchase r) = Some p' \<and> po_status p' \<in> received_statuses"
        if "map_of (of_purchases db) (rc_purchase r) = Some q" "po_status q \<in> received_statuses" for q
        using that lines(5) by (auto simp: db')
    qed
    moreover have "receipt_ok (of_stock db1) (of_purchases db') ?rc"
      using lines(3) by (simp add: receipt_ok_def db')
    moreover have "receipt_ok (of_stock db') ps r = receipt_ok (of_stock db1) ps r" for ps r
      by (rule receipt_ok_cong) (simp add: db')
    moreover have "of_receipts db' = of_receipts db @ [(of_next db, ?rc)]" using lines(5) by (auto simp: db')
    ultimately show "\<forall>(_, r) \<in> set (of_receipts db'). receipt_ok (of_stock db') (of_purchases db') r"
      by fastforce
  qed
  then show ?thesis using lines(1) by (simp add: purchasing_ok_def db')
qed

section \<open>The public commands\<close>

lemma records_purchasing_ok [simp]:
  "purchasing_ok (db\<lparr>of_purchase_records := rs\<rparr>) = purchasing_ok db"
  "purchasing_ok (db\<lparr>of_stocktake_records := ss\<rparr>) = purchasing_ok db"
  "purchasing_ok (db\<lparr>of_stocktakes := ts\<rparr>) = purchasing_ok db"
  by (simp_all add: purchasing_ok_def purchases_ok_def)

lemma create_purchase_ok:
  "purchasing_ok db \<Longrightarrow> create_purchase sha number inp ctx db = Inr (a, db') \<Longrightarrow> purchasing_ok db'"
  by (auto simp: create_purchase_def res_iff purchase_command_def
      elim!: purchase_keys.keyed_kept[where P = purchasing_ok] intro: create_purchase_work_ok)

lemma update_purchase_ok:
  assumes ok: "purchasing_ok db" and run: "update_purchase sha i inp ctx db = Inr (a, db')"
  shows "purchasing_ok db'"
proof -
  obtain ls where ls: "(case pc_items inp of None \<Rightarrow> Inr None | Some items \<Rightarrow> andthen (normalize_lines items) (\<lambda>l. Inr (Some l))) = Inr ls"
    and cmd: "purchase_command sha (''update:'' @ show_nat i) (Obj (change_json inp ls)) ctx (update_purchase_work i inp ls ctx) db = Inr (a, db')"
    using run by (auto simp: update_purchase_def res_iff)
  have norm: "\<exists>items. normalize_lines items = Inr l" if "ls = Some l" for l
    using ls that by (auto simp: res_iff split: option.splits)
  show ?thesis
    using cmd unfolding purchase_command_def
    by (elim purchase_keys.keyed_kept[where P = purchasing_ok]) (auto simp: ok intro: update_work_ok[OF ok norm])
qed

lemma transition_purchase_ok:
  assumes ok: "purchasing_ok db" and t: "target \<notin> received_statuses" "set allowed \<inter> received_statuses = {}"
    and run: "transition_purchase sha scope i target allowed expected ctx db = Inr (a, db')"
  shows "purchasing_ok db'"
  using run by (auto simp: transition_purchase_def res_iff purchase_command_def ok
      elim!: purchase_keys.keyed_kept[where P = purchasing_ok] intro: transition_work_ok[OF ok t])

lemma approve_purchase_ok:
  "purchasing_ok db \<Longrightarrow> approve_purchase sha i expected ctx db = Inr (a, db') \<Longrightarrow> purchasing_ok db'"
  unfolding approve_purchase_def by (erule transition_purchase_ok[rotated 3]) (auto simp: received_statuses_def)

lemma cancel_purchase_ok:
  "purchasing_ok db \<Longrightarrow> cancel_purchase sha i expected ctx db = Inr (a, db') \<Longrightarrow> purchasing_ok db'"
  unfolding cancel_purchase_def by (erule transition_purchase_ok[rotated 3]) (auto simp: received_statuses_def)

lemma receive_purchase_Inr:
  assumes "receive_purchase sha number i inp ctx db = Inr (a, db')"
  obtains reference scanned qs payload where "receipt_scan [] [] (ri_lines inp) = Inr (scanned, qs)"
    "purchase_command sha (''receive:'' @ show_nat i) payload ctx
       (receive_work number i (ri_version inp) reference (sort_key (\<lambda>(v, l, q). (l, v)) scanned) qs ctx) db = Inr (a, db')"
  using assms by (auto simp: receive_purchase_def res_iff Let_def)

lemma receive_purchase_ok:
  assumes ok: "purchasing_ok db" and run: "receive_purchase sha number i inp ctx db = Inr (a, db')"
  shows "purchasing_ok db'"
proof -
  obtain reference scanned qs payload where scan: "receipt_scan [] [] (ri_lines inp) = Inr (scanned, qs)"
    and cmd: "purchase_command sha (''receive:'' @ show_nat i) payload ctx
       (receive_work number i (ri_version inp) reference (sort_key (\<lambda>(v, l, q). (l, v)) scanned) qs ctx) db = Inr (a, db')"
    by (rule receive_purchase_Inr[OF run])
  have work: "purchasing_ok db1"
    if "receive_work number i (ri_version inp) reference (sort_key (\<lambda>(v, l, q). (l, v)) scanned) qs ctx db = Inr (a, db1)" for a db1
    using receive_work_ok[OF ok _ _ that] receipt_scan_Inr[OF scan] by (simp add: scanned_total_sorted find_or_def)
  show ?thesis
    using cmd unfolding purchase_command_def
    by (elim purchase_keys.keyed_kept[where P = purchasing_ok]) (auto simp: ok intro: work)
qed

end
