(* ===== verification/Stocktake_Facts.thy ===== *)
theory Stocktake_Facts
  imports Purchasing_Facts
begin

text \<open>
  Stocktakes: a sheet names every place at most once, an approval sets the places it counted and moves no
  other, and every command keeps the ledger reconciled and the purchase orders in order.
\<close>

section \<open>The sheet\<close>

definition place :: "count_line \<Rightarrow> uid \<times> uid" where
  "place it = (cl_location it, cl_variant it)"

definition places :: "stocktake \<Rightarrow> (uid \<times> uid) list" where
  "places t = map (\<lambda>(_, it). place it) (tk_items t)"

text \<open>A counted line carries the difference of the count to the snapshot.\<close>

definition line_consistent :: "count_line \<Rightarrow> bool" where
  "line_consistent it \<longleftrightarrow> cl_difference it = map_option (\<lambda>n. n - cl_expected it) (cl_counted it)"

definition sheet_ok :: "stocktake \<Rightarrow> bool" where
  "sheet_ok t \<longleftrightarrow> distinct (places t) \<and> (\<forall>(_, it) \<in> set (tk_items t). line_consistent it)
     \<and> (tk_status t \<in> {TK_REVIEW, TK_COMPLETED} \<longrightarrow> (\<forall>(_, it) \<in> set (tk_items t). cl_counted it \<noteq> None))"

definition sheets_ok :: "office_db \<Rightarrow> bool" where
  "sheets_ok db \<longleftrightarrow> (\<forall>i t. map_of (of_stocktakes db) i = Some t \<longrightarrow> sheet_ok t)"

lemma sheets_okD: "sheets_ok db \<Longrightarrow> map_of (of_stocktakes db) i = Some t \<Longrightarrow> sheet_ok t"
  by (simp add: sheets_ok_def)

definition office_ok :: "office_db \<Rightarrow> bool" where
  "office_ok db \<longleftrightarrow> purchasing_ok db \<and> sheets_ok db"

lemma sheet_ok_head:
  "sheet_ok t \<Longrightarrow> tk_items t' = tk_items t \<Longrightarrow> tk_status t' \<notin> {TK_REVIEW, TK_COMPLETED} \<Longrightarrow> sheet_ok t'"
  by (auto simp: sheet_ok_def places_def)

lemma put_stocktake_fields [simp]:
  "of_stock (put_stocktake i t db) = of_stock db" "of_receipts (put_stocktake i t db) = of_receipts db"
  "of_next (put_stocktake i t db) = of_next db" "of_purchases (put_stocktake i t db) = of_purchases db"
  "of_stocktake_records (put_stocktake i t db) = of_stocktake_records db"
  "of_purchase_records (put_stocktake i t db) = of_purchase_records db"
  "map_of (of_stocktakes (put_stocktake i t db)) k = (if k = i then Some t else map_of (of_stocktakes db) k)"
  by (simp_all add: put_stocktake_def update_conv)

text \<open>A stocktake is written, the orders stay, the stock moves on.\<close>

lemma office_ok_sheet:
  assumes ok: "office_ok db" and stock: "ledger_ok (of_stock db')" "advances (of_stock db) (of_stock db')"
    and same: "of_purchases db' = of_purchases db" "of_receipts db' = of_receipts db" "of_next db \<le> of_next db'"
    and ts: "\<And>i' t'. map_of (of_stocktakes db') i' = Some t' \<Longrightarrow> map_of (of_stocktakes db) i' = Some t' \<or> sheet_ok t'"
  shows "office_ok db'"
proof -
  have "purchases_ok db'" using ok same stock(2) by - (rule purchases_ok_stock[of db], auto simp: office_ok_def purchasing_ok_def)
  moreover have "sheets_ok db'" using ok ts by (auto simp: office_ok_def sheets_ok_def)
  ultimately show ?thesis using stock(1) by (simp add: office_ok_def purchasing_ok_def)
qed

lemma put_sheet_ok:
  assumes ok: "office_ok db" and t: "sheet_ok t" and n: "of_next db \<le> n"
  shows "office_ok (office_audit ctx a e i md (put_stocktake i t (db\<lparr>of_next := n\<rparr>)))"
  by (rule office_ok_sheet[OF ok])
    (use ok t n in \<open>auto simp: office_ok_def purchasing_ok_def office_audit_def audit_adv split: if_splits\<close>)

section \<open>Opening and starting\<close>

lemma create_stocktake_work_ok:
  assumes ok: "office_ok db" and run: "create_stocktake_work number inp scope ls vs ctx db = Inr (i, db')"
  shows "office_ok db'"
proof -
  define t where "t = opened_stocktake number inp scope ls vs (oc_actor ctx)"
  obtain md where t: "db' = office_audit ctx ''stocktake.created'' ''Stocktake'' (of_next db) md
      (db\<lparr>of_stocktakes := of_stocktakes db @ [(of_next db, t)], of_next := Suc (of_next db)\<rparr>)"
    using run by (auto simp: create_stocktake_work_def Let_def res_iff t_def)
  have "sheet_ok t" by (simp add: t_def opened_stocktake_def sheet_ok_def places_def)
  with ok show ?thesis
    by - (rule office_ok_sheet[OF ok], auto simp: t office_ok_def purchasing_ok_def office_audit_def audit_adv
        table_simps split: option.splits if_splits)
qed

lemma distinct_scope:
  assumes "ledger_ok s"
  shows "distinct (map fst (sort_key f (filter P (balances s))))"
proof -
  have "distinct (map fst (filter P (balances s)))"
    using ledger_ok_rows[OF assms] by (simp add: rows_wf_def distinct_map_filter)
  moreover have "mset (map fst (sort_key f (filter P (balances s)))) = mset (map fst (filter P (balances s)))" by simp
  ultimately show ?thesis using mset_eq_imp_distinct_iff by metis
qed

lemma scope_balances_Inr:
  assumes ok: "ledger_ok (of_stock db)" and run: "scope_balances t db = Inr rows"
  shows "distinct (map fst rows)" "\<forall>(k, _) \<in> set rows. sk_warehouse k = tk_warehouse t"
proof -
  let ?all = "sort_key (\<lambda>(k, _). (sk_location k, sk_variant k))
     (filter (\<lambda>(k, b). in_scope t k \<and> (onHand b > 0 \<or> reserved b > 0)) (balances (of_stock db)))"
  have rows: "rows = take (max_stocktake_lines + 1) ?all"
    using run by (simp add: scope_balances_def Let_def res_iff)
  have "distinct (take (max_stocktake_lines + 1) (map fst ?all))"
    by (rule distinct_take) (rule distinct_scope[OF ok])
  then show "distinct (map fst rows)" by (simp only: rows take_map)
  have "set rows \<subseteq> set ?all" unfolding rows by (rule set_take_subset)
  then show "\<forall>(k, _) \<in> set rows. sk_warehouse k = tk_warehouse t" by (auto simp: in_scope_def)
qed

lemma sheet_of_rows:
  assumes "distinct (map fst rows)" "\<forall>(k, _) \<in> set rows. sk_warehouse k = w"
    and t: "tk_items t = map sheet_line (zip [n..<n + length rows] rows)" "tk_status t = TK_COUNTING"
  shows "sheet_ok t"
proof -
  have "places t = map (\<lambda>(k, _). (sk_location k, sk_variant k)) rows"
    by (rule nth_equalityI) (auto simp: places_def t sheet_line_def place_def split: prod.splits)
  moreover have "inj_on (\<lambda>(k, _). (sk_location k, sk_variant k)) (set rows)"
  proof (rule inj_onI)
    fix x y assume xy: "x \<in> set rows" "y \<in> set rows"
      "(case x of (k, _) \<Rightarrow> (sk_location k, sk_variant k)) = (case y of (k, _) \<Rightarrow> (sk_location k, sk_variant k))"
    then have "fst x = fst y" using assms(2) by (cases "fst x"; cases "fst y") fastforce
    with xy(1,2) assms(1) show "x = y" by (simp add: distinct_map inj_on_def)
  qed
  moreover have "distinct rows" using assms(1) by (simp add: distinct_map)
  ultimately have "distinct (places t)" by (simp add: distinct_map)
  then show ?thesis using t(2) by (auto simp: sheet_ok_def t(1) sheet_line_def line_consistent_def)
qed

lemma start_work_ok:
  assumes ok: "office_ok db" and run: "start_work i expected now ctx db = Inr (i', db')"
  shows "office_ok db'"
proof -
  obtain t rows md where t: "map_of (of_stocktakes db) i = Some t" and rows: "scope_balances t db = Inr rows"
    and db': "db' = office_audit ctx ''stocktake.started'' ''Stocktake'' i md (put_stocktake i
       (t\<lparr>tk_status := TK_COUNTING, tk_started := Some now, tk_counted_by := Some (oc_actor ctx), tk_version := tk_version t + 1,
          tk_items := map sheet_line (zip [of_next db..<of_next db + length rows] rows)\<rparr>)
       (db\<lparr>of_next := of_next db + length rows\<rparr>))"
    using run by (auto simp: start_work_def res_iff Let_def)
  have stock: "ledger_ok (of_stock db)" using ok by (simp add: office_ok_def purchasing_ok_def)
  show ?thesis
    unfolding db' by (rule put_sheet_ok[OF ok sheet_of_rows[OF scope_balances_Inr[OF stock rows]]]) simp_all
qed

section \<open>Counting, submitting, cancelling\<close>

lemma counted_line_fields:
  "place (counted_line actor now rows it) = place it" "cl_expected (counted_line actor now rows it) = cl_expected it"
  "line_consistent it \<Longrightarrow> line_consistent (counted_line actor now rows it)"
  by (auto simp: counted_line_def place_def line_consistent_def split: option.splits)

lemma count_work_ok:
  assumes ok: "office_ok db" and run: "count_work i expected rows now ctx db = Inr (i', db')"
  shows "office_ok db'"
proof -
  obtain t md where t: "map_of (of_stocktakes db) i = Some t" "tk_status t = TK_COUNTING"
    and db': "db' = office_audit ctx ''stocktake.counted'' ''Stocktake'' i md (put_stocktake i
       (t\<lparr>tk_version := tk_version t + 1, tk_items := map (\<lambda>(j, it). (j, counted_line (oc_actor ctx) now rows it)) (tk_items t)\<rparr>)
       (db\<lparr>of_next := of_next db\<rparr>))"
    using run by (auto simp: count_work_def res_iff Let_def)
  have "sheet_ok t" using ok t(1) by (auto simp: office_ok_def dest: sheets_okD)
  then have "sheet_ok (t\<lparr>tk_version := tk_version t + 1,
      tk_items := map (\<lambda>(j, it). (j, counted_line (oc_actor ctx) now rows it)) (tk_items t)\<rparr>)"
    using t(2) by (auto simp: sheet_ok_def places_def counted_line_fields split_def comp_def)
  then show ?thesis unfolding db' by (rule put_sheet_ok[OF ok]) simp
qed

lemma submit_work_ok:
  assumes ok: "office_ok db" and run: "submit_work i expected now ctx db = Inr (i', db')"
  shows "office_ok db'"
proof -
  obtain t md where t: "map_of (of_stocktakes db) i = Some t" "\<not> list_ex (\<lambda>(_, it). cl_counted it = None) (tk_items t)"
    and db': "db' = office_audit ctx ''stocktake.submitted'' ''Stocktake'' i md (put_stocktake i
       (t\<lparr>tk_status := TK_REVIEW, tk_submitted := Some now, tk_version := tk_version t + 1\<rparr>) (db\<lparr>of_next := of_next db\<rparr>))"
    using run by (auto simp: submit_work_def res_iff)
  have "sheet_ok t" using ok t(1) by (auto simp: office_ok_def dest: sheets_okD)
  then have "sheet_ok (t\<lparr>tk_status := TK_REVIEW, tk_submitted := Some now, tk_version := tk_version t + 1\<rparr>)"
    using t(2) by (auto simp: sheet_ok_def places_def list_ex_iff)
  then show ?thesis unfolding db' by (rule put_sheet_ok[OF ok]) simp
qed

lemma cancel_stocktake_work_ok:
  assumes ok: "office_ok db" and run: "cancel_stocktake_work i expected now ctx db = Inr (i', db')"
  shows "office_ok db'"
proof -
  obtain t md where t: "map_of (of_stocktakes db) i = Some t"
    and db': "db' = office_audit ctx ''stocktake.cancelled'' ''Stocktake'' i md (put_stocktake i
       (t\<lparr>tk_status := TK_CANCELLED, tk_cancelled := Some now, tk_version := tk_version t + 1\<rparr>) (db\<lparr>of_next := of_next db\<rparr>))"
    using run by (auto simp: cancel_stocktake_work_def res_iff)
  have "sheet_ok t" using ok t by (auto simp: office_ok_def dest: sheets_okD)
  then have "sheet_ok (t\<lparr>tk_status := TK_CANCELLED, tk_cancelled := Some now, tk_version := tk_version t + 1\<rparr>)"
    by (rule sheet_ok_head) simp_all
  then show ?thesis unfolding db' by (rule put_sheet_ok[OF ok]) simp
qed

section \<open>Approval\<close>

lemma counted_balance_fields [simp]:
  "onHand (counted_balance n b) = n" "reserved (counted_balance n b) = reserved b"
  "available (counted_balance n b) = n - reserved b"
  by (simp_all add: counted_balance_def)

lemma count_movement_fields [simp]:
  "mv_key (count_movement k n b i nr) = k" "mv_quantity (count_movement k n b i nr) = n - onHand b"
  "mv_before (count_movement k n b i nr) = onHand b" "mv_after (count_movement k n b i nr) = n"
  "mv_type (count_movement k n b i nr) = STOCKTAKE" "mv_idem (count_movement k n b i nr) = None"
  by (simp_all add: count_movement_def)

definition sheet_key :: "stocktake \<Rightarrow> count_line \<Rightarrow> stock_key" where
  "sheet_key t it = StockKey (tk_warehouse t) (cl_location it) (cl_variant it)"

lemma sheet_key_eq: "sheet_key t it = sheet_key t it' \<longleftrightarrow> place it = place it'"
  by (simp add: sheet_key_def place_def)

text \<open>A line that agrees changes nothing; another one is a single movement to the counted quantity.\<close>

lemma approve_line_Inr:
  fixes db it t
  defines "s \<equiv> of_stock db"
  defines "b \<equiv> bal s (sheet_key t it)"
  assumes run: "approve_line i t ctx (j, it) db = Inr (m, db')"
  shows "reserved b \<le> the (cl_counted it)" "the (cl_counted it) \<le> 2147483647"
    "\<exists>e. db' = (if the (cl_counted it) = onHand b then db
       else db\<lparr>of_stock := moved (sheet_key t it) (counted_balance (the (cl_counted it)) b)
          (count_movement (sheet_key t it) (the (cl_counted it)) b j (tk_number t)) e s\<rparr>)"
    "m = (if the (cl_counted it) = onHand b then None else Some (next_id s))"
proof -
  define e where "e = \<lparr>ae_action = ''inventory.balance.changed'', ae_entity = ''inventory-movement'', ae_entity_id = next_id s,
     ae_before = [], ae_after = [], ae_metadata = [(''type'', JStr ''STOCKTAKE''), (''stocktakeId'', JId i),
       (''warehouseId'', JId (tk_warehouse t)), (''locationId'', JId (cl_location it)), (''variantId'', JId (cl_variant it)),
       (''quantity'', JNum (the (cl_counted it) - onHand b)), (''beforeOnHand'', JNum (onHand b)),
       (''afterOnHand'', JNum (the (cl_counted it)))],
     ae_actor = Some (oc_actor ctx), ae_request = oc_request ctx\<rparr>"
  note unfold = approve_line_def Let_def office_audit_def sheet_key_def[symmetric] s_def[symmetric] b_def[symmetric]
  show "reserved b \<le> the (cl_counted it)" "the (cl_counted it) \<le> 2147483647"
    using run by (simp_all add: unfold res_iff)
  show "m = (if the (cl_counted it) = onHand b then None else Some (next_id s))"
    using run by (auto simp: unfold res_iff split: if_splits)
  show "\<exists>e. db' = (if the (cl_counted it) = onHand b then db
       else db\<lparr>of_stock := moved (sheet_key t it) (counted_balance (the (cl_counted it)) b)
          (count_movement (sheet_key t it) (the (cl_counted it)) b j (tk_number t)) e s\<rparr>)"
    using run by (intro exI[of _ e]) (auto simp: unfold res_iff moved_def e_def record_audit_def split: if_splits)
qed

lemma approve_line_ok:
  assumes ok: "ledger_ok (of_stock db)" and run: "approve_line i t ctx (j, it) db = Inr (m, db')"
  shows "ledger_ok (of_stock db')" "advances (of_stock db) (of_stock db')" "\<exists>s. db' = db\<lparr>of_stock := s\<rparr>"
    "onHand (bal (of_stock db') (sheet_key t it)) = the (cl_counted it)"
    "reserved (bal (of_stock db') k) = reserved (bal (of_stock db) k)"
    "k \<noteq> sheet_key t it \<Longrightarrow> bal (of_stock db') k = bal (of_stock db) k"
    "length (movements (of_stock db')) = length (movements (of_stock db))
       + (if the (cl_counted it) = onHand (bal (of_stock db) (sheet_key t it)) then 0 else 1)"
proof -
  let ?n = "the (cl_counted it)" and ?k = "sheet_key t it"
  let ?b = "bal (of_stock db) ?k"
  note line = approve_line_Inr[OF run]
  obtain e where db': "db' = (if ?n = onHand ?b then db else db\<lparr>of_stock := moved ?k (counted_balance ?n ?b)
      (count_movement ?k ?n ?b j (tk_number t)) e (of_stock db)\<rparr>)"
    using line(3) by blast
  have r: "0 \<le> reserved ?b" using stock_invD(1)[OF ledger_ok_inv[OF ok], of ?k] by (simp add: consistent_def)
  then have "consistent (counted_balance ?n ?b)" "int4 ?n" using line(1,2) by (auto simp: consistent_def int4_def)
  then show "ledger_ok (of_stock db')" using ok by (auto simp: db' intro!: moved_ok)
  show "advances (of_stock db) (of_stock db')" by (simp add: db' moved_adv advances_refl)
  show "\<exists>s. db' = db\<lparr>of_stock := s\<rparr>" by (auto simp: db' intro: exI[of _ "of_stock db"])
qed (use approve_line_Inr[OF run] in \<open>auto simp: bal_moved split: if_splits\<close>)

lemma approve_lines_ok:
  "approve_lines i t ctx items db = Inr (items', db') \<Longrightarrow> ledger_ok (of_stock db) \<Longrightarrow> distinct (map (\<lambda>(_, it). place it) items) \<Longrightarrow>
     ledger_ok (of_stock db') \<and> advances (of_stock db) (of_stock db') \<and> (\<exists>s. db' = db\<lparr>of_stock := s\<rparr>)
     \<and> (\<forall>(_, it) \<in> set items. onHand (bal (of_stock db') (sheet_key t it)) = the (cl_counted it))
     \<and> (\<forall>k. reserved (bal (of_stock db') k) = reserved (bal (of_stock db) k))
     \<and> (\<forall>k. (\<forall>(_, it) \<in> set items. k \<noteq> sheet_key t it) \<longrightarrow> bal (of_stock db') k = bal (of_stock db) k)
     \<and> length (movements (of_stock db')) = length (movements (of_stock db))
         + length (filter (\<lambda>(_, it). the (cl_counted it) \<noteq> onHand (bal (of_stock db) (sheet_key t it))) items)
     \<and> list_all2 (\<lambda>(j, it) (j', it'). j' = j \<and> (\<exists>m. it' = it\<lparr>cl_movement := m\<rparr>)) items items'"
proof (induction items arbitrary: db items')
  case Nil
  then show ?case by (auto simp: advances_refl intro: exI[of _ "of_stock db"])
next
  case (Cons x items)
  obtain j it where x: "x = (j, it)" by (cases x)
  obtain m db1 rest where one: "approve_line i t ctx (j, it) db = Inr (m, db1)" "items' = (j, it\<lparr>cl_movement := m\<rparr>) # rest"
    and run: "approve_lines i t ctx items db1 = Inr (rest, db')"
    using Cons.prems(1) by (auto simp: x res_iff)
  note step = approve_line_ok[OF Cons.prems(2) one(1)]
  have apart: "sheet_key t it' \<noteq> sheet_key t it" if "(j', it') \<in> set items" for j' it'
    using Cons.prems(3) that by (force simp: x sheet_key_eq)
  have "distinct (map (\<lambda>(_, it). place it) items)" using Cons.prems(3) by simp
  note IH = Cons.IH[OF run step(1) this]
  have "advances (of_stock db) (of_stock db')" using IH step(2) advances_trans by blast
  moreover have "\<exists>s. db' = db\<lparr>of_stock := s\<rparr>" using IH step(3) by auto
  moreover have "onHand (bal (of_stock db') (sheet_key t it)) = the (cl_counted it)"
  proof -
    have "bal (of_stock db') (sheet_key t it) = bal (of_stock db1) (sheet_key t it)"
      using IH apart by (metis (mono_tags, lifting) case_prodI2)
    then show ?thesis using step(4) by simp
  qed
  moreover have "filter (\<lambda>(_, it). the (cl_counted it) \<noteq> onHand (bal (of_stock db1) (sheet_key t it))) items
      = filter (\<lambda>(_, it). the (cl_counted it) \<noteq> onHand (bal (of_stock db) (sheet_key t it))) items"
    using step(6) apart by (intro filter_cong) auto
  ultimately show ?case using IH step(5-7) by (simp add: x one(2)) blast
qed

definition approved_sheet :: "stocktake \<Rightarrow> int \<Rightarrow> string \<Rightarrow> (uid \<times> count_line) list \<Rightarrow> stocktake" where
  "approved_sheet t now actor items = t\<lparr>tk_status := TK_COMPLETED, tk_completed := Some now, tk_approved_by := Some actor,
     tk_version := tk_version t + 1, tk_items := items\<rparr>"

lemma approve_work_Inr:
  assumes run: "approve_work i expected now ctx db = Inr (i', db')"
  obtains t items db1 md where "map_of (of_stocktakes db) i = Some t" "tk_status t = TK_REVIEW" "tk_version t = expected"
    "\<forall>(_, it) \<in> set (tk_items t). cl_counted it \<noteq> None" "approve_lines i t ctx (tk_items t) db = Inr (items, db1)" "i' = i"
    "db' = office_audit ctx ''stocktake.approved'' ''Stocktake'' i md (put_stocktake i (approved_sheet t now (oc_actor ctx) items) db1)"
proof -
  have "\<exists>t items db1. map_of (of_stocktakes db) i = Some t \<and> tk_status t = TK_REVIEW \<and> tk_version t = expected
    \<and> (\<forall>(_, it) \<in> set (tk_items t). cl_counted it \<noteq> None) \<and> approve_lines i t ctx (tk_items t) db = Inr (items, db1) \<and> i' = i
    \<and> (\<exists>md. db' = office_audit ctx ''stocktake.approved'' ''Stocktake'' i md (put_stocktake i (approved_sheet t now (oc_actor ctx) items) db1))"
    using run unfolding approve_work_def Let_def res_iff approved_sheet_def list_ex_iff by fastforce
  then show thesis using that by blast
qed

text \<open>The sheet after the approval: the same lines, with their movements.\<close>

lemma approved_sheet_ok:
  assumes t: "sheet_ok t" "tk_status t = TK_REVIEW"
    and items: "list_all2 (\<lambda>(j, it) (j', it'). j' = j \<and> (\<exists>m. it' = it\<lparr>cl_movement := m\<rparr>)) (tk_items t) items"
  shows "sheet_ok (approved_sheet t now actor items)"
proof -
  have same: "map (\<lambda>(_, it). place it) items = map (\<lambda>(_, it). place it) (tk_items t)"
    using items by (induction rule: list_all2_induct) (auto simp: place_def split: prod.splits)
  have kept: "(\<forall>x \<in> set (tk_items t). line_consistent (snd x) \<and> cl_counted (snd x) \<noteq> None)
      \<Longrightarrow> (\<forall>x \<in> set items. line_consistent (snd x) \<and> cl_counted (snd x) \<noteq> None)"
    using items by (induction rule: list_all2_induct) (auto simp: line_consistent_def split: prod.splits)
  have "\<forall>x \<in> set (tk_items t). line_consistent (snd x) \<and> cl_counted (snd x) \<noteq> None"
    using t by (auto simp: sheet_ok_def)
  from kept[OF this] same t show ?thesis by (auto simp: sheet_ok_def places_def approved_sheet_def)
qed

lemma approve_work_ok:
  assumes ok: "office_ok db" and run: "approve_work i expected now ctx db = Inr (i', db')"
  shows "office_ok db'"
proof -
  obtain t items db1 md where t: "map_of (of_stocktakes db) i = Some t" "tk_status t = TK_REVIEW"
    and lines: "approve_lines i t ctx (tk_items t) db = Inr (items, db1)"
    and db': "db' = office_audit ctx ''stocktake.approved'' ''Stocktake'' i md (put_stocktake i (approved_sheet t now (oc_actor ctx) items) db1)"
    by (rule approve_work_Inr[OF run])
  have sheet: "sheet_ok t" and stock: "ledger_ok (of_stock db)"
    using ok t(1) by (auto simp: office_ok_def purchasing_ok_def dest: sheets_okD)
  have "distinct (map (\<lambda>(_, it). place it) (tk_items t))" using sheet by (simp add: sheet_ok_def places_def)
  note a = approve_lines_ok[OF lines stock this]
  then obtain s where s: "db1 = db\<lparr>of_stock := s\<rparr>" by blast
  have "advances (of_stock db) (of_stock db')"
    using a audit_adv advances_trans by (auto simp: db' office_audit_def)
  moreover have "sheet_ok (approved_sheet t now (oc_actor ctx) items)" by (rule approved_sheet_ok[OF sheet t(2)]) (use a in blast)
  ultimately show ?thesis
    using a s by - (rule office_ok_sheet[OF ok], simp_all add: db' split: if_splits)
qed

section \<open>The public commands\<close>

lemma stocktake_Inr:
  assumes "stocktake_command sha can scope payload ctx execute db = Inr (v, db')"
  obtains (replay) stored where "map_of (of_stocktake_records db) (oc_actor ctx, scope, sha (oc_key ctx)) = Some (sha (stable_json payload), stored)"
      "v = authorized_response stored can" "db' = db"
  | (fresh) i t db1 where "map_of (of_stocktake_records db) (oc_actor ctx, scope, sha (oc_key ctx)) = None"
      "execute db = Inr (i, db1)" "map_of (of_stocktakes db1) i = Some t" "v = authorized_response (to_detail i t True) can"
      "db' = db1\<lparr>of_stocktake_records := of_stocktake_records db1
         @ [((oc_actor ctx, scope, sha (oc_key ctx)), sha (stable_json payload), to_detail i t True)]\<rparr>"
proof -
  obtain stored where k: "keyed_command sha of_stocktake_records (\<lambda>rs db. db\<lparr>of_stocktake_records := rs\<rparr>) (Some 100) scope payload ctx
       (\<lambda>db. andthen (execute db) (\<lambda>(i, db1).
          need (map_of (of_stocktakes db1) i) stocktake_missing (\<lambda>t. Inr (to_detail i t True, db1)))) db = Inr (stored, db')"
    "v = authorized_response stored can"
    using assms by (auto simp: stocktake_command_def res_iff)
  from stocktake_keys.keyed_Inr[OF k(1)] k(2) show thesis
    by (elim disjE conjE exE) (auto simp: res_iff intro: replay fresh)
qed

lemma stocktake_command_ok:
  assumes ok: "office_ok db" and run: "stocktake_command sha can scope payload ctx execute db = Inr (v, db')"
    and step: "\<And>i db1. execute db = Inr (i, db1) \<Longrightarrow> office_ok db1"
  shows "office_ok db'"
  using run by (cases rule: stocktake_Inr) (use ok step in \<open>auto simp: office_ok_def sheets_ok_def\<close>)

lemma create_stocktake_ok:
  assumes ok: "office_ok db" and run: "create_stocktake sha number inp can ctx db = Inr (v, db')"
  shows "office_ok db'"
  using run unfolding create_stocktake_def Let_def res_iff
  by (elim conjE, erule_tac stocktake_command_ok[OF ok]) (erule create_stocktake_work_ok[OF ok])

lemma count_stocktake_ok:
  assumes ok: "office_ok db" and run: "count_stocktake sha i expected ls now can ctx db = Inr (v, db')"
  shows "office_ok db'"
  using run unfolding count_stocktake_def Let_def res_iff
  by (elim exE conjE, erule_tac stocktake_command_ok[OF ok]) (erule count_work_ok[OF ok])

lemma stocktake_commands_ok:
  assumes ok: "office_ok db"
  shows "start_stocktake sha i expected now can ctx db = Inr (v, db') \<Longrightarrow> office_ok db'"
    "submit_stocktake sha i expected now can ctx db = Inr (v, db') \<Longrightarrow> office_ok db'"
    "approve_stocktake sha i expected now can ctx db = Inr (v, db') \<Longrightarrow> office_ok db'"
    "cancel_stocktake sha i expected now can ctx db = Inr (v, db') \<Longrightarrow> office_ok db'"
  unfolding start_stocktake_def submit_stocktake_def approve_stocktake_def cancel_stocktake_def
  by (erule stocktake_command_ok[OF ok], erule start_work_ok[OF ok] submit_work_ok[OF ok] approve_work_ok[OF ok]
      cancel_stocktake_work_ok[OF ok])+

text \<open>Purchasing leaves the sheets alone.\<close>

lemma purchase_work_sheets:
  "create_purchase_work number inp ls ctx db = Inr (a, db') \<Longrightarrow> of_stocktakes db' = of_stocktakes db"
  "update_purchase_work i chg ls' ctx db = Inr (a, db') \<Longrightarrow> of_stocktakes db' = of_stocktakes db"
  "transition_purchase_work i target allowed expected ctx db = Inr (a, db') \<Longrightarrow> of_stocktakes db' = of_stocktakes db"
  by (auto simp: create_purchase_work_def update_purchase_work_def transition_purchase_work_def res_iff Let_def)

lemma receive_line_sheets:
  "receive_line r p ctx x db = Inr (y, db') \<Longrightarrow> of_stocktakes db' = of_stocktakes db"
  by (auto simp: receive_line_def res_iff Let_def split: prod.splits)

lemma receive_lines_sheets:
  "receive_lines r p ctx xs db = Inr (ys, db') \<Longrightarrow> of_stocktakes db' = of_stocktakes db"
  by (induction xs arbitrary: db ys) (auto simp: res_iff dest: receive_line_sheets)

lemma receive_work_sheets:
  "receive_work number i expected reference rows qs ctx db = Inr (a, db') \<Longrightarrow> of_stocktakes db' = of_stocktakes db"
  by (auto elim!: receive_work_Inr dest: receive_lines_sheets)

lemma purchase_command_sheets:
  assumes run: "purchase_command sha scope payload ctx execute db = Inr (a, db')"
    and step: "\<And>a db1. execute db = Inr (a, db1) \<Longrightarrow> of_stocktakes db1 = of_stocktakes db"
  shows "of_stocktakes db' = of_stocktakes db"
  using run unfolding purchase_command_def
  by (rule purchase_keys.keyed_kept[where P = "\<lambda>d. of_stocktakes d = of_stocktakes db"]) (simp_all add: step)

lemma purchase_sheets:
  "create_purchase sha number inp ctx db = Inr (a, db') \<Longrightarrow> of_stocktakes db' = of_stocktakes db"
  "update_purchase sha i chg ctx db = Inr (a, db') \<Longrightarrow> of_stocktakes db' = of_stocktakes db"
  "transition_purchase sha scope i target allowed expected ctx db = Inr (a, db') \<Longrightarrow> of_stocktakes db' = of_stocktakes db"
  "receive_purchase sha number i ri ctx db = Inr (a, db') \<Longrightarrow> of_stocktakes db' = of_stocktakes db"
  unfolding create_purchase_def update_purchase_def transition_purchase_def res_iff
  by (auto elim!: purchase_command_sheets receive_purchase_Inr intro: purchase_work_sheets receive_work_sheets)

section \<open>The office as a transactional component\<close>

datatype office_command =
    OC_stock inventory_command
  | OC_create string purchase_input office_context
  | OC_update uid purchase_change office_context
  | OC_approve uid int office_context
  | OC_cancel uid int office_context
  | OC_receive string uid receive_input office_context
  | TC_create string stocktake_input bool office_context
  | TC_start uid int int bool office_context
  | TC_count uid int "count_input list" int bool office_context
  | TC_submit uid int int bool office_context
  | TC_approve uid int int bool office_context
  | TC_cancel uid int int bool office_context

definition silent :: "('a \<times> office_db) res \<Rightarrow> (unit \<times> office_db) res" where
  "silent m = andthen m (\<lambda>(_, db'). Inr ((), db'))"

lemma silent_Inr [res_iff]: "silent m = Inr (u, db') \<longleftrightarrow> (\<exists>x. m = Inr (x, db'))"
  by (auto simp: silent_def res_iff)

fun exec_office :: "(string \<Rightarrow> string) \<Rightarrow> office_command \<Rightarrow> office_db \<Rightarrow> (unit \<times> office_db) res" where
  "exec_office sha (OC_stock c) db = andthen (exec_inventory c (of_stock db)) (\<lambda>(_, s). Inr ((), db\<lparr>of_stock := s\<rparr>))"
| "exec_office sha (OC_create number inp ctx) db = silent (create_purchase sha number inp ctx db)"
| "exec_office sha (OC_update i inp ctx) db = silent (update_purchase sha i inp ctx db)"
| "exec_office sha (OC_approve i v ctx) db = silent (approve_purchase sha i v ctx db)"
| "exec_office sha (OC_cancel i v ctx) db = silent (cancel_purchase sha i v ctx db)"
| "exec_office sha (OC_receive number i inp ctx) db = silent (receive_purchase sha number i inp ctx db)"
| "exec_office sha (TC_create number inp can ctx) db = silent (create_stocktake sha number inp can ctx db)"
| "exec_office sha (TC_start i v now can ctx) db = silent (start_stocktake sha i v now can ctx db)"
| "exec_office sha (TC_count i v ls now can ctx) db = silent (count_stocktake sha i v ls now can ctx db)"
| "exec_office sha (TC_submit i v now can ctx) db = silent (submit_stocktake sha i v now can ctx db)"
| "exec_office sha (TC_approve i v now can ctx) db = silent (approve_stocktake sha i v now can ctx db)"
| "exec_office sha (TC_cancel i v now can ctx) db = silent (cancel_stocktake sha i v now can ctx db)"

lemma office_stock_ok:
  assumes ok: "office_ok db" and run: "exec_inventory c (of_stock db) = Inr (u, s)"
  shows "office_ok (db\<lparr>of_stock := s\<rparr>)"
proof -
  have stock: "ledger_ok (of_stock db)" using ok by (simp add: office_ok_def purchasing_ok_def)
  show ?thesis
    by (rule office_ok_sheet[OF ok]) (use exec_inventory_ok[OF stock run] exec_inventory_adv[OF stock run] in auto)
qed

lemma office_ok_purchase: "office_ok db \<Longrightarrow> purchasing_ok db' \<Longrightarrow> of_stocktakes db' = of_stocktakes db \<Longrightarrow> office_ok db'"
  by (simp add: office_ok_def sheets_ok_def)

lemma purchase_commands_ok:
  assumes ok: "office_ok db"
  shows "create_purchase sha number inp ctx db = Inr (a, db') \<Longrightarrow> office_ok db'"
    "update_purchase sha i chg ctx db = Inr (a, db') \<Longrightarrow> office_ok db'"
    "approve_purchase sha i expected ctx db = Inr (a, db') \<Longrightarrow> office_ok db'"
    "cancel_purchase sha i expected ctx db = Inr (a, db') \<Longrightarrow> office_ok db'"
    "receive_purchase sha number i ri ctx db = Inr (a, db') \<Longrightarrow> office_ok db'"
proof -
  have p: "purchasing_ok db" using ok by (simp add: office_ok_def)
  show "create_purchase sha number inp ctx db = Inr (a, db') \<Longrightarrow> office_ok db'"
    by (rule office_ok_purchase[OF ok create_purchase_ok[OF p] purchase_sheets(1)])
  show "update_purchase sha i chg ctx db = Inr (a, db') \<Longrightarrow> office_ok db'"
    by (rule office_ok_purchase[OF ok update_purchase_ok[OF p] purchase_sheets(2)])
  show "approve_purchase sha i expected ctx db = Inr (a, db') \<Longrightarrow> office_ok db'"
    by (rule office_ok_purchase[OF ok approve_purchase_ok[OF p] purchase_sheets(3)]) (simp_all add: approve_purchase_def)
  show "cancel_purchase sha i expected ctx db = Inr (a, db') \<Longrightarrow> office_ok db'"
    by (rule office_ok_purchase[OF ok cancel_purchase_ok[OF p] purchase_sheets(3)]) (simp_all add: cancel_purchase_def)
  show "receive_purchase sha number i ri ctx db = Inr (a, db') \<Longrightarrow> office_ok db'"
    by (rule office_ok_purchase[OF ok receive_purchase_ok[OF p] purchase_sheets(4)])
qed

lemma exec_office_ok:
  assumes ok: "office_ok db" and run: "exec_office sha c db = Inr (u, db')"
  shows "office_ok db'"
  using run by (cases c) (auto simp: res_iff intro: office_stock_ok[OF ok] purchase_commands_ok[OF ok]
      create_stocktake_ok[OF ok] count_stocktake_ok[OF ok] stocktake_commands_ok[OF ok])

interpretation office: tx_component "exec_office sha" office_ok
  by unfold_locales (rule exec_office_ok)

text \<open>An office that opens over a stock: suppliers, and no documents yet.\<close>

definition open_office :: "inv_db \<Rightarrow> (uid \<times> bool) list \<Rightarrow> office_db" where
  "open_office s suppliers = \<lparr>of_stock = s, of_suppliers = suppliers, of_purchases = [], of_receipts = [],
     of_purchase_records = [], of_stocktakes = [], of_stocktake_records = [], of_next = 1\<rparr>"

lemma open_office_ok: "ledger_ok s \<Longrightarrow> office_ok (open_office s suppliers)"
  by (simp add: open_office_def office_ok_def purchasing_ok_def purchases_ok_def sheets_ok_def)

section \<open>What an approval does\<close>

lemma approve_lines_records:
  "approve_lines i t ctx items db = Inr (items', db') \<Longrightarrow> of_stocktake_records db' = of_stocktake_records db"
proof (induction items arbitrary: db items')
  case (Cons x items)
  then obtain m db1 rest where "approve_line i t ctx x db = Inr (m, db1)" "approve_lines i t ctx items db1 = Inr (rest, db')"
    by (auto simp: res_iff)
  moreover from this(1) have "of_stocktake_records db1 = of_stocktake_records db"
    by (auto simp: approve_line_def Let_def res_iff split: prod.splits if_splits)
  ultimately show ?case using Cons.IH by metis
qed simp

lemma approve_work_records:
  "approve_work i expected now ctx db = Inr (i', db') \<Longrightarrow> of_stocktake_records db' = of_stocktake_records db"
  by (auto elim!: approve_work_Inr dest: approve_lines_records)

lemma stocktake_again:
  assumes run: "stocktake_command sha can scope payload ctx execute db = Inr (v, db')"
    and kept: "\<And>i db1. execute db = Inr (i, db1) \<Longrightarrow> of_stocktake_records db1 = of_stocktake_records db"
  shows "stocktake_command sha can scope payload ctx execute' db' = Inr (v, db')"
proof -
  obtain stored where k: "keyed_command sha of_stocktake_records (\<lambda>rs db. db\<lparr>of_stocktake_records := rs\<rparr>) (Some 100) scope payload ctx
       (\<lambda>db. andthen (execute db) (\<lambda>(i, db1).
          need (map_of (of_stocktakes db1) i) stocktake_missing (\<lambda>t. Inr (to_detail i t True, db1)))) db = Inr (stored, db')"
    "v = authorized_response stored can"
    using run by (auto simp: stocktake_command_def res_iff)
  have "keyed_command sha of_stocktake_records (\<lambda>rs db. db\<lparr>of_stocktake_records := rs\<rparr>) (Some 100) scope payload ctx
       (\<lambda>db. andthen (execute' db) (\<lambda>(i, db1).
          need (map_of (of_stocktakes db1) i) stocktake_missing (\<lambda>t. Inr (to_detail i t True, db1)))) db' = Inr (stored, db')"
    by (rule stocktake_keys.keyed_again[OF k(1)]) (auto simp: res_iff kept)
  then show ?thesis by (simp add: stocktake_command_def k(2))
qed

lemma approved_count:
  assumes ok: "office_ok db" and run: "approve_stocktake sha i expected now can ctx db = Inr (v, db')"
    and fresh: "map_of (of_stocktake_records db) (oc_actor ctx, ''approve:'' @ show_nat i, sha (oc_key ctx)) = None"
    and t: "map_of (of_stocktakes db) i = Some t"
  shows "(\<forall>(_, it) \<in> set (tk_items t). cl_counted it = Some (onHand (bal (of_stock db') (sheet_key t it))))
    \<and> (\<forall>k. (\<forall>(_, it) \<in> set (tk_items t). k \<noteq> sheet_key t it) \<longrightarrow> bal (of_stock db') k = bal (of_stock db) k)
    \<and> (\<forall>k. reserved (bal (of_stock db') k) = reserved (bal (of_stock db) k))
    \<and> length (movements (of_stock db')) = length (movements (of_stock db))
        + length (filter (\<lambda>(_, it). cl_counted it \<noteq> Some (onHand (bal (of_stock db) (sheet_key t it)))) (tk_items t))
    \<and> ledger_ok (of_stock db')
    \<and> approve_stocktake sha i expected later can ctx db' = Inr (v, db')"
proof -
  obtain db2 where work: "approve_work i expected now ctx db = Inr (i, db2)" and db2: "of_stock db' = of_stock db2"
    using run fresh unfolding approve_stocktake_def
    by (elim stocktake_Inr) (auto elim: approve_work_Inr)
  obtain items db1 md where counted: "\<forall>(_, it) \<in> set (tk_items t). cl_counted it \<noteq> None"
    and lines: "approve_lines i t ctx (tk_items t) db = Inr (items, db1)"
    and db': "db2 = office_audit ctx ''stocktake.approved'' ''Stocktake'' i md (put_stocktake i (approved_sheet t now (oc_actor ctx) items) db1)"
    using t by - (rule approve_work_Inr[OF work], auto)
  have sheet: "sheet_ok t" and stock: "ledger_ok (of_stock db)"
    using ok t by (auto simp: office_ok_def purchasing_ok_def dest: sheets_okD)
  have "distinct (map (\<lambda>(_, it). place it) (tk_items t))" using sheet by (simp add: sheet_ok_def places_def)
  note a = approve_lines_ok[OF lines stock this]
  have some: "\<forall>x \<in> set (tk_items t). cl_counted (snd x) = Some (the (cl_counted (snd x)))" using counted by auto
  have "filter (\<lambda>(_, it). the (cl_counted it) \<noteq> onHand (bal (of_stock db) (sheet_key t it))) (tk_items t)
      = filter (\<lambda>(_, it). cl_counted it \<noteq> Some (onHand (bal (of_stock db) (sheet_key t it)))) (tk_items t)"
    by (rule filter_cong) (use counted in auto)
  moreover have "\<forall>(_, it) \<in> set (tk_items t). cl_counted it = Some (onHand (bal (of_stock db1) (sheet_key t it)))"
    using a some by fastforce
  moreover have "approve_stocktake sha i expected later can ctx db' = Inr (v, db')"
    using run unfolding approve_stocktake_def by (rule stocktake_again) (rule approve_work_records)
  ultimately show ?thesis using a unfolding db2 db' by simp
qed

end
