(* ===== verification/Office_Properties.thy ===== *)
theory Office_Properties
  imports Stocktake_Facts Inventory_Properties
begin

text \<open>
  The properties of the back office and the story their witnesses run: goods are ordered, some of them arrive,
  and the shelf is counted.
\<close>

section \<open>A story\<close>

definition plain_digest :: "string \<Rightarrow> string" where
  "plain_digest s = s"

definition clerk :: "string \<Rightarrow> office_context" where
  "clerk key = \<lparr>oc_actor = ''u1'', oc_request = None, oc_key = key\<rparr>"

definition demo_office :: office_db where
  "demo_office = open_office stocked_db [(9, True)]"

definition demo_ordering :: "office_command list" where
  "demo_ordering =
     [OC_create ''PO-1'' \<lparr>pn_supplier = 9, pn_warehouse = 0, pn_expected = None, pn_notes = None,
        pn_items = [(50, JsInt 8, ''100'')]\<rparr> (clerk ''key-0001''),
      OC_approve 1 0 (clerk ''key-0002''),
      OC_receive ''RC-1'' 1 \<lparr>ri_version = 1, ri_reference = Some ''D-1'', ri_lines = [(50, 1, JsInt 5)]\<rparr> (clerk ''key-0003'')]"

definition demo_counting :: "office_command list" where
  "demo_counting =
     [TC_create ''ST-1'' \<lparr>sn_warehouse = 0, sn_scope = None, sn_locations = [], sn_variants = [], sn_notes = None\<rparr> False
        (clerk ''key-0004''),
      TC_start 5 0 100 False (clerk ''key-0005''),
      TC_count 5 1 [(1, 50, JsInt 12, None)] 110 False (clerk ''key-0006''),
      TC_submit 5 2 120 False (clerk ''key-0007'')]"

definition demo_counted :: office_db where
  "demo_counted = run_txs (exec_office plain_digest) (demo_ordering @ demo_counting) demo_office"

definition office_summary ::
  "office_db \<Rightarrow> (uid \<times> int) list option \<times> (uid \<times> (uid \<times> uid \<times> int option) list) option \<times> bool \<times> bool" where
  "office_summary db =
     (map_option (\<lambda>p. map (\<lambda>(j, it). (j, pi_received it)) (po_items p)) (map_of (of_purchases db) 1),
      map_option (\<lambda>t. (tk_warehouse t, map (\<lambda>(_, it). (cl_location it, cl_variant it, cl_counted it)) (tk_items t)))
        (map_of (of_stocktakes db) 5),
      map_of (of_stocktake_records db) (''u1'', ''approve:5'', ''key-0008'') = None,
      returns (approve_stocktake plain_digest 5 3 130 True (clerk ''key-0008'') db))"

lemma demo_evaluated: "office_summary demo_counted = (Some [(2, 5)], Some (0, [(1, 50, Some 12)]), True, True)"
  by code_simp

section \<open>Purchase orders\<close>

text \<open>
  C39. However the office and the stock are used: every item of every purchase order has received exactly
  the sum of the receipt lines written for it, never more than was ordered, and all of it once the order is
  RECEIVED; every receipt line stands in the stock ledger as one RECEIPT movement of its quantity on its shelf
  that refers to the line; and the balances stay reconciled with the ledger.
\<close>

theorem receipts_add_up:
  fixes cs s suppliers sha
  defines "db \<equiv> run_txs (exec_office sha) cs (open_office s suppliers)"
  assumes stock: "ledger_ok s" and p: "map_of (of_purchases db) i = Some p" "(j, it) \<in> set (po_items p)"
  shows "pi_received it = received_total (of_receipts db) i j \<and> pi_received it \<le> pi_ordered it
    \<and> (po_status p = PO_RECEIVED \<longrightarrow> pi_received it = pi_ordered it)
    \<and> (\<forall>(_, r) \<in> set (of_receipts db). \<forall>(n, ln) \<in> set (rc_lines r). \<exists>m.
         map_of (movements (of_stock db)) (rl_movement ln) = Some m \<and> mv_type m = RECEIPT
         \<and> mv_key m = StockKey (rc_warehouse r) (rl_location ln) (rl_variant ln)
         \<and> mv_quantity m = rl_quantity ln \<and> mv_ref_id m = Some (JId n))
    \<and> ledger_ok (of_stock db)"
proof -
  have ok: "office_ok db" unfolding db_def by (rule office.run_inv[OF open_office_ok[OF stock]])
  then have "purchases_ok db" "ledger_ok (of_stock db)" by (simp_all add: office_ok_def purchasing_ok_def)
  moreover from purchases_okD(1)[OF this(1) p(1)] have "order_ok (of_receipts db) i p" .
  ultimately show ?thesis
    using p(2) by (fastforce simp: order_ok_def purchases_ok_def receipt_ok_def list_all_iff line_ok_def)
qed

lemma demo_order: "\<exists>p. map_of (of_purchases demo_counted) 1 = Some (p :: purchase)
  \<and> map (\<lambda>(j, it). (j, pi_received it)) (po_items p) = [(2, 5)]"
  using demo_evaluated unfolding office_summary_def by auto

theorem receipts_add_up_witness: "received_total (of_receipts demo_counted) 1 2 = 5 \<and> ledger_ok (of_stock demo_counted)"
proof -
  obtain p :: purchase where p: "map_of (of_purchases demo_counted) 1 = Some p" "map (\<lambda>(j, it). (j, pi_received it)) (po_items p) = [(2, 5)]"
    by (rule exE[OF demo_order]) (elim conjE, rule that)
  then obtain it where it: "po_items p = [(2, it)]" "pi_received it = 5" by (cases "po_items p") auto
  show ?thesis
    using receipts_add_up[where s = stocked_db and cs = "demo_ordering @ demo_counting" and suppliers = "[(9, True)]"
      and sha = plain_digest and i = 1 and p = p and j = 2 and it = it, folded demo_office_def demo_counted_def] stocked_ok p(1) it
    by (metis list.set_intros(1))
qed

section \<open>Stocktakes\<close>

text \<open>
  C40. In any state the office reaches, the approval of a stocktake under a new key sets the balance of every
  counted place to the count, leaves every other balance and all reserved amounts as they are, writes one
  movement for each line that differs from the balance and none for the others, keeps the ledger reconciled,
  and answers the same when it is repeated at any later time, without a further change.
\<close>

theorem count_sets_the_shelves:
  fixes cs s suppliers sha
  defines "db \<equiv> run_txs (exec_office sha) cs (open_office s suppliers)"
  assumes stock: "ledger_ok s" and run: "approve_stocktake sha i expected now can ctx db = Inr (v, db')"
    and fresh: "map_of (of_stocktake_records db) (oc_actor ctx, ''approve:'' @ show_nat i, sha (oc_key ctx)) = None"
    and t: "map_of (of_stocktakes db) i = Some t"
  shows "(\<forall>(_, it) \<in> set (tk_items t). cl_counted it = Some (onHand (bal (of_stock db') (sheet_key t it))))
    \<and> (\<forall>k. (\<forall>(_, it) \<in> set (tk_items t). k \<noteq> sheet_key t it) \<longrightarrow> bal (of_stock db') k = bal (of_stock db) k)
    \<and> (\<forall>k. reserved (bal (of_stock db') k) = reserved (bal (of_stock db) k))
    \<and> length (movements (of_stock db')) = length (movements (of_stock db))
        + length (filter (\<lambda>(_, it). cl_counted it \<noteq> Some (onHand (bal (of_stock db) (sheet_key t it)))) (tk_items t))
    \<and> ledger_ok (of_stock db')
    \<and> approve_stocktake sha i expected later can ctx db' = Inr (v, db')"
proof -
  have ok: "office_ok db" unfolding db_def by (rule office.run_inv[OF open_office_ok[OF stock]])
  show ?thesis by (rule approved_count[OF ok run fresh t])
qed

lemma demo_sheet:
  "\<exists>t. map_of (of_stocktakes demo_counted) 5 = Some (t :: stocktake) \<and> tk_warehouse t = 0
     \<and> map (\<lambda>(_, it). (cl_location it, cl_variant it, cl_counted it)) (tk_items t) = [(1, 50, Some 12)]"
  using demo_evaluated unfolding office_summary_def by auto

lemma demo_new_key:
  "map_of (of_stocktake_records demo_counted)
     (oc_actor (clerk ''key-0008''), ''approve:'' @ show_nat 5, plain_digest (oc_key (clerk ''key-0008''))) = None"
proof -
  have "show_nat 5 = ''5''" by code_simp
  then show ?thesis using demo_evaluated by (simp add: office_summary_def clerk_def plain_digest_def)
qed

theorem count_sets_the_shelves_witness:
  "\<exists>x. approve_stocktake plain_digest 5 3 130 True (clerk ''key-0008'') demo_counted = Inr x
     \<and> onHand (bal (of_stock (snd x)) demo_shelf) = 12"
proof -
  obtain t :: stocktake where t: "map_of (of_stocktakes demo_counted) 5 = Some t" "tk_warehouse t = 0"
    "map (\<lambda>(_, it). (cl_location it, cl_variant it, cl_counted it)) (tk_items t) = [(1, 50, Some 12)]"
    by (rule exE[OF demo_sheet]) (elim conjE, rule that)
  then obtain n it where it: "tk_items t = [(n, it)]" "cl_location it = 1" "cl_variant it = 50" "cl_counted it = Some 12"
    by (cases "tk_items t") auto
  have "returns (approve_stocktake plain_digest 5 3 130 True (clerk ''key-0008'') demo_counted)"
    using demo_evaluated unfolding office_summary_def by blast
  then obtain v db' where run: "approve_stocktake plain_digest 5 3 130 True (clerk ''key-0008'') demo_counted = Inr (v, db')"
    by (auto simp: returns_iff)
  have "\<forall>(_, it) \<in> set (tk_items t). cl_counted it = Some (onHand (bal (of_stock db') (sheet_key t it)))"
    using count_sets_the_shelves[where s = stocked_db and cs = "demo_ordering @ demo_counting" and suppliers = "[(9, True)]"
      and sha = plain_digest and i = 5 and expected = 3 and now = 130 and can = True and ctx = "clerk ''key-0008''"
      and v = v and db' = db' and t = t, folded demo_office_def demo_counted_def] stocked_ok run demo_new_key t(1)
    by fast
  then have "onHand (bal (of_stock db') demo_shelf) = 12"
    using t(2) it by (simp add: sheet_key_def demo_shelf_def)
  then show ?thesis using run by auto
qed

end
