(* ===== verification/Credit_Properties.thy ===== *)
theory Credit_Properties
  imports Credit_Reversals Office_Properties
begin

text \<open>
  The properties of the credit accounts: the books balance whatever commands run, and a command is answered
  or refused, with one exception.
\<close>

section \<open>Answers\<close>

definition user_error :: "api_error \<Rightarrow> bool" where
  "user_error e \<longleftrightarrow> (case e of DbError _ \<Rightarrow> False | Crash _ \<Rightarrow> False | _ \<Rightarrow> True)"

lemma user_error_simps [simp]:
  "user_error (BadRequest c)" "user_error (Conflict c)" "user_error (NotFound c)" "\<not> user_error (DbError c)" "\<not> user_error (Crash c)"
  "user_error credit_invalid" "user_error credit_missing"
  by (simp_all add: user_error_def credit_invalid_def credit_missing_def)

lemma credit_failure_user: "clean_error e \<Longrightarrow> user_error (credit_failure e)"
  by (cases e) (auto simp: credit_failure_def clean_error_def user_error_def)

lemma credit_failure_cases: "user_error (credit_failure e) \<or> credit_failure e = Crash ''CREDIT_COMMAND_FAILED''"
  by (cases e) (auto simp: credit_failure_def user_error_def)

definition refusal :: "'a res \<Rightarrow> bool" where
  "refusal m \<longleftrightarrow> (\<forall>e. m = Inl e \<longrightarrow> user_error e)"

text \<open>Refused, done with the books in order, or, where \<open>early\<close> holds, failed.\<close>

definition answered :: "bool \<Rightarrow> ('a \<times> credit_db) res \<Rightarrow> bool" where
  "answered early m \<longleftrightarrow> (\<forall>e. m = Inl e \<longrightarrow> user_error e \<or> early \<and> e = Crash ''CREDIT_COMMAND_FAILED'')
     \<and> (\<forall>x db'. m = Inr (x, db') \<longrightarrow> books_ok db')"

abbreviation done_or_refused :: "('a \<times> credit_db) res \<Rightarrow> bool" where
  "done_or_refused m \<equiv> answered False m"

lemma refusal_simps [simp]:
  "refusal (Inr x)" "refusal (Inl e) \<longleftrightarrow> user_error e" "refusal (throw_if b e m) \<longleftrightarrow> (if b then user_error e else refusal m)"
  by (simp_all add: refusal_def throw_if_def)

lemma refusal_need: "user_error e \<Longrightarrow> (\<And>y. x = Some y \<Longrightarrow> refusal (k y)) \<Longrightarrow> refusal (need x e k)"
  by (cases x) auto

lemma refusal_andthen: "refusal m \<Longrightarrow> (\<And>y. m = Inr y \<Longrightarrow> refusal (k y)) \<Longrightarrow> refusal (andthen m k)"
  by (cases m) auto

lemma answered_throw: "user_error e \<Longrightarrow> (\<not> c \<Longrightarrow> answered early m) \<Longrightarrow> answered early (throw_if c e m)"
  by (simp add: throw_if_def answered_def)

lemma answered_andthen: "refusal m \<Longrightarrow> (\<And>y. m = Inr y \<Longrightarrow> answered early (k y)) \<Longrightarrow> answered early (andthen m k)"
  by (cases m) (auto simp: answered_def refusal_def)

lemma settled_answered: "done_or_refused m \<Longrightarrow> answered early m"
  by (auto simp: answered_def)

lemma refusal_inputs [simp]:
  "refusal (credit_amount z s)" "refusal (credit_date now future x)" "refusal (credit_text nfc n s)" "refusal (version_input v)"
  "refusal (normalize_idempotency_key s)"
  by (auto simp: credit_amount_def credit_date_def credit_text_def version_input_def normalize_idempotency_key_def intro: refusal_need)

lemma refusal_allocations [simp]: "refusal (read_allocations xs)"
  by (induction xs rule: read_allocations.induct) (auto intro!: refusal_andthen)

section \<open>Commands\<close>

lemma credit_work_sound:
  assumes ok: "books_ok db" and work: "sound (execute db)"
  shows "sound (credit_work key h execute db)"
proof (cases "map_of (cd_records db) key")
  case None
  have "books_ok (db'\<lparr>cd_records := rs\<rparr>)" if "books_ok db'" for db' rs by (rule books_cong[OF that]) simp_all
  then show ?thesis using work by (cases "execute db") (auto simp: credit_work_def None sound_def)
next
  case (Some x)
  then show ?thesis using ok by (cases x) (simp add: credit_work_def sound_throw)
qed

lemma failure_settled: "sound m \<Longrightarrow> done_or_refused (case m of Inl e \<Rightarrow> Inl (credit_failure e) | Inr r \<Rightarrow> Inr r)"
  by (cases m) (auto simp: answered_def sound_def clean_def credit_failure_user)

lemma execute_settled:
  assumes "books_ok db" "sound (execute db)"
  shows "done_or_refused (execute_command sha customer command payload ctx execute db)"
  unfolding execute_command_def
  by (intro answered_andthen answered_throw failure_settled credit_work_sound assms) simp_all

lemma credit_date_Inr: "credit_date now future x = Inr i \<longleftrightarrow> snd x = Some i \<and> (future \<or> i \<le> now)"
  by (auto simp: credit_date_def res_iff)

lemma policy_settled: "books_ok db \<Longrightarrow> done_or_refused (credit_policy sha customer expected active climit terms now ctx db)"
  unfolding credit_policy_def
  by (intro answered_andthen answered_throw execute_settled policy_sound) (auto split: option.splits)

lemma receive_settled: "books_ok db \<Longrightarrow> done_or_refused (credit_receive sha nfc fold_text customer q now ctx db)"
  unfolding credit_receive_def Let_def
  by (intro answered_andthen answered_throw execute_settled receipt_sound)
    (auto simp: credit_date_Inr read_allocations_Inr)

lemma reverse_settled: "books_ok db \<Longrightarrow> done_or_refused (credit_reverse sha nfc customer r expected effective_at raw_reason raw_evidence now ctx db)"
  unfolding credit_reverse_def
  by (intro answered_andthen execute_settled reversal_sound) (auto simp: credit_date_Inr)

lemma adjust_settled:
  "books_ok db \<Longrightarrow> done_or_refused (credit_adjust sha nfc fold_text customer d expected note raw_amount effective_at raw_reason raw_evidence now ctx db)"
  unfolding credit_adjust_def
  by (intro answered_andthen execute_settled adjustment_sound) (auto simp: credit_date_Inr dest: credit_amount_Inr)

text \<open>The term in days is rounded up, so a due date less than a day before the issue passes as zero days.\<close>

lemma terms_early: "0 \<le> terms_between issued due_on \<Longrightarrow> due_on < issued \<Longrightarrow> issued - due_on < day_ms"
  by (simp add: terms_between_def day_ms_def)

lemma execute_refused:
  assumes ok: "books_ok db" and refused: "execute db = Inl e0"
  shows "answered True (execute_command sha customer command payload ctx execute db)"
proof -
  have failed: "answered True (case w of Inl e \<Rightarrow> Inl (credit_failure e) | Inr r \<Rightarrow> Inr r)"
    if "\<And>x db'. w = Inr (x, db') \<Longrightarrow> db' = db" for w :: "(credit_answer \<times> credit_db) res"
    using that ok credit_failure_cases by (cases w) (auto simp: answered_def)
  have "credit_work key h execute db = Inr (x, db') \<Longrightarrow> db' = db" for key h x db'
    by (auto simp: credit_work_def refused res_iff split: option.splits)
  then show ?thesis unfolding execute_command_def by (intro answered_andthen answered_throw failed) simp_all
qed

lemma opening_early: "due_on < issued \<Longrightarrow> \<exists>e. opening_work customer expected amount issued due_on source now ctx db = Inl e"
  by (cases "opening_work customer expected amount issued due_on source now ctx db")
    (auto simp: opening_work_def res_iff add_document_def opening_document_def)

lemma opening_answered:
  assumes ok: "books_ok db"
  shows "answered (\<exists>issued due_on. snd issued_at = Some issued \<and> snd due_at = Some due_on \<and> due_on < issued \<and> issued - due_on < day_ms)
    (credit_opening sha nfc customer expected amount issued_at due_at source now ctx db)"
  unfolding credit_opening_def
proof (intro answered_andthen answered_throw)
  fix n issued due_on reference
  assume n: "credit_amount False amount = Inr n" and dates: "credit_date now False issued_at = Inr issued" "credit_date now True due_at = Inr due_on"
    and terms: "\<not> (terms_between issued due_on < 0 \<or> 365 < terms_between issued due_on)"
  let ?run = "\<lambda>payload. execute_command sha customer ''opening'' payload ctx (opening_work customer expected n issued due_on reference now ctx) db"
  show "answered (\<exists>issued due_on. snd issued_at = Some issued \<and> snd due_at = Some due_on \<and> due_on < issued \<and> issued - due_on < day_ms)
    (?run (Obj [(''expectedVersion'', Leaf (JNum expected)), (''amount'', Leaf (JStr amount)), (''issuedAt'', Leaf (JStr (fst issued_at))),
       (''dueAt'', Leaf (JStr (fst due_at))), (''sourceReference'', Leaf (JStr reference))]))"
  proof (cases "due_on < issued")
    case True
    then have early: "snd issued_at = Some issued" "snd due_at = Some due_on" "issued - due_on < day_ms"
      using dates terms terms_early[of issued due_on] True by (simp_all add: credit_date_Inr)
    obtain e where "opening_work customer expected n issued due_on reference now ctx db = Inl e" using opening_early[OF True] by blast
    from execute_refused[where execute = "opening_work customer expected n issued due_on reference now ctx", OF ok this] show ?thesis
      using early True by (auto simp: answered_def)
  next
    case False
    have "sound (opening_work customer expected n issued due_on reference now ctx db)"
      by (rule opening_sound[OF ok credit_amount_Inr[OF n]]) (use dates terms False in \<open>auto simp: credit_date_Inr\<close>)
    then show ?thesis by (rule settled_answered[OF execute_settled[OF ok]])
  qed
qed simp_all

section \<open>Runs\<close>

datatype credit_request =
    CC_policy uid "int option" bool string int
  | CC_opening uid int string stamp stamp string
  | CC_receive uid receipt_request
  | CC_reverse uid uid int stamp string string
  | CC_adjust uid uid int bool string stamp string string

text \<open>A request comes at a time and with a context.\<close>

type_synonym credit_command = "int \<times> credit_context \<times> credit_request"

fun exec_credit ::
  "(string \<Rightarrow> string) \<Rightarrow> (string \<Rightarrow> string) \<Rightarrow> (string \<Rightarrow> string) \<Rightarrow> credit_command \<Rightarrow> credit_db \<Rightarrow> (credit_answer \<times> credit_db) res" where
  "exec_credit sha nfc fold_text (now, ctx, CC_policy u v active climit terms) db = credit_policy sha u v active climit terms now ctx db"
| "exec_credit sha nfc fold_text (now, ctx, CC_opening u v n issued due_on source) db = credit_opening sha nfc u v n issued due_on source now ctx db"
| "exec_credit sha nfc fold_text (now, ctx, CC_receive u q) db = credit_receive sha nfc fold_text u q now ctx db"
| "exec_credit sha nfc fold_text (now, ctx, CC_reverse u r v eff reason evidence) db = credit_reverse sha nfc u r v eff reason evidence now ctx db"
| "exec_credit sha nfc fold_text (now, ctx, CC_adjust u d v note n eff reason evidence) db =
     credit_adjust sha nfc fold_text u d v note n eff reason evidence now ctx db"

text \<open>An opening that is due before it was issued, by less than a day.\<close>

definition due_early :: "credit_request \<Rightarrow> bool" where
  "due_early q \<longleftrightarrow> (case q of
     CC_opening _ _ _ (_, Some issued) (_, Some due_on) _ \<Rightarrow> due_on < issued \<and> issued - due_on < day_ms | _ \<Rightarrow> False)"

lemma exec_answered:
  assumes ok: "books_ok db"
  shows "answered (due_early q) (exec_credit sha nfc fold_text (now, ctx, q) db)"
proof (cases q)
  case (CC_opening u v n issued_at due_at source)
  obtain s i t d where st: "issued_at = (s, i)" "due_at = (t, d)" by (cases issued_at, cases due_at)
  have "(\<exists>issued due_on. snd issued_at = Some issued \<and> snd due_at = Some due_on \<and> due_on < issued \<and> issued - due_on < day_ms)
      = due_early q"
    by (auto simp: CC_opening due_early_def st split: option.splits)
  then show ?thesis using opening_answered[OF ok, of issued_at due_at sha nfc u v n source now ctx] by (simp add: CC_opening)
qed (simp_all add: settled_answered[OF policy_settled] settled_answered[OF receive_settled] settled_answered[OF reverse_settled]
    settled_answered[OF adjust_settled] ok)

interpretation credit: tx_component "exec_credit sha nfc fold_text" books_ok for sha nfc fold_text
proof
  fix db c x db' assume "books_ok db" "exec_credit sha nfc fold_text c db = Inr (x, db')"
  then show "books_ok db'" using exec_answered by (cases c) (auto simp: answered_def)
qed

section \<open>A story\<close>

definition open_credit :: "(uid \<times> credit_customer) list \<Rightarrow> uid \<Rightarrow> credit_db" where
  "open_credit customers n = \<lparr>cd_customers = customers, cd_accounts = [], cd_documents = [], cd_receipts = [], cd_entries = [],
     cd_returns = [], cd_records = [], cd_audits = [], cd_next = n\<rparr>"

lemma open_credit_ok: "books_ok (open_credit customers n)"
  by (simp add: open_credit_def books_ok_def keys_ok_def entries_ok_def standing_def entry_sum_def account_reconciled_def
      account_total_def max_credit_def)

definition desk :: "string \<Rightarrow> credit_context" where
  "desk key = \<lparr>xx_actor = ''u1'', xx_request = ''r1'', xx_key = key\<rparr>"

abbreviation plain_credit :: "credit_command \<Rightarrow> credit_db \<Rightarrow> (credit_answer \<times> credit_db) res" where
  "plain_credit \<equiv> exec_credit plain_digest plain_digest plain_digest"

definition demo_granted :: "credit_command list" where
  "demo_granted = [(100, desk ''k1'', CC_policy 1 None True ''1000'' 30)]"

definition demo_postings :: "credit_command list" where
  "demo_postings =
     [(100, desk ''k2'', CC_opening 1 0 ''300'' (''t0'', Some 0) (''t1'', Some 864000000) ''S-1''),
      (200, desk ''k3'', CC_receive 1 \<lparr>xq_version = 1, xq_amount = ''100'', xq_method = Cash, xq_effective = (''t2'', Some 150),
         xq_evidence = ''R-1'', xq_allocations = [(3, ''100'')]\<rparr>),
      (300, desk ''k4'', CC_adjust 1 3 2 True ''50'' (''t3'', Some 250) ''damaged'' ''E-1''),
      (400, desk ''k5'', CC_reverse 1 5 3 (''t4'', Some 350) ''mistyped'' ''E-2'')]"

definition demo_customers :: credit_db where
  "demo_customers = open_credit [(1, \<lparr>xc_user = None, xc_active = True\<rparr>)] 2"

definition demo_credit :: credit_db where
  "demo_credit = run_txs plain_credit (demo_granted @ demo_postings) demo_customers"

definition credit_view :: "credit_db \<Rightarrow> (uid \<times> uid \<times> int \<times> int) list \<times> entry_kind list" where
  "credit_view db = (map (\<lambda>(d, doc). (d, rd_account doc, document_principal db (rd_account doc) d, document_outstanding db (rd_account doc) d))
     (cd_documents db), map (\<lambda>(_, e). ce_kind e) (cd_entries db))"

lemma demo_credit_evaluated:
  "credit_view demo_credit = ([(3, 2, 250, 250)], [EK_OPENING, EK_RECEIPT, EK_CREDIT_NOTE, EK_REVERSAL])"
  by code_simp

section \<open>Properties\<close>

text \<open>
  C10. Whatever commands run: what is owed on a document is its principal less the receipts that stand, never
  negative, never more than the principal, which never exceeds the largest amount; the allocations of a receipt
  add up to it, and it is reversed with as many entries as it has or with none; and the debt of an account is at
  once the sum over its documents and over its ledger, within the range.
\<close>

theorem credit_books_balance:
  fixes cs s sha nfc fold_text
  defines "db \<equiv> run_txs (exec_credit sha nfc fold_text) cs s"
  assumes start: "books_ok s"
  shows "(\<forall>(d, doc) \<in> set (cd_documents db). \<forall>a. rd_account doc = a \<longrightarrow>
       document_outstanding db a d = document_principal db a d + standing db a d
       \<and> 0 \<le> document_outstanding db a d \<and> document_outstanding db a d \<le> document_principal db a d \<and> document_principal db a d \<le> max_credit)
    \<and> (\<forall>(r, rc) \<in> set (cd_receipts db). entry_sum (of_receipt (cr_account rc) r EK_RECEIPT) db = - cr_amount rc
       \<and> count_entries (of_receipt (cr_account rc) r EK_REVERSAL) db \<in> {0, count_entries (of_receipt (cr_account rc) r EK_RECEIPT) db})
    \<and> (\<forall>a. account_outstanding db a = account_total db a \<and> 0 \<le> account_total db a \<and> account_total db a \<le> max_credit)"
proof -
  have ok: "books_ok db" unfolding db_def by (rule credit.run_inv[OF start])
  note e = books_okD(3)[OF ok]
  have "document_outstanding db a d = document_principal db a d + standing db a d" for a d
    using outstanding_split[of db a d] entries_okD(2)[OF e, of a d] by simp
  moreover have "0 \<le> account_total db a \<and> account_total db a \<le> max_credit" for a
    using books_okD(2)[OF ok, of a] by (simp add: account_reconciled_def)
  ultimately show ?thesis
    using reconciledD[OF ok] outstanding_le[OF e] total_outstanding[OF ok]
    by (auto dest!: receipt_reconciledD[OF ok] simp: receipt_reconciled_def)
qed

theorem credit_books_balance_witness:
  "document_outstanding demo_credit 2 3 = 250 \<and> standing demo_credit 2 3 = 0 \<and> account_total demo_credit 2 = 250"
proof -
  obtain doc where doc: "cd_documents demo_credit = [(3, doc)]" "rd_account doc = 2"
    "document_principal demo_credit 2 3 = 250" "document_outstanding demo_credit 2 3 = 250"
    using demo_credit_evaluated unfolding credit_view_def by (cases "cd_documents demo_credit") auto
  note all = credit_books_balance[where s = demo_customers and cs = "demo_granted @ demo_postings" and sha = plain_digest
      and nfc = plain_digest and fold_text = plain_digest, folded demo_credit_def]
  have "books_ok demo_customers" unfolding demo_customers_def by (rule open_credit_ok)
  note here = all[OF this]
  from here doc have "250 = 250 + standing demo_credit 2 3" by auto
  moreover have "account_outstanding demo_credit 2 = account_total demo_credit 2" using here by blast
  ultimately show ?thesis using doc by (simp add: account_outstanding_def)
qed



end
