(* ===== verification/Spec2Isabelle.thy ===== *)
theory Spec2Isabelle
  imports Inventory_Properties Pricing_Properties Sale_Properties Door_Properties Credit_Properties
begin

text \<open>
  The commercial core of the Iranyaragh API (\<open>apps/api/src\<close>): stock, promotions, orders, payments,
  refunds, fulfillment, custom doors from the price to the delivery, purchasing, stocktakes and the credit
  accounts of customers.

  \<^bold>\<open>How the program works.\<close> Every command is one serializable PostgreSQL transaction under an
  advisory lock of the order it touches; \<open>withSerializableRetry\<close> repeats it on contention. A command
  is a function from the database it reads to an error or to its answer with the database it leaves.

  \<^bold>\<open>Theories.\<close>
  \<^item> \<open>Prelude\<close>: errors as values, transactions (locales \<open>tx_component\<close>, \<open>tx_history\<close>), tables,
    JavaScript values. \<open>Json\<close>: \<open>JSON.stringify\<close> of the payloads that are hashed. \<open>Retry\<close>:
    \<open>common/serializable-retry.ts\<close>, \<open>common/retry.ts\<close>. \<open>Status_Machines\<close>: \<open>common/state-machine.ts\<close>
    with the locales \<open>status_machine\<close> and \<open>forward_machine\<close>.
  \<^item> \<open>Inventory\<close>, \<open>Transfers\<close>, \<open>Warehouses\<close> model \<open>inventory/inventory.service.ts\<close>;
    \<open>Stock_Invariant\<close>, \<open>Reservation_Lifecycle\<close>, \<open>Expiry\<close>, \<open>Transfer_Conservation\<close> and
    \<open>Inventory_Commands\<close> prove it against a shelf of goods and promises; \<open>Inventory_Properties\<close> states
    what that gives.
  \<^item> \<open>Promotion_Engine\<close> models \<open>promotions/promotion-engine.ts\<close>, \<open>Promotions\<close>
    \<open>promotions/promotions.service.ts\<close>; \<open>Promotion_Bounds\<close> and \<open>Promotion_Capacity\<close> hold their lemmas.
  \<^item> \<open>Door_Pricing\<close> models \<open>custom-door-orders/door-pricing.ts\<close> and \<open>door-manufacturing.ts\<close>,
    \<open>Door_Price_Facts\<close> its lemmas.
  \<^item> \<open>Market\<close> and \<open>Shop_State\<close> are the state the order services share; \<open>Cart\<close>, \<open>Checkout\<close>,
    \<open>Order_Commands\<close>, \<open>Payments\<close>, \<open>Refunds\<close> and \<open>Fulfillment\<close> model the services of \<open>orders\<close> and
    \<open>payments\<close> with the same names.
  \<^item> \<open>Books\<close> is the abstract specification of the shop: orders, payments, refunds, picks and shipments that
    move by the steps a shopkeeper would allow, with the invariants of these steps. \<open>Shop_Effects\<close>,
    \<open>Order_Effects\<close>, \<open>Payment_Effects\<close> and \<open>Checkout_Stock\<close> show that every operation is a sequence of such
    steps and keeps the stock ledger, the promotions and the carts; \<open>Shop_Commands\<close> composes them and
    interprets the transaction locales on all commands.
  \<^item> \<open>Order_Facts\<close> and \<open>Checkout_Facts\<close> say exactly what single commands do; \<open>Shop_Demo\<close> is the shop the
    witnesses run and \<open>Demo_Facts\<close> what it evaluates to; \<open>Pricing_Properties\<close>, \<open>Order_Properties\<close> and
    \<open>Sale_Properties\<close> state the properties.
  \<^item> \<open>Door_Orders\<close> models \<open>custom-door-orders/door-orders.service.ts\<close> and \<open>door-state.ts\<close>, \<open>Door_Facts\<close> proves
    that every command keeps what was agreed and interprets the transaction locale on them;
    \<open>Door_Properties\<close> states the properties.
  \<^item> \<open>Office\<close> is the state of the back office over the stock ledger and the idempotent command its services
    share (locale \<open>command_table\<close>, interpreted for both tables of records in \<open>Office_Facts\<close>); \<open>Purchasing\<close> models
    \<open>purchasing/purchasing.service.ts\<close>, \<open>Stocktake\<close> models \<open>stocktake/stocktake.service.ts\<close>;
    \<open>Purchasing_Facts\<close> and \<open>Stocktake_Facts\<close> prove that every command, those of the stock included, keeps
    receipts, sheets and the ledger in order; \<open>Office_Properties\<close> states the properties.
  \<^item> \<open>Credit\<close> models \<open>credit/credit.service.ts\<close> with the triggers of the credit migrations; \<open>Credit_Facts\<close> is the
    invariant of the books and what a posting keeps of it, \<open>Credit_Soundness\<close> and \<open>Credit_Reversals\<close> prove of
    every command that the triggers never refuse what it checked; \<open>Credit_Properties\<close> interprets the
    transaction locale on the commands and states the properties.

  \<^bold>\<open>Correspondence.\<close> A table is an association list from row numbers to records whose fields are the
  columns the code reads; \<open>next_row\<close> stands for the generated identifiers. Unique keys and foreign keys
  of \<open>schema.prisma\<close> that can fail are branches with the error code of Prisma. Money is \<open>int\<close> with the
  bounds the code checks; numbers of a request body are \<open>js_number\<close>. The current time is an argument.
  SHA-256, the normalization of coupon codes, the answer of the payment gateway, the address book and
  the existence of an invoice are arguments. The retry loop carries its bound of attempts; there is no
  other fuel.

  \<^bold>\<open>Not modelled.\<close> HTTP controllers, decorators, validation of request shapes, sessions and one-time
  passwords (they decide who calls, not what a call does); the workers that send the outbox; orders by
  staff, sales on credit and their returns, guest carts and invoices; the catalogue, media, blog and reports, which read or
  store documents; searches for things to choose from; the user interfaces; the PostgreSQL
  advisory locks, whose effect is that the steps of one order do not interleave.
\<close>

end
